(* ===== verification/Prelude.thy ===== *)
theory Prelude
  imports Main "HOL-Library.Word" "HOL-Library.List_Lexorder" "HOL-Library.Char_ord"
    "HOL-Library.Sublist"
begin

text \<open>
  Shared vocabulary of the development: the types the Rust code uses (bytes, machine
  integers, UTF-8 strings), the error values of \<^verbatim>\<open>anyhow\<close> and \<^verbatim>\<open>src/error.rs\<close>, the
  result combinators that stand for \<^verbatim>\<open>?\<close>, \<^verbatim>\<open>bail!\<close> and \<^verbatim>\<open>.context(..)\<close>, checked
  arithmetic, the string functions of the standard library the code calls, and a model of
  \<^verbatim>\<open>BTreeMap\<close>.

  A Rust \<^verbatim>\<open>String\<close> is a \<open>string\<close> whose characters are its UTF-8 bytes, so \<open>length\<close> is
  \<^verbatim>\<open>len()\<close>. A \<^verbatim>\<open>Vec<u8>\<close> is a \<open>bytes\<close>. \<^verbatim>\<open>u32\<close> and \<^verbatim>\<open>u64\<close> are words; a \<^verbatim>\<open>usize\<close> length is
  a \<open>nat\<close>.
\<close>

section \<open>Types\<close>

type_synonym byte = "8 word"
type_synonym bytes = "byte list"
type_synonym u32 = "32 word"
type_synonym u64 = "64 word"

named_theorems result_simps \<open>inversion of successful and failed results\<close>
named_theorems bytes_simps \<open>lengths and projections of encoded byte fields\<close>

section \<open>Errors\<close>

text \<open>
  The error types recovery classifies (\<^verbatim>\<open>src/error.rs\<close>), the ones the repository and the
  storage raise, I/O errors with their kind, and plain messages. Each is one cause.
\<close>

datatype io_kind =
  NotFound | InvalidData | InvalidInput | UnexpectedEof | AlreadyExists | PermissionDenied | OtherIo

datatype cause =
    Msg string
  | Io io_kind
  | ObjectUnavailable string string "io_kind option"
  | MissingStorageHead
  | Unsupported string
  | NotActiveReader
  | ForeignRepository
  | BudgetExhausted string
  | InvalidState
  | CasConflict "string option" "string option"
  | StorageOccupied string
  | ReadOnlyDevice
  | NonFastForward string
  | FetchFirst string
  | TagAlreadyExists string

text \<open>
  An \<^verbatim>\<open>anyhow::Error\<close> is a root cause under layers of context, outermost first.
  \<^verbatim>\<open>error.chain()\<close> yields the context layers, the root and the sources of the root. A
  context layer is a \<^verbatim>\<open>ContextError\<close> there, so a type test \<^verbatim>\<open>cause.is::<T>()\<close> on the chain
  sees the root and its sources only (\<open>has_cause\<close>), while \<^verbatim>\<open>error.is::<T>()\<close> and
  \<^verbatim>\<open>error.downcast_ref::<T>()\<close> see every context layer and the root, but not the sources
  (\<open>downcast\<close>).
\<close>

datatype error = Error (contexts: "cause list") (root: cause)

type_synonym 'a result = "error + 'a"

fun sources :: "cause \<Rightarrow> cause list" where
  "sources (ObjectUnavailable _ _ (Some k)) = [Io k]"
| "sources _ = []"

definition has_cause :: "(cause \<Rightarrow> bool) \<Rightarrow> error \<Rightarrow> bool" where
  "has_cause P e = list_ex P (root e # sources (root e))"

definition downcast :: "(cause \<Rightarrow> bool) \<Rightarrow> error \<Rightarrow> bool" where
  "downcast P e = list_ex P (contexts e @ [root e])"

definition context_of :: "cause \<Rightarrow> error \<Rightarrow> error" where
  "context_of c e = Error (c # contexts e) (root e)"

abbreviation err :: "cause \<Rightarrow> error" where
  "err c \<equiv> Error [] c"

fun is_Unsupported :: "cause \<Rightarrow> bool" where
  "is_Unsupported (Unsupported _) = True"
| "is_Unsupported _ = False"

fun is_BudgetExhausted :: "cause \<Rightarrow> bool" where
  "is_BudgetExhausted (BudgetExhausted _) = True"
| "is_BudgetExhausted _ = False"

fun is_ObjectUnavailable :: "cause \<Rightarrow> bool" where
  "is_ObjectUnavailable (ObjectUnavailable _ _ _) = True"
| "is_ObjectUnavailable _ = False"

fun is_CasConflict :: "cause \<Rightarrow> bool" where
  "is_CasConflict (CasConflict _ _) = True"
| "is_CasConflict _ = False"

fun is_StorageOccupied :: "cause \<Rightarrow> bool" where
  "is_StorageOccupied (StorageOccupied _) = True"
| "is_StorageOccupied _ = False"

lemma root_context_of [simp]: "root (context_of c e) = root e"
  by (simp add: context_of_def)

lemma has_cause_context_of [simp]: "has_cause P (context_of c e) = has_cause P e"
  by (simp add: has_cause_def)

lemma downcast_context_of [simp]: "downcast P (context_of c e) = (P c \<or> downcast P e)"
  by (simp add: downcast_def context_of_def)

lemma downcast_err [simp]: "downcast P (err c) = P c"
  by (simp add: downcast_def)

lemma has_cause_err: "has_cause P (err c) = (P c \<or> list_ex P (sources c))"
  by (simp add: has_cause_def)

section \<open>Results\<close>

text \<open>
  \<open>and_then\<close> is the \<^verbatim>\<open>?\<close> operator followed by the rest of the function, \<open>bail_if\<close> a guard
  \<^verbatim>\<open>if c { bail!(..) }\<close> followed by the rest, \<open>ok_or\<close> is \<^verbatim>\<open>Option::context\<close> and \<open>with_context\<close>
  is \<^verbatim>\<open>Result::context\<close>.
\<close>

definition and_then :: "'a result \<Rightarrow> ('a \<Rightarrow> 'b result) \<Rightarrow> 'b result" where
  "and_then r f = (case r of Inl e \<Rightarrow> Inl e | Inr x \<Rightarrow> f x)"

definition bail_if :: "bool \<Rightarrow> cause \<Rightarrow> 'b result \<Rightarrow> 'b result" where
  "bail_if c m k = (if c then Inl (err m) else k)"

definition ok_or :: "'a option \<Rightarrow> cause \<Rightarrow> 'a result" where
  "ok_or x m = (case x of None \<Rightarrow> Inl (err m) | Some y \<Rightarrow> Inr y)"

definition map_err :: "(error \<Rightarrow> error) \<Rightarrow> 'a result \<Rightarrow> 'a result" where
  "map_err f r = (case r of Inl e \<Rightarrow> Inl (f e) | Inr x \<Rightarrow> Inr x)"

abbreviation with_context :: "string \<Rightarrow> 'a result \<Rightarrow> 'a result" where
  "with_context m r \<equiv> map_err (context_of (Msg m)) r"

definition is_ok :: "'a result \<Rightarrow> bool" where
  "is_ok r = (case r of Inl _ \<Rightarrow> False | Inr _ \<Rightarrow> True)"

lemma and_then_Inr [simp]: "and_then (Inr x) f = f x"
  and and_then_Inl [simp]: "and_then (Inl e) f = Inl e"
  by (simp_all add: and_then_def)

lemma and_then_eq_Inr [result_simps]:
  "and_then r f = Inr y \<longleftrightarrow> (\<exists>x. r = Inr x \<and> f x = Inr y)"
  by (cases r) auto

lemma and_then_eq_Inl [result_simps]:
  "and_then r f = Inl e \<longleftrightarrow> r = Inl e \<or> (\<exists>x. r = Inr x \<and> f x = Inl e)"
  by (cases r) auto

lemma bail_if_True [simp]: "bail_if True m k = Inl (err m)"
  and bail_if_False [simp]: "bail_if False m k = k"
  by (simp_all add: bail_if_def)

lemma bail_if_eq_Inr [result_simps]: "bail_if c m k = Inr y \<longleftrightarrow> \<not> c \<and> k = Inr y"
  by (simp add: bail_if_def)

lemma bail_if_eq_Inl [result_simps]:
  "bail_if c m k = Inl e \<longleftrightarrow> c \<and> e = err m \<or> \<not> c \<and> k = Inl e"
  by (auto simp: bail_if_def)

lemma ok_or_simps [simp]: "ok_or (Some y) m = Inr y" "ok_or None m = Inl (err m)"
  by (simp_all add: ok_or_def)

lemma ok_or_eq_Inr [result_simps]: "ok_or x m = Inr y \<longleftrightarrow> x = Some y"
  by (cases x) auto

lemma map_err_simps [simp]: "map_err f (Inr x) = Inr x" "map_err f (Inl e) = Inl (f e)"
  by (simp_all add: map_err_def)

lemma map_err_eq_Inr [result_simps]: "map_err f r = Inr x \<longleftrightarrow> r = Inr x"
  by (cases r) auto

lemma map_err_eq_Inl [result_simps]: "map_err f r = Inl e \<longleftrightarrow> (\<exists>e'. r = Inl e' \<and> e = f e')"
  by (cases r) auto

lemma is_ok_simps [simp]: "is_ok (Inr x)" "\<not> is_ok (Inl e)"
  by (simp_all add: is_ok_def)

lemma is_ok_iff: "is_ok r \<longleftrightarrow> (\<exists>x. r = Inr x)"
  by (cases r) auto

lemma and_then_cong [fundef_cong]:
  assumes "r = r'" and "\<And>x. r' = Inr x \<Longrightarrow> f x = f' x"
  shows "and_then r f = and_then r' f'"
  using assms by (cases r') auto

lemma bail_if_cong [fundef_cong]:
  assumes "c = c'" and "\<not> c' \<Longrightarrow> k = k'"
  shows "bail_if c m k = bail_if c' m k'"
  using assms by (auto simp: bail_if_def)

section \<open>Checked arithmetic\<close>

text \<open>\<^verbatim>\<open>u64::checked_add\<close> and \<^verbatim>\<open>u64::checked_mul\<close>: \<open>None\<close> on overflow.\<close>

definition checked_add :: "u64 \<Rightarrow> u64 \<Rightarrow> u64 option" where
  "checked_add a b = (if unat a + unat b < 2 ^ 64 then Some (a + b) else None)"

definition checked_mul :: "u64 \<Rightarrow> u64 \<Rightarrow> u64 option" where
  "checked_mul a b = (if unat a * unat b < 2 ^ 64 then Some (a * b) else None)"

lemma checked_add_Some: "checked_add a b = Some c \<Longrightarrow> unat c = unat a + unat b"
  by (auto simp: checked_add_def unat_word_ariths split: if_splits)

lemma checked_mul_Some: "checked_mul a b = Some c \<Longrightarrow> unat c = unat a * unat b"
  by (auto simp: checked_mul_def unat_word_ariths split: if_splits)

lemma checked_add_1_Some: "checked_add a 1 = Some c \<longleftrightarrow> unat c = Suc (unat a)"
proof
  assume "checked_add a 1 = Some c"
  from checked_add_Some [OF this] show "unat c = Suc (unat a)" by simp
next
  assume c: "unat c = Suc (unat a)"
  moreover have "unat c < 2 ^ 64" using unsigned_less [where 'a = nat, of c] by simp
  ultimately have lt: "unat a + unat (1 :: u64) < 2 ^ 64" by simp
  then have "unat (a + 1) = unat c"
    using c by (simp add: unat_word_ariths)
  then have "a + 1 = c" by (simp only: unsigned_word_eqI)
  then show "checked_add a 1 = Some c" using lt by (simp add: checked_add_def)
qed

lemma checked_add_1_less: "checked_add a 1 = Some c \<Longrightarrow> a < c"
  by (simp add: checked_add_1_Some word_less_nat_alt)

section \<open>Byte encodings\<close>

text \<open>\<^verbatim>\<open>as_bytes\<close> of a string, and \<^verbatim>\<open>to_le_bytes\<close> of a \<^verbatim>\<open>u32\<close> and a \<^verbatim>\<open>u64\<close>.\<close>

definition as_bytes :: "string \<Rightarrow> bytes" where
  "as_bytes s = map of_char s"

primrec le_bytes :: "nat \<Rightarrow> nat \<Rightarrow> bytes" where
  "le_bytes 0 n = []"
| "le_bytes (Suc k) n = of_nat (n mod 256) # le_bytes k (n div 256)"

definition u32_to_le_bytes :: "u32 \<Rightarrow> bytes" where
  "u32_to_le_bytes w = le_bytes 4 (unat w)"

definition u64_to_le_bytes :: "u64 \<Rightarrow> bytes" where
  "u64_to_le_bytes w = le_bytes 8 (unat w)"

primrec le_value :: "bytes \<Rightarrow> nat" where
  "le_value [] = 0"
| "le_value (b # bs) = unat b + 256 * le_value bs"

lemma length_le_bytes [simp, bytes_simps]: "length (le_bytes k n) = k"
  by (induction k arbitrary: n) simp_all

lemma le_value_le_bytes: "n < 256 ^ k \<Longrightarrow> le_value (le_bytes k n) = n"
proof (induction k arbitrary: n)
  case 0
  then show ?case by simp
next
  case (Suc k)
  then have "n div 256 < 256 ^ k" by (simp add: div_less_iff_less_mult mult.commute)
  with Suc.IH have "le_value (le_bytes k (n div 256)) = n div 256" by simp
  moreover have "unat (of_nat (n mod 256) :: byte) = n mod 256"
    by (simp add: unat_of_nat)
  ultimately show ?case by (simp add: mult.commute)
qed

lemma le_bytes_inject: "m < 256 ^ k \<Longrightarrow> n < 256 ^ k \<Longrightarrow> le_bytes k m = le_bytes k n \<Longrightarrow> m = n"
  by (metis le_value_le_bytes)

lemma length_u32_to_le_bytes [simp, bytes_simps]: "length (u32_to_le_bytes v) = 4"
  and length_u64_to_le_bytes [simp, bytes_simps]: "length (u64_to_le_bytes w) = 8"
  by (simp_all add: u32_to_le_bytes_def u64_to_le_bytes_def)

lemma u64_to_le_bytes_inject [simp]: "u64_to_le_bytes v = u64_to_le_bytes w \<longleftrightarrow> v = w"
proof
  assume eq: "u64_to_le_bytes v = u64_to_le_bytes w"
  have "unat v < 256 ^ 8" "unat w < 256 ^ 8"
    using unsigned_less [where 'a = nat, of v] unsigned_less [where 'a = nat, of w] by simp_all
  then have "unat v = unat w"
    using eq by (metis le_bytes_inject u64_to_le_bytes_def)
  then show "v = w" by (simp only: unsigned_word_eqI)
qed simp

lemma u32_to_le_bytes_inject [simp]: "u32_to_le_bytes v = u32_to_le_bytes w \<longleftrightarrow> v = w"
proof
  assume eq: "u32_to_le_bytes v = u32_to_le_bytes w"
  have "unat v < 256 ^ 4" "unat w < 256 ^ 4"
    using unsigned_less [where 'a = nat, of v] unsigned_less [where 'a = nat, of w] by simp_all
  then have "unat v = unat w"
    using eq by (metis le_bytes_inject u32_to_le_bytes_def)
  then show "v = w" by (simp only: unsigned_word_eqI)
qed simp

lemma length_as_bytes [simp, bytes_simps]: "length (as_bytes s) = length s"
  by (simp add: as_bytes_def)

lemma unat_of_char_byte: "unat (of_char c :: byte) = of_char c"
proof -
  have "(of_char c :: byte) = of_nat (of_char c)" by (simp only: of_nat_of_char)
  moreover have "of_char c < (256 :: nat)" by (rule nat_of_char_less_256)
  ultimately show ?thesis by (simp only: unat_of_nat) simp
qed

lemma of_char_byte_inject: "(of_char c :: byte) = of_char d \<longleftrightarrow> c = d"
proof
  assume "(of_char c :: byte) = of_char d"
  then have "unat (of_char c :: byte) = unat (of_char d :: byte)" by simp
  then show "c = d" by (simp add: unat_of_char_byte)
qed simp

lemma as_bytes_inject [simp]: "as_bytes s = as_bytes t \<longleftrightarrow> s = t"
  unfolding as_bytes_def using of_char_byte_inject by (simp add: inj_def inj_map_eq_map)

end
