(* ===== verification/Rust_Strings.thy ===== *)
theory Rust_Strings
  imports Prelude
begin

text \<open>
  The string functions of the Rust standard library that the repository calls:
  \<^verbatim>\<open>starts_with\<close>, \<^verbatim>\<open>ends_with\<close>, \<^verbatim>\<open>strip_prefix\<close>, \<^verbatim>\<open>split\<close>, \<^verbatim>\<open>split_once\<close>, \<^verbatim>\<open>rsplit_once\<close>, \<^verbatim>\<open>chars\<close>,
  \<^verbatim>\<open>trim\<close> and decimal formatting. Strings are UTF-8, so the functions that look at characters
  first cut the byte string into the encodings of its scalar values.
\<close>

section \<open>Prefixes, suffixes and splitting\<close>

definition starts_with :: "string \<Rightarrow> string \<Rightarrow> bool" where
  "starts_with s p = (take (length p) s = p)"

definition ends_with :: "string \<Rightarrow> string \<Rightarrow> bool" where
  "ends_with s p = starts_with (rev s) (rev p)"

definition strip_prefix :: "string \<Rightarrow> string \<Rightarrow> string option" where
  "strip_prefix s p = (if starts_with s p then Some (drop (length p) s) else None)"

text \<open>\<^verbatim>\<open>split\<close> on one character: always at least one piece, empty pieces kept.\<close>

fun split_on :: "'a \<Rightarrow> 'a list \<Rightarrow> 'a list list" where
  "split_on c [] = [[]]"
| "split_on c (x # xs) =
     (if x = c then [] # split_on c xs
      else case split_on c xs of [] \<Rightarrow> [[x]] | p # ps \<Rightarrow> (x # p) # ps)"

fun split_once :: "char \<Rightarrow> string \<Rightarrow> (string \<times> string) option" where
  "split_once c [] = None"
| "split_once c (x # xs) =
     (if x = c then Some ([], xs)
      else map_option (\<lambda>(a, b). (x # a, b)) (split_once c xs))"

definition rsplit_once :: "char \<Rightarrow> string \<Rightarrow> (string \<times> string) option" where
  "rsplit_once c s = map_option (\<lambda>(a, b). (rev b, rev a)) (split_once c (rev s))"

lemma starts_with_iff: "starts_with s p \<longleftrightarrow> (\<exists>r. s = p @ r)"
  unfolding starts_with_def by (metis append_eq_conv_conj append_take_drop_id)

lemma starts_with_append [simp]: "starts_with (p @ r) p"
  by (auto simp: starts_with_iff)

lemma ends_with_iff: "ends_with s p \<longleftrightarrow> (\<exists>r. s = r @ p)"
proof -
  have "(\<exists>r. rev s = rev p @ r) \<longleftrightarrow> (\<exists>r. s = r @ p)"
    by (metis rev_append rev_rev_ident)
  then show ?thesis by (simp add: ends_with_def starts_with_iff)
qed

lemma strip_prefix_Some: "strip_prefix s p = Some r \<longleftrightarrow> s = p @ r"
  by (auto simp: strip_prefix_def starts_with_iff)

lemma strip_prefix_None: "strip_prefix s p = None \<longleftrightarrow> (\<nexists>r. s = p @ r)"
  by (auto simp: strip_prefix_def starts_with_iff)

lemma strip_prefix_append [simp]: "strip_prefix (p @ r) p = Some r"
  by (simp add: strip_prefix_Some)

lemma split_on_not_Nil [simp]: "split_on c xs \<noteq> []"
  by (induction xs) (auto split: list.splits)

lemma split_on_no_sep: "p \<in> set (split_on c xs) \<Longrightarrow> c \<notin> set p"
  by (induction xs arbitrary: p) (auto split: list.splits if_splits)

lemma split_on_absent: "c \<notin> set xs \<Longrightarrow> split_on c xs = [xs]"
  by (induction xs) auto

lemma split_on_append:
  assumes "c \<notin> set p"
  shows "split_on c (p @ c # xs) = p # split_on c xs"
  using assms by (induction p) auto

lemma split_once_Some: "split_once c s = Some (a, b) \<longleftrightarrow> s = a @ c # b \<and> c \<notin> set a"
proof (induction s arbitrary: a)
  case Nil
  then show ?case by simp
next
  case (Cons x xs)
  show ?case
  proof (cases a)
    case Nil
    then show ?thesis by auto
  next
    case (Cons y ys)
    then show ?thesis using Cons.IH [of ys] by auto
  qed
qed

lemma split_once_None: "split_once c s = None \<longleftrightarrow> c \<notin> set s"
  by (induction s) auto

lemma rsplit_once_Some: "rsplit_once c s = Some (a, b) \<longleftrightarrow> s = a @ c # b \<and> c \<notin> set b"
proof -
  have "rsplit_once c s = Some (a, b) \<longleftrightarrow> split_once c (rev s) = Some (rev b, rev a)"
    by (auto simp: rsplit_once_def)
  also have "\<dots> \<longleftrightarrow> rev s = rev b @ c # rev a \<and> c \<notin> set b"
    by (simp add: split_once_Some)
  also have "rev s = rev b @ c # rev a \<longleftrightarrow> s = a @ c # b"
    by (metis append.assoc append_Cons append_Nil rev.simps(2) rev_append rev_rev_ident)
  finally show ?thesis .
qed

lemma rsplit_once_None: "rsplit_once c s = None \<longleftrightarrow> c \<notin> set s"
  by (auto simp: rsplit_once_def split_once_None)

section \<open>UTF-8 characters\<close>

definition char_width :: "char \<Rightarrow> nat" where
  "char_width lead = (let n = of_char lead in
     if n < (128 :: nat) then 1 else if n < 224 then 2 else if n < 240 then 3 else 4)"

function utf8_slices :: "string \<Rightarrow> string list" where
  "utf8_slices [] = []"
| "utf8_slices (c # cs) =
     (c # take (char_width c - 1) cs) # utf8_slices (drop (char_width c - 1) cs)"
  by pat_completeness auto
termination by (relation "measure length") auto

text \<open>The scalar value one encoding stands for.\<close>

definition code_point :: "string \<Rightarrow> nat" where
  "code_point s = (case map of_char s of
     [] \<Rightarrow> 0
   | b # bs \<Rightarrow> foldl (\<lambda>acc x. acc * 64 + x mod 64)
       (if b < 128 then b else if b < 224 then b mod 32 else if b < 240 then b mod 16 else b mod 8) bs)"

definition chars :: "string \<Rightarrow> nat list" where
  "chars s = map code_point (utf8_slices s)"

text \<open>\<^verbatim>\<open>char::is_whitespace\<close> (Unicode \<^verbatim>\<open>White_Space\<close>) and \<^verbatim>\<open>char::is_control\<close> (category Cc).\<close>

definition is_whitespace :: "nat \<Rightarrow> bool" where
  "is_whitespace n = (9 \<le> n \<and> n \<le> 13 \<or> n = 32 \<or> n = 133 \<or> n = 160 \<or> n = 5760
     \<or> 8192 \<le> n \<and> n \<le> 8202 \<or> n = 8232 \<or> n = 8233 \<or> n = 8239 \<or> n = 8287 \<or> n = 12288)"

definition is_control :: "nat \<Rightarrow> bool" where
  "is_control n = (n \<le> 31 \<or> 127 \<le> n \<and> n \<le> 159)"

definition trim :: "string \<Rightarrow> string" where
  "trim s = (let ws = (\<lambda>x. is_whitespace (code_point x)) in
     concat (rev (dropWhile ws (rev (dropWhile ws (utf8_slices s))))))"

lemma concat_utf8_slices [simp]: "concat (utf8_slices s) = s"
  by (induction s rule: utf8_slices.induct) auto

lemma ascii_slices: "\<forall>c \<in> set s. of_char c < (128 :: nat) \<Longrightarrow> utf8_slices s = map (\<lambda>c. [c]) s"
  by (induction s) (auto simp: char_width_def)

lemma code_point_ascii: "of_char c < (128 :: nat) \<Longrightarrow> code_point [c] = of_char c"
  by (simp add: code_point_def)

text \<open>A string without whitespace at either end is its own \<^verbatim>\<open>trim\<close>; a final newline is dropped.\<close>

lemma trim_ascii_newline:
  assumes ascii: "\<forall>c \<in> set s. of_char c < (128 :: nat)"
    and clean: "\<forall>c \<in> set s. \<not> is_whitespace (of_char c)"
  shows "trim (s @ [CHR 0x0A]) = s" and "trim s = s"
proof -
  let ?ws = "\<lambda>x. is_whitespace (code_point x)"
  have slice: "utf8_slices s = map (\<lambda>c. [c]) s" using ascii by (rule ascii_slices)
  have slice_nl: "utf8_slices (s @ [CHR 0x0A]) = map (\<lambda>c. [c]) s @ [[CHR 0x0A]]"
    using ascii_slices [of "s @ [CHR 0x0A]"] ascii by simp
  have nows: "\<forall>x \<in> set (map (\<lambda>c. [c]) s). \<not> ?ws x"
    using ascii clean by (auto simp: code_point_ascii)
  have keep: "dropWhile ?ws xs = xs" if "\<forall>x \<in> set xs. \<not> ?ws x" for xs
    using that by (cases xs) auto
  have nl: "?ws [CHR 0x0A]" by (simp add: code_point_def is_whitespace_def)
  have cat: "concat (map (\<lambda>c. [c]) s) = s" by (induction s) auto
  show "trim s = s"
    using nows by (simp add: trim_def Let_def slice keep cat)
  have "dropWhile ?ws (map (\<lambda>c. [c]) s @ [[CHR 0x0A]])
      = (if s = [] then [] else map (\<lambda>c. [c]) s @ [[CHR 0x0A]])"
    using nows nl by (cases s) auto
  then show "trim (s @ [CHR 0x0A]) = s"
    using nows nl by (auto simp: trim_def Let_def slice_nl keep cat rev_map)
qed

text \<open>\<^verbatim>\<open>str::from_utf8\<close>: the well-formed byte sequences of the Unicode standard, table 3-7.\<close>

definition is_continuation :: "nat \<Rightarrow> bool" where
  "is_continuation b = (128 \<le> b \<and> b < 192)"

fun utf8_bytes_ok :: "nat list \<Rightarrow> bool" where
  "utf8_bytes_ok [] = True"
| "utf8_bytes_ok (a # r1) =
     (if a < 128 then utf8_bytes_ok r1
      else case r1 of [] \<Rightarrow> False | b # r2 \<Rightarrow>
      if 0xC2 \<le> a \<and> a \<le> 0xDF then is_continuation b \<and> utf8_bytes_ok r2
      else case r2 of [] \<Rightarrow> False | c # r3 \<Rightarrow>
      if 0xE0 \<le> a \<and> a \<le> 0xEF then
        (if a = 0xE0 then 0xA0 \<le> b \<and> b \<le> 0xBF
         else if a = 0xED then 0x80 \<le> b \<and> b \<le> 0x9F else is_continuation b)
        \<and> is_continuation c \<and> utf8_bytes_ok r3
      else case r3 of [] \<Rightarrow> False | d # r4 \<Rightarrow>
        0xF0 \<le> a \<and> a \<le> 0xF4 \<and>
        (if a = 0xF0 then 0x90 \<le> b \<and> b \<le> 0xBF
         else if a = 0xF4 then 0x80 \<le> b \<and> b \<le> 0x8F else is_continuation b)
        \<and> is_continuation c \<and> is_continuation d \<and> utf8_bytes_ok r4)"

definition from_utf8 :: "bytes \<Rightarrow> string option" where
  "from_utf8 b = (if utf8_bytes_ok (map unat b) then Some (map (\<lambda>w. char_of (unat w)) b) else None)"

lemma utf8_bytes_ok_ascii: "\<forall>a \<in> set bs. a < 128 \<Longrightarrow> utf8_bytes_ok bs"
  by (induction bs) auto

lemma from_utf8_as_bytes: "\<forall>c \<in> set s. of_char c < (128 :: nat) \<Longrightarrow> from_utf8 (as_bytes s) = Some s"
  by (auto simp: from_utf8_def as_bytes_def comp_def unat_of_char_byte intro!: utf8_bytes_ok_ascii)

section \<open>Formatting\<close>

text \<open>\<^verbatim>\<open>{}\<close> of an unsigned integer, and \<^verbatim>\<open>{index:08}\<close>.\<close>

definition digit :: "nat \<Rightarrow> char" where
  "digit n = char_of (48 + n mod 10)"

fun show_nat :: "nat \<Rightarrow> string" where
  "show_nat n = (if n < 10 then [digit n] else show_nat (n div 10) @ [digit n])"

declare show_nat.simps [simp del]

definition pad8 :: "nat \<Rightarrow> string" where
  "pad8 n = (let s = show_nat n in replicate (8 - length s) (CHR ''0'') @ s)"

end
