(* ===== verification/Crypto.thy ===== *)
theory Crypto
  imports Rust_Strings
begin

text \<open>
  \<^verbatim>\<open>src/crypto.rs\<close> up to the pack stream: key files, public devices, domain-separated
  signatures, wrapping of generation keys, key commitments, subkey derivation and the
  symmetric envelope. The cryptographic, encoding and JSON crates are not part of the
  repository; every function of theirs that the code calls is a field of the record \<open>prims\<close>,
  which each definition takes as its first argument. Later theories extend the record with the
  JSON codecs of their own types. What the code relies on is stated by the predicates of the
  last section and named as a hypothesis where a property needs it. Randomness is an argument.
\<close>

section \<open>The primitives the code calls\<close>

record key_file =
  kf_format_version :: u32
  kf_repository_root :: string
  kf_signing_private_key :: string
  kf_wrapping_private_key :: string

record public_device =
  pd_repository_root :: string
  pd_device_id :: string
  pd_signing_public_key :: string
  pd_wrapping_public_key :: string

text \<open>
  \<^verbatim>\<open>sha2\<close>, \<^verbatim>\<open>hex\<close>, \<^verbatim>\<open>base64\<close>, \<^verbatim>\<open>ed25519_dalek\<close>, \<^verbatim>\<open>hpke\<close>, \<^verbatim>\<open>rand_chacha\<close>, \<^verbatim>\<open>hkdf\<close>,
  \<^verbatim>\<open>chacha20poly1305\<close>, \<^verbatim>\<open>aead_stream\<close> and \<^verbatim>\<open>serde_json\<close>. A generator state is a \<open>bytes\<close>.
\<close>

record prims =
  sha256 :: "bytes \<Rightarrow> bytes"
  hex_encode :: "bytes \<Rightarrow> string"
  hex_decode :: "string \<Rightarrow> bytes option"
  b64_encode :: "bytes \<Rightarrow> string"
  b64_decode :: "string \<Rightarrow> bytes option"
  ed_verifying_key :: "bytes \<Rightarrow> bytes"
  ed_sign :: "bytes \<Rightarrow> bytes \<Rightarrow> bytes"
  ed_public_ok :: "bytes \<Rightarrow> bool"
  ed_signature_ok :: "bytes \<Rightarrow> bool"
  ed_verify_strict :: "bytes \<Rightarrow> bytes \<Rightarrow> bytes \<Rightarrow> bool"
  kem_private_ok :: "bytes \<Rightarrow> bool"
  kem_public_ok :: "bytes \<Rightarrow> bool"
  kem_encapped_ok :: "bytes \<Rightarrow> bool"
  kem_sk_to_pk :: "bytes \<Rightarrow> bytes"
  kem_gen_keypair :: "bytes \<Rightarrow> (bytes \<times> bytes) \<times> bytes"
  chacha_rng :: "bytes \<Rightarrow> bytes"
  hpke_seal :: "bytes \<Rightarrow> bytes \<Rightarrow> bytes \<Rightarrow> bytes \<Rightarrow> bytes \<Rightarrow> (bytes \<times> bytes) option"
  hpke_open :: "bytes \<Rightarrow> bytes \<Rightarrow> bytes \<Rightarrow> bytes \<Rightarrow> bytes \<Rightarrow> bytes option"
  hkdf_expand :: "bytes \<Rightarrow> bytes \<Rightarrow> bytes \<Rightarrow> bytes option"
  xchacha_encrypt :: "bytes \<Rightarrow> bytes \<Rightarrow> bytes \<Rightarrow> bytes \<Rightarrow> bytes option"
  xchacha_decrypt :: "bytes \<Rightarrow> bytes \<Rightarrow> bytes \<Rightarrow> bytes \<Rightarrow> bytes option"
  stream_encrypt :: "bytes \<Rightarrow> bytes \<Rightarrow> nat \<Rightarrow> bool \<Rightarrow> bytes \<Rightarrow> bytes \<Rightarrow> bytes option"
  stream_decrypt :: "bytes \<Rightarrow> bytes \<Rightarrow> nat \<Rightarrow> bool \<Rightarrow> bytes \<Rightarrow> bytes \<Rightarrow> bytes option"
  key_file_to_vec :: "key_file \<Rightarrow> bytes"
  key_file_of_slice :: "bytes \<Rightarrow> key_file option"
  public_device_to_vec :: "public_device \<Rightarrow> bytes"
  public_device_of_slice :: "bytes \<Rightarrow> public_device option"

section \<open>Constants\<close>

definition format_version_text :: string where
  "format_version_text = ''6''"

definition FORMAT_VERSION :: u32 where
  "FORMAT_VERSION = 6"

text \<open>\<^verbatim>\<open>domain!(purpose)\<close>: \<^verbatim>\<open>git-remote-e2ee <purpose> v<format>\0\<close>.\<close>

definition domain :: "string \<Rightarrow> bytes" where
  "domain purpose =
     as_bytes (''git-remote-e2ee '' @ purpose @ '' v'' @ format_version_text @ [CHR 0x00])"

definition SYMMETRIC_MAGIC :: bytes where
  "SYMMETRIC_MAGIC = as_bytes (''E2EES0'' @ format_version_text @ [CHR 0x00])"

definition HPKE_INFO :: bytes where
  "HPKE_INFO = as_bytes (''git-remote-e2ee generation key v'' @ format_version_text)"

definition KEY_COMMITMENT_DOMAIN :: bytes where
  "KEY_COMMITMENT_DOMAIN = domain ''generation key commitment''"

definition SUBKEY_SALT :: bytes where
  "SUBKEY_SALT = domain ''subkey derivation''"

definition HPKE_ENCAPSULATED_KEY_SIZE :: nat where
  "HPKE_ENCAPSULATED_KEY_SIZE = 32"

definition HPKE_CIPHERTEXT_SIZE :: nat where
  "HPKE_CIPHERTEXT_SIZE = 32 + 16"

datatype subkey_kind = ManifestBodyKey | PackKey | PredecessorLinkKey | SealedHeaderKey

fun subkey_kind_code :: "subkey_kind \<Rightarrow> byte" where
  "subkey_kind_code ManifestBodyKey = 1"
| "subkey_kind_code PackKey = 2"
| "subkey_kind_code PredecessorLinkKey = 3"
| "subkey_kind_code SealedHeaderKey = 4"

section \<open>Identifiers\<close>

definition b64 :: "'a prims_scheme \<Rightarrow> string \<Rightarrow> bytes result" where
  "b64 P s = ok_or (b64_decode P s) (Msg ''invalid base64'')"

definition object_id :: "'a prims_scheme \<Rightarrow> bytes \<Rightarrow> string" where
  "object_id P b = hex_encode P (sha256 P b)"

definition is_lower_hex :: "char \<Rightarrow> bool" where
  "is_lower_hex c = (CHR ''0'' \<le> c \<and> c \<le> CHR ''9'' \<or> CHR ''a'' \<le> c \<and> c \<le> CHR ''f'')"

definition validate_root :: "string \<Rightarrow> unit result" where
  "validate_root r =
     bail_if (length r \<noteq> 64 \<or> \<not> list_all is_lower_hex r)
       (Msg ''repository root must be a 32-byte lowercase hexadecimal value'') (Inr ())"

definition repository_root_for_public_keys :: "'a prims_scheme \<Rightarrow> bytes \<Rightarrow> bytes \<Rightarrow> string" where
  "repository_root_for_public_keys P signing wrapping =
     hex_encode P (sha256 P
       (as_bytes (''git-remote-e2ee repository root v2'' @ [CHR 0x00]) @ signing @ wrapping))"

definition device_id_for_public_keys :: "'a prims_scheme \<Rightarrow> bytes \<Rightarrow> bytes \<Rightarrow> string" where
  "device_id_for_public_keys P signing wrapping =
     hex_encode P (sha256 P
       (as_bytes (''git-remote-e2ee device id v3'' @ [CHR 0x00]) @ signing @ wrapping))"

definition decode_public_key :: "'a prims_scheme \<Rightarrow> string \<Rightarrow> bytes result" where
  "decode_public_key P v =
     and_then (b64 P v) (\<lambda>key.
     bail_if (length key \<noteq> 32) (Msg ''invalid public key length'') (Inr key))"

definition validate_public_device :: "'a prims_scheme \<Rightarrow> public_device \<Rightarrow> unit result" where
  "validate_public_device P d =
     and_then (validate_root (pd_repository_root d)) (\<lambda>_.
     and_then (decode_public_key P (pd_signing_public_key d)) (\<lambda>signing.
     and_then (decode_public_key P (pd_wrapping_public_key d)) (\<lambda>wrapping.
     bail_if (pd_device_id d \<noteq> device_id_for_public_keys P signing wrapping)
       (Msg ''device id does not match its public keys'') (Inr ()))))"

definition repository_root_for_device :: "'a prims_scheme \<Rightarrow> public_device \<Rightarrow> string result" where
  "repository_root_for_device P d =
     and_then (decode_public_key P (pd_signing_public_key d)) (\<lambda>signing.
     and_then (decode_public_key P (pd_wrapping_public_key d)) (\<lambda>wrapping.
     Inr (repository_root_for_public_keys P signing wrapping)))"

section \<open>Key files\<close>

definition signing_key :: "'a prims_scheme \<Rightarrow> key_file \<Rightarrow> bytes result" where
  "signing_key P k =
     and_then (b64 P (kf_signing_private_key k)) (\<lambda>b.
     bail_if (length b \<noteq> 32) (Msg ''invalid signing key length'') (Inr b))"

definition wrapping_private_key :: "'a prims_scheme \<Rightarrow> key_file \<Rightarrow> bytes result" where
  "wrapping_private_key P k =
     and_then (b64 P (kf_wrapping_private_key k)) (\<lambda>b.
     bail_if (\<not> kem_private_ok P b) (Msg ''invalid HPKE private key'') (Inr b))"

text \<open>\<open>signing\<close> and \<open>wrapping\<close> are the freshly generated Ed25519 and X25519 secrets.\<close>

definition key_file_generate :: "'a prims_scheme \<Rightarrow> bytes \<Rightarrow> bytes \<Rightarrow> key_file" where
  "key_file_generate P signing wrapping =
     \<lparr>kf_format_version = 3,
      kf_repository_root =
        repository_root_for_public_keys P (ed_verifying_key P signing) (kem_sk_to_pk P wrapping),
      kf_signing_private_key = b64_encode P signing,
      kf_wrapping_private_key = b64_encode P wrapping\<rparr>"

definition generate_for_repository ::
    "'a prims_scheme \<Rightarrow> string \<Rightarrow> bytes \<Rightarrow> bytes \<Rightarrow> key_file result" where
  "generate_for_repository P repository_root signing wrapping =
     and_then (validate_root repository_root) (\<lambda>_.
     Inr \<lparr>kf_format_version = 3, kf_repository_root = repository_root,
      kf_signing_private_key = b64_encode P signing,
      kf_wrapping_private_key = b64_encode P wrapping\<rparr>)"

text \<open>The key file's path is opened with \<^verbatim>\<open>create_new\<close>: an existing file is never replaced.\<close>

definition key_file_write_new ::
    "'a prims_scheme \<Rightarrow> key_file \<Rightarrow> string \<Rightarrow> (string \<rightharpoonup> bytes) \<Rightarrow> (string \<rightharpoonup> bytes) result" where
  "key_file_write_new P k path fs =
     (if fs path \<noteq> None then Inl (context_of (Msg (''create key file '' @ path)) (err (Io AlreadyExists)))
      else Inr (fs(path \<mapsto> key_file_to_vec P k)))"

definition key_file_read :: "'a prims_scheme \<Rightarrow> string \<Rightarrow> (string \<rightharpoonup> bytes) \<Rightarrow> key_file result" where
  "key_file_read P path fs =
     and_then (with_context (''read key file '' @ path) (ok_or (fs path) (Io NotFound))) (\<lambda>contents.
     and_then (with_context ''parse key file'' (ok_or (key_file_of_slice P contents) (Msg ''invalid JSON''))) (\<lambda>k.
     bail_if (kf_format_version k \<noteq> 3)
       (Unsupported (''unsupported key file format '' @ show_nat (unat (kf_format_version k)))) (
     and_then (validate_root (kf_repository_root k)) (\<lambda>_.
     and_then (signing_key P k) (\<lambda>_.
     and_then (wrapping_private_key P k) (\<lambda>_.
     Inr k))))))"

definition key_public_device :: "'a prims_scheme \<Rightarrow> key_file \<Rightarrow> public_device result" where
  "key_public_device P k =
     and_then (signing_key P k) (\<lambda>signing.
     and_then (wrapping_private_key P k) (\<lambda>wrapping.
     let signing_public = ed_verifying_key P signing;
         wrapping_public = kem_sk_to_pk P wrapping
     in Inr \<lparr>pd_repository_root = kf_repository_root k,
             pd_device_id = device_id_for_public_keys P signing_public wrapping_public,
             pd_signing_public_key = b64_encode P signing_public,
             pd_wrapping_public_key = b64_encode P wrapping_public\<rparr>))"

definition key_device_id :: "'a prims_scheme \<Rightarrow> key_file \<Rightarrow> string result" where
  "key_device_id P k = and_then (key_public_device P k) (\<lambda>d. Inr (pd_device_id d))"

definition public_device_write_new ::
    "'a prims_scheme \<Rightarrow> public_device \<Rightarrow> string \<Rightarrow> (string \<rightharpoonup> bytes) \<Rightarrow> (string \<rightharpoonup> bytes) result" where
  "public_device_write_new P d path fs =
     and_then (validate_public_device P d) (\<lambda>_.
     if fs path \<noteq> None
     then Inl (context_of (Msg (''create public device file '' @ path)) (err (Io AlreadyExists)))
     else Inr (fs(path \<mapsto> public_device_to_vec P d)))"

definition public_device_read ::
    "'a prims_scheme \<Rightarrow> string \<Rightarrow> (string \<rightharpoonup> bytes) \<Rightarrow> public_device result" where
  "public_device_read P path fs =
     and_then (with_context (''read public device file '' @ path) (ok_or (fs path) (Io NotFound))) (\<lambda>contents.
     and_then (with_context ''parse public device file''
       (ok_or (public_device_of_slice P contents) (Msg ''invalid JSON''))) (\<lambda>d.
     and_then (validate_public_device P d) (\<lambda>_. Inr d)))"

section \<open>Signatures\<close>

definition domain_message :: "'a prims_scheme \<Rightarrow> bytes \<Rightarrow> bytes \<Rightarrow> bytes" where
  "domain_message P tag exact = tag @ sha256 P exact"

definition sign_domain :: "'a prims_scheme \<Rightarrow> key_file \<Rightarrow> bytes \<Rightarrow> bytes \<Rightarrow> bytes result" where
  "sign_domain P k tag exact =
     and_then (signing_key P k) (\<lambda>sk. Inr (ed_sign P sk (domain_message P tag exact)))"

definition verify_domain :: "'a prims_scheme \<Rightarrow> string \<Rightarrow> bytes \<Rightarrow> bytes \<Rightarrow> bytes \<Rightarrow> unit result" where
  "verify_domain P public_key tag exact signature =
     and_then (b64 P public_key) (\<lambda>public.
     bail_if (length public \<noteq> 32) (Msg ''invalid Ed25519 public key length'') (
     bail_if (\<not> ed_public_ok P public) (Msg ''signature error'') (
     and_then (with_context ''invalid Ed25519 signature''
       (if ed_signature_ok P signature then Inr () else Inl (err (Msg ''signature error'')))) (\<lambda>_.
     with_context ''signature verification failed''
       (if ed_verify_strict P public (domain_message P tag exact) signature then Inr ()
        else Inl (err (Msg ''signature error'')))))))"

section \<open>Generation keys\<close>

definition key_unwrap_generation_key ::
    "'a prims_scheme \<Rightarrow> key_file \<Rightarrow> bytes \<Rightarrow> bytes \<Rightarrow> bytes \<Rightarrow> bytes result" where
  "key_unwrap_generation_key P k encapsulated ciphertext aad =
     bail_if (\<not> kem_encapped_ok P encapsulated) (Msg ''invalid HPKE encapsulated key'') (
     and_then (wrapping_private_key P k) (\<lambda>private.
     and_then (ok_or (hpke_open P private encapsulated HPKE_INFO ciphertext aad)
       (Msg ''device is not able to unwrap the generation key'')) (\<lambda>plaintext.
     bail_if (length plaintext \<noteq> 32) (Msg ''invalid generation key length'') (
     Inr plaintext))))"

definition wrap_generation_key_with_seed ::
    "'a prims_scheme \<Rightarrow> string \<Rightarrow> bytes \<Rightarrow> bytes \<Rightarrow> bytes \<Rightarrow> (bytes \<times> bytes) result" where
  "wrap_generation_key_with_seed P public_key generation_key aad seed =
     and_then (b64 P public_key) (\<lambda>public.
     bail_if (\<not> kem_public_ok P public) (Msg ''invalid HPKE public key'') (
     ok_or (hpke_seal P public HPKE_INFO generation_key aad (chacha_rng P seed))
       (Msg ''HPKE generation-key wrapping failed'')))"

text \<open>\<open>seed\<close>, \<open>key\<close> and \<open>aad\<close> are the three random values the function draws.\<close>

definition dummy_generation_envelope ::
    "'a prims_scheme \<Rightarrow> bytes \<Rightarrow> bytes \<Rightarrow> bytes \<Rightarrow> (bytes \<times> bytes) result" where
  "dummy_generation_envelope P seed key aad =
     (case kem_gen_keypair P (chacha_rng P seed) of ((_, public), rng) \<Rightarrow>
        ok_or (hpke_seal P public HPKE_INFO key aad rng) (Msg ''HPKE dummy envelope sealing failed''))"

definition commit_key :: "'a prims_scheme \<Rightarrow> bytes \<Rightarrow> string" where
  "commit_key P key = hex_encode P (sha256 P (KEY_COMMITMENT_DOMAIN @ key))"

definition verify_key_commitment :: "'a prims_scheme \<Rightarrow> bytes \<Rightarrow> string \<Rightarrow> unit result" where
  "verify_key_commitment P key commitment =
     and_then (with_context ''decode generation key commitment''
       (ok_or (hex_decode P commitment) (Msg ''invalid hex''))) (\<lambda>expected.
     and_then (ok_or (hex_decode P (commit_key P key)) (Msg ''hex digest'')) (\<lambda>actual.
     bail_if (length expected \<noteq> length actual \<or> expected \<noteq> actual)
       (Msg ''generation key does not match the signed commitment'') (Inr ())))"

definition subkey_info :: "bytes \<Rightarrow> u64 \<Rightarrow> subkey_kind \<Rightarrow> u64 \<Rightarrow> bytes" where
  "subkey_info root_bytes generation kind ordinal =
     root_bytes @ u64_to_le_bytes generation @ [subkey_kind_code kind] @ u64_to_le_bytes ordinal"

definition derive_subkey ::
    "'a prims_scheme \<Rightarrow> bytes \<Rightarrow> string \<Rightarrow> u64 \<Rightarrow> subkey_kind \<Rightarrow> u64 \<Rightarrow> bytes result" where
  "derive_subkey P generation_key repository_root generation kind ordinal =
     and_then (with_context ''decode repository root for HKDF''
       (ok_or (hex_decode P repository_root) (Msg ''invalid hex''))) (\<lambda>root_bytes.
     bail_if (length root_bytes \<noteq> 32) (Msg ''invalid repository root length for HKDF'') (
     ok_or (hkdf_expand P SUBKEY_SALT generation_key (subkey_info root_bytes generation kind ordinal))
       (Msg ''HKDF subkey derivation failed'')))"

section \<open>The symmetric envelope\<close>

text \<open>\<open>nonce\<close> is the 24-byte nonce the function draws.\<close>

definition seal_with_key :: "'a prims_scheme \<Rightarrow> bytes \<Rightarrow> bytes \<Rightarrow> bytes \<Rightarrow> bytes \<Rightarrow> bytes result" where
  "seal_with_key P nonce key plaintext aad =
     and_then (ok_or (xchacha_encrypt P key nonce plaintext aad) (Msg ''encryption failed'')) (\<lambda>ciphertext.
     Inr (SYMMETRIC_MAGIC @ nonce @ ciphertext))"

definition open_with_key :: "'a prims_scheme \<Rightarrow> bytes \<Rightarrow> bytes \<Rightarrow> bytes \<Rightarrow> bytes result" where
  "open_with_key P key envelope aad =
     bail_if (length envelope < length SYMMETRIC_MAGIC + 24 + 16
         \<or> take (length SYMMETRIC_MAGIC) envelope \<noteq> SYMMETRIC_MAGIC)
       (Msg ''invalid encrypted object envelope'') (
     let nonce_start = length SYMMETRIC_MAGIC;
         nonce_end = nonce_start + 24;
         nonce = take 24 (drop nonce_start envelope)
     in ok_or (xchacha_decrypt P key nonce (drop nonce_end envelope) aad)
          (Msg ''encrypted object authentication failed''))"

section \<open>What the code relies on\<close>

text \<open>
  The documented behaviour of the crates: hexadecimal and base64 decode what they encode, a
  SHA-256 digest has 32 bytes, an AEAD opens what it sealed, a strict Ed25519 verification
  accepts the signature of the matching secret, and HPKE opens what was sealed to the matching
  public key.
\<close>

definition hex_laws :: "'a prims_scheme \<Rightarrow> bool" where
  "hex_laws P \<longleftrightarrow> (\<forall>b. hex_decode P (hex_encode P b) = Some b \<and>
     length (hex_encode P b) = 2 * length b \<and> list_all is_lower_hex (hex_encode P b))"

definition b64_laws :: "'a prims_scheme \<Rightarrow> bool" where
  "b64_laws P \<longleftrightarrow> (\<forall>b. b64_decode P (b64_encode P b) = Some b)"

definition sha256_laws :: "'a prims_scheme \<Rightarrow> bool" where
  "sha256_laws P \<longleftrightarrow> (\<forall>b. length (sha256 P b) = 32)"

definition aead_laws :: "'a prims_scheme \<Rightarrow> bool" where
  "aead_laws P \<longleftrightarrow> (\<forall>key nonce m aad c. xchacha_encrypt P key nonce m aad = Some c \<longrightarrow>
     xchacha_decrypt P key nonce c aad = Some m \<and> length c = length m + 16)"

definition signature_laws :: "'a prims_scheme \<Rightarrow> bool" where
  "signature_laws P \<longleftrightarrow> (\<forall>sk m. length sk = 32 \<longrightarrow>
     length (ed_verifying_key P sk) = 32 \<and> ed_public_ok P (ed_verifying_key P sk) \<and>
     ed_signature_ok P (ed_sign P sk m) \<and>
     ed_verify_strict P (ed_verifying_key P sk) m (ed_sign P sk m))"

definition hpke_laws :: "'a prims_scheme \<Rightarrow> bool" where
  "hpke_laws P \<longleftrightarrow>
     (\<forall>sk. kem_private_ok P sk \<longrightarrow> kem_public_ok P (kem_sk_to_pk P sk) \<and> length (kem_sk_to_pk P sk) = 32) \<and>
     (\<forall>sk info m aad rng enc c. kem_private_ok P sk \<longrightarrow>
        hpke_seal P (kem_sk_to_pk P sk) info m aad rng = Some (enc, c) \<longrightarrow>
        hpke_open P sk enc info c aad = Some m) \<and>
     (\<forall>pk info m aad rng enc c. hpke_seal P pk info m aad rng = Some (enc, c) \<longrightarrow>
        kem_encapped_ok P enc \<and> length enc = 32 \<and> length c = length m + 16)"

lemma b64_encode_ok [simp]: "b64_laws P \<Longrightarrow> b64 P (b64_encode P x) = Inr x"
  by (simp add: b64_laws_def b64_def)

lemma hex_decode_encode [simp]: "hex_laws P \<Longrightarrow> hex_decode P (hex_encode P b) = Some b"
  by (simp add: hex_laws_def)

section \<open>Properties\<close>

lemma SYMMETRIC_MAGIC_length [simp]: "length SYMMETRIC_MAGIC = 8"
  by (simp add: SYMMETRIC_MAGIC_def format_version_text_def)

lemma open_seal_with_key:
  assumes "aead_laws P" and "length nonce = 24" and "seal_with_key P nonce key m aad = Inr c"
  shows "open_with_key P key c aad = Inr m"
proof -
  from assms(3) obtain ct where ct: "xchacha_encrypt P key nonce m aad = Some ct"
    and c: "c = SYMMETRIC_MAGIC @ nonce @ ct"
    by (auto simp: seal_with_key_def result_simps)
  from assms(1) ct have "xchacha_decrypt P key nonce ct aad = Some m" "length ct = length m + 16"
    by (auto simp: aead_laws_def)
  then show ?thesis using assms(2) by (simp add: open_with_key_def c Let_def)
qed

lemma verify_key_commitment_ok:
  "hex_laws P \<Longrightarrow> verify_key_commitment P key c = Inr () \<longleftrightarrow>
     (\<exists>d. hex_decode P c = Some d \<and> d = sha256 P (KEY_COMMITMENT_DOMAIN @ key))"
  by (auto simp: verify_key_commitment_def commit_key_def result_simps)

lemma verify_commit_key [simp]: "hex_laws P \<Longrightarrow> verify_key_commitment P key (commit_key P key) = Inr ()"
  by (simp add: verify_key_commitment_ok) (simp add: commit_key_def)

lemma key_public_device_ok:
  "key_public_device P k = Inr d \<longleftrightarrow>
     (\<exists>sk wk. signing_key P k = Inr sk \<and> wrapping_private_key P k = Inr wk \<and>
        d = \<lparr>pd_repository_root = kf_repository_root k,
             pd_device_id = device_id_for_public_keys P (ed_verifying_key P sk) (kem_sk_to_pk P wk),
             pd_signing_public_key = b64_encode P (ed_verifying_key P sk),
             pd_wrapping_public_key = b64_encode P (kem_sk_to_pk P wk)\<rparr>)"
  by (auto simp: key_public_device_def result_simps Let_def)

lemma verify_sign_domain:
  assumes "b64_laws P" and "signature_laws P"
    and "key_public_device P k = Inr d" and "sign_domain P k tag m = Inr sig"
  shows "verify_domain P (pd_signing_public_key d) tag m sig = Inr ()"
proof -
  from assms(3,4) obtain sk where sk: "signing_key P k = Inr sk"
    and d: "pd_signing_public_key d = b64_encode P (ed_verifying_key P sk)"
    and sig: "sig = ed_sign P sk (domain_message P tag m)"
    by (auto simp: key_public_device_ok sign_domain_def result_simps)
  from sk have "length sk = 32" by (auto simp: signing_key_def result_simps)
  with assms(1,2) show ?thesis
    by (simp add: verify_domain_def d sig signature_laws_def)
qed

lemma unwrap_wrap_generation_key:
  assumes "b64_laws P" and "hpke_laws P" and "length gk = 32"
    and "key_public_device P k = Inr d"
    and "wrap_generation_key_with_seed P (pd_wrapping_public_key d) gk aad seed = Inr (enc, c)"
  shows "key_unwrap_generation_key P k enc c aad = Inr gk"
proof -
  from assms(4) obtain wk where wk: "wrapping_private_key P k = Inr wk"
    and d: "pd_wrapping_public_key d = b64_encode P (kem_sk_to_pk P wk)"
    by (auto simp: key_public_device_ok)
  from wk have ok: "kem_private_ok P wk" by (auto simp: wrapping_private_key_def result_simps)
  from assms(1,5) have "hpke_seal P (kem_sk_to_pk P wk) HPKE_INFO gk aad (chacha_rng P seed) = Some (enc, c)"
    by (auto simp: wrap_generation_key_with_seed_def d result_simps)
  with assms(2) ok have "hpke_open P wk enc HPKE_INFO c aad = Some gk" "kem_encapped_ok P enc"
    unfolding hpke_laws_def by blast+
  then show ?thesis
    using assms(3) by (simp add: key_unwrap_generation_key_def wk)
qed

lemma public_device_valid:
  assumes "b64_laws P" and "signature_laws P" and "hpke_laws P"
    and "validate_root (kf_repository_root k) = Inr ()" and "key_public_device P k = Inr d"
  shows "validate_public_device P d = Inr ()"
proof -
  from assms(5) obtain sk wk where sk: "signing_key P k = Inr sk" and wk: "wrapping_private_key P k = Inr wk"
    and d: "d = \<lparr>pd_repository_root = kf_repository_root k,
             pd_device_id = device_id_for_public_keys P (ed_verifying_key P sk) (kem_sk_to_pk P wk),
             pd_signing_public_key = b64_encode P (ed_verifying_key P sk),
             pd_wrapping_public_key = b64_encode P (kem_sk_to_pk P wk)\<rparr>"
    by (auto simp: key_public_device_ok)
  have "length (ed_verifying_key P sk) = 32" "length (kem_sk_to_pk P wk) = 32"
    using sk wk assms(2,3)
    by (auto simp: signing_key_def wrapping_private_key_def result_simps signature_laws_def hpke_laws_def)
  then show ?thesis
    using assms(1,4) by (simp add: validate_public_device_def decode_public_key_def d)
qed

lemma subkey_kind_code_inject [simp]: "subkey_kind_code k = subkey_kind_code k' \<longleftrightarrow> k = k'"
  by (cases k; cases k') simp_all

text \<open>Key separation: the HKDF info string of \<^verbatim>\<open>derive_subkey\<close> determines the repository
  root, the generation, the kind and the ordinal, so two subkeys of one generation key are
  derived from the same info only when all four agree.\<close>

theorem subkey_info_inject:
  assumes "length r = 32" and "length r' = 32"
  shows "subkey_info r g k n = subkey_info r' g' k' n' \<longleftrightarrow> r = r' \<and> g = g' \<and> k = k' \<and> n = n'"
  using assms by (auto simp: subkey_info_def)

theorem subkey_info_inject_witness:
  "subkey_info (replicate 32 0) 1 PackKey 0 \<noteq> subkey_info (replicate 32 0) 1 ManifestBodyKey 0"
  using subkey_info_inject [of "replicate 32 0" "replicate 32 0" 1 PackKey 0 1 ManifestBodyKey 0]
  by simp

text \<open>Signatures of one domain never stand for messages of another whose tag differs at a
  position both tags have.\<close>

lemma domain_message_separation:
  assumes "i < length t" and "i < length t'" and "t ! i \<noteq> t' ! i"
  shows "domain_message P t m \<noteq> domain_message P t' m'"
  using assms by (metis domain_message_def nth_append)

end
