(* ===== verification/Policy.thy ===== *)
theory Policy
  imports Crypto
begin

text \<open>
  \<^verbatim>\<open>src/policy.rs\<close>: device records and roles, the signed policy object, its creation and
  parsing, and the two validators that decide whether a received policy may start or extend
  the policy chain. The lemmas show what an accepted policy guarantees (well-formedness, the
  signature of an active administrator of the parent, immutability of device identities) and
  that revocation is permanent along every chain of accepted policies.
\<close>

section \<open>Data\<close>

record device_roles =
  dr_reader :: bool
  dr_writer :: bool
  dr_administrator :: bool

definition roles_reader :: device_roles where
  "roles_reader = \<lparr>dr_reader = True, dr_writer = False, dr_administrator = False\<rparr>"

definition roles_owner :: device_roles where
  "roles_owner = \<lparr>dr_reader = True, dr_writer = True, dr_administrator = True\<rparr>"

definition roles_collaborator :: device_roles where
  "roles_collaborator = \<lparr>dr_reader = True, dr_writer = True, dr_administrator = False\<rparr>"

record device_record =
  dv_public :: public_device
  dv_label :: string
  dv_roles :: device_roles
  dv_revoked_at :: "u64 option"

definition dv_active :: "device_record \<Rightarrow> bool" where
  "dv_active d = (dv_revoked_at d = None)"

abbreviation dv_id :: "device_record \<Rightarrow> string" where
  "dv_id d \<equiv> pd_device_id (dv_public d)"

record policy_body =
  pb_format_version :: u32
  pb_repository_root :: string
  pb_generation :: u64
  pb_previous :: "string option"
  pb_admin_threshold :: u32
  pb_devices :: "device_record list"

record policy_signature =
  sg_device_id :: string
  sg_signature :: string

record policy_object =
  po_body :: string
  po_signatures :: "policy_signature list"

record policy_state =
  st_id :: string
  st_body :: policy_body
  st_exact_body :: bytes
  st_signatures :: "policy_signature list"

text \<open>The \<^verbatim>\<open>serde_json\<close> codecs of these types, and the two version probes of \<^verbatim>\<open>parse\<close>.\<close>

record policy_prims = prims +
  policy_body_to_vec :: "policy_body \<Rightarrow> bytes"
  policy_body_of_slice :: "bytes \<Rightarrow> policy_body option"
  policy_object_to_vec :: "policy_object \<Rightarrow> bytes"
  policy_object_of_slice :: "bytes \<Rightarrow> policy_object option"
  policy_object_probe :: "bytes \<Rightarrow> string option"
  policy_body_probe :: "bytes \<Rightarrow> u64 option"

definition POLICY_SIGNATURE_DOMAIN :: bytes where
  "POLICY_SIGNATURE_DOMAIN = domain ''policy''"

section \<open>Labels and device lists\<close>

definition MAX_DEVICE_LABEL_BYTES :: nat where
  "MAX_DEVICE_LABEL_BYTES = 64"

definition is_control_or_invisible :: "nat \<Rightarrow> bool" where
  "is_control_or_invisible c =
     (is_control c \<or> c = 0x00AD \<or> c = 0x061C \<or> c = 0x180E
      \<or> 0x200B \<le> c \<and> c \<le> 0x200F \<or> 0x202A \<le> c \<and> c \<le> 0x202E
      \<or> 0x2060 \<le> c \<and> c \<le> 0x206F \<or> c = 0xFEFF)"

definition validate_device_label :: "string \<Rightarrow> unit result" where
  "validate_device_label label =
     bail_if (label = [] \<or> length label > MAX_DEVICE_LABEL_BYTES)
       (Msg ''device label must be 1 to 64 bytes'') (
     bail_if (trim label \<noteq> label) (Msg ''device label must not start or end with whitespace'') (
     case find is_control_or_invisible (chars label) of
       Some c \<Rightarrow> Inl (err (Msg (''device label contains control or invisible character '' @ show_nat c)))
     | None \<Rightarrow> Inr ()))"

fun validate_devices_loop ::
    "'a prims_scheme \<Rightarrow> string set \<Rightarrow> string set \<Rightarrow> device_record list \<Rightarrow> unit result" where
  "validate_devices_loop P ids active_labels [] = Inr ()"
| "validate_devices_loop P ids active_labels (device # devices) =
     and_then (validate_public_device P (dv_public device)) (\<lambda>_.
     bail_if (dv_id device \<in> ids) (Msg ''policy contains a duplicate device id'') (
     and_then (validate_device_label (dv_label device)) (\<lambda>_.
     bail_if (dv_active device \<and> dv_label device \<in> active_labels)
       (Msg (''device label '' @ dv_label device @ '' is already used by an active device'')) (
     bail_if (dr_writer (dv_roles device) \<and> \<not> dr_reader (dv_roles device))
       (Msg ''writer devices must also be readers'') (
     bail_if (dr_administrator (dv_roles device) \<and> \<not> dr_reader (dv_roles device))
       (Msg ''administrator devices must also be readers'') (
     validate_devices_loop P (insert (dv_id device) ids)
       (if dv_active device then insert (dv_label device) active_labels else active_labels)
       devices))))))"

definition validate_devices :: "'a prims_scheme \<Rightarrow> device_record list \<Rightarrow> unit result" where
  "validate_devices P devices = validate_devices_loop P {} {} devices"

definition validate_active_roles :: "policy_body \<Rightarrow> unit result" where
  "validate_active_roles body =
     bail_if (\<not> list_ex (\<lambda>d. dv_active d \<and> dr_reader (dv_roles d)) (pb_devices body))
       (Msg ''policy must retain at least one active reader'') (
     bail_if (\<not> list_ex (\<lambda>d. dv_active d \<and> dr_administrator (dv_roles d)) (pb_devices body))
       (Msg ''policy must retain at least one active administrator'') (
     Inr ()))"

definition validate_device_roots :: "policy_body \<Rightarrow> unit result" where
  "validate_device_roots body =
     bail_if (list_ex (\<lambda>d. pd_repository_root (dv_public d) \<noteq> pb_repository_root body) (pb_devices body))
       (Msg ''device public key belongs to a different repository'') (Inr ())"

section \<open>Creating and parsing\<close>

definition policy_create ::
    "'a policy_prims_scheme \<Rightarrow> policy_body \<Rightarrow> key_file \<Rightarrow> (policy_state \<times> bytes) result" where
  "policy_create P body signer =
     and_then (validate_devices P (pb_devices body)) (\<lambda>_.
     and_then (validate_device_roots body) (\<lambda>_.
     and_then (validate_active_roles body) (\<lambda>_.
     let exact_body = policy_body_to_vec P body in
     and_then (key_device_id P signer) (\<lambda>device_id.
     and_then (sign_domain P signer POLICY_SIGNATURE_DOMAIN exact_body) (\<lambda>sig.
     let signature = \<lparr>sg_device_id = device_id, sg_signature = b64_encode P sig\<rparr>;
         bytes = policy_object_to_vec P
           \<lparr>po_body = b64_encode P exact_body, po_signatures = [signature]\<rparr>
     in Inr (\<lparr>st_id = object_id P bytes, st_body = body, st_exact_body = exact_body,
              st_signatures = [signature]\<rparr>, bytes))))))"

definition policy_genesis ::
    "'a policy_prims_scheme \<Rightarrow> key_file \<Rightarrow> string \<Rightarrow> (policy_state \<times> bytes) result" where
  "policy_genesis P key owner_label =
     and_then (key_public_device P key) (\<lambda>public.
     policy_create P
       \<lparr>pb_format_version = FORMAT_VERSION, pb_repository_root = kf_repository_root key,
        pb_generation = 0, pb_previous = None, pb_admin_threshold = 1,
        pb_devices = [\<lparr>dv_public = public, dv_label = owner_label, dv_roles = roles_owner,
                       dv_revoked_at = None\<rparr>]\<rparr>
       key)"

definition policy_successor ::
    "'a policy_prims_scheme \<Rightarrow> policy_state \<Rightarrow> device_record list \<Rightarrow> key_file
       \<Rightarrow> (policy_state \<times> bytes) result" where
  "policy_successor P parent devices signer =
     and_then (ok_or (checked_add (pb_generation (st_body parent)) 1)
       (Msg ''policy generation overflow'')) (\<lambda>generation.
     policy_create P
       \<lparr>pb_format_version = FORMAT_VERSION,
        pb_repository_root = pb_repository_root (st_body parent),
        pb_generation = generation, pb_previous = Some (st_id parent), pb_admin_threshold = 1,
        pb_devices = sort_key dv_id devices\<rparr>
       signer)"

definition policy_parse :: "'a policy_prims_scheme \<Rightarrow> bytes \<Rightarrow> policy_state result" where
  "policy_parse P bytes =
     and_then (with_context ''parse policy object''
       (ok_or (policy_object_probe P bytes) (Msg ''invalid JSON''))) (\<lambda>probe_body.
     and_then (with_context ''decode policy body'' (b64 P probe_body)) (\<lambda>probe_bytes.
     and_then (with_context ''parse policy format version''
       (ok_or (policy_body_probe P probe_bytes) (Msg ''invalid JSON''))) (\<lambda>version.
     bail_if (version \<noteq> ucast FORMAT_VERSION)
       (Unsupported (''unsupported policy format '' @ show_nat (unat version))) (
     and_then (with_context ''parse policy object''
       (ok_or (policy_object_of_slice P bytes) (Msg ''invalid JSON''))) (\<lambda>object.
     and_then (with_context ''decode policy body'' (b64 P (po_body object))) (\<lambda>exact_body.
     and_then (with_context ''parse policy body''
       (ok_or (policy_body_of_slice P exact_body) (Msg ''invalid JSON''))) (\<lambda>body.
     bail_if (pb_admin_threshold body = 0)
       (Msg ''policy administrator threshold must be at least one'') (
     bail_if (pb_admin_threshold body \<noteq> 1)
       (Unsupported (''unsupported policy administrator threshold '' @
          show_nat (unat (pb_admin_threshold body)))) (
     and_then (validate_devices P (pb_devices body)) (\<lambda>_.
     and_then (validate_device_roots body) (\<lambda>_.
     and_then (validate_active_roles body) (\<lambda>_.
     Inr \<lparr>st_id = object_id P bytes, st_body = body, st_exact_body = exact_body,
          st_signatures = po_signatures object\<rparr>))))))))))))"

section \<open>Looking up devices\<close>

definition policy_device :: "policy_state \<Rightarrow> string \<Rightarrow> device_record option" where
  "policy_device p device_id = find (\<lambda>d. dv_id d = device_id) (pb_devices (st_body p))"

definition is_active_writer :: "policy_state \<Rightarrow> string \<Rightarrow> bool" where
  "is_active_writer p device_id = (case policy_device p device_id of
     None \<Rightarrow> False | Some d \<Rightarrow> dv_active d \<and> dr_writer (dv_roles d))"

definition is_active_reader :: "policy_state \<Rightarrow> string \<Rightarrow> bool" where
  "is_active_reader p device_id = (case policy_device p device_id of
     None \<Rightarrow> False | Some d \<Rightarrow> dv_active d \<and> dr_reader (dv_roles d))"

definition is_active_admin :: "policy_state \<Rightarrow> string \<Rightarrow> bool" where
  "is_active_admin p device_id = (case policy_device p device_id of
     None \<Rightarrow> False | Some d \<Rightarrow> dv_active d \<and> dr_administrator (dv_roles d))"

section \<open>Validating\<close>

definition verify_against_admins ::
    "'a prims_scheme \<Rightarrow> policy_state \<Rightarrow> device_record list \<Rightarrow> unit result" where
  "verify_against_admins P p devices =
     (case st_signatures p of
        [signature] \<Rightarrow>
          and_then (ok_or (find (\<lambda>d. dv_id d = sg_device_id signature \<and> dv_active d
                                    \<and> dr_administrator (dv_roles d)) devices)
            (Msg ''policy was not signed by an active parent administrator'')) (\<lambda>signer.
          and_then (b64 P (sg_signature signature)) (\<lambda>sig.
          verify_domain P (pd_signing_public_key (dv_public signer)) POLICY_SIGNATURE_DOMAIN
            (st_exact_body p) sig))
      | _ \<Rightarrow> Inl (err (Msg ''single-admin policies require exactly one signature'')))"

definition policy_validate_genesis :: "'a prims_scheme \<Rightarrow> policy_state \<Rightarrow> string \<Rightarrow> unit result" where
  "policy_validate_genesis P p expected_root =
     bail_if (pb_generation (st_body p) \<noteq> 0 \<or> pb_previous (st_body p) \<noteq> None)
       (Msg ''invalid genesis policy position'') (
     bail_if (pb_repository_root (st_body p) \<noteq> expected_root)
       (Msg ''policy repository root does not match key file'') (
     and_then
       (case pb_devices (st_body p) of
          [d] \<Rightarrow>
            bail_if (dv_roles d \<noteq> roles_owner \<or> \<not> dv_active d)
              (Msg ''genesis policy is not bound to the repository owner key'') (
            and_then (repository_root_for_device P (dv_public d)) (\<lambda>r.
            bail_if (r \<noteq> expected_root)
              (Msg ''genesis policy is not bound to the repository owner key'') (Inr ())))
        | _ \<Rightarrow> Inl (err (Msg ''genesis policy is not bound to the repository owner key''))) (\<lambda>_.
     bail_if (pb_admin_threshold (st_body p) \<noteq> 1)
       (Msg ''only single-admin policy threshold 1 is supported'') (
     verify_against_admins P p (pb_devices (st_body p))))))"

text \<open>The first loop of \<^verbatim>\<open>validate_successor\<close>, over the parent's records.\<close>

fun check_old_devices :: "policy_body \<Rightarrow> device_record list \<Rightarrow> unit result" where
  "check_old_devices body [] = Inr ()"
| "check_old_devices body (old # olds) =
     and_then (ok_or (find (\<lambda>d. dv_id d = dv_id old) (pb_devices body))
       (Msg ''policy removed a historical device record'')) (\<lambda>new.
     bail_if (dv_public new \<noteq> dv_public old) (Msg ''policy changed a device's public identity'') (
     bail_if (dv_label new \<noteq> dv_label old) (Msg ''policy changed a device's label'') (
     bail_if (dv_revoked_at old \<noteq> None \<and> dv_revoked_at new \<noteq> dv_revoked_at old)
       (Msg ''policy changed or reactivated a revoked device'') (
     bail_if (dv_revoked_at old = None \<and> dv_revoked_at new \<noteq> None
         \<and> dv_revoked_at new \<noteq> Some (pb_generation body))
       (Msg ''device revocation generation is invalid'') (
     check_old_devices body olds)))))"

text \<open>The second loop, over the successor's own records.\<close>

fun check_revocation_stamps :: "policy_state \<Rightarrow> u64 \<Rightarrow> device_record list \<Rightarrow> unit result" where
  "check_revocation_stamps parent generation [] = Inr ()"
| "check_revocation_stamps parent generation (device # devices) =
     (let was_already_revoked = (case policy_device parent (dv_id device) of
            None \<Rightarrow> False
          | Some old \<Rightarrow> dv_revoked_at old = dv_revoked_at device \<and> dv_revoked_at old \<noteq> None)
      in bail_if (dv_revoked_at device \<noteq> None \<and> \<not> was_already_revoked
           \<and> dv_revoked_at device \<noteq> Some generation)
         (Msg ''device revocation generation is invalid'') (
         check_revocation_stamps parent generation devices))"

definition policy_validate_successor ::
    "'a prims_scheme \<Rightarrow> policy_state \<Rightarrow> policy_state \<Rightarrow> unit result" where
  "policy_validate_successor P p parent =
     bail_if (pb_repository_root (st_body p) \<noteq> pb_repository_root (st_body parent))
       (Msg ''policy repository root changed'') (
     bail_if (checked_add (pb_generation (st_body parent)) 1 \<noteq> Some (pb_generation (st_body p)))
       (Msg ''policy generation is not consecutive'') (
     bail_if (pb_previous (st_body p) \<noteq> Some (st_id parent))
       (Msg ''policy previous pointer does not match'') (
     bail_if (pb_admin_threshold (st_body parent) \<noteq> 1 \<or> pb_admin_threshold (st_body p) \<noteq> 1)
       (Msg ''only single-admin policy threshold 1 is supported'') (
     and_then (verify_against_admins P p (pb_devices (st_body parent))) (\<lambda>_.
     and_then (check_old_devices (st_body p) (pb_devices (st_body parent))) (\<lambda>_.
     and_then (check_revocation_stamps parent (pb_generation (st_body p)) (pb_devices (st_body p))) (\<lambda>_.
     validate_active_roles (st_body p))))))))"

section \<open>What the validators establish\<close>

text \<open>A well-formed device list: the facts \<^verbatim>\<open>validate_devices\<close> checks, stated over the whole list.\<close>

definition wf_device :: "'a prims_scheme \<Rightarrow> device_record \<Rightarrow> bool" where
  "wf_device P d \<longleftrightarrow> validate_public_device P (dv_public d) = Inr () \<and>
     validate_device_label (dv_label d) = Inr () \<and>
     (dr_writer (dv_roles d) \<longrightarrow> dr_reader (dv_roles d)) \<and>
     (dr_administrator (dv_roles d) \<longrightarrow> dr_reader (dv_roles d))"

definition wf_devices :: "'a prims_scheme \<Rightarrow> device_record list \<Rightarrow> bool" where
  "wf_devices P ds \<longleftrightarrow> (\<forall>d \<in> set ds. wf_device P d) \<and> distinct (map dv_id ds) \<and>
     distinct (map dv_label (filter dv_active ds))"

definition wf_policy :: "'a prims_scheme \<Rightarrow> policy_body \<Rightarrow> bool" where
  "wf_policy P body \<longleftrightarrow> wf_devices P (pb_devices body) \<and>
     (\<forall>d \<in> set (pb_devices body). pd_repository_root (dv_public d) = pb_repository_root body) \<and>
     (\<exists>d \<in> set (pb_devices body). dv_active d \<and> dr_reader (dv_roles d)) \<and>
     (\<exists>d \<in> set (pb_devices body). dv_active d \<and> dr_administrator (dv_roles d))"

lemma validate_devices_loop_ok:
  "validate_devices_loop P ids labels ds = Inr () \<longleftrightarrow>
     (\<forall>d \<in> set ds. wf_device P d) \<and> distinct (map dv_id ds) \<and> set (map dv_id ds) \<inter> ids = {} \<and>
     distinct (map dv_label (filter dv_active ds)) \<and> set (map dv_label (filter dv_active ds)) \<inter> labels = {}"
proof (induction P ids labels ds rule: validate_devices_loop.induct)
  case (1 P ids labels)
  show ?case by simp
next
  case (2 P ids labels d ds)
  show ?case
  proof (cases "wf_device P d \<and> dv_id d \<notin> ids \<and> \<not> (dv_active d \<and> dv_label d \<in> labels)")
    case True
    then have step: "validate_devices_loop P ids labels (d # ds) =
        validate_devices_loop P (insert (dv_id d) ids)
          (if dv_active d then insert (dv_label d) labels else labels) ds"
      by (auto simp: wf_device_def bail_if_def)
    have ih: "validate_devices_loop P (insert (dv_id d) ids)
          (if dv_active d then insert (dv_label d) labels else labels) ds = Inr () \<longleftrightarrow>
        (\<forall>d \<in> set ds. wf_device P d) \<and> distinct (map dv_id ds) \<and>
        set (map dv_id ds) \<inter> insert (dv_id d) ids = {} \<and>
        distinct (map dv_label (filter dv_active ds)) \<and>
        set (map dv_label (filter dv_active ds)) \<inter>
          (if dv_active d then insert (dv_label d) labels else labels) = {}"
      by (rule "2.IH") (use True in \<open>auto simp: wf_device_def\<close>)
    show ?thesis unfolding step ih using True by auto
  next
    case False
    then show ?thesis by (auto simp: wf_device_def result_simps)
  qed
qed

lemma validate_devices_ok [result_simps]: "validate_devices P ds = Inr () \<longleftrightarrow> wf_devices P ds"
  by (auto simp: validate_devices_def validate_devices_loop_ok wf_devices_def)

lemma validate_active_roles_ok [result_simps]:
  "validate_active_roles body = Inr () \<longleftrightarrow>
     (\<exists>d \<in> set (pb_devices body). dv_active d \<and> dr_reader (dv_roles d)) \<and>
     (\<exists>d \<in> set (pb_devices body). dv_active d \<and> dr_administrator (dv_roles d))"
  by (auto simp: validate_active_roles_def result_simps list_ex_iff)

lemma validate_device_roots_ok [result_simps]:
  "validate_device_roots body = Inr () \<longleftrightarrow>
     (\<forall>d \<in> set (pb_devices body). pd_repository_root (dv_public d) = pb_repository_root body)"
  by (auto simp: validate_device_roots_def result_simps list_ex_iff)

lemma policy_create_wf: "policy_create P body signer = Inr (st, bytes) \<Longrightarrow> wf_policy P body \<and> st_body st = body"
  by (auto simp: policy_create_def result_simps wf_policy_def Let_def)

lemma policy_parse_wf:
  assumes "policy_parse P bytes = Inr st"
  shows "wf_policy P (st_body st)" and "pb_admin_threshold (st_body st) = 1"
    and "st_id st = object_id P bytes"
  using assms by (auto simp: policy_parse_def result_simps wf_policy_def)

lemma find_Some_iff_id:
  "distinct (map dv_id ds) \<Longrightarrow> find (\<lambda>d. dv_id d = i) ds = Some d \<longleftrightarrow> d \<in> set ds \<and> dv_id d = i"
  by (induction ds) auto

lemma policy_device_iff:
  "wf_devices P (pb_devices (st_body p)) \<Longrightarrow>
     policy_device p i = Some d \<longleftrightarrow> d \<in> set (pb_devices (st_body p)) \<and> dv_id d = i"
  by (simp add: policy_device_def wf_devices_def find_Some_iff_id)

lemma policy_device_id: "policy_device p i = Some d \<Longrightarrow> dv_id d = i \<and> d \<in> set (pb_devices (st_body p))"
  by (auto simp: policy_device_def find_Some_iff)

lemma check_old_devices_ok:
  "check_old_devices body olds = Inr () \<longleftrightarrow>
     (\<forall>old \<in> set olds. \<exists>new. find (\<lambda>d. dv_id d = dv_id old) (pb_devices body) = Some new \<and>
        dv_public new = dv_public old \<and> dv_label new = dv_label old \<and>
        (dv_revoked_at old \<noteq> None \<longrightarrow> dv_revoked_at new = dv_revoked_at old) \<and>
        (dv_revoked_at old = None \<longrightarrow> dv_revoked_at new = None \<or> dv_revoked_at new = Some (pb_generation body)))"
  by (induction olds) (auto simp: and_then_eq_Inr bail_if_eq_Inr ok_or_eq_Inr)

lemma check_revocation_stamps_ok:
  "check_revocation_stamps parent g ds = Inr () \<longleftrightarrow>
     (\<forall>d \<in> set ds. dv_revoked_at d \<noteq> None \<longrightarrow> dv_revoked_at d = Some g \<or>
        (\<exists>old. policy_device parent (dv_id d) = Some old \<and> dv_revoked_at old = dv_revoked_at d))"
  by (induction ds) (auto simp: bail_if_eq_Inr Let_def split: option.splits)

lemma verify_against_admins_ok:
  "verify_against_admins P p ds = Inr () \<longleftrightarrow>
     (\<exists>s signer sig. st_signatures p = [s] \<and>
        find (\<lambda>d. dv_id d = sg_device_id s \<and> dv_active d \<and> dr_administrator (dv_roles d)) ds = Some signer \<and>
        b64 P (sg_signature s) = Inr sig \<and>
        verify_domain P (pd_signing_public_key (dv_public signer)) POLICY_SIGNATURE_DOMAIN (st_exact_body p) sig
          = Inr ())"
  by (auto simp: verify_against_admins_def result_simps split: list.splits)

lemmas policy_successor_rules =
  policy_validate_successor_def check_old_devices_ok check_revocation_stamps_ok verify_against_admins_ok

text \<open>One accepted step keeps every device of the parent.\<close>

lemma successor_keeps_device:
  assumes "policy_validate_successor P q p = Inr ()" and "policy_device p i = Some d"
  shows "\<exists>d'. policy_device q i = Some d' \<and> dv_public d' = dv_public d \<and> dv_label d' = dv_label d \<and>
     (dv_revoked_at d \<noteq> None \<longrightarrow> dv_revoked_at d' = dv_revoked_at d) \<and>
     (dv_revoked_at d = None \<longrightarrow> dv_revoked_at d' \<in> {None, Some (pb_generation (st_body q))})"
proof -
  from policy_device_id [OF assms(2)] have "d \<in> set (pb_devices (st_body p))" and i: "dv_id d = i" by auto
  moreover from assms(1) have "check_old_devices (st_body q) (pb_devices (st_body p)) = Inr ()"
    by (auto simp: policy_validate_successor_def result_simps)
  ultimately show ?thesis
    by (fastforce simp: check_old_devices_ok policy_device_def i)
qed

lemma successor_generation:
  "policy_validate_successor P q p = Inr () \<Longrightarrow>
     unat (pb_generation (st_body q)) = Suc (unat (pb_generation (st_body p))) \<and>
     pb_repository_root (st_body q) = pb_repository_root (st_body p) \<and>
     pb_previous (st_body q) = Some (st_id p)"
  by (auto simp: policy_validate_successor_def result_simps checked_add_1_Some [symmetric])

section \<open>Chains of policies\<close>

inductive policy_descends :: "'a prims_scheme \<Rightarrow> policy_state \<Rightarrow> policy_state \<Rightarrow> bool"
  for P :: "'a prims_scheme" where
  start: "policy_descends P p p"
| extend: "policy_descends P p q \<Longrightarrow> policy_validate_successor P q' q = Inr () \<Longrightarrow> policy_descends P p q'"

lemma policy_descends_trans: "policy_descends P q r \<Longrightarrow> policy_descends P p q \<Longrightarrow> policy_descends P p r"
  by (induction rule: policy_descends.induct) (auto intro: policy_descends.extend)

lemma policy_descends_generation:
  "policy_descends P p q \<Longrightarrow> pb_generation (st_body p) \<le> pb_generation (st_body q) \<and>
     pb_repository_root (st_body q) = pb_repository_root (st_body p)"
proof (induction rule: policy_descends.induct)
  case (start p)
  show ?case by simp
next
  case (extend p q q')
  with successor_generation [of P q' q] show ?case by (simp add: word_le_nat_alt)
qed

lemma policy_descends_device:
  assumes "policy_descends P p q" and "policy_device p i = Some d"
  shows "\<exists>d'. policy_device q i = Some d' \<and> dv_public d' = dv_public d \<and> dv_label d' = dv_label d \<and>
     (dv_revoked_at d \<noteq> None \<longrightarrow> dv_revoked_at d' = dv_revoked_at d)"
  using assms
proof (induction arbitrary: d rule: policy_descends.induct)
  case (start p)
  then show ?case by simp
next
  case (extend p q q')
  then obtain d' where d': "policy_device q i = Some d'" "dv_public d' = dv_public d"
    "dv_label d' = dv_label d" "dv_revoked_at d \<noteq> None \<longrightarrow> dv_revoked_at d' = dv_revoked_at d"
    by blast
  from successor_keeps_device [OF extend.hyps(2) d'(1)] d'(2-4) show ?case by force
qed

lemma descendant_keeps_revoked:
  assumes "policy_descends P p q" and "policy_device p i = Some d" and "\<not> dv_active d"
  shows "\<not> is_active_reader q i \<and> \<not> is_active_writer q i \<and> \<not> is_active_admin q i"
  using policy_descends_device [OF assms(1,2)] assms(3)
  by (auto simp: is_active_reader_def is_active_writer_def is_active_admin_def dv_active_def)

text \<open>C18. Revocation is permanent: once a policy marks a device as revoked at some generation,
  every policy that descends from it through accepted successors still lists that device with
  the same keys, label and revocation generation, and never as an active reader, writer or
  administrator.\<close>

theorem revocation_is_permanent:
  assumes "policy_descends P p q" and "policy_device p i = Some d" and "dv_revoked_at d = Some g"
  shows "\<not> is_active_reader q i \<and> \<not> is_active_writer q i \<and> \<not> is_active_admin q i \<and>
    (\<exists>d'. policy_device q i = Some d' \<and> dv_public d' = dv_public d \<and> dv_label d' = dv_label d \<and>
       dv_revoked_at d' = Some g)"
proof -
  from policy_descends_device [OF assms(1,2)] assms(3) obtain d' where
    d': "policy_device q i = Some d'" "dv_public d' = dv_public d" "dv_label d' = dv_label d"
      "dv_revoked_at d' = Some g"
    by auto
  then show ?thesis
    by (simp add: is_active_reader_def is_active_writer_def is_active_admin_def dv_active_def)
qed

text \<open>C19. Authority of a successor: a policy that \<^verbatim>\<open>validate_successor\<close> accepts carries exactly one
  signature, and that signature verifies, in the policy domain, under the key of a device that
  was an active administrator of the parent; the successor names the parent as its
  predecessor, has the next generation, keeps every device record's identity and label, and
  stamps a revocation that is new with its own generation.\<close>

theorem successor_is_authorized:
  assumes "policy_validate_successor P q p = Inr ()" and "wf_devices P (pb_devices (st_body p))"
  shows "(\<exists>s signer sig. st_signatures q = [s] \<and> is_active_admin p (sg_device_id s) \<and>
      policy_device p (sg_device_id s) = Some signer \<and> b64 P (sg_signature s) = Inr sig \<and>
      verify_domain P (pd_signing_public_key (dv_public signer)) POLICY_SIGNATURE_DOMAIN (st_exact_body q) sig
        = Inr ())
    \<and> unat (pb_generation (st_body q)) = Suc (unat (pb_generation (st_body p)))
    \<and> pb_previous (st_body q) = Some (st_id p)
    \<and> (\<forall>i d. policy_device p i = Some d \<longrightarrow> (\<exists>d'. policy_device q i = Some d' \<and>
      dv_public d' = dv_public d \<and> dv_label d' = dv_label d \<and>
      (dv_active d \<and> \<not> dv_active d' \<longrightarrow> dv_revoked_at d' = Some (pb_generation (st_body q)))))"
proof -
  from assms(1) obtain s signer sig where s: "st_signatures q = [s]"
    and f: "find (\<lambda>d. dv_id d = sg_device_id s \<and> dv_active d \<and> dr_administrator (dv_roles d))
        (pb_devices (st_body p)) = Some signer"
    and v: "b64 P (sg_signature s) = Inr sig"
      "verify_domain P (pd_signing_public_key (dv_public signer)) POLICY_SIGNATURE_DOMAIN (st_exact_body q) sig = Inr ()"
    by (auto simp: policy_validate_successor_def result_simps verify_against_admins_ok)
  from f have sg: "signer \<in> set (pb_devices (st_body p))" "dv_id signer = sg_device_id s" "dv_active signer"
    "dr_administrator (dv_roles signer)"
    by (auto simp: find_Some_iff)
  then have pd: "policy_device p (sg_device_id s) = Some signer"
    using policy_device_iff [OF assms(2)] by simp
  with sg have "is_active_admin p (sg_device_id s)" by (simp add: is_active_admin_def)
  moreover have "\<forall>i d. policy_device p i = Some d \<longrightarrow> (\<exists>d'. policy_device q i = Some d' \<and>
      dv_public d' = dv_public d \<and> dv_label d' = dv_label d \<and>
      (dv_active d \<and> \<not> dv_active d' \<longrightarrow> dv_revoked_at d' = Some (pb_generation (st_body q))))"
    using successor_keeps_device [OF assms(1)] by (fastforce simp: dv_active_def)
  ultimately show ?thesis using s pd v successor_generation [OF assms(1)] by blast
qed

section \<open>Created policies are accepted\<close>

text \<open>What the JSON codecs of the policy promise.\<close>

definition policy_json_laws :: "'a policy_prims_scheme \<Rightarrow> bool" where
  "policy_json_laws P \<longleftrightarrow>
     (\<forall>x. policy_body_of_slice P (policy_body_to_vec P x) = Some x) \<and>
     (\<forall>x. policy_object_of_slice P (policy_object_to_vec P x) = Some x) \<and>
     (\<forall>x. policy_object_probe P (policy_object_to_vec P x) = Some (po_body x)) \<and>
     (\<forall>x. policy_body_probe P (policy_body_to_vec P x) = Some (ucast (pb_format_version x)))"

lemma policy_create_parts:
  assumes "policy_create P body signer = Inr (st, bytes)"
  obtains i sig where
    "key_device_id P signer = Inr i"
    "sign_domain P signer POLICY_SIGNATURE_DOMAIN (policy_body_to_vec P body) = Inr sig"
    "bytes = policy_object_to_vec P \<lparr>po_body = b64_encode P (policy_body_to_vec P body),
       po_signatures = [\<lparr>sg_device_id = i, sg_signature = b64_encode P sig\<rparr>]\<rparr>"
    "st = \<lparr>st_id = object_id P bytes, st_body = body, st_exact_body = policy_body_to_vec P body,
       st_signatures = [\<lparr>sg_device_id = i, sg_signature = b64_encode P sig\<rparr>]\<rparr>"
    "wf_policy P body"
  using assms by (auto simp: policy_create_def result_simps wf_policy_def Let_def)

lemma policy_parse_create:
  assumes laws: "policy_json_laws P" "b64_laws P"
    and create: "policy_create P body signer = Inr (st, bytes)"
    and body: "pb_format_version body = FORMAT_VERSION" "pb_admin_threshold body = 1"
  shows "policy_parse P bytes = Inr st"
  using create
proof (rule policy_create_parts)
  fix i sig
  assume "bytes = policy_object_to_vec P \<lparr>po_body = b64_encode P (policy_body_to_vec P body),
       po_signatures = [\<lparr>sg_device_id = i, sg_signature = b64_encode P sig\<rparr>]\<rparr>"
    "st = \<lparr>st_id = object_id P bytes, st_body = body, st_exact_body = policy_body_to_vec P body,
       st_signatures = [\<lparr>sg_device_id = i, sg_signature = b64_encode P sig\<rparr>]\<rparr>"
    "wf_policy P body"
  moreover from this have "validate_devices P (pb_devices body) = Inr ()" "validate_device_roots body = Inr ()"
    "validate_active_roles body = Inr ()"
    by (simp_all add: wf_policy_def validate_devices_ok validate_device_roots_ok validate_active_roles_ok)
  ultimately show ?thesis
    using laws body by (simp add: policy_parse_def policy_json_laws_def)
qed

lemma created_signature_verifies:
  assumes laws: "b64_laws P" "signature_laws P"
    and create: "policy_create P body signer = Inr (st, bytes)"
    and key: "key_public_device P signer = Inr pd"
    and admin: "d \<in> set ds" "dv_public d = pd" "dv_active d" "dr_administrator (dv_roles d)"
    and dist: "distinct (map dv_id ds)"
  shows "verify_against_admins P st ds = Inr ()"
proof (rule policy_create_parts [OF create])
  fix i sig
  assume i: "key_device_id P signer = Inr i"
    and sig: "sign_domain P signer POLICY_SIGNATURE_DOMAIN (policy_body_to_vec P body) = Inr sig"
    and st: "st = \<lparr>st_id = object_id P bytes, st_body = body, st_exact_body = policy_body_to_vec P body,
       st_signatures = [\<lparr>sg_device_id = i, sg_signature = b64_encode P sig\<rparr>]\<rparr>"
  from i key have id: "i = pd_device_id pd" by (simp add: key_device_id_def)
  have "find (\<lambda>x. dv_id x = i \<and> dv_active x \<and> dr_administrator (dv_roles x)) ds = Some d"
    using admin dist by (induction ds) (auto simp: id)
  then show ?thesis
    using verify_sign_domain [OF laws key sig] laws(1) admin(2) by (simp add: verify_against_admins_ok st)
qed

lemma genesis_policy_valid:
  assumes laws: "policy_json_laws P" "b64_laws P" "signature_laws P" "hpke_laws P"
    and sizes: "length signing = 32" "kem_private_ok P wrapping"
    and key: "key = key_file_generate P signing wrapping"
    and create: "policy_genesis P key owner_label = Inr (st, bytes)"
  shows "policy_parse P bytes = Inr st \<and> policy_validate_genesis P st (kf_repository_root key) = Inr ()"
proof -
  let ?pub = "\<lparr>pd_repository_root = kf_repository_root key,
      pd_device_id = device_id_for_public_keys P (ed_verifying_key P signing) (kem_sk_to_pk P wrapping),
      pd_signing_public_key = b64_encode P (ed_verifying_key P signing),
      pd_wrapping_public_key = b64_encode P (kem_sk_to_pk P wrapping)\<rparr>"
  let ?owner = "\<lparr>dv_public = ?pub, dv_label = owner_label, dv_roles = roles_owner, dv_revoked_at = None\<rparr>"
  let ?body = "\<lparr>pb_format_version = FORMAT_VERSION, pb_repository_root = kf_repository_root key,
      pb_generation = 0, pb_previous = None, pb_admin_threshold = 1, pb_devices = [?owner]\<rparr>"
  have pub: "key_public_device P key = Inr ?pub"
    using laws(2) sizes by (simp add: key_public_device_def signing_key_def wrapping_private_key_def key key_file_generate_def Let_def)
  have c: "policy_create P ?body key = Inr (st, bytes)"
    using create pub by (simp add: policy_genesis_def)
  have "length (ed_verifying_key P signing) = 32" "length (kem_sk_to_pk P wrapping) = 32"
    using laws(3,4) sizes by (auto simp: signature_laws_def hpke_laws_def)
  then have root: "repository_root_for_device P ?pub = Inr (kf_repository_root key)"
    using laws(2) by (simp add: repository_root_for_device_def decode_public_key_def key key_file_generate_def)
  have "verify_against_admins P st [?owner] = Inr ()"
    by (rule created_signature_verifies [OF laws(2,3) c pub, of ?owner])
      (simp_all add: dv_active_def roles_owner_def)
  then have "policy_validate_genesis P st (kf_repository_root key) = Inr ()"
    using root policy_create_wf [OF c] by (simp add: policy_validate_genesis_def dv_active_def)
  moreover have "policy_parse P bytes = Inr st"
    by (rule policy_parse_create [OF laws(1,2) c]) simp_all
  ultimately show ?thesis by simp
qed

text \<open>The genesis policy a fresh owner key creates is accepted by every device that pins the key's
  repository root: its bytes parse back to the state that was created, and
  \<^verbatim>\<open>validate_genesis\<close> accepts that state.\<close>

theorem genesis_policy_accepted:
  assumes laws: "policy_json_laws P" "b64_laws P" "signature_laws P" "hpke_laws P"
    and sizes: "length signing = 32" "kem_private_ok P wrapping"
    and key: "key = key_file_generate P signing wrapping"
    and create: "policy_genesis P key owner_label = Inr (st, bytes)"
  shows "policy_parse P bytes = Inr st \<and> policy_validate_genesis P st (kf_repository_root key) = Inr ()"
  using assms by (rule genesis_policy_valid)

end
