(* ===== verification/BTree_Map.thy ===== *)
theory BTree_Map
  imports Prelude
begin

text \<open>
  \<^verbatim>\<open>BTreeMap<K, V>\<close>: an association list sorted strictly by key, so that equality of maps is
  equality of lists and iteration is in key order. The locale states what the code relies on
  (\<^verbatim>\<open>get\<close> after \<^verbatim>\<open>insert\<close> and \<^verbatim>\<open>remove\<close>, and that two maps with the same lookups are equal);
  it is interpreted on the sorted lists.
\<close>

type_synonym ('k, 'v) btree_map = "('k \<times> 'v) list"

definition bt_wf :: "('k::linorder, 'v) btree_map \<Rightarrow> bool" where
  "bt_wf m = sorted_wrt (<) (map fst m)"

fun bt_insert :: "'k::linorder \<Rightarrow> 'v \<Rightarrow> ('k, 'v) btree_map \<Rightarrow> ('k, 'v) btree_map" where
  "bt_insert k v [] = [(k, v)]"
| "bt_insert k v ((k', v') # m) =
     (if k < k' then (k, v) # (k', v') # m
      else if k = k' then (k, v) # m
      else (k', v') # bt_insert k v m)"

definition bt_remove :: "'k \<Rightarrow> ('k, 'v) btree_map \<Rightarrow> ('k, 'v) btree_map" where
  "bt_remove k m = filter (\<lambda>e. fst e \<noteq> k) m"

abbreviation bt_get :: "('k, 'v) btree_map \<Rightarrow> 'k \<Rightarrow> 'v option" where
  "bt_get m k \<equiv> map_of m k"

section \<open>The interface\<close>

locale ordered_map =
  fixes empty :: "'m"
    and get :: "'m \<Rightarrow> 'k \<Rightarrow> 'v option"
    and insert_key :: "'k \<Rightarrow> 'v \<Rightarrow> 'm \<Rightarrow> 'm"
    and remove_key :: "'k \<Rightarrow> 'm \<Rightarrow> 'm"
    and wf_map :: "'m \<Rightarrow> bool"
  assumes wf_empty: "wf_map empty"
    and wf_insert: "wf_map m \<Longrightarrow> wf_map (insert_key k v m)"
    and wf_remove: "wf_map m \<Longrightarrow> wf_map (remove_key k m)"
    and get_empty: "get empty k = None"
    and get_insert: "wf_map m \<Longrightarrow> get (insert_key k v m) k' = (if k' = k then Some v else get m k')"
    and get_remove: "wf_map m \<Longrightarrow> get (remove_key k m) k' = (if k' = k then None else get m k')"
    and ext: "wf_map m \<Longrightarrow> wf_map m' \<Longrightarrow> (\<And>k. get m k = get m' k) \<Longrightarrow> m = m'"
begin

text \<open>Writing back the value a key already has, or removing a key that is absent, is the identity.\<close>

lemma insert_same: "wf_map m \<Longrightarrow> get m k = Some v \<Longrightarrow> insert_key k v m = m"
  by (rule ext) (auto simp: wf_insert get_insert)

lemma remove_absent: "wf_map m \<Longrightarrow> get m k = None \<Longrightarrow> remove_key k m = m"
  by (rule ext) (auto simp: wf_remove get_remove)

lemma insert_changes: "wf_map m \<Longrightarrow> get m k \<noteq> Some v \<Longrightarrow> insert_key k v m \<noteq> m"
  using get_insert [of m k v k] by auto

end

section \<open>The sorted lists implement it\<close>

lemma bt_wf_Nil [simp]: "bt_wf []"
  by (simp add: bt_wf_def)

lemma bt_wf_Cons [simp]: "bt_wf ((k, v) # m) \<longleftrightarrow> (\<forall>k' \<in> fst ` set m. k < k') \<and> bt_wf m"
  by (auto simp: bt_wf_def)

lemma keys_bt_insert: "fst ` set (bt_insert k v m) = insert k (fst ` set m)"
  by (induction k v m rule: bt_insert.induct) auto

lemma bt_wf_insert: "bt_wf m \<Longrightarrow> bt_wf (bt_insert k v m)"
  by (induction k v m rule: bt_insert.induct) (auto simp: keys_bt_insert)

lemma bt_wf_remove: "bt_wf m \<Longrightarrow> bt_wf (bt_remove k m)"
  by (induction m) (auto simp: bt_remove_def)

lemma bt_get_insert:
  "bt_wf m \<Longrightarrow> bt_get (bt_insert k v m) k' = (if k' = k then Some v else bt_get m k')"
  by (induction k v m rule: bt_insert.induct) auto

lemma bt_get_remove:
  "bt_get (bt_remove k m) k' = (if k' = k then None else bt_get m k')"
  by (induction m) (auto simp: bt_remove_def)

lemma bt_ext:
  assumes "bt_wf m" and "bt_wf m'" and "\<And>k. bt_get m k = bt_get m' k"
  shows "m = m'"
proof (rule map_sorted_distinct_set_unique [where f = fst])
  have dist: "distinct (map fst xs)" if "bt_wf xs" for xs :: "('a, 'b) btree_map"
    using that by (simp add: bt_wf_def strict_sorted_iff)
  have ord: "sorted (map fst xs)" if "bt_wf xs" for xs :: "('a, 'b) btree_map"
    using that by (simp add: bt_wf_def strict_sorted_iff)
  show "sorted (map fst m)" "sorted (map fst m')" "distinct (map fst m)" "distinct (map fst m')"
    using assms dist ord by blast+
  have same: "set m = set m'"
  proof (rule set_eqI)
    fix x show "x \<in> set m \<longleftrightarrow> x \<in> set m'"
      using map_of_eq_Some_iff [OF dist [OF assms(1)], of "fst x" "snd x"]
        map_of_eq_Some_iff [OF dist [OF assms(2)], of "fst x" "snd x"] assms(3) [of "fst x"]
      by simp
  qed
  show "set m = set m'" by (rule same)
  show "inj_on fst (set m \<union> set m')"
    using dist [OF assms(1)] same by (simp add: distinct_map)
qed

interpretation bt: ordered_map "[]" map_of bt_insert bt_remove bt_wf
  by unfold_locales
    (auto simp: bt_wf_insert bt_wf_remove bt_get_insert bt_get_remove intro: bt_ext)

lemmas bt_simps = bt_get_insert bt_get_remove bt_wf_insert bt_wf_remove keys_bt_insert

end
