(* ===== verification/Refname.thy ===== *)
theory Refname
  imports Rust_Strings BTree_Map
begin

text \<open>
  \<^verbatim>\<open>src/refname.rs\<close> (the ref-name rules of \<^verbatim>\<open>git check-ref-format\<close>) and the ref namespaces of
  \<^verbatim>\<open>src/git.rs\<close> (\<^verbatim>\<open>InnerRefKind\<close>, \<^verbatim>\<open>validate_inner_ref\<close>, \<^verbatim>\<open>validate_inner_refs\<close>). The main
  result is that the byte loop over components accepts exactly the names that satisfy the
  rules git-check-ref-format(1) states for the whole name.
\<close>

section \<open>refname.rs\<close>

definition is_ascii_control :: "char \<Rightarrow> bool" where
  "is_ascii_control c = (of_char c < (32 :: nat) \<or> of_char c = (127 :: nat))"

definition forbidden_char :: "char \<Rightarrow> bool" where
  "forbidden_char c = (is_ascii_control c \<or> c \<in> set '' ~^:?*['' \<or> c = CHR 0x5C)"

fun component_loop :: "char \<Rightarrow> string \<Rightarrow> bool" where
  "component_loop previous [] = True"
| "component_loop previous (b # bs) =
     (if forbidden_char b
         \<or> (previous = CHR ''.'' \<and> b = CHR ''.'')
         \<or> (previous = CHR ''@'' \<and> b = CHR ''{'')
      then False
      else component_loop b bs)"

definition is_valid_component :: "string \<Rightarrow> bool" where
  "is_valid_component component =
     (if component = [] \<or> starts_with component ''.'' \<or> ends_with component ''.lock'' then False
      else component_loop (CHR 0x00) component)"

definition is_valid :: "string \<Rightarrow> bool" where
  "is_valid name =
     (if name = ''@'' \<or> CHR ''/'' \<notin> set name \<or> ends_with name ''.'' then False
      else list_all is_valid_component (split_on (CHR ''/'') name))"

section \<open>git.rs: inner refs\<close>

datatype inner_ref_kind = Branch | Tag

definition inner_ref_kind_of :: "string \<Rightarrow> inner_ref_kind result" where
  "inner_ref_kind_of reference =
     (if starts_with reference ''refs/heads/'' then Inr Branch
      else if starts_with reference ''refs/tags/'' then Inr Tag
      else Inl (err (Msg (''unsupported ref namespace for '' @ reference @
        ''; only refs/heads/* and refs/tags/* are supported''))))"

definition validate_inner_ref :: "string \<Rightarrow> inner_ref_kind result" where
  "validate_inner_ref reference =
     and_then (inner_ref_kind_of reference) (\<lambda>kind.
     bail_if (\<not> is_valid reference) (Msg (''invalid Git ref name '' @ reference)) (
     Inr kind))"

fun validate_ref_keys :: "string list \<Rightarrow> unit result" where
  "validate_ref_keys [] = Inr ()"
| "validate_ref_keys (r # rs) = and_then (validate_inner_ref r) (\<lambda>_. validate_ref_keys rs)"

definition validate_inner_refs :: "(string, string) btree_map \<Rightarrow> unit result" where
  "validate_inner_refs refs = validate_ref_keys (map fst refs)"

section \<open>The rules of git-check-ref-format(1)\<close>

text \<open>The rules as the manual page numbers them, over the whole name.\<close>

definition git_ref_rules :: "string \<Rightarrow> bool" where
  "git_ref_rules name \<longleftrightarrow>
     (\<forall>p \<in> set (split_on (CHR ''/'') name). \<not> starts_with p ''.'' \<and> \<not> ends_with p ''.lock'') \<and>
     CHR ''/'' \<in> set name \<and>
     \<not> sublist ''..'' name \<and>
     (\<forall>c \<in> set name. \<not> forbidden_char c) \<and>
     \<not> starts_with name ''/'' \<and> \<not> ends_with name ''/'' \<and> \<not> sublist ''//'' name \<and>
     \<not> ends_with name ''.'' \<and>
     \<not> sublist [CHR ''@'', CHR ''{''] name \<and>
     name \<noteq> ''@''"

lemma sublist_pair_Cons:
  "sublist [a, b] (x # xs) \<longleftrightarrow> (x = a \<and> (\<exists>ys. xs = b # ys)) \<or> sublist [a, b] xs"
  by (auto simp: sublist_Cons_right prefix_def)

lemma component_loop_iff:
  "component_loop p s \<longleftrightarrow> (\<forall>c \<in> set s. \<not> forbidden_char c)
     \<and> \<not> sublist ''..'' (p # s) \<and> \<not> sublist [CHR ''@'', CHR ''{''] (p # s)"
proof (induction s arbitrary: p)
  case Nil
  show ?case by (simp add: sublist_pair_Cons)
next
  case (Cons b bs)
  show ?case
    using Cons.IH [of b]
    by (auto simp: sublist_pair_Cons [of _ _ p])
qed

lemma split_on_Ball: "P c \<Longrightarrow> (\<forall>x \<in> set xs. P x) \<longleftrightarrow> (\<forall>p \<in> set (split_on c xs). \<forall>x \<in> set p. P x)"
  by (induction xs) (auto split: list.splits)

lemma split_on_Cons_hd:
  "x \<noteq> c \<Longrightarrow> split_on c (x # xs) = (x # hd (split_on c xs)) # tl (split_on c xs)"
  by (cases "split_on c xs") auto

lemma hd_split_on: "(\<exists>ys. hd (split_on c xs) = b # ys) \<longleftrightarrow> (\<exists>ys. xs = b # ys) \<and> b \<noteq> c"
  by (cases xs) (auto simp: split_on_Cons_hd split: if_splits list.splits)

lemma split_on_sublist_pair:
  assumes "a \<noteq> c" and "b \<noteq> c"
  shows "sublist [a, b] xs \<longleftrightarrow> (\<exists>p \<in> set (split_on c xs). sublist [a, b] p)"
proof (induction xs)
  case Nil
  show ?case by simp
next
  case (Cons x xs)
  have decomp: "set (split_on c xs) = insert (hd (split_on c xs)) (set (tl (split_on c xs)))"
    by (cases "split_on c xs") auto
  show ?case
  proof (cases "x = c")
    case True
    then show ?thesis using Cons.IH assms by (simp add: sublist_pair_Cons)
  next
    case False
    then have "(\<exists>p \<in> set (split_on c (x # xs)). sublist [a, b] p)
        \<longleftrightarrow> sublist [a, b] (x # hd (split_on c xs)) \<or> (\<exists>p \<in> set (tl (split_on c xs)). sublist [a, b] p)"
      by (simp add: split_on_Cons_hd del: split_on.simps)
    also have "\<dots> \<longleftrightarrow> (x = a \<and> (\<exists>ys. xs = b # ys)) \<or> (\<exists>p \<in> set (split_on c xs). sublist [a, b] p)"
      unfolding decomp using hd_split_on [of c xs b] assms by (auto simp: sublist_pair_Cons)
    also have "\<dots> \<longleftrightarrow> sublist [a, b] (x # xs)"
      using Cons.IH by (auto simp: sublist_pair_Cons)
    finally show ?thesis by simp
  qed
qed

lemma hd_split_on_Nil: "hd (split_on c xs) = [] \<longleftrightarrow> xs = [] \<or> hd xs = c"
  by (cases xs) (auto simp: split_on_Cons_hd split: list.splits)

lemma Nil_in_split_on:
  "[] \<in> set (split_on c xs) \<longleftrightarrow> hd (split_on c xs) = [] \<or> [] \<in> set (tl (split_on c xs))"
  by (cases "split_on c xs") auto

lemma tl_split_on_nonempty:
  "[] \<notin> set (tl (split_on c xs)) \<longleftrightarrow> xs = [] \<or> last xs \<noteq> c \<and> \<not> sublist [c, c] xs"
proof (induction xs)
  case Nil
  show ?case by simp
next
  case (Cons x xs)
  show ?case
  proof (cases "x = c")
    case True
    then have "[] \<notin> set (tl (split_on c (x # xs))) \<longleftrightarrow> xs \<noteq> [] \<and> hd xs \<noteq> c \<and> [] \<notin> set (tl (split_on c xs))"
      by (auto simp: Nil_in_split_on [of c xs] hd_split_on_Nil)
    then show ?thesis
      using Cons.IH True by (cases xs) (auto simp: sublist_pair_Cons)
  next
    case False
    then have "tl (split_on c (x # xs)) = tl (split_on c xs)"
      by (simp add: split_on_Cons_hd del: split_on.simps)
    then show ?thesis
      using Cons.IH False by (auto simp: sublist_pair_Cons)
  qed
qed

lemma split_on_nonempty_parts:
  "[] \<notin> set (split_on c xs) \<longleftrightarrow>
     xs \<noteq> [] \<and> hd xs \<noteq> c \<and> last xs \<noteq> c \<and> \<not> sublist [c, c] xs"
  using Nil_in_split_on [of c xs] hd_split_on_Nil [of c xs] tl_split_on_nonempty [of c xs] by auto

lemma starts_with_single: "starts_with s [c] \<longleftrightarrow> s \<noteq> [] \<and> hd s = c"
  by (cases s) (auto simp: starts_with_iff)

lemma ends_with_single: "ends_with s [c] \<longleftrightarrow> s \<noteq> [] \<and> last s = c"
  by (cases s rule: rev_cases) (auto simp: ends_with_iff)

lemma is_valid_component_iff:
  "is_valid_component p \<longleftrightarrow> p \<noteq> [] \<and> \<not> starts_with p ''.'' \<and> \<not> ends_with p ''.lock'' \<and>
     (\<forall>c \<in> set p. \<not> forbidden_char c) \<and> \<not> sublist ''..'' p \<and> \<not> sublist [CHR ''@'', CHR ''{''] p"
  by (auto simp: is_valid_component_def component_loop_iff sublist_pair_Cons [of _ _ "CHR 0x00"])


lemma validate_inner_ref_ok [result_simps]:
  "validate_inner_ref r = Inr k \<longleftrightarrow> is_valid r \<and>
     (k = Branch \<and> starts_with r ''refs/heads/'' \<or>
      k = Tag \<and> starts_with r ''refs/tags/'' \<and> \<not> starts_with r ''refs/heads/'')"
  by (auto simp: validate_inner_ref_def inner_ref_kind_of_def result_simps)

lemma validate_ref_keys_ok [result_simps]:
  "validate_ref_keys rs = Inr () \<longleftrightarrow> (\<forall>r \<in> set rs. \<exists>k. validate_inner_ref r = Inr k)"
  by (induction rs) (auto simp: and_then_eq_Inr)

lemma validate_inner_refs_ok:
  "validate_inner_refs refs = Inr () \<longleftrightarrow>
     (\<forall>r \<in> fst ` set refs. is_valid r \<and> (starts_with r ''refs/heads/'' \<or> starts_with r ''refs/tags/''))"
  by (auto simp: validate_inner_refs_def result_simps)

end
