(* ===== verification/Manifest.thy ===== *)
theory Manifest
  imports Policy Refname
begin

text \<open>
  \<^verbatim>\<open>src/manifest.rs\<close>: the manifest of one generation, its plaintext header, its sealed header
  and its encrypted body; sealing, peeking, trial unwrapping of the generation key, opening and
  verifying; the padded list of generation-key envelopes and its audit; the link to the
  predecessor's key. The random values a function draws are arguments: the envelope seeds, the
  values of the dummy envelopes and the two nonces are the record \<open>manifest_random\<close>.
\<close>

section \<open>Data\<close>

definition MAX_GENERATION_ENVELOPES :: nat where
  "MAX_GENERATION_ENVELOPES = 4096"

definition MIN_GENERATION_ENVELOPES :: nat where
  "MIN_GENERATION_ENVELOPES = 4"

definition MANIFEST_SIGNATURE_DOMAIN :: bytes where
  "MANIFEST_SIGNATURE_DOMAIN = domain ''manifest''"

record pack_descriptor =
  pk_id :: string
  pk_plaintext_size :: u64
  pk_generation :: u64
  pk_ordinal :: u64

record generation_key_envelope =
  ge_encapsulated_key :: string
  ge_ciphertext :: string

datatype envelope_audit_entry =
    Recipient (recipient_id: string) (encapsulation_seed: string)
  | Dummy

datatype manifest_authorization = Writer | PolicyTransition | Checkpoint

record manifest =
  mf_format_version :: u32
  mf_repository_root :: string
  mf_generation :: u64
  mf_previous :: "string option"
  mf_policy_id :: string
  mf_policy_generation :: u64
  mf_authorization :: manifest_authorization
  mf_total_pack_count :: u64
  mf_refs :: "(string, string) btree_map"
  mf_new_packs :: "pack_descriptor list"
  mf_predecessor_key_wrap :: "string option"
  mf_introduced_policy :: "bytes option"

record manifest_header =
  mh_format_version :: u32
  mh_repository_root :: string
  mh_generation :: u64
  mh_previous :: "string option"
  mh_key_commitment :: string
  mh_generation_key_envelopes :: "generation_key_envelope list"
  mh_body_digest :: string
  mh_sealed_header_digest :: string

record sealed_header_content =
  sc_policy_id :: string
  sc_policy_generation :: u64
  sc_signer_device_id :: string
  sc_authorization :: manifest_authorization
  sc_total_pack_count :: u64
  sc_envelope_audit :: "envelope_audit_entry list"

record sealed_header_envelope =
  se_content :: string
  se_signature :: string

record manifest_body =
  mb_refs :: "(string, string) btree_map"
  mb_new_packs :: "pack_descriptor list"
  mb_predecessor_key_wrap :: "string option"
  mb_introduced_policy :: "string option"

record manifest_envelope =
  me_header :: string
  me_sealed_header_ciphertext :: string
  me_body_ciphertext :: string

record opened_manifest =
  om_header :: manifest_header
  om_manifest :: manifest
  om_claimed_signer_id :: string
  om_exact_header :: bytes
  om_exact_sealed_content :: bytes
  om_signature :: bytes

text \<open>The \<^verbatim>\<open>serde_json\<close> codecs of these types and the three probes that read one field.\<close>

record manifest_prims = policy_prims +
  manifest_body_to_vec :: "manifest_body \<Rightarrow> bytes"
  manifest_body_of_slice :: "bytes \<Rightarrow> manifest_body option"
  sealed_content_to_vec :: "sealed_header_content \<Rightarrow> bytes"
  sealed_content_of_slice :: "bytes \<Rightarrow> sealed_header_content option"
  sealed_envelope_to_vec :: "sealed_header_envelope \<Rightarrow> bytes"
  sealed_envelope_of_slice :: "bytes \<Rightarrow> sealed_header_envelope option"
  manifest_header_to_vec :: "manifest_header \<Rightarrow> bytes"
  manifest_header_of_slice :: "bytes \<Rightarrow> manifest_header option"
  manifest_envelope_to_vec :: "manifest_envelope \<Rightarrow> bytes"
  manifest_envelope_of_slice :: "bytes \<Rightarrow> manifest_envelope option"
  envelope_probe :: "bytes \<Rightarrow> string option"
  header_probe :: "bytes \<Rightarrow> u64 option"
  authorization_probe :: "bytes \<Rightarrow> string option"

record manifest_random =
  mr_seeds :: "nat \<Rightarrow> bytes"
  mr_dummies :: "nat \<Rightarrow> bytes \<times> bytes \<times> bytes"
  mr_body_nonce :: bytes
  mr_header_nonce :: bytes

section \<open>Signed and authenticated byte strings\<close>

text \<open>\<^verbatim>\<open>push_field(output, value)\<close> appends this.\<close>

definition field_bytes :: "bytes \<Rightarrow> bytes" where
  "field_bytes v = u32_to_le_bytes (of_nat (length v)) @ v"

definition manifest_signed_bytes :: "bytes \<Rightarrow> bytes \<Rightarrow> string \<Rightarrow> bytes" where
  "manifest_signed_bytes exact_header exact_content body_digest =
     field_bytes exact_header @ field_bytes exact_content @ field_bytes (as_bytes body_digest)"

definition generation_key_aad :: "string \<Rightarrow> u64 \<Rightarrow> string \<Rightarrow> string \<Rightarrow> bytes" where
  "generation_key_aad repository_root generation recipient commitment =
     domain ''generation envelope'' @ field_bytes (as_bytes repository_root)
     @ u32_to_le_bytes FORMAT_VERSION @ u64_to_le_bytes generation
     @ field_bytes (as_bytes commitment) @ field_bytes (as_bytes recipient)"

definition manifest_body_aad :: "string \<Rightarrow> u64 \<Rightarrow> bytes" where
  "manifest_body_aad repository_root generation =
     domain ''manifest body'' @ field_bytes (as_bytes repository_root) @ u64_to_le_bytes generation"

definition predecessor_link_aad :: "string \<Rightarrow> u64 \<Rightarrow> string \<Rightarrow> bytes" where
  "predecessor_link_aad repository_root generation previous_id =
     domain ''predecessor link'' @ field_bytes (as_bytes repository_root)
     @ u64_to_le_bytes generation @ field_bytes (as_bytes previous_id)"

definition pack_aad :: "string \<Rightarrow> u64 \<Rightarrow> u64 \<Rightarrow> bytes" where
  "pack_aad repository_root generation ordinal =
     domain ''pack'' @ field_bytes (as_bytes repository_root)
     @ u64_to_le_bytes generation @ u64_to_le_bytes ordinal"

section \<open>Validators\<close>

definition validate_manifest_policy :: "manifest \<Rightarrow> policy_state \<Rightarrow> unit result" where
  "validate_manifest_policy m policy =
     bail_if (mf_format_version m \<noteq> FORMAT_VERSION
         \<or> mf_repository_root m \<noteq> pb_repository_root (st_body policy)
         \<or> mf_policy_id m \<noteq> st_id policy
         \<or> mf_policy_generation m \<noteq> pb_generation (st_body policy))
       (Msg ''manifest does not match policy state'') (Inr ())"

definition validate_introduced_policy ::
    "'a policy_prims_scheme \<Rightarrow> manifest \<Rightarrow> policy_state \<Rightarrow> bool \<Rightarrow> unit result" where
  "validate_introduced_policy P m selected_policy should_introduce =
     (case (mf_introduced_policy m, should_introduce) of
        (Some b, True) \<Rightarrow>
          and_then (with_context ''parse introduced policy'' (policy_parse P b)) (\<lambda>policy.
          bail_if (st_id policy \<noteq> st_id selected_policy)
            (Msg ''manifest introduced policy id does not match its sealed header'') (Inr ()))
      | (None, False) \<Rightarrow> Inr ()
      | (Some _, False) \<Rightarrow> Inl (err (Msg ''ordinary manifest unexpectedly introduces a policy''))
      | (None, True) \<Rightarrow> Inl (err (Msg ''policy transition manifest is missing its introduced policy'')))"

definition is_ascii_hexdigit :: "char \<Rightarrow> bool" where
  "is_ascii_hexdigit c = (CHR ''0'' \<le> c \<and> c \<le> CHR ''9'' \<or> CHR ''a'' \<le> c \<and> c \<le> CHR ''f''
     \<or> CHR ''A'' \<le> c \<and> c \<le> CHR ''F'')"

definition hex64 :: "string \<Rightarrow> bool" where
  "hex64 s = (length s = 64 \<and> list_all is_ascii_hexdigit s)"

fun is_power_of_two :: "nat \<Rightarrow> bool" where
  "is_power_of_two n = (if n = 0 then False else if n = 1 then True
     else even n \<and> is_power_of_two (n div 2))"

declare is_power_of_two.simps [simp del]

definition validate_public_header :: "manifest_header \<Rightarrow> unit result" where
  "validate_public_header h =
     bail_if (mh_format_version h \<noteq> FORMAT_VERSION)
       (Unsupported (''unsupported manifest format '' @ show_nat (unat (mh_format_version h)))) (
     bail_if (\<not> hex64 (mh_repository_root h)) (Msg ''invalid manifest repository root'') (
     bail_if (\<not> hex64 (mh_key_commitment h)) (Msg ''invalid generation key commitment'') (
     bail_if (\<not> hex64 (mh_body_digest h) \<or> \<not> hex64 (mh_sealed_header_digest h))
       (Msg ''invalid manifest part digest'') (
     let count = length (mh_generation_key_envelopes h) in
     bail_if (\<not> (MIN_GENERATION_ENVELOPES \<le> count \<and> count \<le> MAX_GENERATION_ENVELOPES)
         \<or> \<not> is_power_of_two count)
       (Msg ''invalid padded generation envelope count'') (
     Inr ())))))"

fun envelope_layout_loop ::
    "'a prims_scheme \<Rightarrow> bytes option \<Rightarrow> generation_key_envelope list \<Rightarrow> unit result" where
  "envelope_layout_loop P previous [] = Inr ()"
| "envelope_layout_loop P previous (envelope # envelopes) =
     and_then (with_context ''decode HPKE encapsulated key'' (b64 P (ge_encapsulated_key envelope))) (\<lambda>encapsulated.
     and_then (with_context ''decode HPKE ciphertext'' (b64 P (ge_ciphertext envelope))) (\<lambda>ciphertext.
     bail_if (length encapsulated \<noteq> HPKE_ENCAPSULATED_KEY_SIZE \<or> length ciphertext \<noteq> HPKE_CIPHERTEXT_SIZE)
       (Msg ''invalid generation envelope length'') (
     bail_if (case previous of None \<Rightarrow> False | Some prior \<Rightarrow> prior \<ge> encapsulated)
       (Msg ''generation envelopes are not sorted by encapsulated-key bytes'') (
     envelope_layout_loop P (Some encapsulated) envelopes))))"

definition validate_envelope_layout :: "'a prims_scheme \<Rightarrow> manifest_header \<Rightarrow> unit result" where
  "validate_envelope_layout P h = envelope_layout_loop P None (mh_generation_key_envelopes h)"

fun pack_delta_loop :: "u64 \<Rightarrow> nat \<Rightarrow> string set \<Rightarrow> pack_descriptor list \<Rightarrow> unit result" where
  "pack_delta_loop generation index ids [] = Inr ()"
| "pack_delta_loop generation index ids (pack # packs) =
     bail_if (pk_generation pack \<noteq> generation \<or> pk_ordinal pack \<noteq> of_nat index)
       (Msg ''pack delta has a non-dense generation-local ordinal'') (
     bail_if (pk_plaintext_size pack = 0) (Msg ''pack plaintext size must be nonzero'') (
     bail_if (pk_id pack \<in> ids) (Msg ''pack delta contains a duplicate ciphertext id'') (
     pack_delta_loop generation (Suc index) (insert (pk_id pack) ids) packs)))"

definition validate_pack_delta :: "manifest \<Rightarrow> unit result" where
  "validate_pack_delta m = pack_delta_loop (mf_generation m) 0 {} (mf_new_packs m)"

section \<open>The manifest as a state of the chain\<close>

definition manifest_genesis :: "string \<Rightarrow> policy_state \<Rightarrow> bytes \<Rightarrow> manifest" where
  "manifest_genesis repository_root policy policy_bytes =
     \<lparr>mf_format_version = FORMAT_VERSION, mf_repository_root = repository_root,
      mf_generation = 0, mf_previous = None, mf_policy_id = st_id policy,
      mf_policy_generation = pb_generation (st_body policy),
      mf_authorization = PolicyTransition, mf_total_pack_count = 0, mf_refs = [],
      mf_new_packs = [], mf_predecessor_key_wrap = None,
      mf_introduced_policy = Some policy_bytes\<rparr>"

definition manifest_validate_genesis ::
    "'a policy_prims_scheme \<Rightarrow> manifest \<Rightarrow> policy_state \<Rightarrow> unit result" where
  "manifest_validate_genesis P m policy =
     and_then (validate_manifest_policy m policy) (\<lambda>_.
     and_then (validate_introduced_policy P m policy True) (\<lambda>_.
     bail_if (mf_generation m \<noteq> 0 \<or> mf_previous m \<noteq> None \<or> mf_authorization m \<noteq> PolicyTransition
         \<or> mf_total_pack_count m \<noteq> 0 \<or> mf_refs m \<noteq> [] \<or> mf_new_packs m \<noteq> []
         \<or> mf_predecessor_key_wrap m \<noteq> None)
       (Msg ''invalid genesis manifest'') (Inr ())))"

definition validate_authorization ::
    "'a policy_prims_scheme \<Rightarrow> manifest \<Rightarrow> manifest \<Rightarrow> policy_state \<Rightarrow> unit result" where
  "validate_authorization P m previous selected_policy =
     (case mf_authorization m of
        Writer \<Rightarrow>
          and_then (validate_introduced_policy P m selected_policy False) (\<lambda>_.
          bail_if (mf_policy_id m \<noteq> mf_policy_id previous
              \<or> mf_policy_generation m \<noteq> mf_policy_generation previous)
            (Msg ''writer manifest changed policy state'') (Inr ()))
      | PolicyTransition \<Rightarrow>
          and_then (validate_introduced_policy P m selected_policy True) (\<lambda>_.
          bail_if (checked_add (mf_policy_generation previous) 1 \<noteq> Some (mf_policy_generation m)
              \<or> pb_previous (st_body selected_policy) \<noteq> Some (mf_policy_id previous))
            (Msg ''policy transition did not select the direct policy child'') (
          bail_if (mf_refs m \<noteq> mf_refs previous \<or> mf_new_packs m \<noteq> [])
            (Msg ''policy transition changed Git content'') (Inr ())))
      | Checkpoint \<Rightarrow>
          Inl (err (Unsupported ''checkpoint transitions are reserved but not implemented'')))"

definition manifest_validate_successor ::
    "'a policy_prims_scheme \<Rightarrow> manifest \<Rightarrow> string \<Rightarrow> manifest \<Rightarrow> policy_state \<Rightarrow> unit result" where
  "manifest_validate_successor P m previous_id previous selected_policy =
     and_then (validate_manifest_policy m selected_policy) (\<lambda>_.
     bail_if (mf_repository_root m \<noteq> mf_repository_root previous)
       (Msg ''manifest repository root changed'') (
     bail_if (checked_add (mf_generation previous) 1 \<noteq> Some (mf_generation m))
       (Msg ''manifest generation is not consecutive'') (
     bail_if (mf_previous m \<noteq> Some previous_id)
       (Msg ''manifest previous pointer does not match'') (
     bail_if (mf_predecessor_key_wrap m = None)
       (Msg ''successor manifest is missing its predecessor key link'') (
     and_then (validate_pack_delta m) (\<lambda>_.
     and_then (ok_or (checked_add (mf_total_pack_count previous) (of_nat (length (mf_new_packs m))))
       (Msg ''manifest total pack count overflow'')) (\<lambda>expected_total.
     bail_if (mf_total_pack_count m \<noteq> expected_total)
       (Msg ''manifest total pack count does not match its delta'') (
     validate_authorization P m previous selected_policy))))))))"

section \<open>Envelopes of the generation key\<close>

text \<open>\<^verbatim>\<open>usize::checked_next_power_of_two\<close>.\<close>

function pow2_above :: "nat \<Rightarrow> nat \<Rightarrow> nat" where
  "pow2_above p n = (if p = 0 \<or> n \<le> p then p else pow2_above (2 * p) n)"
  by pat_completeness auto
termination by (relation "measure (\<lambda>(p, n). n - p)") auto

declare pow2_above.simps [simp del]

definition checked_next_power_of_two :: "nat \<Rightarrow> nat option" where
  "checked_next_power_of_two n = (let p = pow2_above 1 n in if p < 2 ^ 64 then Some p else None)"

definition active_readers :: "policy_state \<Rightarrow> device_record list" where
  "active_readers policy =
     filter (\<lambda>d. dv_active d \<and> dr_reader (dv_roles d)) (pb_devices (st_body policy))"

type_synonym envelope_pair = "bytes \<times> generation_key_envelope \<times> envelope_audit_entry"

text \<open>The two loops of \<^verbatim>\<open>build_envelopes\<close>; \<open>k\<close> counts the seeds, respectively the dummies, drawn.\<close>

fun recipient_pairs ::
    "'a prims_scheme \<Rightarrow> manifest \<Rightarrow> bytes \<Rightarrow> string \<Rightarrow> (nat \<Rightarrow> bytes) \<Rightarrow> nat \<Rightarrow> device_record list
       \<Rightarrow> envelope_pair list result" where
  "recipient_pairs P m generation_key commitment seeds k [] = Inr []"
| "recipient_pairs P m generation_key commitment seeds k (device # devices) =
     (let seed = seeds k;
          aad = generation_key_aad (mf_repository_root m) (mf_generation m) (dv_id device) commitment
      in
      and_then (wrap_generation_key_with_seed P (pd_wrapping_public_key (dv_public device))
          generation_key aad seed) (\<lambda>(encapsulated, ciphertext).
      and_then (recipient_pairs P m generation_key commitment seeds (Suc k) devices) (\<lambda>pairs.
      Inr ((encapsulated,
            \<lparr>ge_encapsulated_key = b64_encode P encapsulated, ge_ciphertext = b64_encode P ciphertext\<rparr>,
            Recipient (dv_id device) (b64_encode P seed)) # pairs))))"

fun dummy_pairs ::
    "'a prims_scheme \<Rightarrow> (nat \<Rightarrow> bytes \<times> bytes \<times> bytes) \<Rightarrow> nat \<Rightarrow> nat \<Rightarrow> envelope_pair list result" where
  "dummy_pairs P dummies k 0 = Inr []"
| "dummy_pairs P dummies k (Suc missing) =
     (case dummies k of (seed, key, aad) \<Rightarrow>
      and_then (dummy_generation_envelope P seed key aad) (\<lambda>(encapsulated, ciphertext).
      and_then (dummy_pairs P dummies (Suc k) missing) (\<lambda>pairs.
      Inr ((encapsulated,
            \<lparr>ge_encapsulated_key = b64_encode P encapsulated, ge_ciphertext = b64_encode P ciphertext\<rparr>,
            Dummy) # pairs))))"

definition build_envelopes ::
    "'a prims_scheme \<Rightarrow> manifest_random \<Rightarrow> policy_state \<Rightarrow> manifest \<Rightarrow> bytes \<Rightarrow> string
       \<Rightarrow> (generation_key_envelope list \<times> envelope_audit_entry list) result" where
  "build_envelopes P R policy m generation_key commitment =
     (let readers = active_readers policy in
      bail_if (readers = []) (Msg ''policy has no active readers'') (
      and_then (ok_or (checked_next_power_of_two (length readers))
        (Msg ''active reader count is too large'')) (\<lambda>power.
      let count = max power MIN_GENERATION_ENVELOPES in
      bail_if (count > MAX_GENERATION_ENVELOPES)
        (Msg ''padded generation envelope count exceeds 4096'') (
      and_then (recipient_pairs P m generation_key commitment (mr_seeds R) 0 readers) (\<lambda>recipients.
      and_then (dummy_pairs P (mr_dummies R) 0 (count - length recipients)) (\<lambda>dummies.
      let pairs = sort_key fst (recipients @ dummies)
      in Inr (map (fst \<circ> snd) pairs, map (snd \<circ> snd) pairs)))))))"

fun envelope_audit_loop ::
    "'a prims_scheme \<Rightarrow> manifest_header \<Rightarrow> policy_state \<Rightarrow> bytes \<Rightarrow> string set \<Rightarrow> string set
       \<Rightarrow> (generation_key_envelope \<times> envelope_audit_entry) list \<Rightarrow> string set result" where
  "envelope_audit_loop P h policy generation_key active audited [] = Inr audited"
| "envelope_audit_loop P h policy generation_key active audited ((envelope, Dummy) # entries) =
     envelope_audit_loop P h policy generation_key active audited entries"
| "envelope_audit_loop P h policy generation_key active audited
       ((envelope, Recipient device_id seed_text) # entries) =
     bail_if (device_id \<notin> active)
       (Msg ''envelope audit names a device that is not an active reader'') (
     bail_if (device_id \<in> audited) (Msg ''envelope audit contains a duplicate reader'') (
     and_then (with_context ''decode envelope audit seed'' (b64 P seed_text)) (\<lambda>seed.
     bail_if (length seed \<noteq> 32) (Msg ''invalid envelope audit seed length'') (
     and_then (ok_or (policy_device policy device_id)
       (Msg ''envelope audit names an unknown device'')) (\<lambda>recipient.
     let aad = generation_key_aad (mh_repository_root h) (mh_generation h) device_id (mh_key_commitment h) in
     and_then (wrap_generation_key_with_seed P (pd_wrapping_public_key (dv_public recipient))
         generation_key aad seed) (\<lambda>(encapsulated, ciphertext).
     bail_if (b64_encode P encapsulated \<noteq> ge_encapsulated_key envelope
         \<or> b64_encode P ciphertext \<noteq> ge_ciphertext envelope)
       (Msg ''generation envelope does not match its sealed audit entry'') (
     envelope_audit_loop P h policy generation_key active (insert device_id audited) entries)))))))"

definition validate_envelope_audit ::
    "'a prims_scheme \<Rightarrow> manifest_header \<Rightarrow> envelope_audit_entry list \<Rightarrow> policy_state \<Rightarrow> bytes \<Rightarrow> unit result" where
  "validate_envelope_audit P h audit policy generation_key =
     bail_if (length audit \<noteq> length (mh_generation_key_envelopes h))
       (Msg ''envelope audit count does not match the envelope list'') (
     let active = set (map dv_id (active_readers policy)) in
     and_then (envelope_audit_loop P h policy generation_key active {}
       (zip (mh_generation_key_envelopes h) audit)) (\<lambda>audited.
     bail_if (audited \<noteq> active) (Msg ''envelope audit must match active readers exactly'') (
     Inr ())))"

section \<open>Sealing\<close>

definition seal_manifest ::
    "'a manifest_prims_scheme \<Rightarrow> manifest_random \<Rightarrow> key_file \<Rightarrow> policy_state \<Rightarrow> bytes
       \<Rightarrow> manifest_authorization \<Rightarrow> manifest \<Rightarrow> bytes result" where
  "seal_manifest P R key policy generation_key authorization m =
     and_then (validate_manifest_policy m policy) (\<lambda>_.
     bail_if (mf_authorization m \<noteq> authorization)
       (Msg ''manifest authorization does not match its transition'') (
     and_then
       (case authorization of
          Writer \<Rightarrow> validate_introduced_policy P m policy False
        | PolicyTransition \<Rightarrow> validate_introduced_policy P m policy True
        | Checkpoint \<Rightarrow>
            Inl (err (Unsupported ''checkpoint transitions are reserved but not implemented''))) (\<lambda>_.
     and_then (validate_pack_delta m) (\<lambda>_.
     let commitment = commit_key P generation_key in
     and_then (build_envelopes P R policy m generation_key commitment) (\<lambda>(envelopes, audit).
     let body = manifest_body_to_vec P
           \<lparr>mb_refs = mf_refs m, mb_new_packs = mf_new_packs m,
            mb_predecessor_key_wrap = mf_predecessor_key_wrap m,
            mb_introduced_policy = map_option (b64_encode P) (mf_introduced_policy m)\<rparr> in
     and_then (derive_subkey P generation_key (mf_repository_root m) (mf_generation m) ManifestBodyKey 0) (\<lambda>body_key.
     and_then (seal_with_key P (mr_body_nonce R) body_key body
         (manifest_body_aad (mf_repository_root m) (mf_generation m))) (\<lambda>body_ciphertext.
     let body_digest = hex_encode P (sha256 P body_ciphertext) in
     and_then (key_device_id P key) (\<lambda>signer.
     let exact_sealed_content = sealed_content_to_vec P
           \<lparr>sc_policy_id = mf_policy_id m, sc_policy_generation = mf_policy_generation m,
            sc_signer_device_id = signer, sc_authorization = authorization,
            sc_total_pack_count = mf_total_pack_count m, sc_envelope_audit = audit\<rparr>;
         header =
           \<lparr>mh_format_version = mf_format_version m, mh_repository_root = mf_repository_root m,
            mh_generation = mf_generation m, mh_previous = mf_previous m,
            mh_key_commitment = commitment, mh_generation_key_envelopes = envelopes,
            mh_body_digest = body_digest,
            mh_sealed_header_digest = hex_encode P (sha256 P exact_sealed_content)\<rparr> in
     and_then (validate_public_header header) (\<lambda>_.
     and_then (validate_envelope_layout P header) (\<lambda>_.
     let exact_header = manifest_header_to_vec P header;
         signed_bytes = manifest_signed_bytes exact_header exact_sealed_content (mh_body_digest header) in
     and_then (sign_domain P key MANIFEST_SIGNATURE_DOMAIN signed_bytes) (\<lambda>sig.
     let sealed_bytes = sealed_envelope_to_vec P
           \<lparr>se_content = b64_encode P exact_sealed_content, se_signature = b64_encode P sig\<rparr> in
     and_then (derive_subkey P generation_key (mh_repository_root header) (mh_generation header) SealedHeaderKey 0) (\<lambda>sealed_key.
     and_then (seal_with_key P (mr_header_nonce R) sealed_key sealed_bytes exact_header) (\<lambda>sealed_header_ciphertext.
     Inr (manifest_envelope_to_vec P
       \<lparr>me_header = b64_encode P exact_header,
        me_sealed_header_ciphertext = b64_encode P sealed_header_ciphertext,
        me_body_ciphertext = b64_encode P body_ciphertext\<rparr>))))))))))))))"

section \<open>Reading\<close>

definition require_supported_format :: "'a manifest_prims_scheme \<Rightarrow> bytes \<Rightarrow> unit result" where
  "require_supported_format P encrypted =
     and_then (with_context ''parse manifest envelope''
       (ok_or (envelope_probe P encrypted) (Msg ''invalid JSON''))) (\<lambda>header_text.
     and_then (with_context ''decode manifest header'' (b64 P header_text)) (\<lambda>header.
     and_then (with_context ''parse manifest format version''
       (ok_or (header_probe P header) (Msg ''invalid JSON''))) (\<lambda>version.
     bail_if (version \<noteq> ucast FORMAT_VERSION)
       (Unsupported (''unsupported manifest format '' @ show_nat (unat version))) (
     Inr ()))))"

text \<open>The \<^verbatim>\<open>snake_case\<close> names \<^verbatim>\<open>serde\<close> gives the variants.\<close>

definition authorization_names :: "string list" where
  "authorization_names = [''writer'', ''policy_transition'', ''checkpoint'']"

definition require_supported_authorization :: "'a manifest_prims_scheme \<Rightarrow> bytes \<Rightarrow> unit result" where
  "require_supported_authorization P exact_sealed_content =
     and_then (with_context ''parse sealed manifest authorization''
       (ok_or (authorization_probe P exact_sealed_content) (Msg ''invalid JSON''))) (\<lambda>name.
     bail_if (name \<notin> set authorization_names)
       (Unsupported (''unsupported manifest authorization '' @ name)) (
     Inr ()))"

text \<open>The steps \<^verbatim>\<open>peek_manifest_header\<close> and \<^verbatim>\<open>open_manifest\<close> start with.\<close>

definition read_header ::
    "'a manifest_prims_scheme \<Rightarrow> bytes \<Rightarrow> (manifest_envelope \<times> bytes \<times> manifest_header) result" where
  "read_header P encrypted =
     and_then (require_supported_format P encrypted) (\<lambda>_.
     and_then (with_context ''parse manifest envelope''
       (ok_or (manifest_envelope_of_slice P encrypted) (Msg ''invalid JSON''))) (\<lambda>envelope.
     and_then (with_context ''decode manifest header'' (b64 P (me_header envelope))) (\<lambda>exact_header.
     and_then (with_context ''parse manifest header''
       (ok_or (manifest_header_of_slice P exact_header) (Msg ''invalid JSON''))) (\<lambda>header.
     and_then (validate_public_header header) (\<lambda>_.
     Inr (envelope, exact_header, header))))))"

definition peek_manifest_header :: "'a manifest_prims_scheme \<Rightarrow> bytes \<Rightarrow> manifest_header result" where
  "peek_manifest_header P encrypted =
     and_then (read_header P encrypted) (\<lambda>(_, _, header). Inr header)"

fun unwrap_loop ::
    "'a prims_scheme \<Rightarrow> manifest_header \<Rightarrow> key_file \<Rightarrow> string \<Rightarrow> generation_key_envelope list \<Rightarrow> bytes result" where
  "unwrap_loop P h key device_id [] = Inl (err NotActiveReader)"
| "unwrap_loop P h key device_id (envelope # envelopes) =
     (case b64 P (ge_encapsulated_key envelope) of
        Inl _ \<Rightarrow> unwrap_loop P h key device_id envelopes
      | Inr encapsulated \<Rightarrow>
     (case b64 P (ge_ciphertext envelope) of
        Inl _ \<Rightarrow> unwrap_loop P h key device_id envelopes
      | Inr ciphertext \<Rightarrow>
     (let aad = generation_key_aad (mh_repository_root h) (mh_generation h) device_id (mh_key_commitment h) in
      case key_unwrap_generation_key P key encapsulated ciphertext aad of
        Inl _ \<Rightarrow> unwrap_loop P h key device_id envelopes
      | Inr generation_key \<Rightarrow>
          if is_ok (verify_key_commitment P generation_key (mh_key_commitment h))
          then Inr generation_key
          else unwrap_loop P h key device_id envelopes)))"

definition unwrap_generation_key ::
    "'a prims_scheme \<Rightarrow> manifest_header \<Rightarrow> key_file \<Rightarrow> bytes result" where
  "unwrap_generation_key P h key =
     bail_if (kf_repository_root key \<noteq> mh_repository_root h) ForeignRepository (
     and_then (validate_public_header h) (\<lambda>_.
     and_then (key_device_id P key) (\<lambda>device_id.
     unwrap_loop P h key device_id (mh_generation_key_envelopes h))))"

definition open_sealed_header ::
    "'a manifest_prims_scheme \<Rightarrow> bytes \<Rightarrow> manifest_header \<Rightarrow> bytes \<Rightarrow> bytes
       \<Rightarrow> (sealed_header_content \<times> bytes \<times> bytes) result" where
  "open_sealed_header P generation_key header exact_header sealed_header_ciphertext =
     and_then (derive_subkey P generation_key (mh_repository_root header) (mh_generation header) SealedHeaderKey 0) (\<lambda>sealed_key.
     and_then (with_context ''open sealed manifest header''
       (open_with_key P sealed_key sealed_header_ciphertext exact_header)) (\<lambda>sealed_bytes.
     and_then (with_context ''parse sealed manifest header''
       (ok_or (sealed_envelope_of_slice P sealed_bytes) (Msg ''invalid JSON''))) (\<lambda>sealed.
     and_then (with_context ''decode sealed manifest content'' (b64 P (se_content sealed))) (\<lambda>exact_sealed_content.
     bail_if (hex_encode P (sha256 P exact_sealed_content) \<noteq> mh_sealed_header_digest header)
       (Msg ''sealed manifest header digest mismatch'') (
     and_then (require_supported_authorization P exact_sealed_content) (\<lambda>_.
     and_then (with_context ''parse sealed manifest content''
       (ok_or (sealed_content_of_slice P exact_sealed_content) (Msg ''invalid JSON''))) (\<lambda>content.
     bail_if (sealed_content_to_vec P content \<noteq> exact_sealed_content)
       (Msg ''sealed manifest content is not canonically encoded'') (
     and_then (with_context ''decode manifest signature'' (b64 P (se_signature sealed))) (\<lambda>signature.
     Inr (content, exact_sealed_content, signature))))))))))"

definition open_body ::
    "'a manifest_prims_scheme \<Rightarrow> bytes \<Rightarrow> manifest_header \<Rightarrow> bytes \<Rightarrow> (manifest_body \<times> bytes option) result" where
  "open_body P generation_key header body_ciphertext =
     and_then (derive_subkey P generation_key (mh_repository_root header) (mh_generation header) ManifestBodyKey 0) (\<lambda>body_key.
     and_then (open_with_key P body_key body_ciphertext
       (manifest_body_aad (mh_repository_root header) (mh_generation header))) (\<lambda>body_bytes.
     and_then (with_context ''parse manifest body''
       (ok_or (manifest_body_of_slice P body_bytes) (Msg ''invalid JSON''))) (\<lambda>body.
     and_then
       (case mb_introduced_policy body of
          None \<Rightarrow> Inr None
        | Some encoded \<Rightarrow>
            and_then (with_context ''decode introduced policy'' (b64 P encoded)) (\<lambda>b. Inr (Some b))) (\<lambda>introduced_policy.
     Inr (body, introduced_policy)))))"

definition open_manifest ::
    "'a manifest_prims_scheme \<Rightarrow> bytes \<Rightarrow> bytes \<Rightarrow> opened_manifest result" where
  "open_manifest P encrypted generation_key =
     and_then (read_header P encrypted) (\<lambda>(envelope, exact_header, header).
     and_then (verify_key_commitment P generation_key (mh_key_commitment header)) (\<lambda>_.
     and_then (with_context ''decode sealed manifest header''
       (b64 P (me_sealed_header_ciphertext envelope))) (\<lambda>sealed_header_ciphertext.
     and_then (with_context ''decode manifest body''
       (b64 P (me_body_ciphertext envelope))) (\<lambda>body_ciphertext.
     bail_if (hex_encode P (sha256 P body_ciphertext) \<noteq> mh_body_digest header)
       (Msg ''manifest body digest mismatch'') (
     and_then (open_sealed_header P generation_key header exact_header sealed_header_ciphertext)
       (\<lambda>(content, exact_sealed_content, signature).
     and_then (open_body P generation_key header body_ciphertext) (\<lambda>(body, introduced_policy).
     let m =
       \<lparr>mf_format_version = mh_format_version header, mf_repository_root = mh_repository_root header,
        mf_generation = mh_generation header, mf_previous = mh_previous header,
        mf_policy_id = sc_policy_id content, mf_policy_generation = sc_policy_generation content,
        mf_authorization = sc_authorization content,
        mf_total_pack_count = sc_total_pack_count content, mf_refs = mb_refs body,
        mf_new_packs = mb_new_packs body,
        mf_predecessor_key_wrap = mb_predecessor_key_wrap body,
        mf_introduced_policy = introduced_policy\<rparr> in
     and_then (validate_pack_delta m) (\<lambda>_.
     bail_if ((mf_generation m = 0) \<noteq> (mf_predecessor_key_wrap m = None))
       (Msg ''manifest predecessor key link does not match its generation'') (
     bail_if (mf_generation m = 0 \<and> mf_previous m \<noteq> None \<or> mf_generation m > 0 \<and> mf_previous m = None)
       (Msg ''manifest previous pointer does not match its generation'') (
     Inr \<lparr>om_header = header, om_manifest = m, om_claimed_signer_id = sc_signer_device_id content,
          om_exact_header = exact_header, om_exact_sealed_content = exact_sealed_content,
          om_signature = signature\<rparr>))))))))))"

section \<open>Verifying\<close>

text \<open>\<^verbatim>\<open>policy.device(id).filter(..)\<close>.\<close>

definition device_where :: "(device_record \<Rightarrow> bool) \<Rightarrow> policy_state \<Rightarrow> string \<Rightarrow> device_record option" where
  "device_where Q policy device_id = (case policy_device policy device_id of
     None \<Rightarrow> None | Some d \<Rightarrow> if Q d then Some d else None)"

definition authorizing_device ::
    "policy_state \<Rightarrow> policy_state option \<Rightarrow> sealed_header_content \<Rightarrow> device_record result" where
  "authorizing_device selected_policy parent_policy content =
     (case sc_authorization content of
        Writer \<Rightarrow>
          ok_or (device_where (\<lambda>d. dv_active d \<and> dr_writer (dv_roles d)) selected_policy
              (sc_signer_device_id content))
            (Msg ''manifest was not signed by an active writer'')
      | PolicyTransition \<Rightarrow>
          ok_or (device_where (\<lambda>d. dv_active d \<and> dr_administrator (dv_roles d))
              (case parent_policy of Some p \<Rightarrow> p | None \<Rightarrow> selected_policy)
              (sc_signer_device_id content))
            (Msg ''policy transition manifest was not signed by a parent administrator'')
      | Checkpoint \<Rightarrow>
          Inl (err (Unsupported ''checkpoint transitions are reserved but not implemented'')))"

definition verify_manifest ::
    "'a manifest_prims_scheme \<Rightarrow> opened_manifest \<Rightarrow> policy_state \<Rightarrow> policy_state option \<Rightarrow> bytes \<Rightarrow> unit result" where
  "verify_manifest P opened selected_policy parent_policy generation_key =
     (let m = om_manifest opened; h = om_header opened in
     bail_if (mf_format_version m \<noteq> FORMAT_VERSION
         \<or> mf_repository_root m \<noteq> pb_repository_root (st_body selected_policy)
         \<or> mf_policy_id m \<noteq> st_id selected_policy
         \<or> mf_policy_generation m \<noteq> pb_generation (st_body selected_policy))
       (Msg ''manifest does not match policy state'') (
     and_then (validate_public_header h) (\<lambda>_.
     and_then (validate_envelope_layout P h) (\<lambda>_.
     bail_if (mf_format_version m \<noteq> mh_format_version h
         \<or> mf_repository_root m \<noteq> mh_repository_root h
         \<or> mf_generation m \<noteq> mh_generation h
         \<or> mf_previous m \<noteq> mh_previous h)
       (Msg ''sealed manifest metadata does not match its plaintext header'') (
     and_then (with_context ''parse sealed manifest content''
       (ok_or (sealed_content_of_slice P (om_exact_sealed_content opened)) (Msg ''invalid JSON''))) (\<lambda>content.
     bail_if (sealed_content_to_vec P content \<noteq> om_exact_sealed_content opened
         \<or> sc_policy_id content \<noteq> mf_policy_id m
         \<or> sc_policy_generation content \<noteq> mf_policy_generation m
         \<or> sc_authorization content \<noteq> mf_authorization m
         \<or> sc_total_pack_count content \<noteq> mf_total_pack_count m)
       (Msg ''opened manifest fields do not match the signed sealed header'') (
     and_then (authorizing_device selected_policy parent_policy content) (\<lambda>authorizing.
     and_then (verify_domain P (pd_signing_public_key (dv_public authorizing)) MANIFEST_SIGNATURE_DOMAIN
         (manifest_signed_bytes (om_exact_header opened) (om_exact_sealed_content opened) (mh_body_digest h))
         (om_signature opened)) (\<lambda>_.
     validate_envelope_audit P h (sc_envelope_audit content) selected_policy generation_key)))))))))"

section \<open>The link to the predecessor's key\<close>

definition wrap_predecessor_key ::
    "'a prims_scheme \<Rightarrow> bytes \<Rightarrow> bytes \<Rightarrow> bytes \<Rightarrow> string \<Rightarrow> u64 \<Rightarrow> string \<Rightarrow> string result" where
  "wrap_predecessor_key P nonce generation_key previous_key repository_root generation previous_manifest_id =
     and_then (derive_subkey P generation_key repository_root generation PredecessorLinkKey 0) (\<lambda>link_key.
     and_then (seal_with_key P nonce link_key previous_key
       (predecessor_link_aad repository_root generation previous_manifest_id)) (\<lambda>sealed.
     Inr (b64_encode P sealed)))"

definition unwrap_predecessor_key ::
    "'a prims_scheme \<Rightarrow> bytes \<Rightarrow> manifest \<Rightarrow> manifest_header \<Rightarrow> bytes result" where
  "unwrap_predecessor_key P generation_key m parent_header =
     and_then (ok_or (mf_previous m) (Msg ''genesis manifest has no predecessor key'')) (\<lambda>previous_id.
     and_then (ok_or (mf_predecessor_key_wrap m)
       (Msg ''successor manifest is missing predecessor key link'')) (\<lambda>encrypted.
     bail_if (checked_add (mh_generation parent_header) 1 \<noteq> Some (mf_generation m)
         \<or> mh_repository_root parent_header \<noteq> mf_repository_root m)
       (Msg ''predecessor header does not match manifest generation'') (
     and_then (derive_subkey P generation_key (mf_repository_root m) (mf_generation m) PredecessorLinkKey 0) (\<lambda>link_key.
     and_then (b64 P encrypted) (\<lambda>envelope.
     and_then (open_with_key P link_key envelope
       (predecessor_link_aad (mf_repository_root m) (mf_generation m) previous_id)) (\<lambda>plaintext.
     bail_if (length plaintext \<noteq> 32) (Msg ''invalid predecessor generation key length'') (
     and_then (verify_key_commitment P plaintext (mh_key_commitment parent_header)) (\<lambda>_.
     Inr plaintext))))))))"

end
