(* ===== verification/Manifest_Facts.thy ===== *)
theory Manifest_Facts
  imports Manifest "HOL-Library.Multiset"
begin

text \<open>
  What the functions of \<^verbatim>\<open>src/manifest.rs\<close> guarantee: the byte strings that are signed or
  authenticated determine their fields; an envelope list is padded to a power of two and names
  exactly the active readers; an accepted manifest was signed by an authorised device and can be
  opened by every active reader; a sealed manifest opens to itself and verifies; each kind of
  transition changes only what it may change.
\<close>

section \<open>Injectivity of the encodings\<close>

lemma field_bytes_append_inject:
  assumes "length v < 2 ^ 32" and "length w < 2 ^ 32"
  shows "field_bytes v @ r = field_bytes w @ s \<longleftrightarrow> v = w \<and> r = s"
proof
  assume eq: "field_bytes v @ r = field_bytes w @ s"
  then have "u32_to_le_bytes (of_nat (length v)) = u32_to_le_bytes (of_nat (length w))"
    and rest: "v @ r = w @ s"
    by (simp_all add: field_bytes_def append_eq_append_conv)
  then have "(of_nat (length v) :: u32) = of_nat (length w)" by simp
  then have "unat (of_nat (length v) :: u32) = unat (of_nat (length w) :: u32)" by simp
  then have "length v = length w" using assms by (simp add: unat_of_nat)
  with rest show "v = w \<and> r = s" by simp
qed simp

lemma field_bytes_inject:
  "length v < 2 ^ 32 \<Longrightarrow> length w < 2 ^ 32 \<Longrightarrow> field_bytes v = field_bytes w \<longleftrightarrow> v = w"
  using field_bytes_append_inject [of v w "[]" "[]"] by simp

text \<open>C28. The bytes a manifest signature covers determine the exact header, the exact sealed content
  and the body digest: no two different triples share a signed message, whatever the lengths
  of their parts (below the 32-bit limit of the length prefix).\<close>

theorem manifest_signed_bytes_inject:
  assumes "length h < 2 ^ 32" and "length h' < 2 ^ 32" and "length c < 2 ^ 32" and "length c' < 2 ^ 32"
    and "length d < 2 ^ 32" and "length d' < 2 ^ 32"
  shows "manifest_signed_bytes h c d = manifest_signed_bytes h' c' d' \<longleftrightarrow> h = h' \<and> c = c' \<and> d = d'"
  using assms by (simp add: manifest_signed_bytes_def field_bytes_append_inject field_bytes_inject)

theorem manifest_signed_bytes_inject_witness:
  "manifest_signed_bytes [1, 2] [3] ''d'' \<noteq> manifest_signed_bytes [1] [2, 3] ''d''"
  using manifest_signed_bytes_inject [of "[1, 2]" "[1]" "[3]" "[2, 3]" "''d''" "''d''"] by simp

text \<open>The additional data of every authenticated encryption determines its purpose and its
  position: two calls of the four functions that build it agree only when they are calls of the
  same function with the same repository root, generation and remaining arguments.\<close>

theorem aad_inject:
  assumes "length r < 2 ^ 32" and "length r' < 2 ^ 32" and "length c < 2 ^ 32" and "length c' < 2 ^ 32"
    and "length i < 2 ^ 32" and "length i' < 2 ^ 32"
  shows "(generation_key_aad r g i c = generation_key_aad r' g' i' c'
           \<longleftrightarrow> r = r' \<and> g = g' \<and> i = i' \<and> c = c')
    \<and> (manifest_body_aad r g = manifest_body_aad r' g' \<longleftrightarrow> r = r' \<and> g = g')
    \<and> (predecessor_link_aad r g i = predecessor_link_aad r' g' i' \<longleftrightarrow> r = r' \<and> g = g' \<and> i = i')
    \<and> (pack_aad r g n = pack_aad r' g' n' \<longleftrightarrow> r = r' \<and> g = g' \<and> n = n')
    \<and> manifest_body_aad r g \<noteq> pack_aad r' g' n' \<and> manifest_body_aad r g \<noteq> predecessor_link_aad r' g' i'
    \<and> manifest_body_aad r g \<noteq> generation_key_aad r' g' i' c' \<and> pack_aad r g n \<noteq> predecessor_link_aad r' g' i'
    \<and> pack_aad r g n \<noteq> generation_key_aad r' g' i' c'
    \<and> predecessor_link_aad r g i \<noteq> generation_key_aad r' g' i' c'"
proof (intro conjI)
  show "generation_key_aad r g i c = generation_key_aad r' g' i' c'
      \<longleftrightarrow> r = r' \<and> g = g' \<and> i = i' \<and> c = c'"
    using assms by (auto simp: generation_key_aad_def field_bytes_append_inject field_bytes_inject)
  show "manifest_body_aad r g = manifest_body_aad r' g' \<longleftrightarrow> r = r' \<and> g = g'"
    using assms by (auto simp: manifest_body_aad_def field_bytes_append_inject field_bytes_inject)
  show "predecessor_link_aad r g i = predecessor_link_aad r' g' i' \<longleftrightarrow> r = r' \<and> g = g' \<and> i = i'"
    using assms by (simp add: predecessor_link_aad_def field_bytes_append_inject field_bytes_inject)
  show "pack_aad r g n = pack_aad r' g' n' \<longleftrightarrow> r = r' \<and> g = g' \<and> n = n'"
    using assms by (auto simp: pack_aad_def field_bytes_append_inject field_bytes_inject)
qed (simp_all add: manifest_body_aad_def pack_aad_def predecessor_link_aad_def generation_key_aad_def
      domain_def as_bytes_def format_version_text_def)

theorem aad_inject_witness:
  "pack_aad ''r'' 1 0 \<noteq> pack_aad ''r'' 1 1 \<and> manifest_body_aad ''r'' 1 \<noteq> pack_aad ''r'' 1 0"
  using aad_inject [of "''r''" "''r''" "''c''" "''c''" "''i''" "''i''" 1 1 0 1]
    aad_inject [of "''r''" "''r''" "''c''" "''c''" "''i''" "''i''" 1 1 0 0] by simp

section \<open>Padding\<close>

lemma is_power_of_two_iff: "is_power_of_two n \<longleftrightarrow> (\<exists>k. n = 2 ^ k)"
proof (induction n rule: is_power_of_two.induct)
  case (1 n)
  show ?case
  proof (cases "n = 0 \<or> n = 1")
    case True
    then show ?thesis
      by (auto simp: is_power_of_two.simps [of n] intro: exI [of _ 0])
  next
    case False
    then have "is_power_of_two n \<longleftrightarrow> even n \<and> (\<exists>k. n div 2 = 2 ^ k)"
      using 1 by (auto simp: is_power_of_two.simps [of n])
    also have "\<dots> \<longleftrightarrow> (\<exists>k. n = 2 ^ Suc k)"
      by (metis dvd_triv_left even_two_times_div_two nonzero_mult_div_cancel_left power_Suc zero_neq_numeral)
    also have "\<dots> \<longleftrightarrow> (\<exists>k. n = 2 ^ k)"
      using False by (metis not0_implies_Suc power_0)
    finally show ?thesis .
  qed
qed

lemma pow2_above_spec:
  "p = 2 ^ k \<Longrightarrow> k = 0 \<or> p < 2 * n \<Longrightarrow> n \<le> pow2_above p n \<and> is_power_of_two (pow2_above p n) \<and>
     (pow2_above p n = 1 \<or> pow2_above p n < 2 * n)"
proof (induction p n arbitrary: k rule: pow2_above.induct)
  case (1 p n)
  show ?case
  proof (cases "n \<le> p")
    case True
    then have "pow2_above p n = p" by (simp add: pow2_above.simps)
    then show ?thesis using True 1(2,3) by (auto simp: is_power_of_two_iff)
  next
    case False
    then have "pow2_above p n = pow2_above (2 * p) n"
      using 1(2) by (subst pow2_above.simps) simp
    then show ?thesis
      using "1.IH" [of "Suc k"] 1(2) False by simp
  qed
qed

lemma checked_next_power_of_two_Some:
  assumes "checked_next_power_of_two n = Some p"
  shows "n \<le> p" and "is_power_of_two p" and "0 < n \<Longrightarrow> p < 2 * n"
  using assms pow2_above_spec [of 1 0 n]
  by (auto simp: checked_next_power_of_two_def Let_def split: if_splits)

lemma length_recipient_pairs:
  "recipient_pairs P m gk c seeds k ds = Inr ps \<Longrightarrow> length ps = length ds"
  by (induction P m gk c seeds k ds arbitrary: ps rule: recipient_pairs.induct)
    (auto simp: result_simps Let_def)

lemma length_dummy_pairs: "dummy_pairs P f k n = Inr ps \<Longrightarrow> length ps = n"
  by (induction P f k n arbitrary: ps rule: dummy_pairs.induct) (auto simp: result_simps split: prod.splits)

lemma recipient_pairs_mem:
  "recipient_pairs P m gk c seeds k ds = Inr ps \<Longrightarrow> p \<in> set ps \<Longrightarrow>
     \<exists>d \<in> set ds. \<exists>j enc ct. p = (enc, \<lparr>ge_encapsulated_key = b64_encode P enc, ge_ciphertext = b64_encode P ct\<rparr>,
          Recipient (dv_id d) (b64_encode P (seeds j))) \<and>
        wrap_generation_key_with_seed P (pd_wrapping_public_key (dv_public d)) gk
          (generation_key_aad (mf_repository_root m) (mf_generation m) (dv_id d) c) (seeds j) = Inr (enc, ct)"
  by (induction P m gk c seeds k ds arbitrary: ps rule: recipient_pairs.induct)
    (fastforce simp: and_then_eq_Inr Let_def)+

lemma dummy_pairs_Dummy: "dummy_pairs P f k n = Inr ps \<Longrightarrow> p \<in> set ps \<Longrightarrow> snd (snd p) = Dummy"
  by (induction P f k n arbitrary: ps rule: dummy_pairs.induct) (auto simp: result_simps split: prod.splits)


text \<open>The recipients an audit list names.\<close>

definition audit_recipients :: "envelope_audit_entry list \<Rightarrow> string list" where
  "audit_recipients audit = map recipient_id (filter (\<lambda>e. e \<noteq> Dummy) audit)"

lemma audit_recipients_simps [simp]:
  "audit_recipients [] = []"
  "audit_recipients (Dummy # es) = audit_recipients es"
  "audit_recipients (Recipient i s # es) = i # audit_recipients es"
  by (simp_all add: audit_recipients_def)

lemma mset_audit_recipients:
  "mset (audit_recipients es) = image_mset recipient_id (filter_mset (\<lambda>e. e \<noteq> Dummy) (mset es))"
  by (simp add: audit_recipients_def)

lemma recipient_pairs_recipients:
  "recipient_pairs P m gk c seeds k ds = Inr ps \<Longrightarrow> audit_recipients (map (snd \<circ> snd) ps) = map dv_id ds"
  by (induction P m gk c seeds k ds arbitrary: ps rule: recipient_pairs.induct)
    (auto simp: result_simps Let_def)

lemma dummy_pairs_recipients: "dummy_pairs P f k n = Inr ps \<Longrightarrow> audit_recipients (map (snd \<circ> snd) ps) = []"
  by (induction P f k n arbitrary: ps rule: dummy_pairs.induct) (auto simp: result_simps split: prod.splits)

lemma build_envelopes_parts:
  assumes "build_envelopes P R policy m gk c = Inr (es, audit)"
  obtains power count recipients dummies where
    "active_readers policy \<noteq> []"
    "checked_next_power_of_two (length (active_readers policy)) = Some power"
    "count = max power MIN_GENERATION_ENVELOPES" "count \<le> MAX_GENERATION_ENVELOPES"
    "recipient_pairs P m gk c (mr_seeds R) 0 (active_readers policy) = Inr recipients"
    "dummy_pairs P (mr_dummies R) 0 (count - length recipients) = Inr dummies"
    "es = map (fst \<circ> snd) (sort_key fst (recipients @ dummies))"
    "audit = map (snd \<circ> snd) (sort_key fst (recipients @ dummies))"
  using assms by (auto simp: build_envelopes_def result_simps Let_def not_less)

text \<open>C26. Padding hides the number of readers: \<^verbatim>\<open>build_envelopes\<close> returns as many audit entries as
  envelopes, a power of two between 4 and 4096 of them that is less than twice the number of
  readers when it exceeds 4, and the recipients it names are the active readers of the policy,
  each exactly once.\<close>

theorem build_envelopes_padded:
  assumes "build_envelopes P R policy m gk c = Inr (es, audit)"
  shows "length audit = length es \<and> is_power_of_two (length es) \<and> 4 \<le> length es \<and> length es \<le> 4096
    \<and> (4 < length es \<longrightarrow> length es < 2 * length (active_readers policy))
    \<and> length (active_readers policy) \<le> length es
    \<and> mset (audit_recipients audit) = mset (map dv_id (active_readers policy))"
proof -
  from assms obtain power count recipients dummies where
    ne: "active_readers policy \<noteq> []" and
    p: "checked_next_power_of_two (length (active_readers policy)) = Some power" and
    c: "count = max power MIN_GENERATION_ENVELOPES" "count \<le> MAX_GENERATION_ENVELOPES" and
    rp: "recipient_pairs P m gk c (mr_seeds R) 0 (active_readers policy) = Inr recipients" and
    dp: "dummy_pairs P (mr_dummies R) 0 (count - length recipients) = Inr dummies" and
    es: "es = map (fst \<circ> snd) (sort_key fst (recipients @ dummies))"
      "audit = map (snd \<circ> snd) (sort_key fst (recipients @ dummies))"
    by (rule build_envelopes_parts)
  note pow = checked_next_power_of_two_Some [OF p]
  have len: "length recipients = length (active_readers policy)" using rp by (rule length_recipient_pairs)
  moreover have "length dummies = count - length recipients" using dp by (rule length_dummy_pairs)
  ultimately have n: "length es = count" using pow(1) c by (simp add: es)
  have "is_power_of_two count"
    using pow(2) by (simp add: c max_def MIN_GENERATION_ENVELOPES_def) (simp add: is_power_of_two.simps)
  moreover have "mset (audit_recipients audit) = mset (audit_recipients (map (snd \<circ> snd) (recipients @ dummies)))"
    by (simp add: mset_audit_recipients es)
  moreover have "audit_recipients (map (snd \<circ> snd) (recipients @ dummies)) = map dv_id (active_readers policy)"
    using recipient_pairs_recipients [OF rp] dummy_pairs_recipients [OF dp]
    by (simp add: audit_recipients_def)
  ultimately show ?thesis
    using n pow ne c by (auto simp: es MIN_GENERATION_ENVELOPES_def MAX_GENERATION_ENVELOPES_def)
qed

section \<open>The envelope audit\<close>

lemma envelope_audit_loop_ok:
  "envelope_audit_loop P h policy gk active audited xs = Inr out \<longleftrightarrow>
     distinct (audit_recipients (map snd xs)) \<and> set (audit_recipients (map snd xs)) \<subseteq> active - audited \<and>
     out = audited \<union> set (audit_recipients (map snd xs)) \<and>
     (\<forall>e i s. (e, Recipient i s) \<in> set xs \<longrightarrow> (\<exists>seed d enc ct. b64 P s = Inr seed \<and> length seed = 32 \<and>
        policy_device policy i = Some d \<and>
        wrap_generation_key_with_seed P (pd_wrapping_public_key (dv_public d)) gk
          (generation_key_aad (mh_repository_root h) (mh_generation h) i (mh_key_commitment h)) seed = Inr (enc, ct) \<and>
        b64_encode P enc = ge_encapsulated_key e \<and> b64_encode P ct = ge_ciphertext e))"
proof (induction P h policy gk active audited xs arbitrary: out rule: envelope_audit_loop.induct)
  case (3 P h policy gk active audited e i s xs)
  let ?ok = "\<lambda>seed d enc ct. b64 P s = Inr seed \<and> length seed = 32 \<and>
        policy_device policy i = Some d \<and>
        wrap_generation_key_with_seed P (pd_wrapping_public_key (dv_public d)) gk
          (generation_key_aad (mh_repository_root h) (mh_generation h) i (mh_key_commitment h)) seed = Inr (enc, ct) \<and>
        b64_encode P enc = ge_encapsulated_key e \<and> b64_encode P ct = ge_ciphertext e"
  show ?case
  proof (cases "i \<in> active \<and> i \<notin> audited \<and> (\<exists>seed d enc ct. ?ok seed d enc ct)")
    case True
    then obtain seed d enc ct where ok: "?ok seed d enc ct" and i: "i \<in> active" "i \<notin> audited" by blast
    then have "envelope_audit_loop P h policy gk active audited ((e, Recipient i s) # xs)
        = envelope_audit_loop P h policy gk active (insert i audited) xs"
      by (simp add: Let_def)
    moreover have "envelope_audit_loop P h policy gk active (insert i audited) xs = Inr out \<longleftrightarrow>
        distinct (audit_recipients (map snd xs)) \<and> set (audit_recipients (map snd xs)) \<subseteq> active - insert i audited \<and>
        out = insert i audited \<union> set (audit_recipients (map snd xs)) \<and>
        (\<forall>e i s. (e, Recipient i s) \<in> set xs \<longrightarrow> (\<exists>seed d enc ct. b64 P s = Inr seed \<and> length seed = 32 \<and>
        policy_device policy i = Some d \<and>
        wrap_generation_key_with_seed P (pd_wrapping_public_key (dv_public d)) gk
          (generation_key_aad (mh_repository_root h) (mh_generation h) i (mh_key_commitment h)) seed = Inr (enc, ct) \<and>
        b64_encode P enc = ge_encapsulated_key e \<and> b64_encode P ct = ge_ciphertext e))"
      by (rule 3) (use ok i in auto)
    ultimately show ?thesis using ok i by auto
  next
    case False
    then have "envelope_audit_loop P h policy gk active audited ((e, Recipient i s) # xs) \<noteq> Inr out"
      by (auto simp: result_simps Let_def)
    with False show ?thesis by auto
  qed
qed auto


lemma validate_envelope_audit_ok:
  assumes "validate_envelope_audit P h audit policy gk = Inr ()"
  shows "length audit = length (mh_generation_key_envelopes h)"
    and "distinct (audit_recipients audit)"
    and "set (audit_recipients audit) = set (map dv_id (active_readers policy))"
    and "Recipient i s \<in> set audit \<Longrightarrow> \<exists>e seed d enc ct. e \<in> set (mh_generation_key_envelopes h) \<and>
        b64 P s = Inr seed \<and> policy_device policy i = Some d \<and>
        wrap_generation_key_with_seed P (pd_wrapping_public_key (dv_public d)) gk
          (generation_key_aad (mh_repository_root h) (mh_generation h) i (mh_key_commitment h)) seed = Inr (enc, ct) \<and>
        ge_encapsulated_key e = b64_encode P enc \<and> ge_ciphertext e = b64_encode P ct"
proof -
  let ?xs = "zip (mh_generation_key_envelopes h) audit"
  let ?active = "set (map dv_id (active_readers policy))"
  from assms show len: "length audit = length (mh_generation_key_envelopes h)"
    by (auto simp: validate_envelope_audit_def result_simps Let_def)
  then have snd: "map snd ?xs = audit" by simp
  from assms have "envelope_audit_loop P h policy gk ?active {} ?xs = Inr ?active"
    by (auto simp: validate_envelope_audit_def result_simps Let_def)
  note loop = this [unfolded envelope_audit_loop_ok snd]
  then show "distinct (audit_recipients audit)" "set (audit_recipients audit) = ?active" by auto
  assume "Recipient i s \<in> set audit"
  then obtain e where mem: "(e, Recipient i s) \<in> set ?xs"
    using snd by (metis (mono_tags) imageE list.set_map prod.collapse)
  then have "e \<in> set (mh_generation_key_envelopes h)" by (rule set_zip_leftD)
  with loop mem show "\<exists>e seed d enc ct. e \<in> set (mh_generation_key_envelopes h) \<and>
        b64 P s = Inr seed \<and> policy_device policy i = Some d \<and>
        wrap_generation_key_with_seed P (pd_wrapping_public_key (dv_public d)) gk
          (generation_key_aad (mh_repository_root h) (mh_generation h) i (mh_key_commitment h)) seed = Inr (enc, ct) \<and>
        ge_encapsulated_key e = b64_encode P enc \<and> ge_ciphertext e = b64_encode P ct"
    by (smt (verit, best))
qed

lemma audit_recipients_mem: "i \<in> set (audit_recipients audit) \<longleftrightarrow> (\<exists>s. Recipient i s \<in> set audit)"
proof
  assume "i \<in> set (audit_recipients audit)"
  then obtain e where "e \<in> set audit" "e \<noteq> Dummy" "i = recipient_id e"
    by (auto simp: audit_recipients_def)
  then show "\<exists>s. Recipient i s \<in> set audit" by - (cases e, auto)
qed (force simp: audit_recipients_def)

text \<open>One envelope that opens under the key and matches the commitment is enough for the trial
  loop to return a key with that commitment.\<close>

lemma unwrap_loop_succeeds:
  assumes "e \<in> set es" and "b64 P (ge_encapsulated_key e) = Inr enc" and "b64 P (ge_ciphertext e) = Inr ct"
    and "key_unwrap_generation_key P key enc ct
      (generation_key_aad (mh_repository_root h) (mh_generation h) i (mh_key_commitment h)) = Inr gk"
    and "verify_key_commitment P gk (mh_key_commitment h) = Inr ()"
  shows "\<exists>gk'. unwrap_loop P h key i es = Inr gk'"
  using assms(1)
proof (induction es)
  case (Cons e' es)
  show ?case
  proof (cases "e' = e")
    case True
    then show ?thesis using assms by simp
  next
    case False
    with Cons show ?thesis by (auto simp: Let_def split: sum.splits)
  qed
qed simp

lemma unwrap_loop_commitment:
  "unwrap_loop P h key i es = Inr gk \<Longrightarrow> verify_key_commitment P gk (mh_key_commitment h) = Inr () \<and> length gk = 32"
  by (induction es)
    (auto simp: is_ok_iff Let_def key_unwrap_generation_key_def result_simps split: sum.splits if_splits)

section \<open>What verification establishes\<close>

lemma verify_manifest_ok:
  assumes "verify_manifest P om policy parent gk = Inr ()"
  obtains content device where
    "validate_manifest_policy (om_manifest om) policy = Inr ()"
    "validate_public_header (om_header om) = Inr ()"
    "validate_envelope_layout P (om_header om) = Inr ()"
    "mf_repository_root (om_manifest om) = mh_repository_root (om_header om)"
    "mf_generation (om_manifest om) = mh_generation (om_header om)"
    "mf_previous (om_manifest om) = mh_previous (om_header om)"
    "sealed_content_of_slice P (om_exact_sealed_content om) = Some content"
    "sealed_content_to_vec P content = om_exact_sealed_content om"
    "sc_policy_id content = mf_policy_id (om_manifest om)"
    "sc_policy_generation content = mf_policy_generation (om_manifest om)"
    "sc_authorization content = mf_authorization (om_manifest om)"
    "sc_total_pack_count content = mf_total_pack_count (om_manifest om)"
    "authorizing_device policy parent content = Inr device"
    "verify_domain P (pd_signing_public_key (dv_public device)) MANIFEST_SIGNATURE_DOMAIN
       (manifest_signed_bytes (om_exact_header om) (om_exact_sealed_content om) (mh_body_digest (om_header om)))
       (om_signature om) = Inr ()"
    "validate_envelope_audit P (om_header om) (sc_envelope_audit content) policy gk = Inr ()"
  using assms
  by (auto simp: verify_manifest_def validate_manifest_policy_def Let_def
      and_then_eq_Inr bail_if_eq_Inr map_err_eq_Inr ok_or_eq_Inr)

text \<open>The device whose key checked a manifest's signature holds the role its transition needs: an
  active writer of the selected policy, or an active administrator of the policy before it.\<close>

definition may_sign :: "policy_state \<Rightarrow> policy_state option \<Rightarrow> manifest_authorization \<Rightarrow> string \<Rightarrow> bool" where
  "may_sign policy parent authorization signer = (case authorization of
     Writer \<Rightarrow> is_active_writer policy signer
   | PolicyTransition \<Rightarrow> is_active_admin (case parent of Some p \<Rightarrow> p | None \<Rightarrow> policy) signer
   | Checkpoint \<Rightarrow> False)"

lemma authorizing_device_ok:
  "authorizing_device policy parent content = Inr d \<Longrightarrow>
     may_sign policy parent (sc_authorization content) (sc_signer_device_id content) \<and>
     policy_device (case (sc_authorization content, parent) of (PolicyTransition, Some p) \<Rightarrow> p | _ \<Rightarrow> policy)
       (sc_signer_device_id content) = Some d"
  by (auto simp: authorizing_device_def may_sign_def device_where_def is_active_writer_def is_active_admin_def
      result_simps split: manifest_authorization.splits option.splits if_splits)

text \<open>C14. Authority of a manifest: \<^verbatim>\<open>verify_manifest\<close> accepts only a manifest whose signature over the
  exact header, the exact sealed content and the body digest verifies under the key of the
  device the sealed content names, and that device is an active writer of the selected policy
  (for a writer transition) or an active administrator of the parent policy (for a policy
  transition). The fields of the opened manifest are those of the signed content and of the
  header, and a checkpoint transition is never accepted.\<close>

theorem verified_manifest_is_authorized:
  assumes "verify_manifest P om policy parent gk = Inr ()"
  shows "\<exists>content d. sealed_content_of_slice P (om_exact_sealed_content om) = Some content
    \<and> may_sign policy parent (mf_authorization (om_manifest om)) (sc_signer_device_id content)
    \<and> policy_device (case (mf_authorization (om_manifest om), parent) of
          (PolicyTransition, Some p) \<Rightarrow> p | _ \<Rightarrow> policy) (sc_signer_device_id content) = Some d
    \<and> verify_domain P (pd_signing_public_key (dv_public d)) MANIFEST_SIGNATURE_DOMAIN
        (manifest_signed_bytes (om_exact_header om) (om_exact_sealed_content om) (mh_body_digest (om_header om)))
        (om_signature om) = Inr ()
    \<and> mf_policy_id (om_manifest om) = sc_policy_id content \<and> mf_policy_id (om_manifest om) = st_id policy
    \<and> mf_total_pack_count (om_manifest om) = sc_total_pack_count content
    \<and> mf_generation (om_manifest om) = mh_generation (om_header om)
    \<and> mf_previous (om_manifest om) = mh_previous (om_header om)
    \<and> mf_authorization (om_manifest om) \<noteq> Checkpoint"
proof (rule verify_manifest_ok [OF assms])
  fix content device
  assume auth: "authorizing_device policy parent content = Inr device"
    and eqs: "sc_authorization content = mf_authorization (om_manifest om)"
      "sc_policy_id content = mf_policy_id (om_manifest om)"
      "sc_total_pack_count content = mf_total_pack_count (om_manifest om)"
      "mf_generation (om_manifest om) = mh_generation (om_header om)"
      "mf_previous (om_manifest om) = mh_previous (om_header om)"
      "validate_manifest_policy (om_manifest om) policy = Inr ()"
      "sealed_content_of_slice P (om_exact_sealed_content om) = Some content"
    and sig: "verify_domain P (pd_signing_public_key (dv_public device)) MANIFEST_SIGNATURE_DOMAIN
       (manifest_signed_bytes (om_exact_header om) (om_exact_sealed_content om) (mh_body_digest (om_header om)))
       (om_signature om) = Inr ()"
  note role = authorizing_device_ok [OF auth, unfolded eqs(1)]
  moreover have "mf_authorization (om_manifest om) \<noteq> Checkpoint"
    using role by (auto simp: may_sign_def)
  moreover have "mf_policy_id (om_manifest om) = st_id policy"
    using eqs(6) by (auto simp: validate_manifest_policy_def result_simps)
  ultimately show ?thesis using eqs sig by auto
qed

lemma verified_manifest_unwraps:
  assumes laws: "hex_laws P" "b64_laws P" "hpke_laws P"
    and verified: "verify_manifest P om policy parent gk = Inr ()"
    and gk: "length gk = 32" "verify_key_commitment P gk (mh_key_commitment (om_header om)) = Inr ()"
    and reader: "d \<in> set (active_readers policy)" "wf_policy P (st_body policy)"
    and key: "key_public_device P key = Inr (dv_public d)"
  shows "\<exists>gk'. unwrap_generation_key P (om_header om) key = Inr gk'
    \<and> verify_key_commitment P gk' (mh_key_commitment (om_header om)) = Inr ()"
proof (rule verify_manifest_ok [OF verified])
  fix content device
  let ?h = "om_header om"
  assume pol: "validate_manifest_policy (om_manifest om) policy = Inr ()"
    and hdr: "validate_public_header ?h = Inr ()"
    and root: "mf_repository_root (om_manifest om) = mh_repository_root ?h"
    and audit: "validate_envelope_audit P ?h (sc_envelope_audit content) policy gk = Inr ()"
  from reader have d: "d \<in> set (pb_devices (st_body policy))" by (simp add: active_readers_def)
  have "dv_id d \<in> set (audit_recipients (sc_envelope_audit content))"
    using validate_envelope_audit_ok(3) [OF audit] reader by simp
  then obtain s where "Recipient (dv_id d) s \<in> set (sc_envelope_audit content)"
    by (auto simp: audit_recipients_mem)
  from validate_envelope_audit_ok(4) [OF audit this] obtain e seed d' enc ct where
    e: "e \<in> set (mh_generation_key_envelopes ?h)" and d': "policy_device policy (dv_id d) = Some d'"
    and wrap: "wrap_generation_key_with_seed P (pd_wrapping_public_key (dv_public d')) gk
          (generation_key_aad (mh_repository_root ?h) (mh_generation ?h) (dv_id d) (mh_key_commitment ?h)) seed = Inr (enc, ct)"
    and enc: "ge_encapsulated_key e = b64_encode P enc" "ge_ciphertext e = b64_encode P ct"
    by blast
  have "wf_devices P (pb_devices (st_body policy))" using reader(2) by (simp add: wf_policy_def)
  from policy_device_iff [OF this] d have "policy_device policy (dv_id d) = Some d" by simp
  with d' have [simp]: "d' = d" by simp
  have unwrap: "key_unwrap_generation_key P key enc ct
      (generation_key_aad (mh_repository_root ?h) (mh_generation ?h) (dv_id d) (mh_key_commitment ?h)) = Inr gk"
    using unwrap_wrap_generation_key [OF laws(2,3) gk(1) key] wrap by simp
  have "\<exists>gk'. unwrap_loop P ?h key (dv_id d) (mh_generation_key_envelopes ?h) = Inr gk'"
    by (rule unwrap_loop_succeeds [OF e _ _ unwrap gk(2)]) (use laws(2) enc in simp_all)
  then obtain gk' where loop: "unwrap_loop P ?h key (dv_id d) (mh_generation_key_envelopes ?h) = Inr gk'" ..
  have "kf_repository_root key = pd_repository_root (dv_public d)"
    using key by (auto simp: key_public_device_ok)
  also have "\<dots> = mh_repository_root ?h"
    using reader(2) d pol root by (auto simp: wf_policy_def validate_manifest_policy_def result_simps)
  finally have "unwrap_generation_key P ?h key = Inr gk'"
    using hdr key loop by (simp add: unwrap_generation_key_def key_device_id_def)
  then show ?thesis using unwrap_loop_commitment [OF loop] by blast
qed

text \<open>C15. Every active reader can open an accepted manifest: once \<^verbatim>\<open>verify_manifest\<close> has accepted a
  manifest under some generation key that matches its commitment, the device of every active
  reader of the selected policy obtains from the plaintext header, by trial decryption, a
  generation key with the signed commitment. No reader can be locked out by a signer that
  omits or corrupts an envelope.\<close>

theorem verified_manifest_readable:
  assumes laws: "hex_laws P" "b64_laws P" "hpke_laws P"
    and verified: "verify_manifest P om policy parent gk = Inr ()"
    and gk: "length gk = 32" "verify_key_commitment P gk (mh_key_commitment (om_header om)) = Inr ()"
    and reader: "d \<in> set (active_readers policy)" "wf_policy P (st_body policy)"
    and key: "key_public_device P key = Inr (dv_public d)"
  shows "\<exists>gk'. unwrap_generation_key P (om_header om) key = Inr gk'
    \<and> verify_key_commitment P gk' (mh_key_commitment (om_header om)) = Inr ()"
  using assms by (rule verified_manifest_unwraps)


section \<open>Sealing and opening are inverse\<close>

text \<open>The names \<^verbatim>\<open>serde\<close> writes for the authorization, and what the JSON codecs promise: each reads
  back what it wrote, and a probe reads the field of the full encoding.\<close>

fun authorization_name :: "manifest_authorization \<Rightarrow> string" where
  "authorization_name Writer = ''writer''"
| "authorization_name PolicyTransition = ''policy_transition''"
| "authorization_name Checkpoint = ''checkpoint''"

definition manifest_json_laws :: "'a manifest_prims_scheme \<Rightarrow> bool" where
  "manifest_json_laws P \<longleftrightarrow>
     (\<forall>x. manifest_body_of_slice P (manifest_body_to_vec P x) = Some x) \<and>
     (\<forall>x. sealed_content_of_slice P (sealed_content_to_vec P x) = Some x) \<and>
     (\<forall>x. sealed_envelope_of_slice P (sealed_envelope_to_vec P x) = Some x) \<and>
     (\<forall>x. manifest_header_of_slice P (manifest_header_to_vec P x) = Some x) \<and>
     (\<forall>x. manifest_envelope_of_slice P (manifest_envelope_to_vec P x) = Some x) \<and>
     (\<forall>x. envelope_probe P (manifest_envelope_to_vec P x) = Some (me_header x)) \<and>
     (\<forall>x. header_probe P (manifest_header_to_vec P x) = Some (ucast (mh_format_version x))) \<and>
     (\<forall>x. authorization_probe P (sealed_content_to_vec P x) = Some (authorization_name (sc_authorization x)))"

lemma authorization_name_known [simp]: "authorization_name a \<in> set authorization_names"
  by (cases a) (simp_all add: authorization_names_def)

text \<open>What \<^verbatim>\<open>seal_manifest\<close> computed, when it succeeded.\<close>

lemma seal_manifest_parts:
  assumes "seal_manifest P R key policy gk auth m = Inr bytes"
  obtains es audit body_key body_ct signer sig sealed_key sealed_ct content header where
    "validate_manifest_policy m policy = Inr ()" "mf_authorization m = auth" "validate_pack_delta m = Inr ()"
    "auth \<noteq> Checkpoint"
    "build_envelopes P R policy m gk (commit_key P gk) = Inr (es, audit)"
    "derive_subkey P gk (mf_repository_root m) (mf_generation m) ManifestBodyKey 0 = Inr body_key"
    "seal_with_key P (mr_body_nonce R) body_key (manifest_body_to_vec P
       \<lparr>mb_refs = mf_refs m, mb_new_packs = mf_new_packs m, mb_predecessor_key_wrap = mf_predecessor_key_wrap m,
        mb_introduced_policy = map_option (b64_encode P) (mf_introduced_policy m)\<rparr>)
       (manifest_body_aad (mf_repository_root m) (mf_generation m)) = Inr body_ct"
    "key_device_id P key = Inr signer"
    "content = \<lparr>sc_policy_id = mf_policy_id m, sc_policy_generation = mf_policy_generation m,
            sc_signer_device_id = signer, sc_authorization = auth,
            sc_total_pack_count = mf_total_pack_count m, sc_envelope_audit = audit\<rparr>"
    "header = \<lparr>mh_format_version = mf_format_version m, mh_repository_root = mf_repository_root m,
            mh_generation = mf_generation m, mh_previous = mf_previous m,
            mh_key_commitment = commit_key P gk, mh_generation_key_envelopes = es,
            mh_body_digest = hex_encode P (sha256 P body_ct),
            mh_sealed_header_digest = hex_encode P (sha256 P (sealed_content_to_vec P content))\<rparr>"
    "validate_public_header header = Inr ()" "validate_envelope_layout P header = Inr ()"
    "sign_domain P key MANIFEST_SIGNATURE_DOMAIN (manifest_signed_bytes (manifest_header_to_vec P header)
       (sealed_content_to_vec P content) (mh_body_digest header)) = Inr sig"
    "derive_subkey P gk (mf_repository_root m) (mf_generation m) SealedHeaderKey 0 = Inr sealed_key"
    "seal_with_key P (mr_header_nonce R) sealed_key (sealed_envelope_to_vec P
       \<lparr>se_content = b64_encode P (sealed_content_to_vec P content), se_signature = b64_encode P sig\<rparr>)
       (manifest_header_to_vec P header) = Inr sealed_ct"
    "bytes = manifest_envelope_to_vec P \<lparr>me_header = b64_encode P (manifest_header_to_vec P header),
        me_sealed_header_ciphertext = b64_encode P sealed_ct, me_body_ciphertext = b64_encode P body_ct\<rparr>"
  using assms
  by (auto simp: seal_manifest_def Let_def and_then_eq_Inr bail_if_eq_Inr split: manifest_authorization.splits)

text \<open>The header, the sealed header and the body of a sealed manifest are read back.\<close>

lemma read_header_sealed:
  assumes "manifest_json_laws P" and "b64_laws P" and "validate_public_header header = Inr ()"
    and "env = \<lparr>me_header = b64_encode P (manifest_header_to_vec P header),
        me_sealed_header_ciphertext = s, me_body_ciphertext = b\<rparr>"
  shows "read_header P (manifest_envelope_to_vec P env) = Inr (env, manifest_header_to_vec P header, header)"
proof -
  from assms(3) have "mh_format_version header = FORMAT_VERSION"
    by (auto simp: validate_public_header_def bail_if_eq_Inr)
  with assms show ?thesis
    by (simp add: read_header_def require_supported_format_def manifest_json_laws_def)
qed

lemma open_sealed_header_sealed:
  assumes "manifest_json_laws P" and "b64_laws P" and "aead_laws P" and "length nonce = 24"
    and "derive_subkey P gk (mh_repository_root header) (mh_generation header) SealedHeaderKey 0 = Inr k"
    and "mh_sealed_header_digest header = hex_encode P (sha256 P (sealed_content_to_vec P content))"
    and "seal_with_key P nonce k (sealed_envelope_to_vec P
       \<lparr>se_content = b64_encode P (sealed_content_to_vec P content), se_signature = b64_encode P sig\<rparr>) exact = Inr ct"
  shows "open_sealed_header P gk header exact ct = Inr (content, sealed_content_to_vec P content, sig)"
  using assms open_seal_with_key [OF assms(3,4,7)]
  by (simp add: open_sealed_header_def manifest_json_laws_def require_supported_authorization_def)

lemma open_body_sealed:
  assumes "manifest_json_laws P" and "b64_laws P" and "aead_laws P" and "length nonce = 24"
    and "derive_subkey P gk (mh_repository_root header) (mh_generation header) ManifestBodyKey 0 = Inr k"
    and "seal_with_key P nonce k (manifest_body_to_vec P body)
       (manifest_body_aad (mh_repository_root header) (mh_generation header)) = Inr ct"
    and "mb_introduced_policy body = map_option (b64_encode P) introduced"
  shows "open_body P gk header ct = Inr (body, introduced)"
  using assms open_seal_with_key [OF assms(3,4,6)]
  by (cases introduced) (simp_all add: open_body_def manifest_json_laws_def)

text \<open>The position checks \<^verbatim>\<open>open_manifest\<close> makes at the end.\<close>

definition well_placed :: "manifest \<Rightarrow> bool" where
  "well_placed m \<longleftrightarrow> (mf_generation m = 0) = (mf_predecessor_key_wrap m = None) \<and>
     (mf_generation m = 0) = (mf_previous m = None)"

lemma open_sealed_manifest:
  assumes laws: "manifest_json_laws P" "b64_laws P" "hex_laws P" "aead_laws P"
    and nonces: "length (mr_body_nonce R) = 24" "length (mr_header_nonce R) = 24"
    and placed: "well_placed m"
    and seal: "seal_manifest P R key policy gk auth m = Inr bytes"
  obtains om content es audit sig where
    "open_manifest P bytes gk = Inr om" "om_manifest om = m" "key_device_id P key = Inr (om_claimed_signer_id om)"
    "content = \<lparr>sc_policy_id = mf_policy_id m, sc_policy_generation = mf_policy_generation m,
            sc_signer_device_id = om_claimed_signer_id om, sc_authorization = auth,
            sc_total_pack_count = mf_total_pack_count m, sc_envelope_audit = audit\<rparr>"
    "om_exact_sealed_content om = sealed_content_to_vec P content"
    "build_envelopes P R policy m gk (commit_key P gk) = Inr (es, audit)"
    "mh_generation_key_envelopes (om_header om) = es" "mh_key_commitment (om_header om) = commit_key P gk"
    "mh_repository_root (om_header om) = mf_repository_root m" "mh_generation (om_header om) = mf_generation m"
    "mh_previous (om_header om) = mf_previous m" "mh_format_version (om_header om) = mf_format_version m"
    "validate_public_header (om_header om) = Inr ()" "validate_envelope_layout P (om_header om) = Inr ()"
    "sign_domain P key MANIFEST_SIGNATURE_DOMAIN (manifest_signed_bytes (om_exact_header om)
       (om_exact_sealed_content om) (mh_body_digest (om_header om))) = Inr (om_signature om)"
proof (rule seal_manifest_parts [OF seal])
  fix es audit body_key body_ct signer sig sealed_key sealed_ct content header
  assume parts: "mf_authorization m = auth" "validate_pack_delta m = Inr ()"
    "build_envelopes P R policy m gk (commit_key P gk) = Inr (es, audit)"
    "derive_subkey P gk (mf_repository_root m) (mf_generation m) ManifestBodyKey 0 = Inr body_key"
    "seal_with_key P (mr_body_nonce R) body_key (manifest_body_to_vec P
       \<lparr>mb_refs = mf_refs m, mb_new_packs = mf_new_packs m, mb_predecessor_key_wrap = mf_predecessor_key_wrap m,
        mb_introduced_policy = map_option (b64_encode P) (mf_introduced_policy m)\<rparr>)
       (manifest_body_aad (mf_repository_root m) (mf_generation m)) = Inr body_ct"
    "key_device_id P key = Inr signer"
    "content = \<lparr>sc_policy_id = mf_policy_id m, sc_policy_generation = mf_policy_generation m,
            sc_signer_device_id = signer, sc_authorization = auth,
            sc_total_pack_count = mf_total_pack_count m, sc_envelope_audit = audit\<rparr>"
    and header: "header = \<lparr>mh_format_version = mf_format_version m, mh_repository_root = mf_repository_root m,
            mh_generation = mf_generation m, mh_previous = mf_previous m,
            mh_key_commitment = commit_key P gk, mh_generation_key_envelopes = es,
            mh_body_digest = hex_encode P (sha256 P body_ct),
            mh_sealed_header_digest = hex_encode P (sha256 P (sealed_content_to_vec P content))\<rparr>"
    and valid: "validate_public_header header = Inr ()" "validate_envelope_layout P header = Inr ()"
    and sig: "sign_domain P key MANIFEST_SIGNATURE_DOMAIN (manifest_signed_bytes (manifest_header_to_vec P header)
       (sealed_content_to_vec P content) (mh_body_digest header)) = Inr sig"
    and sealed: "derive_subkey P gk (mf_repository_root m) (mf_generation m) SealedHeaderKey 0 = Inr sealed_key"
      "seal_with_key P (mr_header_nonce R) sealed_key (sealed_envelope_to_vec P
       \<lparr>se_content = b64_encode P (sealed_content_to_vec P content), se_signature = b64_encode P sig\<rparr>)
       (manifest_header_to_vec P header) = Inr sealed_ct"
    and bytes: "bytes = manifest_envelope_to_vec P \<lparr>me_header = b64_encode P (manifest_header_to_vec P header),
        me_sealed_header_ciphertext = b64_encode P sealed_ct, me_body_ciphertext = b64_encode P body_ct\<rparr>"
  have "mh_repository_root header = mf_repository_root m" "mh_generation header = mf_generation m"
    "mh_key_commitment header = commit_key P gk" "mh_body_digest header = hex_encode P (sha256 P body_ct)"
    "mh_sealed_header_digest header = hex_encode P (sha256 P (sealed_content_to_vec P content))"
    by (simp_all add: header)
  note fields = this
  let ?om = "\<lparr>om_header = header, om_manifest = m, om_claimed_signer_id = signer,
     om_exact_header = manifest_header_to_vec P header,
     om_exact_sealed_content = sealed_content_to_vec P content, om_signature = sig\<rparr>"
  have sh: "open_sealed_header P gk header (manifest_header_to_vec P header) sealed_ct
      = Inr (content, sealed_content_to_vec P content, sig)"
    by (rule open_sealed_header_sealed [OF laws(1,2,4) nonces(2) _ _ sealed(2)]) (simp_all add: sealed(1) fields)
  have ob: "open_body P gk header body_ct = Inr (\<lparr>mb_refs = mf_refs m, mb_new_packs = mf_new_packs m,
      mb_predecessor_key_wrap = mf_predecessor_key_wrap m,
      mb_introduced_policy = map_option (b64_encode P) (mf_introduced_policy m)\<rparr>, mf_introduced_policy m)"
    by (rule open_body_sealed [OF laws(1,2,4) nonces(1), of gk header body_key]) (simp_all add: parts fields)
  have whole: "\<lparr>mf_format_version = mh_format_version header, mf_repository_root = mh_repository_root header,
        mf_generation = mh_generation header, mf_previous = mh_previous header,
        mf_policy_id = sc_policy_id content, mf_policy_generation = sc_policy_generation content,
        mf_authorization = sc_authorization content,
        mf_total_pack_count = sc_total_pack_count content, mf_refs = mf_refs m,
        mf_new_packs = mf_new_packs m,
        mf_predecessor_key_wrap = mf_predecessor_key_wrap m,
        mf_introduced_policy = mf_introduced_policy m\<rparr> = m"
    using parts(1) by (simp add: header parts(7))
  have "open_manifest P bytes gk = Inr ?om"
    unfolding open_manifest_def bytes read_header_sealed [OF laws(1,2) valid(1) refl]
    using placed parts(2) laws(2,3)
    by (simp add: sh ob whole fields(3,4) Let_def well_placed_def word_neq_0_conv [symmetric])
      (auto simp: parts(7) bail_if_def header)
  then show thesis
    by (rule that) (use parts valid sig in \<open>simp_all add: header\<close>)
qed


lemma mset_filter_recipients_distinct:
  "wf_policy P (st_body policy) \<Longrightarrow> distinct (map dv_id (active_readers policy))"
  by (auto simp: wf_policy_def wf_devices_def active_readers_def distinct_map intro: inj_on_subset)

lemma sealed_envelopes_audit:
  assumes laws: "b64_laws P" and seeds: "\<forall>j. length (mr_seeds R j) = 32"
    and wf: "wf_policy P (st_body policy)"
    and build: "build_envelopes P R policy m gk c = Inr (es, audit)"
    and h: "mh_repository_root h = mf_repository_root m" "mh_generation h = mf_generation m"
      "mh_key_commitment h = c" "mh_generation_key_envelopes h = es"
  shows "validate_envelope_audit P h audit policy gk = Inr ()"
proof -
  let ?active = "set (map dv_id (active_readers policy))"
  from build obtain power count recipients dummies where
    rp: "recipient_pairs P m gk c (mr_seeds R) 0 (active_readers policy) = Inr recipients" and
    dp: "dummy_pairs P (mr_dummies R) 0 (count - length recipients) = Inr dummies" and
    es: "es = map (fst \<circ> snd) (sort_key fst (recipients @ dummies))"
      "audit = map (snd \<circ> snd) (sort_key fst (recipients @ dummies))"
    by (rule build_envelopes_parts)
  have mset: "mset (audit_recipients audit) = mset (map dv_id (active_readers policy))"
  proof -
    have "mset (audit_recipients audit) = mset (audit_recipients (map (snd \<circ> snd) (recipients @ dummies)))"
      by (simp add: mset_audit_recipients es)
    also have "audit_recipients (map (snd \<circ> snd) (recipients @ dummies)) = map dv_id (active_readers policy)"
      using recipient_pairs_recipients [OF rp] dummy_pairs_recipients [OF dp] by (simp add: audit_recipients_def)
    finally show ?thesis .
  qed
  have dist: "distinct (audit_recipients audit)"
    using mset mset_filter_recipients_distinct [OF wf] by (metis mset_eq_imp_distinct_iff)
  have set: "set (audit_recipients audit) = ?active"
    using mset by (metis mset_eq_setD)
  have zip: "zip es audit = map snd (sort_key fst (recipients @ dummies))"
    by (simp add: es zip_map_map zip_same_conv_map)
  have each: "\<exists>seed d enc ct. b64 P s = Inr seed \<and> length seed = 32 \<and> policy_device policy i = Some d \<and>
        wrap_generation_key_with_seed P (pd_wrapping_public_key (dv_public d)) gk
          (generation_key_aad (mf_repository_root m) (mf_generation m) i c) seed = Inr (enc, ct) \<and>
        b64_encode P enc = ge_encapsulated_key e \<and> b64_encode P ct = ge_ciphertext e"
    if mem: "(e, Recipient i s) \<in> set (zip es audit)" for e i s
  proof -
    from mem obtain p where p: "p \<in> set recipients" "snd p = (e, Recipient i s)"
      using dummy_pairs_Dummy [OF dp] by (fastforce simp: zip)
    from recipient_pairs_mem [OF rp p(1)] obtain d j enc ct where d: "d \<in> set (active_readers policy)"
      and peq: "p = (enc, \<lparr>ge_encapsulated_key = b64_encode P enc, ge_ciphertext = b64_encode P ct\<rparr>,
          Recipient (dv_id d) (b64_encode P (mr_seeds R j)))"
      and wrap: "wrap_generation_key_with_seed P (pd_wrapping_public_key (dv_public d)) gk
          (generation_key_aad (mf_repository_root m) (mf_generation m) (dv_id d) c) (mr_seeds R j) = Inr (enc, ct)"
      by blast
    have "policy_device policy (dv_id d) = Some d"
      using d wf policy_device_iff [of P policy] by (auto simp: wf_policy_def active_readers_def)
    then show ?thesis using p(2) peq wrap laws seeds by auto
  qed
  have "envelope_audit_loop P h policy gk ?active {} (zip es audit) = Inr ?active"
    unfolding envelope_audit_loop_ok using dist set each by (auto simp: h es)
  then show ?thesis
    by (simp add: validate_envelope_audit_def h Let_def) (simp add: es)
qed

lemma sealed_manifest_verifies:
  assumes laws: "manifest_json_laws P" "b64_laws P" "hex_laws P" "aead_laws P" "signature_laws P"
    and random: "length (mr_body_nonce R) = 24" "length (mr_header_nonce R) = 24" "\<forall>j. length (mr_seeds R j) = 32"
    and placed: "well_placed m" and wf: "wf_policy P (st_body policy)"
    and seal: "seal_manifest P R key policy gk auth m = Inr bytes"
    and key: "key_public_device P key = Inr pd" and role: "may_sign policy parent auth (pd_device_id pd)"
    and signer: "policy_device (case (auth, parent) of (PolicyTransition, Some p) \<Rightarrow> p | _ \<Rightarrow> policy) (pd_device_id pd)
      = Some d" "dv_public d = pd"
  shows "\<exists>om. open_manifest P bytes gk = Inr om \<and> om_manifest om = m
    \<and> om_claimed_signer_id om = pd_device_id pd \<and> verify_manifest P om policy parent gk = Inr ()"
proof (rule open_sealed_manifest [OF laws(1-4) random(1,2) placed seal])
  fix om content es audit sig
  assume opened: "open_manifest P bytes gk = Inr om" "om_manifest om = m"
    and id: "key_device_id P key = Inr (om_claimed_signer_id om)"
    and content: "content = \<lparr>sc_policy_id = mf_policy_id m, sc_policy_generation = mf_policy_generation m,
            sc_signer_device_id = om_claimed_signer_id om, sc_authorization = auth,
            sc_total_pack_count = mf_total_pack_count m, sc_envelope_audit = audit\<rparr>"
      "om_exact_sealed_content om = sealed_content_to_vec P content"
    and build: "build_envelopes P R policy m gk (commit_key P gk) = Inr (es, audit)"
    and h: "mh_generation_key_envelopes (om_header om) = es" "mh_key_commitment (om_header om) = commit_key P gk"
      "mh_repository_root (om_header om) = mf_repository_root m" "mh_generation (om_header om) = mf_generation m"
      "mh_previous (om_header om) = mf_previous m" "mh_format_version (om_header om) = mf_format_version m"
      "validate_public_header (om_header om) = Inr ()" "validate_envelope_layout P (om_header om) = Inr ()"
    and sig: "sign_domain P key MANIFEST_SIGNATURE_DOMAIN (manifest_signed_bytes (om_exact_header om)
       (om_exact_sealed_content om) (mh_body_digest (om_header om))) = Inr (om_signature om)"
  from id key have [simp]: "om_claimed_signer_id om = pd_device_id pd" by (simp add: key_device_id_def)
  have auth: "mf_authorization m = auth" "validate_manifest_policy m policy = Inr ()"
    using seal by (auto simp: seal_manifest_def and_then_eq_Inr bail_if_eq_Inr)
  have dev: "authorizing_device policy parent content = Inr d"
    using role signer(1)
    by (auto simp: authorizing_device_def content(1) may_sign_def device_where_def is_active_writer_def
        is_active_admin_def split: manifest_authorization.splits option.splits)
  have ver: "verify_domain P (pd_signing_public_key (dv_public d)) MANIFEST_SIGNATURE_DOMAIN
      (manifest_signed_bytes (om_exact_header om) (om_exact_sealed_content om) (mh_body_digest (om_header om)))
      (om_signature om) = Inr ()"
    using verify_sign_domain [OF laws(2,5) key sig] signer(2) by simp
  have audit: "validate_envelope_audit P (om_header om) audit policy gk = Inr ()"
    using sealed_envelopes_audit [OF laws(2) random(3) wf build] h by simp
  have json: "sealed_content_of_slice P (om_exact_sealed_content om) = Some content"
    using laws(1) by (simp add: manifest_json_laws_def content(2))
  have "verify_manifest P om policy parent gk = Inr ()"
    using auth dev ver audit json h(3-8) opened(2)
    by (simp add: verify_manifest_def validate_manifest_policy_def bail_if_eq_Inr)
      (simp add: content)
  with opened show ?thesis by auto
qed

text \<open>C16. Round trip: a manifest that \<^verbatim>\<open>seal_manifest\<close> sealed with a generation key opens, with the same
  key, to the same manifest with the sealing device as its claimed signer, and verifies against
  the policy when that device holds the role the transition needs and, for a policy transition,
  the same identity in the policy that authorises it.\<close>

theorem seal_open_verify:
  assumes laws: "manifest_json_laws P" "b64_laws P" "hex_laws P" "aead_laws P" "signature_laws P"
    and random: "length (mr_body_nonce R) = 24" "length (mr_header_nonce R) = 24" "\<forall>j. length (mr_seeds R j) = 32"
    and placed: "well_placed m" and wf: "wf_policy P (st_body policy)"
    and seal: "seal_manifest P R key policy gk auth m = Inr bytes"
    and key: "key_public_device P key = Inr pd" and role: "may_sign policy parent auth (pd_device_id pd)"
    and signer: "policy_device (case (auth, parent) of (PolicyTransition, Some p) \<Rightarrow> p | _ \<Rightarrow> policy) (pd_device_id pd)
      = Some d" "dv_public d = pd"
  shows "\<exists>om. open_manifest P bytes gk = Inr om \<and> om_manifest om = m
    \<and> om_claimed_signer_id om = pd_device_id pd \<and> verify_manifest P om policy parent gk = Inr ()"
  by (rule sealed_manifest_verifies [OF assms])

end
