(* ===== verification/Manifest_Links.thy ===== *)
theory Manifest_Links
  imports Manifest_Facts
begin

text \<open>
  Transitions between manifests and the links of the chain: what \<^verbatim>\<open>validate_successor\<close> and
  \<^verbatim>\<open>validate_genesis\<close> allow a manifest to change, how future formats are reported, and the
  wrapping of the predecessor's generation key.
\<close>

section \<open>Transitions\<close>

lemma pack_delta_loop_ok:
  "pack_delta_loop g n ids ps = Inr () \<longleftrightarrow>
     (\<forall>i < length ps. pk_generation (ps ! i) = g \<and> pk_ordinal (ps ! i) = of_nat (n + i) \<and> pk_plaintext_size (ps ! i) \<noteq> 0) \<and>
     distinct (map pk_id ps) \<and> set (map pk_id ps) \<inter> ids = {}"
proof (induction ps arbitrary: n ids)
  case (Cons p ps)
  have split: "(\<forall>i < length (p # ps). Q i) \<longleftrightarrow> Q 0 \<and> (\<forall>i < length ps. Q (Suc i))" for Q
    by (auto simp: less_Suc_eq_0_disj)
  show ?case
    unfolding split using Cons.IH [of "Suc n" "insert (pk_id p) ids"]
    by (auto simp: bail_if_eq_Inr)
qed simp

text \<open>A pack delta: dense ordinals from zero, the generation of the manifest, no empty pack and no
  ciphertext twice.\<close>

definition wf_pack_delta :: "manifest \<Rightarrow> bool" where
  "wf_pack_delta m \<longleftrightarrow> (\<forall>i < length (mf_new_packs m). let p = mf_new_packs m ! i in
       pk_generation p = mf_generation m \<and> pk_ordinal p = of_nat i \<and> pk_plaintext_size p \<noteq> 0) \<and>
     distinct (map pk_id (mf_new_packs m))"

lemma validate_pack_delta_ok [result_simps]: "validate_pack_delta m = Inr () \<longleftrightarrow> wf_pack_delta m"
  by (simp add: validate_pack_delta_def pack_delta_loop_ok wf_pack_delta_def Let_def)

lemma validate_introduced_policy_ok [result_simps]:
  "validate_introduced_policy P m policy intro = Inr () \<longleftrightarrow>
     (if intro then \<exists>b p. mf_introduced_policy m = Some b \<and> policy_parse P b = Inr p \<and> st_id p = st_id policy
      else mf_introduced_policy m = None)"
  by (auto simp: validate_introduced_policy_def and_then_eq_Inr bail_if_eq_Inr map_err_eq_Inr
      split: option.splits bool.splits)

text \<open>What one transition may change, stated over the two manifests.\<close>

definition transition_ok :: "'a policy_prims_scheme \<Rightarrow> manifest \<Rightarrow> manifest \<Rightarrow> policy_state \<Rightarrow> bool" where
  "transition_ok P m previous policy \<longleftrightarrow> (case mf_authorization m of
     Writer \<Rightarrow> mf_policy_id m = mf_policy_id previous \<and> mf_policy_generation m = mf_policy_generation previous
       \<and> mf_introduced_policy m = None
   | PolicyTransition \<Rightarrow> mf_refs m = mf_refs previous \<and> mf_new_packs m = []
       \<and> mf_total_pack_count m = mf_total_pack_count previous
       \<and> unat (mf_policy_generation m) = Suc (unat (mf_policy_generation previous))
       \<and> pb_previous (st_body policy) = Some (mf_policy_id previous)
       \<and> (\<exists>b p. mf_introduced_policy m = Some b \<and> policy_parse P b = Inr p \<and> st_id p = mf_policy_id m)
   | Checkpoint \<Rightarrow> False)"

lemma validate_authorization_ok:
  assumes "validate_authorization P m previous policy = Inr ()" and "mf_policy_id m = st_id policy"
    and "mf_new_packs m = [] \<Longrightarrow> mf_total_pack_count m = mf_total_pack_count previous"
  shows "transition_ok P m previous policy"
  using assms
  by (auto simp: validate_authorization_def transition_ok_def and_then_eq_Inr bail_if_eq_Inr
      validate_introduced_policy_ok checked_add_1_Some [symmetric] split: manifest_authorization.splits)

lemma successor_manifest_facts:
  assumes "manifest_validate_successor P m previous_id previous policy = Inr ()"
  shows "unat (mf_generation m) = Suc (unat (mf_generation previous))
    \<and> mf_repository_root m = mf_repository_root previous \<and> mf_previous m = Some previous_id
    \<and> mf_predecessor_key_wrap m \<noteq> None \<and> wf_pack_delta m
    \<and> unat (mf_total_pack_count m) = unat (mf_total_pack_count previous) + unat (of_nat (length (mf_new_packs m)) :: u64)
    \<and> mf_policy_id m = st_id policy \<and> mf_policy_generation m = pb_generation (st_body policy)
    \<and> transition_ok P m previous policy"
proof -
  from assms obtain total where
    vmp: "validate_manifest_policy m policy = Inr ()" and
    gen: "checked_add (mf_generation previous) 1 = Some (mf_generation m)" and
    links: "mf_repository_root m = mf_repository_root previous" "mf_previous m = Some previous_id"
      "mf_predecessor_key_wrap m \<noteq> None" and
    delta: "validate_pack_delta m = Inr ()" and
    total: "checked_add (mf_total_pack_count previous) (of_nat (length (mf_new_packs m))) = Some total"
      "mf_total_pack_count m = total" and
    auth: "validate_authorization P m previous policy = Inr ()"
    by (auto simp: manifest_validate_successor_def and_then_eq_Inr bail_if_eq_Inr ok_or_eq_Inr)
  have pol: "mf_policy_id m = st_id policy" "mf_policy_generation m = pb_generation (st_body policy)"
    using vmp by (auto simp: validate_manifest_policy_def bail_if_eq_Inr)
  have "mf_new_packs m = [] \<Longrightarrow> mf_total_pack_count m = mf_total_pack_count previous"
    using total by (auto simp: checked_add_def split: if_splits)
  with auth pol have "transition_ok P m previous policy" by (simp add: validate_authorization_ok)
  with gen links delta total pol show ?thesis
    by (simp add: checked_add_1_Some validate_pack_delta_ok checked_add_Some)
qed


lemma manifest_validate_genesis_ok:
  "manifest_validate_genesis P m policy = Inr () \<longleftrightarrow>
     validate_manifest_policy m policy = Inr () \<and> mf_generation m = 0 \<and> mf_previous m = None \<and>
     mf_authorization m = PolicyTransition \<and> mf_total_pack_count m = 0 \<and> mf_refs m = [] \<and> mf_new_packs m = [] \<and>
     mf_predecessor_key_wrap m = None \<and>
     (\<exists>b p. mf_introduced_policy m = Some b \<and> policy_parse P b = Inr p \<and> st_id p = st_id policy)"
  by (auto simp: manifest_validate_genesis_def and_then_eq_Inr bail_if_eq_Inr validate_introduced_policy_ok)

section \<open>Future formats\<close>

text \<open>C27. A manifest of another format version is reported as unsupported by both entry points, before
  the schema of this version is consulted: whatever else the bytes contain, and whatever key is
  tried, the error has an \<^verbatim>\<open>Unsupported\<close> cause and names the version.\<close>

theorem future_format_is_unsupported:
  assumes "envelope_probe P bytes = Some header_text" and "b64 P header_text = Inr header"
    and "header_probe P header = Some version" and "version \<noteq> 6"
  shows "\<exists>e. peek_manifest_header P bytes = Inl e \<and> open_manifest P bytes gk = Inl e
    \<and> has_cause is_Unsupported e \<and> root e = Unsupported (''unsupported manifest format '' @ show_nat (unat version))"
proof -
  let ?e = "err (Unsupported (''unsupported manifest format '' @ show_nat (unat version)))"
  have "require_supported_format P bytes = Inl ?e"
    using assms by (simp add: require_supported_format_def FORMAT_VERSION_def bail_if_def)
  then have "read_header P bytes = Inl ?e" by (simp add: read_header_def)
  then show ?thesis
    by (simp add: peek_manifest_header_def open_manifest_def has_cause_def)
qed

section \<open>The predecessor's key\<close>

lemma predecessor_key_unwraps:
  assumes laws: "b64_laws P" "hex_laws P" "aead_laws P"
    and wrap: "wrap_predecessor_key P nonce gk prev (mf_repository_root m) (mf_generation m) previous_id = Inr link"
    and sizes: "length nonce = 24" "length prev = 32"
    and m: "mf_previous m = Some previous_id" "mf_predecessor_key_wrap m = Some link"
    and parent: "mh_repository_root h = mf_repository_root m" "verify_key_commitment P prev (mh_key_commitment h) = Inr ()"
      "unat (mf_generation m) = Suc (unat (mh_generation h))"
  shows "unwrap_predecessor_key P gk m h = Inr prev"
proof -
  from wrap obtain k sealed where
    "derive_subkey P gk (mf_repository_root m) (mf_generation m) PredecessorLinkKey 0 = Inr k"
    and seal: "seal_with_key P nonce k prev (predecessor_link_aad (mf_repository_root m) (mf_generation m) previous_id) = Inr sealed"
    and "link = b64_encode P sealed"
    by (auto simp: wrap_predecessor_key_def and_then_eq_Inr)
  then show ?thesis
    using laws sizes m parent open_seal_with_key [OF laws(3) sizes(1) seal]
    by (simp add: unwrap_predecessor_key_def checked_add_1_Some)
qed

text \<open>Key links: the predecessor's generation key that a writer wraps into generation \<open>g\<close> is the key
  a reader of that manifest unwraps, provided the parent's header has the previous generation,
  the same root and the commitment of that key.\<close>

theorem predecessor_key_round_trip:
  assumes laws: "b64_laws P" "hex_laws P" "aead_laws P"
    and wrap: "wrap_predecessor_key P nonce gk prev (mf_repository_root m) (mf_generation m) previous_id = Inr link"
    and sizes: "length nonce = 24" "length prev = 32"
    and m: "mf_previous m = Some previous_id" "mf_predecessor_key_wrap m = Some link"
    and parent: "mh_repository_root h = mf_repository_root m" "mh_key_commitment h = commit_key P prev"
      "unat (mf_generation m) = Suc (unat (mh_generation h))"
  shows "unwrap_predecessor_key P gk m h = Inr prev"
  by (rule predecessor_key_unwraps [OF laws wrap sizes m]) (use laws parent in simp_all)

text \<open>An unwrapped predecessor key always matches the commitment the parent's header carries.\<close>

lemma unwrap_predecessor_key_ok:
  "unwrap_predecessor_key P gk m h = Inr k \<Longrightarrow>
     verify_key_commitment P k (mh_key_commitment h) = Inr () \<and> length k = 32 \<and>
     unat (mf_generation m) = Suc (unat (mh_generation h)) \<and> mh_repository_root h = mf_repository_root m"
  by (auto simp: unwrap_predecessor_key_def and_then_eq_Inr bail_if_eq_Inr ok_or_eq_Inr checked_add_1_Some [symmetric])

end
