(* ===== verification/Sample_Codec.thy ===== *)
theory Sample_Codec
  imports Manifest_Links
begin

text \<open>
  A concrete, executable instance of the parameters of the model. The properties take the
  third-party crates as arguments with their documented laws as hypotheses; the functions here
  satisfy all the laws at once, so the closed instances of the properties can be evaluated. The
  codecs are prefix-free byte encodings built from combinators. The primitives are stand-ins
  that obey the functional laws and nothing more.
\<close>

section \<open>Codec combinators\<close>

type_synonym 'a enc = "'a \<Rightarrow> bytes"
type_synonym 'a dec = "bytes \<Rightarrow> ('a \<times> bytes) option"

definition dec_then :: "'a dec \<Rightarrow> ('a \<Rightarrow> 'b dec) \<Rightarrow> 'b dec" where
  "dec_then d f b = (case d b of None \<Rightarrow> None | Some (x, r) \<Rightarrow> f x r)"

definition dec_done :: "'a \<Rightarrow> 'a dec" where
  "dec_done x b = Some (x, b)"

definition whole :: "'a dec \<Rightarrow> bytes \<Rightarrow> 'a option" where
  "whole d b = (case d b of Some (x, []) \<Rightarrow> Some x | _ \<Rightarrow> None)"

lemma dec_then_append: "d (e @ r) = Some (x, r) \<Longrightarrow> dec_then d f (e @ r) = f x r"
  by (simp add: dec_then_def)

fun enc_nat :: "nat enc" where
  "enc_nat 0 = [0]"
| "enc_nat (Suc n) = 1 # enc_nat n"

fun dec_nat :: "nat dec" where
  "dec_nat [] = None"
| "dec_nat (b # bs) = (if b = 0 then Some (0, bs)
     else case dec_nat bs of None \<Rightarrow> None | Some (n, r) \<Rightarrow> Some (Suc n, r))"

definition dec_take :: "nat \<Rightarrow> bytes dec" where
  "dec_take n b = (if n \<le> length b then Some (take n b, drop n b) else None)"

definition enc_u64 :: "u64 enc" where "enc_u64 = u64_to_le_bytes"
definition dec_u64 :: "u64 dec" where "dec_u64 = dec_then (dec_take 8) (\<lambda>b. dec_done (of_nat (le_value b)))"
definition enc_u32 :: "u32 enc" where "enc_u32 = u32_to_le_bytes"
definition dec_u32 :: "u32 dec" where "dec_u32 = dec_then (dec_take 4) (\<lambda>b. dec_done (of_nat (le_value b)))"

definition string_of_bytes :: "bytes \<Rightarrow> string" where
  "string_of_bytes b = map (\<lambda>w. char_of (unat w)) b"

definition enc_string :: "string enc" where
  "enc_string s = enc_nat (length s) @ as_bytes s"

definition dec_string :: "string dec" where
  "dec_string = dec_then dec_nat (\<lambda>n. dec_then (dec_take n) (\<lambda>b. dec_done (string_of_bytes b)))"

fun enc_bool :: "bool enc" where
  "enc_bool True = [1]"
| "enc_bool False = [0]"

fun dec_bool :: "bool dec" where
  "dec_bool [] = None"
| "dec_bool (b # bs) = Some (b \<noteq> 0, bs)"

fun enc_option :: "'a enc \<Rightarrow> 'a option enc" where
  "enc_option e None = [0]"
| "enc_option e (Some x) = 1 # e x"

fun dec_option :: "'a dec \<Rightarrow> 'a option dec" where
  "dec_option d [] = None"
| "dec_option d (b # bs) = (if b = 0 then Some (None, bs) else dec_then d (\<lambda>x. dec_done (Some x)) bs)"

definition enc_list :: "'a enc \<Rightarrow> 'a list enc" where
  "enc_list e xs = enc_nat (length xs) @ concat (map e xs)"

fun dec_times :: "'a dec \<Rightarrow> nat \<Rightarrow> 'a list dec" where
  "dec_times d 0 = dec_done []"
| "dec_times d (Suc n) = dec_then d (\<lambda>x. dec_then (dec_times d n) (\<lambda>xs. dec_done (x # xs)))"

definition dec_list :: "'a dec \<Rightarrow> 'a list dec" where
  "dec_list d = dec_then dec_nat (dec_times d)"

lemma codec_nat: "dec_nat (enc_nat n @ r) = Some (n, r)"
  by (induction n) auto

lemma dec_take_append [simp]: "length b = n \<Longrightarrow> dec_take n (b @ r) = Some (b, r)"
  by (auto simp: dec_take_def)

lemma codec_u64: "dec_u64 (enc_u64 w @ r) = Some (w, r)"
proof -
  have "unat w < 256 ^ 8" using unsigned_less [where 'a = nat, of w] by simp
  then show ?thesis
    by (simp add: dec_u64_def enc_u64_def dec_then_def dec_done_def u64_to_le_bytes_def le_value_le_bytes)
qed

lemma codec_u32: "dec_u32 (enc_u32 w @ r) = Some (w, r)"
proof -
  have "unat w < 256 ^ 4" using unsigned_less [where 'a = nat, of w] by simp
  then show ?thesis
    by (simp add: dec_u32_def enc_u32_def dec_then_def dec_done_def u32_to_le_bytes_def le_value_le_bytes)
qed

lemma string_of_as_bytes [simp]: "string_of_bytes (as_bytes s) = s"
  by (simp add: string_of_bytes_def as_bytes_def comp_def unat_of_char_byte)

lemma as_bytes_string_of [simp]: "as_bytes (string_of_bytes b) = b"
proof -
  have "of_char (char_of (unat w) :: char) = (w :: byte)" for w :: byte
  proof -
    have "unat w < 256" using unsigned_less [where 'a = nat, of w] by simp
    then have "of_char (char_of (unat w) :: char) = (unat w :: nat)" by (simp add: of_char_of)
    then have "unat (of_char (char_of (unat w) :: char) :: byte) = unat w" by (simp add: unat_of_char_byte)
    then show ?thesis by (simp only: unsigned_word_eqI)
  qed
  then show ?thesis by (simp add: string_of_bytes_def as_bytes_def comp_def)
qed

lemma codec_string: "dec_string (enc_string s @ r) = Some (s, r)"
  by (simp add: dec_string_def enc_string_def dec_then_def dec_done_def codec_nat)

lemma codec_bool: "dec_bool (enc_bool b @ r) = Some (b, r)"
  by (cases b) auto

lemma codec_option: "(\<And>x r. d (e x @ r) = Some (x, r)) \<Longrightarrow> dec_option d (enc_option e x @ r) = Some (x, r)"
  by (cases x) (auto simp: dec_then_def dec_done_def)

lemma dec_times_append:
  "(\<And>x r. d (e x @ r) = Some (x, r)) \<Longrightarrow> dec_times d (length xs) (concat (map e xs) @ r) = Some (xs, r)"
  by (induction xs) (auto simp: dec_then_def dec_done_def)

lemma codec_list: "(\<And>x r. d (e x @ r) = Some (x, r)) \<Longrightarrow> dec_list d (enc_list e xs @ r) = Some (xs, r)"
  by (simp add: dec_list_def enc_list_def dec_then_def codec_nat dec_times_append)

lemmas codec_rules = codec_nat codec_u64 codec_u32 codec_string codec_bool codec_option codec_list

lemma length_enc_nat [simp]: "length (enc_nat n) = Suc n"
  by (induction n) simp_all

lemma length_string_of_bytes [simp]: "length (string_of_bytes b) = length b"
  by (simp add: string_of_bytes_def)

section \<open>Codecs of the stored types\<close>

definition enc_public :: "public_device enc" where
  "enc_public d = enc_string (pd_repository_root d) @ enc_string (pd_device_id d)
     @ enc_string (pd_signing_public_key d) @ enc_string (pd_wrapping_public_key d)"

definition dec_public :: "public_device dec" where
  "dec_public = dec_then dec_string (\<lambda>a. dec_then dec_string (\<lambda>b. dec_then dec_string (\<lambda>c.
     dec_then dec_string (\<lambda>d. dec_done \<lparr>pd_repository_root = a, pd_device_id = b,
       pd_signing_public_key = c, pd_wrapping_public_key = d\<rparr>))))"

definition enc_key_file :: "key_file enc" where
  "enc_key_file k = enc_u32 (kf_format_version k) @ enc_string (kf_repository_root k)
     @ enc_string (kf_signing_private_key k) @ enc_string (kf_wrapping_private_key k)"

definition dec_key_file :: "key_file dec" where
  "dec_key_file = dec_then dec_u32 (\<lambda>a. dec_then dec_string (\<lambda>b. dec_then dec_string (\<lambda>c.
     dec_then dec_string (\<lambda>d. dec_done \<lparr>kf_format_version = a, kf_repository_root = b,
       kf_signing_private_key = c, kf_wrapping_private_key = d\<rparr>))))"

definition enc_roles :: "device_roles enc" where
  "enc_roles r = enc_bool (dr_reader r) @ enc_bool (dr_writer r) @ enc_bool (dr_administrator r)"

definition dec_roles :: "device_roles dec" where
  "dec_roles = dec_then dec_bool (\<lambda>a. dec_then dec_bool (\<lambda>b. dec_then dec_bool (\<lambda>c.
     dec_done \<lparr>dr_reader = a, dr_writer = b, dr_administrator = c\<rparr>)))"

definition enc_device :: "device_record enc" where
  "enc_device d = enc_public (dv_public d) @ enc_string (dv_label d) @ enc_roles (dv_roles d)
     @ enc_option enc_u64 (dv_revoked_at d)"

definition dec_device :: "device_record dec" where
  "dec_device = dec_then dec_public (\<lambda>a. dec_then dec_string (\<lambda>b. dec_then dec_roles (\<lambda>c.
     dec_then (dec_option dec_u64) (\<lambda>d. dec_done \<lparr>dv_public = a, dv_label = b, dv_roles = c, dv_revoked_at = d\<rparr>))))"

definition enc_policy_body :: "policy_body enc" where
  "enc_policy_body b = enc_u32 (pb_format_version b) @ enc_string (pb_repository_root b)
     @ enc_u64 (pb_generation b) @ enc_option enc_string (pb_previous b)
     @ enc_u32 (pb_admin_threshold b) @ enc_list enc_device (pb_devices b)"

definition dec_policy_body :: "policy_body dec" where
  "dec_policy_body = dec_then dec_u32 (\<lambda>a. dec_then dec_string (\<lambda>b. dec_then dec_u64 (\<lambda>c.
     dec_then (dec_option dec_string) (\<lambda>d. dec_then dec_u32 (\<lambda>e. dec_then (dec_list dec_device) (\<lambda>f.
     dec_done \<lparr>pb_format_version = a, pb_repository_root = b, pb_generation = c, pb_previous = d,
       pb_admin_threshold = e, pb_devices = f\<rparr>))))))"

definition enc_policy_signature :: "policy_signature enc" where
  "enc_policy_signature s = enc_string (sg_device_id s) @ enc_string (sg_signature s)"

definition dec_policy_signature :: "policy_signature dec" where
  "dec_policy_signature = dec_then dec_string (\<lambda>a. dec_then dec_string (\<lambda>b.
     dec_done \<lparr>sg_device_id = a, sg_signature = b\<rparr>))"

definition enc_policy_object :: "policy_object enc" where
  "enc_policy_object p = enc_string (po_body p) @ enc_list enc_policy_signature (po_signatures p)"

definition dec_policy_object :: "policy_object dec" where
  "dec_policy_object = dec_then dec_string (\<lambda>a. dec_then (dec_list dec_policy_signature) (\<lambda>b.
     dec_done \<lparr>po_body = a, po_signatures = b\<rparr>))"

definition enc_pack :: "pack_descriptor enc" where
  "enc_pack p = enc_string (pk_id p) @ enc_u64 (pk_plaintext_size p) @ enc_u64 (pk_generation p) @ enc_u64 (pk_ordinal p)"

definition dec_pack :: "pack_descriptor dec" where
  "dec_pack = dec_then dec_string (\<lambda>a. dec_then dec_u64 (\<lambda>b. dec_then dec_u64 (\<lambda>c. dec_then dec_u64 (\<lambda>d.
     dec_done \<lparr>pk_id = a, pk_plaintext_size = b, pk_generation = c, pk_ordinal = d\<rparr>))))"

definition enc_key_envelope :: "generation_key_envelope enc" where
  "enc_key_envelope e = enc_string (ge_encapsulated_key e) @ enc_string (ge_ciphertext e)"

definition dec_key_envelope :: "generation_key_envelope dec" where
  "dec_key_envelope = dec_then dec_string (\<lambda>a. dec_then dec_string (\<lambda>b.
     dec_done \<lparr>ge_encapsulated_key = a, ge_ciphertext = b\<rparr>))"

fun enc_audit :: "envelope_audit_entry enc" where
  "enc_audit Dummy = [0]"
| "enc_audit (Recipient i s) = 1 # enc_string i @ enc_string s"

fun dec_audit :: "envelope_audit_entry dec" where
  "dec_audit [] = None"
| "dec_audit (b # bs) = (if b = 0 then Some (Dummy, bs)
     else dec_then dec_string (\<lambda>i. dec_then dec_string (\<lambda>s. dec_done (Recipient i s))) bs)"

definition enc_authorization :: "manifest_authorization enc" where
  "enc_authorization a = [case a of Writer \<Rightarrow> 0 | PolicyTransition \<Rightarrow> 1 | Checkpoint \<Rightarrow> 2]"

fun dec_authorization :: "manifest_authorization dec" where
  "dec_authorization [] = None"
| "dec_authorization (b # bs) = Some (if b = 0 then Writer else if b = 1 then PolicyTransition else Checkpoint, bs)"

definition enc_content :: "sealed_header_content enc" where
  "enc_content c = enc_string (sc_policy_id c) @ enc_u64 (sc_policy_generation c)
     @ enc_string (sc_signer_device_id c) @ enc_authorization (sc_authorization c)
     @ enc_u64 (sc_total_pack_count c) @ enc_list enc_audit (sc_envelope_audit c)"

definition dec_content :: "sealed_header_content dec" where
  "dec_content = dec_then dec_string (\<lambda>a. dec_then dec_u64 (\<lambda>b. dec_then dec_string (\<lambda>c.
     dec_then dec_authorization (\<lambda>d. dec_then dec_u64 (\<lambda>e. dec_then (dec_list dec_audit) (\<lambda>f.
     dec_done \<lparr>sc_policy_id = a, sc_policy_generation = b, sc_signer_device_id = c, sc_authorization = d,
       sc_total_pack_count = e, sc_envelope_audit = f\<rparr>))))))"

definition enc_sealed_envelope :: "sealed_header_envelope enc" where
  "enc_sealed_envelope e = enc_string (se_content e) @ enc_string (se_signature e)"

definition dec_sealed_envelope :: "sealed_header_envelope dec" where
  "dec_sealed_envelope = dec_then dec_string (\<lambda>a. dec_then dec_string (\<lambda>b.
     dec_done \<lparr>se_content = a, se_signature = b\<rparr>))"

definition enc_ref :: "(string \<times> string) enc" where
  "enc_ref r = enc_string (fst r) @ enc_string (snd r)"

definition dec_ref :: "(string \<times> string) dec" where
  "dec_ref = dec_then dec_string (\<lambda>a. dec_then dec_string (\<lambda>b. dec_done (a, b)))"

definition enc_body :: "manifest_body enc" where
  "enc_body b = enc_list enc_ref (mb_refs b) @ enc_list enc_pack (mb_new_packs b)
     @ enc_option enc_string (mb_predecessor_key_wrap b) @ enc_option enc_string (mb_introduced_policy b)"

definition dec_body :: "manifest_body dec" where
  "dec_body = dec_then (dec_list dec_ref) (\<lambda>a. dec_then (dec_list dec_pack) (\<lambda>b.
     dec_then (dec_option dec_string) (\<lambda>c. dec_then (dec_option dec_string) (\<lambda>d.
     dec_done \<lparr>mb_refs = a, mb_new_packs = b, mb_predecessor_key_wrap = c, mb_introduced_policy = d\<rparr>))))"

definition enc_header :: "manifest_header enc" where
  "enc_header h = enc_u32 (mh_format_version h) @ enc_string (mh_repository_root h)
     @ enc_u64 (mh_generation h) @ enc_option enc_string (mh_previous h) @ enc_string (mh_key_commitment h)
     @ enc_list enc_key_envelope (mh_generation_key_envelopes h)
     @ enc_string (mh_body_digest h) @ enc_string (mh_sealed_header_digest h)"

definition dec_header :: "manifest_header dec" where
  "dec_header = dec_then dec_u32 (\<lambda>a. dec_then dec_string (\<lambda>b. dec_then dec_u64 (\<lambda>c.
     dec_then (dec_option dec_string) (\<lambda>d. dec_then dec_string (\<lambda>e. dec_then (dec_list dec_key_envelope) (\<lambda>f.
     dec_then dec_string (\<lambda>g. dec_then dec_string (\<lambda>h. dec_done
     \<lparr>mh_format_version = a, mh_repository_root = b, mh_generation = c, mh_previous = d,
      mh_key_commitment = e, mh_generation_key_envelopes = f, mh_body_digest = g,
      mh_sealed_header_digest = h\<rparr>))))))))"

text \<open>The last byte repeats the generation, so the stand-in digest, which reads the end of its argument,
  separates the manifests of one chain.\<close>

definition generation_mark :: "manifest_envelope \<Rightarrow> byte" where
  "generation_mark e = (case whole dec_header (as_bytes (me_header e)) of None \<Rightarrow> 0 | Some h \<Rightarrow> ucast (mh_generation h))"

definition enc_envelope :: "manifest_envelope enc" where
  "enc_envelope e = enc_string (me_header e) @ enc_string (me_sealed_header_ciphertext e)
     @ enc_string (me_body_ciphertext e) @ [generation_mark e]"

definition dec_envelope :: "manifest_envelope dec" where
  "dec_envelope = dec_then dec_string (\<lambda>a. dec_then dec_string (\<lambda>b. dec_then dec_string (\<lambda>c.
     dec_then (dec_take 1) (\<lambda>_.
     dec_done \<lparr>me_header = a, me_sealed_header_ciphertext = b, me_body_ciphertext = c\<rparr>))))"

lemmas dec_simps = dec_then_def dec_done_def codec_rules

lemma codec_public: "dec_public (enc_public x @ r) = Some (x, r)"
  by (simp add: dec_public_def enc_public_def dec_simps)

lemma codec_key_file: "dec_key_file (enc_key_file x @ r) = Some (x, r)"
  by (simp add: dec_key_file_def enc_key_file_def dec_simps)

lemma codec_roles: "dec_roles (enc_roles x @ r) = Some (x, r)"
  by (simp add: dec_roles_def enc_roles_def dec_simps)

lemma codec_device: "dec_device (enc_device x @ r) = Some (x, r)"
  by (simp add: dec_device_def enc_device_def dec_simps codec_public codec_roles)

lemma codec_policy_body: "dec_policy_body (enc_policy_body x @ r) = Some (x, r)"
  by (simp add: dec_policy_body_def enc_policy_body_def dec_simps codec_device)

lemma codec_policy_signature: "dec_policy_signature (enc_policy_signature x @ r) = Some (x, r)"
  by (simp add: dec_policy_signature_def enc_policy_signature_def dec_simps)

lemma codec_policy_object: "dec_policy_object (enc_policy_object x @ r) = Some (x, r)"
  by (simp add: dec_policy_object_def enc_policy_object_def dec_simps codec_policy_signature)

lemma codec_pack: "dec_pack (enc_pack x @ r) = Some (x, r)"
  by (simp add: dec_pack_def enc_pack_def dec_simps)

lemma codec_key_envelope: "dec_key_envelope (enc_key_envelope x @ r) = Some (x, r)"
  by (simp add: dec_key_envelope_def enc_key_envelope_def dec_simps)

lemma codec_audit: "dec_audit (enc_audit x @ r) = Some (x, r)"
  by (cases x) (simp_all add: dec_simps)

lemma codec_authorization: "dec_authorization (enc_authorization x @ r) = Some (x, r)"
  by (cases x) (simp_all add: enc_authorization_def)

lemma codec_content: "dec_content (enc_content x @ r) = Some (x, r)"
  by (simp add: dec_content_def enc_content_def dec_simps codec_audit codec_authorization)

lemma codec_sealed_envelope: "dec_sealed_envelope (enc_sealed_envelope x @ r) = Some (x, r)"
  by (simp add: dec_sealed_envelope_def enc_sealed_envelope_def dec_simps)

lemma codec_ref: "dec_ref (enc_ref x @ r) = Some (x, r)"
  by (simp add: dec_ref_def enc_ref_def dec_simps)

lemma codec_body: "dec_body (enc_body x @ r) = Some (x, r)"
  by (simp add: dec_body_def enc_body_def dec_simps codec_ref codec_pack)

lemma codec_header: "dec_header (enc_header x @ r) = Some (x, r)"
  by (simp add: dec_header_def enc_header_def dec_simps codec_key_envelope)

lemma codec_envelope: "dec_envelope (enc_envelope x @ r) = Some (x, r)"
proof -
  have "dec_take 1 (generation_mark x # r) = Some ([generation_mark x], r)"
    using dec_take_append [of "[generation_mark x]" 1 r] by simp
  then show ?thesis by (simp add: dec_envelope_def enc_envelope_def dec_simps)
qed

lemma whole_enc: "(\<And>r. d (e @ r) = Some (x, r)) \<Longrightarrow> whole d e = Some x"
  by (metis append.right_neutral list.simps(4) option.simps(5) prod.case whole_def)

lemma whole_codecs:
  "whole dec_public (enc_public a) = Some a" "whole dec_key_file (enc_key_file b) = Some b"
  "whole dec_policy_body (enc_policy_body c) = Some c" "whole dec_policy_object (enc_policy_object d) = Some d"
  "whole dec_content (enc_content e) = Some e" "whole dec_sealed_envelope (enc_sealed_envelope f) = Some f"
  "whole dec_body (enc_body g) = Some g" "whole dec_header (enc_header h) = Some h"
  "whole dec_envelope (enc_envelope i) = Some i"
  by (rule whole_enc, rule codec_public codec_key_file codec_policy_body codec_policy_object codec_content
      codec_sealed_envelope codec_body codec_header codec_envelope)+

end
