(* ===== verification/Sample.thy ===== *)
theory Sample
  imports Sample_Codec
begin

text \<open>
  The concrete primitives, the proof that they satisfy every law the properties assume, and two
  devices, policies and manifests built with the model's own operations. The closed instances of
  the properties of the policy and of the manifest use them.
\<close>

section \<open>Primitives\<close>

definition hex_digit :: "nat \<Rightarrow> char" where
  "hex_digit n = (if n < 10 then char_of (48 + n) else char_of (87 + n))"

fun s_hex_encode :: "bytes \<Rightarrow> string" where
  "s_hex_encode [] = []"
| "s_hex_encode (b # bs) = hex_digit (unat b div 16) # hex_digit (unat b mod 16) # s_hex_encode bs"

definition unhex_digit :: "char \<Rightarrow> nat option" where
  "unhex_digit c = (let n = of_char c in
     if 48 \<le> n \<and> n \<le> 57 then Some (n - 48) else if 97 \<le> n \<and> n \<le> 102 then Some (n - 87) else None)"

fun s_hex_decode :: "string \<Rightarrow> bytes option" where
  "s_hex_decode [] = Some []"
| "s_hex_decode [c] = None"
| "s_hex_decode (c # d # cs) = (case (unhex_digit c, unhex_digit d, s_hex_decode cs) of
     (Some a, Some b, Some r) \<Rightarrow> Some (of_nat (16 * a + b) # r) | _ \<Rightarrow> None)"

definition pad_to :: "nat \<Rightarrow> bytes \<Rightarrow> bytes" where
  "pad_to n b = take n (b @ replicate n 0)"

definition tag16 :: bytes where
  "tag16 = replicate 16 0"

definition untag :: "bytes \<Rightarrow> bytes option" where
  "untag c = (if length c < 16 then None else Some (take (length c - 16) c))"

definition sample :: "'a \<Rightarrow> 'a manifest_prims_scheme" where
  "sample extra =
     \<lparr>sha256 = \<lambda>b. pad_to 32 (rev b),
      hex_encode = s_hex_encode, hex_decode = s_hex_decode,
      b64_encode = string_of_bytes, b64_decode = \<lambda>s. Some (as_bytes s),
      ed_verifying_key = \<lambda>sk. sk, ed_sign = \<lambda>sk m. sk, ed_public_ok = \<lambda>_. True,
      ed_signature_ok = \<lambda>_. True, ed_verify_strict = \<lambda>pk m sig. sig = pk,
      kem_private_ok = \<lambda>k. length k = 32, kem_public_ok = \<lambda>k. length k = 32,
      kem_encapped_ok = \<lambda>k. length k = 32, kem_sk_to_pk = \<lambda>k. k,
      kem_gen_keypair = \<lambda>rng. ((pad_to 32 rng, pad_to 32 rng), rng), chacha_rng = \<lambda>seed. seed,
      hpke_seal = \<lambda>pk info m aad rng. Some (pad_to 32 rng, m @ tag16),
      hpke_open = \<lambda>sk enc info c aad. untag c,
      hkdf_expand = \<lambda>salt ikm info. Some (pad_to 32 ikm),
      xchacha_encrypt = \<lambda>key nonce m aad. Some (m @ tag16),
      xchacha_decrypt = \<lambda>key nonce c aad. untag c,
      stream_encrypt = \<lambda>key nonce n final m aad. Some (m @ tag16),
      stream_decrypt = \<lambda>key nonce n final c aad. untag c,
      key_file_to_vec = enc_key_file, key_file_of_slice = whole dec_key_file,
      public_device_to_vec = enc_public, public_device_of_slice = whole dec_public,
      policy_body_to_vec = enc_policy_body, policy_body_of_slice = whole dec_policy_body,
      policy_object_to_vec = enc_policy_object, policy_object_of_slice = whole dec_policy_object,
      policy_object_probe = \<lambda>b. map_option po_body (whole dec_policy_object b),
      policy_body_probe = \<lambda>b. map_option (\<lambda>p. ucast (pb_format_version p)) (whole dec_policy_body b),
      manifest_body_to_vec = enc_body, manifest_body_of_slice = whole dec_body,
      sealed_content_to_vec = enc_content, sealed_content_of_slice = whole dec_content,
      sealed_envelope_to_vec = enc_sealed_envelope, sealed_envelope_of_slice = whole dec_sealed_envelope,
      manifest_header_to_vec = enc_header, manifest_header_of_slice = whole dec_header,
      manifest_envelope_to_vec = enc_envelope, manifest_envelope_of_slice = whole dec_envelope,
      envelope_probe = \<lambda>b. map_option me_header (whole dec_envelope b),
      header_probe = \<lambda>b. map_option (\<lambda>h. ucast (mh_format_version h)) (whole dec_header b),
      authorization_probe = \<lambda>b. map_option (\<lambda>c. authorization_name (sc_authorization c)) (whole dec_content b),
      \<dots> = extra\<rparr>"

section \<open>The laws hold\<close>

lemma length_pad_to [simp]: "length (pad_to n b) = n"
  by (simp add: pad_to_def)

lemma untag_tag [simp]: "untag (m @ tag16) = Some m"
  by (simp add: untag_def tag16_def)

lemma unhex_hex_digit [simp]: "n < 16 \<Longrightarrow> unhex_digit (hex_digit n) = Some n"
  by (auto simp: unhex_digit_def hex_digit_def Let_def)

lemma is_lower_hex_digit [simp]: "n < 16 \<Longrightarrow> is_lower_hex (hex_digit n)"
  by (auto simp: is_lower_hex_def hex_digit_def less_eq_char_def)

lemma byte_nibbles: "unat (b :: byte) div 16 < 16" "of_nat (16 * (unat b div 16) + unat b mod 16) = b"
proof -
  have "unat b < 256" using unsigned_less [where 'a = nat, of b] by simp
  then show "unat b div 16 < 16" by simp
  have "16 * (unat b div 16) + unat b mod 16 = unat b" by simp
  then show "of_nat (16 * (unat b div 16) + unat b mod 16) = b" by simp
qed

lemma s_hex: "s_hex_decode (s_hex_encode b) = Some b \<and> length (s_hex_encode b) = 2 * length b \<and>
    list_all is_lower_hex (s_hex_encode b)"
  by (induction b) (simp_all add: byte_nibbles del: of_nat_add of_nat_mult)

lemma sample_laws [simp]:
  "hex_laws (sample x)" "b64_laws (sample x)" "sha256_laws (sample x)" "aead_laws (sample x)"
  "signature_laws (sample x)" "hpke_laws (sample x)" "manifest_json_laws (sample x)"
  using s_hex
  by (simp_all add: sample_def hex_laws_def b64_laws_def sha256_laws_def aead_laws_def signature_laws_def
      hpke_laws_def manifest_json_laws_def whole_codecs) (simp_all add: tag16_def)

section \<open>Devices and policies\<close>

abbreviation sp :: manifest_prims where
  "sp \<equiv> sample ()"

text \<open>A device with constant signing and wrapping secrets; its identifier is read off the second.\<close>

definition sample_id :: "byte \<Rightarrow> string" where
  "sample_id w = s_hex_encode (replicate 32 w)"

definition sample_root :: string where
  "sample_root = sample_id 2"

definition sample_key :: "byte \<Rightarrow> byte \<Rightarrow> key_file" where
  "sample_key s w = \<lparr>kf_format_version = 3, kf_repository_root = sample_root,
     kf_signing_private_key = string_of_bytes (replicate 32 s),
     kf_wrapping_private_key = string_of_bytes (replicate 32 w)\<rparr>"

definition sample_device :: "byte \<Rightarrow> byte \<Rightarrow> public_device" where
  "sample_device s w = \<lparr>pd_repository_root = sample_root, pd_device_id = sample_id w,
     pd_signing_public_key = string_of_bytes (replicate 32 s),
     pd_wrapping_public_key = string_of_bytes (replicate 32 w)\<rparr>"

definition owner :: device_record where
  "owner = \<lparr>dv_public = sample_device 1 2, dv_label = ''owner'', dv_roles = roles_owner, dv_revoked_at = None\<rparr>"

definition guest :: "u64 option \<Rightarrow> device_record" where
  "guest revoked = \<lparr>dv_public = sample_device 3 4, dv_label = ''guest'', dv_roles = roles_collaborator,
     dv_revoked_at = revoked\<rparr>"

definition sample_policy :: "u64 \<Rightarrow> string option \<Rightarrow> device_record list \<Rightarrow> policy_state" where
  "sample_policy g previous devices =
     \<lparr>st_id = CHR ''p'' # show_nat (unat g),
      st_body = \<lparr>pb_format_version = 6, pb_repository_root = sample_root, pb_generation = g,
        pb_previous = previous, pb_admin_threshold = 1, pb_devices = devices\<rparr>,
      st_exact_body = [], st_signatures = [\<lparr>sg_device_id = sample_id 2, sg_signature = string_of_bytes (replicate 32 1)\<rparr>]\<rparr>"

lemma sample_hash: "length w = 32 \<Longrightarrow> sha256 (sample x) (t @ s @ w) = rev w"
  by (simp add: sample_def pad_to_def)

lemma b64_sample [simp]: "b64 (sample x) s = Inr (as_bytes s)"
  by (simp add: b64_def sample_def)

lemma b64_encode_sample [simp]: "b64_encode (sample x) = string_of_bytes"
  by (simp add: sample_def)

lemma hex_encode_sample [simp]: "hex_encode (sample x) = s_hex_encode"
  by (simp add: sample_def)

lemma rev_replicate_sample: "sha256 (sample x) (t @ s @ replicate 32 w) = replicate 32 w"
  using sample_hash [of "replicate 32 w" x t s] by (simp only: length_replicate rev_replicate)

lemma sample_public_device [simp]: "key_public_device (sample x) (sample_key s w) = Inr (sample_device s w)"
proof -
  have "device_id_for_public_keys (sample x) (replicate 32 s) (replicate 32 w) = sample_id w"
    by (simp only: device_id_for_public_keys_def rev_replicate_sample hex_encode_sample sample_id_def)
  then show ?thesis
    unfolding key_public_device_ok
    by (intro exI [of _ "replicate 32 s"] exI [of _ "replicate 32 w"])
      (simp add: sample_key_def sample_device_def signing_key_def wrapping_private_key_def, simp add: sample_def)
qed

lemma sample_id_inject [simp]: "sample_id v = sample_id w \<longleftrightarrow> v = w"
proof -
  have inj: "s_hex_encode a = s_hex_encode b \<Longrightarrow> a = b" for a b
    using s_hex by (metis option.inject)
  show ?thesis
  proof
    assume "sample_id v = sample_id w"
    then have "replicate 32 v = replicate 32 w" unfolding sample_id_def by (rule inj)
    then have "replicate 32 v ! 0 = replicate 32 w ! 0" by (rule arg_cong)
    then show "v = w" by simp
  qed simp
qed

lemma validate_sample_root [simp]: "validate_root sample_root = Inr ()"
  using s_hex [of "replicate 32 2"] by (simp add: validate_root_def sample_root_def sample_id_def bail_if_def)

lemma validate_sample_device [simp]: "validate_public_device (sample x) (sample_device s w) = Inr ()"
  by (rule public_device_valid [where k = "sample_key s w"])
    (simp_all, simp add: sample_key_def)

lemma sample_device_id [simp]: "pd_device_id (sample_device s w) = sample_id w"
  "pd_repository_root (sample_device s w) = sample_root"
  "pd_signing_public_key (sample_device s w) = string_of_bytes (replicate 32 s)"
  by (simp_all add: sample_device_def)

lemma sample_labels [simp]: "validate_device_label ''owner'' = Inr ()" "validate_device_label ''guest'' = Inr ()"
  by (simp_all add: validate_device_label_def MAX_DEVICE_LABEL_BYTES_def trim_ascii_newline is_whitespace_def
      chars_def char_width_def code_point_ascii is_control_or_invisible_def is_control_def bail_if_def)

lemma owner_fields [simp]: "dv_public owner = sample_device 1 2" "dv_active owner" "dv_roles owner = roles_owner"
  "dv_label owner = ''owner''" "dv_revoked_at owner = None"
  by (simp_all add: owner_def dv_active_def)

lemma guest_fields [simp]: "dv_public (guest r) = sample_device 3 4" "dv_active (guest r) \<longleftrightarrow> r = None"
  "dv_roles (guest r) = roles_collaborator" "dv_label (guest r) = ''guest''" "dv_revoked_at (guest r) = r"
  by (simp_all add: guest_def dv_active_def)

lemma sample_roles [simp]: "dr_reader roles_owner" "dr_writer roles_owner" "dr_administrator roles_owner"
  "dr_reader roles_collaborator" "dr_writer roles_collaborator" "\<not> dr_administrator roles_collaborator"
  by (simp_all add: roles_owner_def roles_collaborator_def)

lemma sample_policy_fields [simp]:
  "pb_devices (st_body (sample_policy g p ds)) = ds" "pb_generation (st_body (sample_policy g p ds)) = g"
  "pb_previous (st_body (sample_policy g p ds)) = p" "pb_repository_root (st_body (sample_policy g p ds)) = sample_root"
  "st_id (sample_policy g p ds) = CHR ''p'' # show_nat (unat g)"
  "pb_admin_threshold (st_body (sample_policy g p ds)) = 1"
  "st_signatures (sample_policy g p ds) =
     [\<lparr>sg_device_id = sample_id 2, sg_signature = string_of_bytes (replicate 32 1)\<rparr>]"
  by (simp_all add: sample_policy_def)

lemma sample_policy_wf [simp]: "wf_policy (sample x) (st_body (sample_policy g p [owner, guest r]))"
  by (auto simp: wf_policy_def wf_devices_def wf_device_def)

lemma sample_signature [simp]:
  "verify_domain (sample x) (string_of_bytes (replicate 32 s)) tag m (replicate 32 s) = Inr ()"
  by (simp add: verify_domain_def) (simp add: sample_def)

lemma sample_successor:
  assumes "checked_add g 1 = Some g'" and "r \<noteq> None \<longrightarrow> r' = r" and "r = None \<longrightarrow> r' \<in> {None, Some g'}"
  shows "policy_validate_successor (sample x)
    (sample_policy g' (Some (CHR ''p'' # show_nat (unat g))) [owner, guest r']) (sample_policy g p [owner, guest r]) = Inr ()"
  using assms
  by (auto simp: policy_validate_successor_def verify_against_admins_ok check_old_devices_ok
      check_revocation_stamps_ok policy_device_def validate_active_roles_ok and_then_eq_Inr bail_if_eq_Inr)


lemma sample_policy_json [simp]: "policy_json_laws (sample x)"
  by (simp add: policy_json_laws_def sample_def whole_codecs)

section \<open>Instances of the policy properties\<close>

theorem revocation_is_permanent_witness:
  "\<not> is_active_reader (sample_policy 3 (Some (CHR ''p'' # show_nat 2)) [owner, guest (Some 2)]) (sample_id 4)"
proof -
  let ?p = "sample_policy 2 (Some ''p1'') [owner, guest (Some 2)]"
  let ?q = "sample_policy 3 (Some (CHR ''p'' # show_nat 2)) [owner, guest (Some 2)]"
  have "checked_add 2 1 = Some 3" by (simp add: checked_add_def)
  then have "policy_validate_successor sp ?q ?p = Inr ()"
    using sample_successor [of 2 3 "Some 2" "Some 2" "()" "Some ''p1''"] by simp
  then have d: "policy_descends sp ?p ?q" by (rule policy_descends.extend [OF policy_descends.start])
  have "policy_device ?p (sample_id 4) = Some (guest (Some 2))" by (simp add: policy_device_def)
  with d show ?thesis
    using revocation_is_permanent [of sp ?p ?q "sample_id 4" "guest (Some 2)" 2] by simp
qed

theorem successor_is_authorized_witness:
  "is_active_admin (sample_policy 1 (Some ''p0'') [owner, guest None]) (sample_id 2) \<and>
   policy_validate_successor sp (sample_policy 2 (Some (CHR ''p'' # show_nat 1)) [owner, guest (Some 2)])
     (sample_policy 1 (Some ''p0'') [owner, guest None]) = Inr ()"
proof -
  let ?p = "sample_policy 1 (Some ''p0'') [owner, guest None]"
  let ?q = "sample_policy 2 (Some (CHR ''p'' # show_nat 1)) [owner, guest (Some 2)]"
  have "checked_add 1 1 = Some 2" by (simp add: checked_add_def)
  then have v: "policy_validate_successor sp ?q ?p = Inr ()"
    using sample_successor [of 1 2 None "Some 2" "()" "Some ''p0''"] by simp
  have "wf_devices sp (pb_devices (st_body ?p))"
    using sample_policy_wf [of "()" 1 "Some ''p0''" None] by (simp only: wf_policy_def)
  with v show ?thesis
    using successor_is_authorized [of sp ?q ?p] by simp
qed

lemma sample_genesis: "\<exists>st bytes. policy_genesis sp (key_file_generate sp (replicate 32 1) (replicate 32 2)) ''owner''
    = Inr (st, bytes)"
proof -
  have r: "repository_root_for_public_keys sp (replicate 32 1) (replicate 32 2) = sample_root"
    by (simp only: repository_root_for_public_keys_def rev_replicate_sample hex_encode_sample sample_id_def sample_root_def)
  have "key_file_generate sp (replicate 32 1) (replicate 32 2) = sample_key 1 2"
    using r by (simp add: key_file_generate_def sample_key_def) (simp add: sample_def)
  moreover have "wf_policy sp \<lparr>pb_format_version = FORMAT_VERSION, pb_repository_root = sample_root, pb_generation = 0,
      pb_previous = None, pb_admin_threshold = 1, pb_devices = [owner]\<rparr>"
    by (simp add: wf_policy_def wf_devices_def wf_device_def)
  moreover have "\<exists>sig. sign_domain sp (sample_key 1 2) t m = Inr sig" for t m
    by (simp add: sign_domain_def signing_key_def sample_key_def)
  moreover have "kf_repository_root (sample_key 1 2) = sample_root" by (simp add: sample_key_def)
  ultimately show ?thesis
    by (auto simp: policy_genesis_def policy_create_def wf_policy_def validate_devices_ok validate_device_roots_ok
        validate_active_roles_ok owner_def [symmetric] key_device_id_def Let_def result_simps)
qed


theorem genesis_policy_accepted_witness:
  "\<exists>st bytes. policy_parse sp bytes = Inr st \<and> policy_validate_genesis sp st
     (kf_repository_root (key_file_generate sp (replicate 32 1) (replicate 32 2))) = Inr ()"
proof -
  let ?key = "key_file_generate sp (replicate 32 1) (replicate 32 2)"
  from sample_genesis obtain st bytes where "policy_genesis sp ?key ''owner'' = Inr (st, bytes)" by blast
  moreover have "kem_private_ok sp (replicate 32 2)" by (simp add: sample_def)
  ultimately show ?thesis
    using genesis_policy_accepted [of sp "replicate 32 1" "replicate 32 2" ?key "''owner''" st bytes]
    by (intro exI [of _ st] exI [of _ bytes]) simp
qed

section \<open>A sealed manifest\<close>

definition sample_random :: manifest_random where
  "sample_random = \<lparr>mr_seeds = \<lambda>j. replicate 32 (of_nat (j + 1)),
     mr_dummies = \<lambda>j. (replicate 32 (of_nat (j + 101)), replicate 32 0, []),
     mr_body_nonce = replicate 24 0, mr_header_nonce = replicate 24 1\<rparr>"

definition sample_manifest :: manifest where
  "sample_manifest = \<lparr>mf_format_version = 6, mf_repository_root = sample_root, mf_generation = 1,
     mf_previous = Some ''m0'', mf_policy_id = CHR ''p'' # show_nat 0, mf_policy_generation = 0,
     mf_authorization = Writer, mf_total_pack_count = 1, mf_refs = [(''refs/heads/main'', ''c1'')],
     mf_new_packs = [\<lparr>pk_id = ''k'', pk_plaintext_size = 5, pk_generation = 1, pk_ordinal = 0\<rparr>],
     mf_predecessor_key_wrap = Some ''w'', mf_introduced_policy = None\<rparr>"

definition policy_a :: policy_state where
  "policy_a = sample_policy 0 None [owner, guest None]"

lemma hex64_encode [simp]: "length b = 32 \<Longrightarrow> hex64 (s_hex_encode b)"
  using s_hex [of b] by (auto simp: hex64_def list_all_iff is_lower_hex_def is_ascii_hexdigit_def)

lemma sample_wrap [simp]: "length seed = 32 \<Longrightarrow>
  wrap_generation_key_with_seed (sample x) (string_of_bytes (replicate 32 w)) gk aad seed = Inr (seed, gk @ tag16)"
  by (simp add: wrap_generation_key_with_seed_def) (simp add: sample_def pad_to_def)

lemma sample_dummy [simp]: "length seed = 32 \<Longrightarrow>
  dummy_generation_envelope (sample x) seed k aad = Inr (seed, k @ tag16)"
  by (simp add: dummy_generation_envelope_def) (simp add: sample_def pad_to_def)

lemma sample_subkey: "\<exists>k. derive_subkey (sample x) gk sample_root g kind n = Inr k"
proof -
  have "hex_decode (sample x) sample_root = Some (replicate 32 2)"
    using s_hex [of "replicate 32 2"] by (simp only: sample_def sample_root_def sample_id_def prims.simps)
  then show ?thesis by (simp add: derive_subkey_def) (simp add: sample_def)
qed

lemma sample_wrapping_key: "pd_wrapping_public_key (sample_device s w) = string_of_bytes (replicate 32 w)"
  by (simp add: sample_device_def)

lemma replicate_32_order [simp]: "replicate 32 a < replicate 32 b \<longleftrightarrow> a < b" "replicate 32 a \<le> replicate 32 b \<longleftrightarrow> a \<le> b"
  for a b :: byte
  by (auto simp: numeral_eq_Suc)

lemma sample_envelopes:
  assumes "length gk = 32"
  shows "\<exists>es audit. build_envelopes (sample x) sample_random policy_a sample_manifest gk c = Inr (es, audit) \<and>
    length es = 4 \<and> envelope_layout_loop (sample x) None es = Inr ()"
proof -
  have readers: "active_readers policy_a = [owner, guest None]"
    by (simp add: active_readers_def policy_a_def)
  have pow: "checked_next_power_of_two (Suc (Suc 0)) = Some 2"
    by (simp add: checked_next_power_of_two_def pow2_above.simps)
  let ?e = "\<lambda>w k. \<lparr>ge_encapsulated_key = b64_encode (sample x) (replicate 32 w), ge_ciphertext = b64_encode (sample x) (k @ tag16)\<rparr>"
  let ?r = "\<lambda>w i. (replicate 32 w, ?e w gk, Recipient i (b64_encode (sample x) (replicate 32 w)))"
  let ?d = "\<lambda>w. (replicate 32 w, ?e w (replicate 32 0), Dummy)"
  have rp: "recipient_pairs (sample x) sample_manifest gk c (mr_seeds sample_random) 0 [owner, guest None]
      = Inr [?r 1 (sample_id 2), ?r 2 (sample_id 4)]"
    by (simp add: sample_random_def sample_wrapping_key Let_def)
  have dp: "dummy_pairs (sample x) (mr_dummies sample_random) 0 2 = Inr [?d 101, ?d 102]"
    by (simp add: numeral_2_eq_2 sample_random_def)
  have "sort_key fst ([?r 1 (sample_id 2), ?r 2 (sample_id 4)] @ [?d 101, ?d 102])
      = [?r 1 (sample_id 2), ?r 2 (sample_id 4), ?d 101, ?d 102]"
    by simp
  then have "build_envelopes (sample x) sample_random policy_a sample_manifest gk c =
     Inr ([?e 1 gk, ?e 2 gk, ?e 101 (replicate 32 0), ?e 102 (replicate 32 0)],
          [Recipient (sample_id 2) (b64_encode (sample x) (replicate 32 1)),
           Recipient (sample_id 4) (b64_encode (sample x) (replicate 32 2)), Dummy, Dummy])"
    by (simp add: build_envelopes_def readers pow rp dp Let_def MIN_GENERATION_ENVELOPES_def
        MAX_GENERATION_ENVELOPES_def del: recipient_pairs.simps)
  moreover have "envelope_layout_loop (sample x) None
      [?e 1 gk, ?e 2 gk, ?e 101 (replicate 32 0), ?e 102 (replicate 32 0)] = Inr ()"
    using assms by (simp add: HPKE_ENCAPSULATED_KEY_SIZE_def HPKE_CIPHERTEXT_SIZE_def tag16_def word_le_nat_alt)
  ultimately show ?thesis by simp
qed


lemma sample_manifest_fields [simp]:
  "mf_format_version sample_manifest = 6" "mf_repository_root sample_manifest = sample_root"
  "mf_generation sample_manifest = 1" "mf_authorization sample_manifest = Writer"
  "mf_introduced_policy sample_manifest = None" "mf_previous sample_manifest = Some ''m0''"
  "mf_predecessor_key_wrap sample_manifest = Some ''w''"
  by (simp_all add: sample_manifest_def)

lemma sample_manifest_valid [simp]:
  "validate_manifest_policy sample_manifest policy_a = Inr ()" "validate_pack_delta sample_manifest = Inr ()"
  by (simp_all add: validate_manifest_policy_def policy_a_def sample_manifest_def FORMAT_VERSION_def bail_if_def
      validate_pack_delta_def)

lemma sample_sign [simp]: "sign_domain (sample x) (sample_key s w) t m = Inr (replicate 32 s)"
  by (simp add: sign_domain_def signing_key_def sample_key_def) (simp add: sample_def)

lemma sample_seal_with_key [simp]: "seal_with_key (sample x) n k m a = Inr (SYMMETRIC_MAGIC @ n @ m @ tag16)"
  by (simp add: seal_with_key_def sample_def)

lemma sample_sha_length [simp]: "length (sha256 (sample x) b) = 32"
  by (simp add: sample_def)

lemma hex64_sample_root [simp]: "hex64 sample_root"
  unfolding sample_root_def sample_id_def by (rule hex64_encode) simp

lemma sample_sealed:
  assumes "length gk = 32"
  obtains bytes where "seal_manifest (sample x) sample_random (sample_key 1 2) policy_a gk Writer sample_manifest = Inr bytes"
proof -
  from sample_envelopes [OF assms, of x "commit_key (sample x) gk"] obtain es audit where
    es: "build_envelopes (sample x) sample_random policy_a sample_manifest gk (commit_key (sample x) gk) = Inr (es, audit)"
      "length es = 4" "envelope_layout_loop (sample x) None es = Inr ()" by blast
  from sample_subkey obtain k k' where
    "derive_subkey (sample x) gk sample_root 1 ManifestBodyKey 0 = Inr k"
    "derive_subkey (sample x) gk sample_root 1 SealedHeaderKey 0 = Inr k'" by metis
  then have "\<exists>bytes. seal_manifest (sample x) sample_random (sample_key 1 2) policy_a gk Writer sample_manifest = Inr bytes"
    using es by (simp add: seal_manifest_def validate_introduced_policy_def key_device_id_def validate_public_header_def
        validate_envelope_layout_def commit_key_def Let_def bail_if_def FORMAT_VERSION_def
        MIN_GENERATION_ENVELOPES_def MAX_GENERATION_ENVELOPES_def is_power_of_two.simps)
  then show thesis using that by blast
qed

lemma policy_a_wf [simp]: "wf_policy (sample x) (st_body policy_a)"
  by (simp add: policy_a_def)

lemma policy_a_owner [simp]: "policy_device policy_a (sample_id 2) = Some owner"
  by (simp add: policy_a_def policy_device_def)

section \<open>Instances of the manifest properties\<close>

definition sample_gk :: bytes where
  "sample_gk = replicate 32 7"

theorem build_envelopes_padded_witness:
  "\<exists>es audit. build_envelopes sp sample_random policy_a sample_manifest sample_gk ''c'' = Inr (es, audit) \<and>
     length audit = length es \<and> mset (audit_recipients audit) = mset (map dv_id (active_readers policy_a))"
proof -
  from sample_envelopes [of sample_gk "()" "''c''"] obtain es audit where
    e: "build_envelopes sp sample_random policy_a sample_manifest sample_gk ''c'' = Inr (es, audit)"
    by (auto simp: sample_gk_def)
  then show ?thesis using build_envelopes_padded [OF e] by blast
qed

theorem seal_open_verify_witness:
  "\<exists>bytes om. seal_manifest sp sample_random (sample_key 1 2) policy_a sample_gk Writer sample_manifest = Inr bytes \<and>
     open_manifest sp bytes sample_gk = Inr om \<and> om_manifest om = sample_manifest \<and>
     verify_manifest sp om policy_a None sample_gk = Inr ()"
proof -
  from sample_sealed [of sample_gk "()"] obtain bytes where
    s: "seal_manifest sp sample_random (sample_key 1 2) policy_a sample_gk Writer sample_manifest = Inr bytes"
    by (auto simp: sample_gk_def)
  have "\<exists>om. open_manifest sp bytes sample_gk = Inr om \<and> om_manifest om = sample_manifest
    \<and> om_claimed_signer_id om = pd_device_id (sample_device 1 2) \<and> verify_manifest sp om policy_a None sample_gk = Inr ()"
    by (rule seal_open_verify [OF _ _ _ _ _ _ _ _ _ _ s, where d = owner])
      (simp_all add: sample_random_def well_placed_def may_sign_def is_active_writer_def)
  with s show ?thesis by blast
qed


text \<open>An accepted manifest, by sealing and opening.\<close>

lemma sample_opened:
  obtains om where "verify_manifest sp om policy_a None sample_gk = Inr ()" "om_manifest om = sample_manifest"
    "verify_key_commitment sp sample_gk (mh_key_commitment (om_header om)) = Inr ()"
proof -
  from sample_sealed [of sample_gk "()"] obtain bytes where
    s: "seal_manifest sp sample_random (sample_key 1 2) policy_a sample_gk Writer sample_manifest = Inr bytes"
    by (auto simp: sample_gk_def)
  have "\<exists>om. open_manifest sp bytes sample_gk = Inr om \<and> om_manifest om = sample_manifest
    \<and> om_claimed_signer_id om = pd_device_id (sample_device 1 2) \<and> verify_manifest sp om policy_a None sample_gk = Inr ()"
    by (rule sealed_manifest_verifies [OF _ _ _ _ _ _ _ _ _ _ s, where d = owner])
      (simp_all add: sample_random_def well_placed_def may_sign_def is_active_writer_def)
  then obtain om where om: "open_manifest sp bytes sample_gk = Inr om" "om_manifest om = sample_manifest"
    "verify_manifest sp om policy_a None sample_gk = Inr ()" by blast
  moreover from om(1) have "verify_key_commitment sp sample_gk (mh_key_commitment (om_header om)) = Inr ()"
    by (auto simp: open_manifest_def and_then_eq_Inr bail_if_eq_Inr Let_def)
  ultimately show thesis using that by blast
qed

theorem verified_manifest_is_authorized_witness:
  "\<exists>om. verify_manifest sp om policy_a None sample_gk = Inr () \<and> mf_authorization (om_manifest om) \<noteq> Checkpoint
     \<and> mf_policy_id (om_manifest om) = st_id policy_a"
proof (rule sample_opened)
  fix om assume v: "verify_manifest sp om policy_a None sample_gk = Inr ()"
  then show ?thesis using verified_manifest_is_authorized [OF v] by blast
qed

theorem verified_manifest_readable_witness:
  "\<exists>om gk. verify_manifest sp om policy_a None sample_gk = Inr () \<and> unwrap_generation_key sp (om_header om) (sample_key 3 4) = Inr gk"
proof (rule sample_opened)
  fix om assume v: "verify_manifest sp om policy_a None sample_gk = Inr ()"
    and c: "verify_key_commitment sp sample_gk (mh_key_commitment (om_header om)) = Inr ()"
  have "guest None \<in> set (active_readers policy_a)" by (simp add: active_readers_def policy_a_def)
  then have "\<exists>gk. unwrap_generation_key sp (om_header om) (sample_key 3 4) = Inr gk \<and>
      verify_key_commitment sp gk (mh_key_commitment (om_header om)) = Inr ()"
    by (intro verified_manifest_readable [OF _ _ _ v _ c, where d = "guest None"]) (simp_all add: sample_gk_def)
  with v show ?thesis by blast
qed

definition sample_parent :: manifest where
  "sample_parent = \<lparr>mf_format_version = 6, mf_repository_root = sample_root, mf_generation = 0,
     mf_previous = None, mf_policy_id = CHR ''p'' # show_nat 0, mf_policy_generation = 0,
     mf_authorization = PolicyTransition, mf_total_pack_count = 0, mf_refs = [], mf_new_packs = [],
     mf_predecessor_key_wrap = None, mf_introduced_policy = Some []\<rparr>"


theorem future_format_is_unsupported_witness:
  "\<exists>e. open_manifest sp (enc_envelope \<lparr>me_header = string_of_bytes (enc_header \<lparr>mh_format_version = 7,
       mh_repository_root = [], mh_generation = 0, mh_previous = None, mh_key_commitment = [],
       mh_generation_key_envelopes = [], mh_body_digest = [], mh_sealed_header_digest = []\<rparr>),
     me_sealed_header_ciphertext = [], me_body_ciphertext = []\<rparr>) sample_gk = Inl e \<and> has_cause is_Unsupported e"
proof -
  let ?h = "\<lparr>mh_format_version = 7, mh_repository_root = [], mh_generation = 0, mh_previous = None,
      mh_key_commitment = [], mh_generation_key_envelopes = [], mh_body_digest = [], mh_sealed_header_digest = []\<rparr>"
  let ?b = "enc_envelope \<lparr>me_header = string_of_bytes (enc_header ?h), me_sealed_header_ciphertext = [],
      me_body_ciphertext = []\<rparr>"
  have "envelope_probe sp ?b = Some (string_of_bytes (enc_header ?h))" "header_probe sp (enc_header ?h) = Some 7"
    by (simp_all add: sample_def whole_codecs)
  then show ?thesis
    using future_format_is_unsupported [of sp ?b "string_of_bytes (enc_header ?h)" "enc_header ?h" 7 sample_gk]
    by auto
qed

theorem predecessor_key_round_trip_witness:
  "\<exists>link. wrap_predecessor_key sp (replicate 24 0) sample_gk (replicate 32 9) sample_root 1 ''m0'' = Inr link \<and>
     unwrap_predecessor_key sp sample_gk (sample_manifest\<lparr>mf_predecessor_key_wrap := Some link\<rparr>)
       \<lparr>mh_format_version = 6, mh_repository_root = sample_root, mh_generation = 0, mh_previous = None,
        mh_key_commitment = commit_key sp (replicate 32 9), mh_generation_key_envelopes = [],
        mh_body_digest = [], mh_sealed_header_digest = []\<rparr> = Inr (replicate 32 9)"
proof -
  let ?k = "replicate 32 (9 :: byte)"
  from sample_subkey [of "()" sample_gk 1 PredecessorLinkKey 0] obtain link where
    w: "wrap_predecessor_key sp (replicate 24 0) sample_gk ?k sample_root 1 ''m0'' = Inr link"
    by (auto simp: wrap_predecessor_key_def)
  have "unwrap_predecessor_key sp sample_gk (sample_manifest\<lparr>mf_predecessor_key_wrap := Some link\<rparr>)
       \<lparr>mh_format_version = 6, mh_repository_root = sample_root, mh_generation = 0, mh_previous = None,
        mh_key_commitment = commit_key sp ?k, mh_generation_key_envelopes = [],
        mh_body_digest = [], mh_sealed_header_digest = []\<rparr> = Inr ?k"
    by (rule predecessor_key_round_trip [where nonce = "replicate 24 0" and previous_id = "''m0''" and link = link])
      (use w in simp_all)
  with w show ?thesis by blast
qed

end
