(* ===== verification/Chain.thy ===== *)
theory Chain
  imports Manifest_Links
begin

text \<open>
  The part of \<^verbatim>\<open>src/repository.rs\<close> that authenticates a chain of manifests: \<^verbatim>\<open>chain_from\<close> walks
  from a head to the genesis manifest, unwrapping each predecessor's key, and
  \<^verbatim>\<open>verify_opened_chain\<close> authenticates the opened manifests oldest first. The walk takes the
  function that reads the material of a manifest as an argument, as the Rust code takes a
  closure, and threads the recovery budget. It terminates because each predecessor has the
  generation before.
\<close>

section \<open>Data\<close>

record opened_state =
  os_id :: string
  os_manifest :: manifest
  os_header :: manifest_header
  os_policy :: policy_state
  os_generation_key :: bytes
  os_verified_signer :: string

type_synonym material = "string \<times> bytes \<times> manifest_header"
type_synonym unverified = "string \<times> opened_manifest \<times> bytes"

datatype recovery_class = Valid | Invalid | Unverifiable | UnsupportedFormat | Unavailable | Discontinuous

record recovery_budget =
  rb_crypto_operations :: u64
  rb_bytes_read :: u64

definition MAX_RECOVERY_BYTES :: u64 where
  "MAX_RECOVERY_BYTES = 64 * 1024 * 1024"

definition MAX_RECOVERY_CRYPTO_OPERATIONS :: u64 where
  "MAX_RECOVERY_CRYPTO_OPERATIONS = 1000000"

section \<open>Errors\<close>

definition proven_invalid :: "error \<Rightarrow> error" where
  "proven_invalid e = (if has_cause is_Unsupported e then e else context_of InvalidState e)"

fun is_unavailable :: "cause \<Rightarrow> bool" where
  "is_unavailable (ObjectUnavailable _ _ _) = True"
| "is_unavailable MissingStorageHead = True"
| "is_unavailable (Io k) = (k \<noteq> InvalidData)"
| "is_unavailable _ = False"

definition classify_recovery_error :: "error \<Rightarrow> recovery_class" where
  "classify_recovery_error e =
     (if has_cause is_Unsupported e then UnsupportedFormat
      else if has_cause (\<lambda>c. c = NotActiveReader) e then Unverifiable
      else if has_cause (\<lambda>c. c = ForeignRepository) e then Discontinuous
      else if has_cause is_unavailable e then Unavailable
      else if downcast (\<lambda>c. c = InvalidState) e then Invalid
      else Unverifiable)"

section \<open>The budget\<close>

definition charge_manifest ::
    "recovery_budget \<Rightarrow> manifest_header \<Rightarrow> nat \<Rightarrow> unit result \<times> recovery_budget" where
  "charge_manifest b header byte_count =
     (case checked_add (rb_bytes_read b) (of_nat byte_count) of
        None \<Rightarrow> (Inl (err (Msg ''recovery byte budget overflow'')), b)
      | Some bytes_read \<Rightarrow>
          let b1 = b\<lparr>rb_bytes_read := bytes_read\<rparr> in
          if bytes_read > MAX_RECOVERY_BYTES
          then (Inl (err (BudgetExhausted ''recovery manifest byte budget exhausted'')), b1)
          else (case Option.bind (checked_mul (of_nat (length (mh_generation_key_envelopes header))) 2)
                       (\<lambda>v. checked_add v 1) of
              None \<Rightarrow> (Inl (err (Msg ''recovery crypto budget overflow'')), b1)
            | Some operations \<Rightarrow>
                (case checked_add (rb_crypto_operations b1) operations of
                   None \<Rightarrow> (Inl (err (Msg ''recovery crypto budget overflow'')), b1)
                 | Some crypto \<Rightarrow>
                     let b2 = b1\<lparr>rb_crypto_operations := crypto\<rparr> in
                     if crypto > MAX_RECOVERY_CRYPTO_OPERATIONS
                     then (Inl (err (BudgetExhausted ''recovery cryptographic-operation budget exhausted'')), b2)
                     else (Inr (), b2))))"

definition charge ::
    "recovery_budget option \<Rightarrow> manifest_header \<Rightarrow> nat \<Rightarrow> unit result \<times> recovery_budget option" where
  "charge budget header byte_count = (case budget of
     None \<Rightarrow> (Inr (), None)
   | Some b \<Rightarrow> (case charge_manifest b header byte_count of (r, b') \<Rightarrow> (r, Some b')))"

section \<open>Walking the chain\<close>

lemma open_manifest_generation:
  "open_manifest P bytes gk = Inr om \<Longrightarrow> mf_generation (om_manifest om) = mh_generation (om_header om)
     \<and> mf_previous (om_manifest om) = mh_previous (om_header om)
     \<and> verify_key_commitment P gk (mh_key_commitment (om_header om)) = Inr ()"
  by (auto simp: open_manifest_def and_then_eq_Inr bail_if_eq_Inr Let_def)

function chain_loop ::
    "'a manifest_prims_scheme \<Rightarrow> (string \<Rightarrow> material result) \<Rightarrow> string set \<Rightarrow> string \<Rightarrow> opened_manifest \<Rightarrow> bytes
       \<Rightarrow> unverified list \<Rightarrow> recovery_budget option \<Rightarrow> unverified list result \<times> recovery_budget option" where
  "chain_loop P read_material seen i opened generation_key unverified budget =
     (if i \<in> seen then (Inl (proven_invalid (err (Msg ''manifest chain contains a cycle''))), budget)
      else case mf_previous (om_manifest opened) of
        None \<Rightarrow>
          if mf_generation (om_manifest opened) \<noteq> 0
          then (Inl (proven_invalid (err (Msg ''manifest chain terminated above generation zero''))), budget)
          else (Inr (unverified @ [(i, opened, generation_key)]), budget)
      | Some previous_id \<Rightarrow>
     (case read_material previous_id of
        Inl e \<Rightarrow> (Inl e, budget)
      | Inr (parent_id, parent_encrypted, parent_header) \<Rightarrow>
     (case charge budget parent_header (length parent_encrypted) of
        (Inl e, budget') \<Rightarrow> (Inl e, budget')
      | (Inr _, budget') \<Rightarrow>
     (case map_err proven_invalid (unwrap_predecessor_key P generation_key (om_manifest opened) parent_header) of
        Inl e \<Rightarrow> (Inl e, budget')
      | Inr parent_key \<Rightarrow>
     (case map_err proven_invalid (open_manifest P parent_encrypted parent_key) of
        Inl e \<Rightarrow> (Inl e, budget')
      | Inr parent \<Rightarrow>
          if om_header parent \<noteq> parent_header
          then (Inl (proven_invalid (err (Msg ''predecessor manifest header changed while opening''))), budget')
          else chain_loop P read_material (insert i seen) parent_id parent parent_key
                 (unverified @ [(i, opened, generation_key)]) budget')))))"
  by pat_completeness auto

termination
  by (relation "measure (\<lambda>(P, read_material, seen, i, opened, k, u, b). unat (mf_generation (om_manifest opened)))")
    (auto simp: map_err_eq_Inr dest!: unwrap_predecessor_key_ok open_manifest_generation)

declare chain_loop.simps [simp del]

section \<open>Authenticating the opened manifests\<close>

fun insert_pack_ids :: "string set \<Rightarrow> pack_descriptor list \<Rightarrow> string set result" where
  "insert_pack_ids seen [] = Inr seen"
| "insert_pack_ids seen (pack # packs) =
     bail_if (pk_id pack \<in> seen) (Msg (''manifest chain repeats pack '' @ pk_id pack)) (
     insert_pack_ids (insert (pk_id pack) seen) packs)"

text \<open>The policy an entry selects and the parent policy its signature is checked against.\<close>

definition select_policy ::
    "'a policy_prims_scheme \<Rightarrow> string \<Rightarrow> opened_state list \<Rightarrow> manifest \<Rightarrow> (policy_state \<times> policy_state option) result" where
  "select_policy P key_root chain m =
     (case chain of
        [] \<Rightarrow>
          and_then (ok_or (mf_introduced_policy m)
            (Msg ''genesis manifest is missing its introduced policy'')) (\<lambda>policy_bytes.
          and_then (policy_parse P policy_bytes) (\<lambda>policy.
          and_then (policy_validate_genesis P policy key_root) (\<lambda>_.
          and_then (manifest_validate_genesis P m policy) (\<lambda>_.
          Inr (policy, None)))))
      | parent # _ \<Rightarrow>
          and_then
            (case mf_authorization m of
               Writer \<Rightarrow>
                 bail_if (mf_introduced_policy m \<noteq> None)
                   (Msg ''ordinary manifest unexpectedly introduces a policy'') (
                 Inr (os_policy parent, None))
             | PolicyTransition \<Rightarrow>
                 and_then (ok_or (mf_introduced_policy m)
                   (Msg ''policy transition is missing its introduced policy'')) (\<lambda>b.
                 and_then (policy_parse P b) (\<lambda>policy.
                 and_then (policy_validate_successor P policy (os_policy parent)) (\<lambda>_.
                 Inr (policy, Some (os_policy parent)))))
             | Checkpoint \<Rightarrow>
                 Inl (err (Unsupported ''checkpoint transitions are reserved but not implemented''))) (\<lambda>(policy, parent_policy).
          and_then (manifest_validate_successor P m (os_id parent) (os_manifest parent) policy) (\<lambda>_.
          Inr (policy, parent_policy))))"

text \<open>The entries arrive oldest first; \<open>chain\<close> holds the states accepted so far, newest first, so
  that its head is the parent and the final \<^verbatim>\<open>reverse()\<close> is already done.\<close>

fun verify_chain_loop ::
    "'a manifest_prims_scheme \<Rightarrow> string \<Rightarrow> string set \<Rightarrow> opened_state list \<Rightarrow> unverified list \<Rightarrow> opened_state list result" where
  "verify_chain_loop P key_root seen_pack_ids chain [] = Inr chain"
| "verify_chain_loop P key_root seen_pack_ids chain ((i, opened, generation_key) # rest) =
     and_then (insert_pack_ids seen_pack_ids (mf_new_packs (om_manifest opened))) (\<lambda>seen.
     and_then (select_policy P key_root chain (om_manifest opened)) (\<lambda>(policy, parent_policy).
     and_then (verify_manifest P opened policy parent_policy generation_key) (\<lambda>_.
     verify_chain_loop P key_root seen
       (\<lparr>os_id = i, os_manifest = om_manifest opened, os_header = om_header opened, os_policy = policy,
         os_generation_key = generation_key, os_verified_signer = om_claimed_signer_id opened\<rparr> # chain) rest)))"

definition verify_opened_chain ::
    "'a manifest_prims_scheme \<Rightarrow> string \<Rightarrow> unverified list \<Rightarrow> opened_state list result" where
  "verify_opened_chain P key_root unverified = verify_chain_loop P key_root {} [] (rev unverified)"

definition chain_from ::
    "'a manifest_prims_scheme \<Rightarrow> key_file \<Rightarrow> string \<Rightarrow> (string \<Rightarrow> material result) \<Rightarrow> recovery_budget option
       \<Rightarrow> opened_state list result \<times> recovery_budget option" where
  "chain_from P key head read_material budget =
     (case read_material head of
        Inl e \<Rightarrow> (Inl e, budget)
      | Inr (i, encrypted, header) \<Rightarrow>
     (case charge budget header (length encrypted) of
        (Inl e, budget') \<Rightarrow> (Inl e, budget')
      | (Inr _, budget') \<Rightarrow>
     (case unwrap_generation_key P header key of
        Inl e \<Rightarrow> (Inl e, budget')
      | Inr generation_key \<Rightarrow>
     (case map_err proven_invalid (open_manifest P encrypted generation_key) of
        Inl e \<Rightarrow> (Inl e, budget')
      | Inr opened \<Rightarrow>
     (case chain_loop P read_material {} i opened generation_key [] budget' of
        (Inl e, budget'') \<Rightarrow> (Inl e, budget'')
      | (Inr unverified, budget'') \<Rightarrow>
          (map_err proven_invalid (verify_opened_chain P (kf_repository_root key) unverified), budget''))))))"

text \<open>\<^verbatim>\<open>read_manifest_material\<close>; \<open>get_object\<close> is the storage's \<^verbatim>\<open>get_object\<close> on manifests.\<close>

definition read_manifest_material ::
    "'a manifest_prims_scheme \<Rightarrow> (string \<Rightarrow> bytes result) \<Rightarrow> string \<Rightarrow> material result" where
  "read_manifest_material P get_object i =
     and_then (get_object i) (\<lambda>bytes.
     if object_id P bytes \<noteq> i
     then Inl (proven_invalid (err (Msg ''manifest ciphertext hash mismatch'')))
     else and_then (map_err proven_invalid (peek_manifest_header P bytes)) (\<lambda>header.
       Inr (i, bytes, header)))"

end
