(* ===== verification/Chain_Facts.thy ===== *)
theory Chain_Facts
  imports Chain
begin

text \<open>
  What an accepted chain is: the inductive predicate \<open>authentic_chain\<close> lists the states newest
  first, from a genesis bound to the repository root through accepted successors, each signed by
  a device its policy authorises. The walk and the verification produce only such chains; their
  generations are dense, their policies descend from one another, and no pack occurs twice.
\<close>

section \<open>Authentic chains\<close>

text \<open>A state that was verified against its policy, and against its parent's for a transition.\<close>

definition verified_state :: "'a manifest_prims_scheme \<Rightarrow> policy_state option \<Rightarrow> opened_state \<Rightarrow> bool" where
  "verified_state P parent_policy s \<longleftrightarrow> (\<exists>om. om_manifest om = os_manifest s \<and> om_header om = os_header s \<and>
     om_claimed_signer_id om = os_verified_signer s \<and>
     verify_manifest P om (os_policy s) parent_policy (os_generation_key s) = Inr ())"

inductive authentic_chain :: "'a manifest_prims_scheme \<Rightarrow> string \<Rightarrow> opened_state list \<Rightarrow> bool"
  for P :: "'a manifest_prims_scheme" and r :: string where
  genesis: "policy_validate_genesis P (os_policy s) r = Inr () \<Longrightarrow> wf_policy P (st_body (os_policy s)) \<Longrightarrow>
     manifest_validate_genesis P (os_manifest s) (os_policy s) = Inr () \<Longrightarrow> verified_state P None s \<Longrightarrow>
     authentic_chain P r [s]"
| writer: "authentic_chain P r (p # ps) \<Longrightarrow> mf_authorization (os_manifest s) = Writer \<Longrightarrow>
     os_policy s = os_policy p \<Longrightarrow>
     manifest_validate_successor P (os_manifest s) (os_id p) (os_manifest p) (os_policy s) = Inr () \<Longrightarrow>
     verified_state P None s \<Longrightarrow> authentic_chain P r (s # p # ps)"
| transition: "authentic_chain P r (p # ps) \<Longrightarrow> mf_authorization (os_manifest s) = PolicyTransition \<Longrightarrow>
     policy_validate_successor P (os_policy s) (os_policy p) = Inr () \<Longrightarrow> wf_policy P (st_body (os_policy s)) \<Longrightarrow>
     manifest_validate_successor P (os_manifest s) (os_id p) (os_manifest p) (os_policy s) = Inr () \<Longrightarrow>
     verified_state P (Some (os_policy p)) s \<Longrightarrow> authentic_chain P r (s # p # ps)"

inductive_cases authentic_chain_Nil: "authentic_chain P r []"
inductive_cases authentic_chain_Cons2: "authentic_chain P r (s # p # ps)"

lemma authentic_chain_not_Nil: "authentic_chain P r chain \<Longrightarrow> chain \<noteq> []"
  by (cases rule: authentic_chain.cases) auto

lemma authentic_chain_tl: "authentic_chain P r (s # p # ps) \<Longrightarrow> authentic_chain P r (p # ps)"
  by (erule authentic_chain_Cons2)

lemma authentic_chain_suffix: "authentic_chain P r (xs @ y # ys) \<Longrightarrow> authentic_chain P r (y # ys)"
proof (induction xs)
  case (Cons x xs)
  then show ?case
    by (cases xs) (auto dest: authentic_chain_tl)
qed simp

lemma authentic_chain_step:
  "authentic_chain P r (s # p # ps) \<Longrightarrow>
     manifest_validate_successor P (os_manifest s) (os_id p) (os_manifest p) (os_policy s) = Inr () \<and>
     (os_policy s = os_policy p \<or> policy_validate_successor P (os_policy s) (os_policy p) = Inr ())"
  by (erule authentic_chain_Cons2) auto

section \<open>Verification yields authentic chains\<close>

lemma insert_pack_ids_ok:
  "insert_pack_ids seen ps = Inr out \<longleftrightarrow>
     distinct (map pk_id ps) \<and> set (map pk_id ps) \<inter> seen = {} \<and> out = seen \<union> set (map pk_id ps)"
  by (induction ps arbitrary: seen) (auto simp: bail_if_eq_Inr)

abbreviation state_of :: "string \<Rightarrow> opened_manifest \<Rightarrow> bytes \<Rightarrow> policy_state \<Rightarrow> opened_state" where
  "state_of i om gk policy \<equiv> \<lparr>os_id = i, os_manifest = om_manifest om, os_header = om_header om,
     os_policy = policy, os_generation_key = gk, os_verified_signer = om_claimed_signer_id om\<rparr>"

lemma select_policy_authentic:
  assumes sel: "select_policy P r chain (om_manifest om) = Inr (policy, parent)"
    and ver: "verify_manifest P om policy parent gk = Inr ()"
    and chain: "chain = [] \<or> authentic_chain P r chain"
  shows "authentic_chain P r (state_of i om gk policy # chain)"
proof (cases chain)
  case Nil
  have "verified_state P None (state_of i om gk policy)" "wf_policy P (st_body policy)"
    "policy_validate_genesis P policy r = Inr ()" "manifest_validate_genesis P (om_manifest om) policy = Inr ()"
    using sel ver policy_parse_wf
    by (auto simp: Nil select_policy_def and_then_eq_Inr verified_state_def intro!: exI [of _ om])
  then show ?thesis unfolding Nil by (intro authentic_chain.genesis) simp_all
next
  case (Cons p ps)
  then have chain': "authentic_chain P r (p # ps)" using chain by simp
  have succ: "manifest_validate_successor P (om_manifest om) (os_id p) (os_manifest p) policy = Inr ()"
    using sel by (auto simp: Cons select_policy_def and_then_eq_Inr)
  have vs: "verified_state P parent (state_of i om gk policy)"
    using ver by (auto simp: verified_state_def intro!: exI [of _ om])
  show ?thesis
  proof (cases "mf_authorization (om_manifest om)")
    case Writer
    then have "policy = os_policy p" "parent = None"
      using sel by (auto simp: Cons select_policy_def and_then_eq_Inr bail_if_eq_Inr)
    then show ?thesis unfolding Cons using Writer succ vs chain' by (intro authentic_chain.writer) simp_all
  next
    case PolicyTransition
    then have "policy_validate_successor P policy (os_policy p) = Inr ()" "parent = Some (os_policy p)"
      "wf_policy P (st_body policy)"
      using sel policy_parse_wf by (auto simp: Cons select_policy_def and_then_eq_Inr)
    then show ?thesis unfolding Cons using PolicyTransition succ vs chain'
      by (intro authentic_chain.transition) simp_all
  next
    case Checkpoint
    then show ?thesis using sel by (simp add: Cons select_policy_def)
  qed
qed

abbreviation chain_pack_ids :: "opened_state list \<Rightarrow> string list" where
  "chain_pack_ids chain \<equiv> concat (map (\<lambda>s. map pk_id (mf_new_packs (os_manifest s))) chain)"

lemma verify_chain_loop_authentic:
  assumes "verify_chain_loop P r seen chain us = Inr out" and "chain = [] \<or> authentic_chain P r chain"
    and "distinct (chain_pack_ids chain)" and "set (chain_pack_ids chain) = seen"
  shows "(out = [] \<or> authentic_chain P r out) \<and> distinct (chain_pack_ids out)
    \<and> map os_id out = map fst (rev us) @ map os_id chain"
  using assms
proof (induction P r seen chain us arbitrary: out rule: verify_chain_loop.induct)
  case (2 P r seen chain i om gk rest)
  from "2.prems"(1) obtain seen' policy parent where
    ids: "insert_pack_ids seen (mf_new_packs (om_manifest om)) = Inr seen'" and
    sel: "select_policy P r chain (om_manifest om) = Inr (policy, parent)" and
    ver: "verify_manifest P om policy parent gk = Inr ()" and
    rec: "verify_chain_loop P r seen' (state_of i om gk policy # chain) rest = Inr out"
    by (auto simp: and_then_eq_Inr)
  have auth: "authentic_chain P r (state_of i om gk policy # chain)"
    using select_policy_authentic [OF sel ver "2.prems"(2)] .
  have packs: "distinct (chain_pack_ids (state_of i om gk policy # chain))"
    "set (chain_pack_ids (state_of i om gk policy # chain)) = seen'"
    using ids "2.prems"(3,4) by (auto simp: insert_pack_ids_ok)
  from "2.IH" [OF ids sel refl ver rec] auth packs show ?case by simp
qed auto

lemma chain_loop_shape:
  "chain_loop P rd seen i om gk us b = (Inr out, b') \<Longrightarrow> \<exists>vs. out = us @ (i, om, gk) # vs"
proof (induction P rd seen i om gk us b arbitrary: out b' rule: chain_loop.induct)
  case (1 P rd seen i om gk us b)
  show ?case
    using 1(2) by (subst (asm) chain_loop.simps)
      (auto split: if_splits option.splits sum.splits prod.splits dest!: 1(1))
qed

lemma chain_from_parts:
  assumes "chain_from P key head rd budget = (Inr chain, budget')"
  obtains i enc header gk om rest where
    "rd head = Inr (i, enc, header)" "unwrap_generation_key P header key = Inr gk"
    "open_manifest P enc gk = Inr om"
    "verify_opened_chain P (kf_repository_root key) ((i, om, gk) # rest) = Inr chain"
  using assms
  by (auto simp: chain_from_def map_err_eq_Inr split: sum.splits prod.splits dest!: chain_loop_shape)

lemma chain_from_authentic:
  assumes "chain_from P key head rd budget = (Inr chain, budget')"
  shows "authentic_chain P (kf_repository_root key) chain" and "distinct (chain_pack_ids chain)"
    and "\<exists>enc header. rd head = Inr (os_id (hd chain), enc, header)"
proof -
  from assms obtain i enc header gk om rest where rd: "rd head = Inr (i, enc, header)"
    and v: "verify_opened_chain P (kf_repository_root key) ((i, om, gk) # rest) = Inr chain"
    by (rule chain_from_parts)
  from v have "verify_chain_loop P (kf_repository_root key) {} [] (rev ((i, om, gk) # rest)) = Inr chain"
    by (simp add: verify_opened_chain_def)
  from verify_chain_loop_authentic [OF this]
  have *: "chain = [] \<or> authentic_chain P (kf_repository_root key) chain" "distinct (chain_pack_ids chain)"
    "map os_id chain = i # map fst rest" by simp_all
  then show "authentic_chain P (kf_repository_root key) chain" "distinct (chain_pack_ids chain)"
    by auto
  from *(3) have "os_id (hd chain) = i" by (cases chain) auto
  with rd show "\<exists>enc header. rd head = Inr (os_id (hd chain), enc, header)" by simp
qed

section \<open>Consequences\<close>

lemma authentic_chain_generation:
  "authentic_chain P r (s # ps) \<Longrightarrow> unat (mf_generation (os_manifest s)) = length ps"
proof (induction "s # ps" arbitrary: s ps rule: authentic_chain.induct)
  case (genesis s)
  then show ?case by (simp add: manifest_validate_genesis_ok)
next
  case (writer p ps s)
  then show ?case using successor_manifest_facts by fastforce
next
  case (transition p ps s)
  then show ?case using successor_manifest_facts by fastforce
qed

lemma authentic_chain_wf: "authentic_chain P r chain \<Longrightarrow> \<forall>s \<in> set chain. wf_policy P (st_body (os_policy s))"
  by (induction rule: authentic_chain.induct) auto

lemma authentic_chain_descends:
  "authentic_chain P r (xs @ y # ys) \<Longrightarrow> policy_descends P (os_policy y) (os_policy (hd (xs @ [y])))"
proof (induction xs)
  case Nil
  show ?case by (simp add: policy_descends.start)
next
  case (Cons x xs)
  then obtain z zs where z: "xs @ y # ys = z # zs" "z = hd (xs @ [y])" by (cases xs) auto
  from Cons.prems z have chain: "authentic_chain P r (x # z # zs)" by simp
  from chain have "authentic_chain P r (xs @ y # ys)" using z authentic_chain_tl by simp
  then have "policy_descends P (os_policy y) (os_policy z)" using Cons.IH z(2) by simp
  moreover from authentic_chain_step [OF chain] have
    "os_policy x = os_policy z \<or> policy_validate_successor P (os_policy x) (os_policy z) = Inr ()" by blast
  ultimately have "policy_descends P (os_policy y) (os_policy x)"
    by (auto intro: policy_descends.extend)
  then show ?case by simp
qed


lemma authentic_chain_root:
  "authentic_chain P r chain \<Longrightarrow> \<forall>s \<in> set chain. mf_repository_root (os_manifest s) = r
     \<and> pb_repository_root (st_body (os_policy s)) = r \<and> mf_policy_id (os_manifest s) = st_id (os_policy s)
     \<and> mf_policy_generation (os_manifest s) = pb_generation (st_body (os_policy s))"
proof (induction rule: authentic_chain.induct)
  case (genesis s)
  then show ?case
    by (auto simp: manifest_validate_genesis_ok validate_manifest_policy_def policy_validate_genesis_def bail_if_eq_Inr)
next
  case (writer p ps s)
  then show ?case using successor_manifest_facts [OF writer.hyps(4)] by auto
next
  case (transition p ps s)
  then show ?case using successor_manifest_facts [OF transition.hyps(5)] successor_generation [OF transition.hyps(3)] by auto
qed

lemma authentic_chain_link:
  assumes "authentic_chain P r chain" and "Suc i < length chain"
  shows "mf_previous (os_manifest (chain ! i)) = Some (os_id (chain ! Suc i))"
    and "transition_ok P (os_manifest (chain ! i)) (os_manifest (chain ! Suc i)) (os_policy (chain ! i))"
proof -
  have "chain = take i chain @ chain ! i # chain ! Suc i # drop (Suc (Suc i)) chain"
    using assms(2) by (metis Suc_lessD append_take_drop_id Cons_nth_drop_Suc)
  then have "authentic_chain P r (chain ! i # chain ! Suc i # drop (Suc (Suc i)) chain)"
    using assms(1) authentic_chain_suffix by metis
  then have "manifest_validate_successor P (os_manifest (chain ! i)) (os_id (chain ! Suc i))
      (os_manifest (chain ! Suc i)) (os_policy (chain ! i)) = Inr ()"
    using authentic_chain_step by blast
  from successor_manifest_facts [OF this]
  show "mf_previous (os_manifest (chain ! i)) = Some (os_id (chain ! Suc i))"
    and "transition_ok P (os_manifest (chain ! i)) (os_manifest (chain ! Suc i)) (os_policy (chain ! i))" by blast+
qed

lemma authentic_chain_nth_generation:
  assumes "authentic_chain P r chain" and "i < length chain"
  shows "unat (mf_generation (os_manifest (chain ! i))) = length chain - Suc i"
proof -
  have "chain = take i chain @ chain ! i # drop (Suc i) chain"
    using assms(2) by (simp add: id_take_nth_drop)
  then have "authentic_chain P r (chain ! i # drop (Suc i) chain)"
    using assms(1) authentic_chain_suffix by metis
  from authentic_chain_generation [OF this] show ?thesis by simp
qed

text \<open>The number of packs a chain stores, as the sum of the deltas.\<close>

lemma authentic_chain_total:
  "authentic_chain P r (s # ps) \<Longrightarrow> unat (mf_total_pack_count (os_manifest s))
     = sum_list (map (\<lambda>t. unat (of_nat (length (mf_new_packs (os_manifest t))) :: u64)) (s # ps))"
proof (induction "s # ps" arbitrary: s ps rule: authentic_chain.induct)
  case (genesis s)
  then show ?case by (simp add: manifest_validate_genesis_ok)
next
  case (writer p ps s)
  then show ?case using successor_manifest_facts [OF writer.hyps(5)] by simp
next
  case (transition p ps s)
  then show ?case using successor_manifest_facts [OF transition.hyps(6)] by simp
qed

lemma chain_sound:
  assumes "chain_from P key head rd budget = (Inr chain, budget')"
  shows "chain \<noteq> [] \<and> distinct (chain_pack_ids chain)
    \<and> (\<exists>enc header. rd head = Inr (os_id (hd chain), enc, header))
    \<and> (\<forall>i < length chain. unat (mf_generation (os_manifest (chain ! i))) = length chain - Suc i
         \<and> mf_repository_root (os_manifest (chain ! i)) = kf_repository_root key
         \<and> mf_policy_id (os_manifest (chain ! i)) = st_id (os_policy (chain ! i)))
    \<and> (\<forall>i. Suc i < length chain \<longrightarrow>
         mf_previous (os_manifest (chain ! i)) = Some (os_id (chain ! Suc i))
         \<and> transition_ok P (os_manifest (chain ! i)) (os_manifest (chain ! Suc i)) (os_policy (chain ! i))
         \<and> policy_descends P (os_policy (chain ! Suc i)) (os_policy (chain ! i)))
    \<and> policy_validate_genesis P (os_policy (last chain)) (kf_repository_root key) = Inr ()"
proof -
  note auth = chain_from_authentic(1) [OF assms]
  have gen: "policy_validate_genesis P (os_policy (last chain)) (kf_repository_root key) = Inr ()"
    using auth by (induction rule: authentic_chain.induct) auto
  have desc: "policy_descends P (os_policy (chain ! Suc i)) (os_policy (chain ! i))" if i: "Suc i < length chain" for i
  proof -
    have "chain = take i chain @ chain ! i # chain ! Suc i # drop (Suc (Suc i)) chain"
      using i by (metis Suc_lessD append_take_drop_id Cons_nth_drop_Suc)
    then have "authentic_chain P (kf_repository_root key) (chain ! i # chain ! Suc i # drop (Suc (Suc i)) chain)"
      using auth authentic_chain_suffix by metis
    then show ?thesis
      using authentic_chain_descends [of P _ "[chain ! i]" "chain ! Suc i" "drop (Suc (Suc i)) chain"] by simp
  qed
  show ?thesis
    using authentic_chain_not_Nil [OF auth] chain_from_authentic(2,3) [OF assms] gen desc
      authentic_chain_nth_generation [OF auth] authentic_chain_link [OF auth] authentic_chain_root [OF auth]
    by auto
qed


text \<open>Every entry of an accepted chain was signed by a device with the role its transition needs.\<close>

lemma authentic_chain_signed:
  assumes "authentic_chain P r chain" and "i < length chain"
  shows "\<exists>signer. may_sign (os_policy (chain ! i))
    (if mf_authorization (os_manifest (chain ! i)) = PolicyTransition \<and> Suc i < length chain
     then Some (os_policy (chain ! Suc i)) else None)
    (mf_authorization (os_manifest (chain ! i))) signer"
proof -
  have from_verify: "\<exists>signer. may_sign (os_policy s) parent (mf_authorization (os_manifest s)) signer"
    if "verified_state P parent s" for parent s
  proof -
    from that obtain om where om: "om_manifest om = os_manifest s"
      "verify_manifest P om (os_policy s) parent (os_generation_key s) = Inr ()"
      by (auto simp: verified_state_def)
    show ?thesis
    proof (rule verify_manifest_ok [OF om(2)])
      fix content device
      assume "authorizing_device (os_policy s) parent content = Inr device"
        "sc_authorization content = mf_authorization (om_manifest om)"
      then show ?thesis using authorizing_device_ok om(1) by metis
    qed
  qed
  have "chain = take i chain @ chain ! i # drop (Suc i) chain"
    using assms(2) by (simp add: id_take_nth_drop)
  then have "authentic_chain P r (chain ! i # drop (Suc i) chain)"
    using assms(1) authentic_chain_suffix by metis
  then show ?thesis
  proof (cases rule: authentic_chain.cases)
    case genesis
    then have "\<not> Suc i < length chain" by simp
    with from_verify [OF genesis(5)] show ?thesis by simp
  next
    case (writer p ps)
    with from_verify [OF writer(6)] show ?thesis by simp
  next
    case (transition p ps)
    then have "Suc i < length chain" "chain ! Suc i = p"
      by (metis drop_all list.discI not_less) (metis transition(1) drop_all list.discI not_less nth_via_drop)
    with from_verify [OF transition(7)] transition show ?thesis by simp
  qed
qed


end
