(* ===== verification/Chain_Build.thy ===== *)
theory Chain_Build
  imports Chain_Facts
begin

text \<open>
  The converse of the soundness of the chain walk: a manifest that was sealed, opened again and
  verified, as \<^verbatim>\<open>seal_and_store_manifest\<close> does before it lets a head move, is accepted by
  \<^verbatim>\<open>chain_from\<close> when it becomes the head, alone as genesis or in front of an accepted chain.
\<close>

section \<open>Reading\<close>

lemma read_manifest_material_ok:
  "read_manifest_material P get i = Inr (j, enc, header) \<longleftrightarrow>
     j = i \<and> get i = Inr enc \<and> object_id P enc = i \<and> peek_manifest_header P enc = Inr header"
  by (auto simp: read_manifest_material_def and_then_eq_Inr map_err_eq_Inr)

lemma open_manifest_peek: "open_manifest P enc gk = Inr om \<Longrightarrow> peek_manifest_header P enc = Inr (om_header om)"
  by (auto simp: open_manifest_def peek_manifest_header_def and_then_eq_Inr bail_if_eq_Inr Let_def)

text \<open>A storage that only gained objects serves every manifest it served before.\<close>

definition gains :: "(string \<Rightarrow> bytes result) \<Rightarrow> (string \<Rightarrow> bytes result) \<Rightarrow> bool" where
  "gains get get' \<longleftrightarrow> (\<forall>i b. get i = Inr b \<longrightarrow> get' i = Inr b)"

lemma gains_read: "gains get get' \<Longrightarrow> read_manifest_material P get i = Inr v \<Longrightarrow>
    read_manifest_material P get' i = Inr v"
  by (cases v) (auto simp: read_manifest_material_ok gains_def)

section \<open>The walk\<close>

text \<open>The entries a walk adds were read from the storage, opened and walked without a cycle, and a
  storage that gained objects is walked alike from any position outside the visited
  identifiers.\<close>

lemma chain_loop_again:
  assumes "chain_loop P (read_manifest_material P get) seen i om gk us b = (Inr out, b')" and "gains get get'"
  shows "\<exists>vs. out = us @ (i, om, gk) # vs \<and> set (map fst ((i, om, gk) # vs)) \<inter> seen = {}
    \<and> (\<forall>(j, om', gk') \<in> set vs. \<exists>enc. get j = Inr enc \<and> object_id P enc = j \<and> open_manifest P enc gk' = Inr om')
    \<and> (\<forall>seen' us'. set (map fst ((i, om, gk) # vs)) \<inter> seen' = {} \<longrightarrow>
         chain_loop P (read_manifest_material P get') seen' i om gk us' None = (Inr (us' @ (i, om, gk) # vs), None))"
  using assms
proof (induction P "read_manifest_material P get" seen i om gk us b arbitrary: out b' rule: chain_loop.induct)
  case (1 P seen i om gk us b)
  note step = "1.prems"(1) [unfolded chain_loop.simps [of P _ seen]]
  have fresh: "i \<notin> seen" using step by auto
  show ?case
  proof (cases "mf_previous (om_manifest om)")
    case None
    with step fresh have "mf_generation (om_manifest om) = 0" "out = us @ [(i, om, gk)]" by (auto split: if_splits)
    with None fresh show ?thesis by (auto simp: chain_loop.simps)
  next
    case (Some previous)
    from step fresh Some obtain j enc h u b1 pk parent where
      rd: "read_manifest_material P get previous = Inr (j, enc, h)" and
      ch: "charge b h (length enc) = (Inr u, b1)" and
      pk: "map_err proven_invalid (unwrap_predecessor_key P gk (om_manifest om) h) = Inr pk" and
      op: "map_err proven_invalid (open_manifest P enc pk) = Inr parent" and
      hd: "om_header parent = h" and
      rec: "chain_loop P (read_manifest_material P get) (insert i seen) j parent pk (us @ [(i, om, gk)]) b1 = (Inr out, b')"
      by (auto split: sum.splits prod.splits if_splits)
    from hd have "\<not> om_header parent \<noteq> h" by simp
    from "1.hyps" [OF fresh Some rd refl refl ch [symmetric] refl pk op this rec "1.prems"(2)] obtain vs where
      out: "out = (us @ [(i, om, gk)]) @ (j, parent, pk) # vs"
      and dis: "set (map fst ((j, parent, pk) # vs)) \<inter> insert i seen = {}"
      and vs: "\<forall>(j, om', gk') \<in> set vs. \<exists>enc. get j = Inr enc \<and> object_id P enc = j \<and> open_manifest P enc gk' = Inr om'"
      and again: "\<And>seen' us'. set (map fst ((j, parent, pk) # vs)) \<inter> seen' = {} \<Longrightarrow>
         chain_loop P (read_manifest_material P get') seen' j parent pk us' None = (Inr (us' @ (j, parent, pk) # vs), None)"
      by auto
    have enc: "get j = Inr enc" "object_id P enc = j" "open_manifest P enc pk = Inr parent"
      using rd op by (auto simp: read_manifest_material_ok map_err_eq_Inr)
    have "chain_loop P (read_manifest_material P get') seen' i om gk us' None
        = (Inr (us' @ (i, om, gk) # (j, parent, pk) # vs), None)"
      if s: "set (map fst ((i, om, gk) # (j, parent, pk) # vs)) \<inter> seen' = {}" for seen' us'
    proof -
      have "set (map fst ((j, parent, pk) # vs)) \<inter> insert i seen' = {}" using s dis by auto
      from again [OF this] s show ?thesis
        using gains_read [OF "1.prems"(2) rd] pk op hd Some
        by (subst chain_loop.simps) (simp add: charge_def)
    qed
    then show ?thesis
      using out dis vs enc fresh by (intro exI [of _ "(j, parent, pk) # vs"]) auto
  qed
qed

section \<open>The verification\<close>

lemma verify_chain_loop_append:
  "verify_chain_loop P r seen chain us = Inr chain' \<Longrightarrow>
     verify_chain_loop P r seen chain (us @ vs)
       = verify_chain_loop P r (seen \<union> set (concat (map (\<lambda>(i, om, gk). map pk_id (mf_new_packs (om_manifest om))) us))) chain' vs"
proof (induction P r seen chain us rule: verify_chain_loop.induct)
  case (2 P r seen chain i om gk rest)
  from "2.prems" obtain seen' policy parent where
    ids: "insert_pack_ids seen (mf_new_packs (om_manifest om)) = Inr seen'" and
    sel: "select_policy P r chain (om_manifest om) = Inr (policy, parent)" and
    ver: "verify_manifest P om policy parent gk = Inr ()" and
    rec: "verify_chain_loop P r seen' (state_of i om gk policy # chain) rest = Inr chain'"
    by (auto simp: and_then_eq_Inr)
  from ids have "seen' = seen \<union> set (map pk_id (mf_new_packs (om_manifest om)))" by (simp add: insert_pack_ids_ok)
  with "2.IH" [OF ids sel refl ver rec] ids sel ver show ?case by (simp add: Un_assoc)
qed simp

text \<open>The verified states are the walked entries with their policies.\<close>

lemma verify_chain_loop_entries:
  "verify_chain_loop P r seen chain us = Inr out \<Longrightarrow>
     \<exists>states. out = states @ chain \<and> map (\<lambda>s. (os_id s, os_manifest s, os_header s, os_generation_key s)) states
       = map (\<lambda>(i, om, gk). (i, om_manifest om, om_header om, gk)) (rev us)"
proof (induction P r seen chain us arbitrary: out rule: verify_chain_loop.induct)
  case (2 P r seen chain i om gk rest)
  from "2.prems" obtain seen' policy parent where
    ids: "insert_pack_ids seen (mf_new_packs (om_manifest om)) = Inr seen'" and
    sel: "select_policy P r chain (om_manifest om) = Inr (policy, parent)" and
    ver: "verify_manifest P om policy parent gk = Inr ()" and
    rec: "verify_chain_loop P r seen' (state_of i om gk policy # chain) rest = Inr out"
    by (auto simp: and_then_eq_Inr)
  from "2.IH" [OF ids sel refl ver rec] obtain states where
    "out = states @ state_of i om gk policy # chain"
    "map (\<lambda>s. (os_id s, os_manifest s, os_header s, os_generation_key s)) states
       = map (\<lambda>(i, om, gk). (i, om_manifest om, om_header om, gk)) (rev rest)" by blast
  then show ?case by (intro exI [of _ "states @ [state_of i om gk policy]"]) simp
qed simp

section \<open>Accepted chains, taken apart\<close>

definition entry_of :: "unverified \<Rightarrow> string \<times> manifest \<times> manifest_header \<times> bytes" where
  "entry_of u = (case u of (i, om, gk) \<Rightarrow> (i, om_manifest om, om_header om, gk))"

lemma chain_from_walk:
  assumes "chain_from P key head (read_manifest_material P get) budget = (Inr chain, budget')" and "gains get get'"
  obtains om gk vs where
    "os_id (hd chain) = head" "os_generation_key (hd chain) = gk" "os_header (hd chain) = om_header om"
    "\<And>j om' gk'. (j, om', gk') \<in> set ((head, om, gk) # vs) \<Longrightarrow>
       \<exists>enc. get j = Inr enc \<and> object_id P enc = j \<and> open_manifest P enc gk' = Inr om'"
    "\<And>seen us. set (map fst ((head, om, gk) # vs)) \<inter> seen = {} \<Longrightarrow>
       chain_loop P (read_manifest_material P get') seen head om gk us None = (Inr (us @ (head, om, gk) # vs), None)"
    "verify_chain_loop P (kf_repository_root key) {} [] (rev ((head, om, gk) # vs)) = Inr chain"
    "map (\<lambda>s. (os_id s, os_manifest s, os_header s, os_generation_key s)) chain = map entry_of ((head, om, gk) # vs)"
proof -
  from assms(1) obtain enc header gk om us b b2 where
    rd: "read_manifest_material P get head = Inr (head, enc, header)"
    and op: "open_manifest P enc gk = Inr om"
    and loop: "chain_loop P (read_manifest_material P get) {} head om gk [] b = (Inr us, b2)"
    and ver: "verify_opened_chain P (kf_repository_root key) us = Inr chain"
    by (auto simp: chain_from_def map_err_eq_Inr read_manifest_material_ok split: sum.splits prod.splits)
  from chain_loop_again [OF loop assms(2)] obtain vs where us: "us = (head, om, gk) # vs"
    and vs: "\<forall>(j, om', gk') \<in> set vs. \<exists>enc. get j = Inr enc \<and> object_id P enc = j \<and> open_manifest P enc gk' = Inr om'"
    and again: "\<And>seen' us'. set (map fst ((head, om, gk) # vs)) \<inter> seen' = {} \<Longrightarrow>
         chain_loop P (read_manifest_material P get') seen' head om gk us' None = (Inr (us' @ (head, om, gk) # vs), None)"
    by auto
  have v: "verify_chain_loop P (kf_repository_root key) {} [] (rev ((head, om, gk) # vs)) = Inr chain"
    using ver by (simp add: verify_opened_chain_def us)
  from verify_chain_loop_entries [OF v]
  have m: "map (\<lambda>s. (os_id s, os_manifest s, os_header s, os_generation_key s)) chain = map entry_of ((head, om, gk) # vs)"
    unfolding entry_of_def [abs_def] by (auto simp only: append_Nil2 rev_rev_ident)
  then have "chain \<noteq> []" "os_id (hd chain) = head" "os_generation_key (hd chain) = gk" "os_header (hd chain) = om_header om"
    by (cases chain; simp add: entry_of_def)+
  note hd = this(2-4)
  have "\<exists>enc. get j = Inr enc \<and> object_id P enc = j \<and> open_manifest P enc gk' = Inr om'"
    if "(j, om', gk') \<in> set ((head, om, gk) # vs)" for j om' gk'
    using that vs rd op by (fastforce simp: read_manifest_material_ok)
  from that [OF hd this again v m] show thesis .
qed

text \<open>A storage that gained objects serves the same chain.\<close>

lemma chain_from_gains:
  assumes "chain_from P key head (read_manifest_material P get) None = (Inr chain, b)" and "gains get get'"
  shows "chain_from P key head (read_manifest_material P get') None = (Inr chain, None)"
proof -
  from assms(1) obtain enc header gk om us b2 where
    rd: "read_manifest_material P get head = Inr (head, enc, header)"
    and gk: "unwrap_generation_key P header key = Inr gk" and op: "open_manifest P enc gk = Inr om"
    and loop: "chain_loop P (read_manifest_material P get) {} head om gk [] None = (Inr us, b2)"
    and ver: "verify_opened_chain P (kf_repository_root key) us = Inr chain"
    by (auto simp: chain_from_def charge_def map_err_eq_Inr read_manifest_material_ok split: sum.splits prod.splits)
  from chain_loop_again [OF loop assms(2)] have
    "chain_loop P (read_manifest_material P get') {} head om gk [] None = (Inr us, None)" by auto
  then show ?thesis
    using gains_read [OF assms(2) rd] gk op ver by (simp add: chain_from_def charge_def)
qed

text \<open>Every state of an accepted chain is an object of the storage under its own digest, opened with
  the state's generation key.\<close>

lemma chain_entries_stored:
  assumes "chain_from P key head (read_manifest_material P get) budget = (Inr chain, budget')" and "s \<in> set chain"
  obtains enc om where "get (os_id s) = Inr enc" "object_id P enc = os_id s"
    "open_manifest P enc (os_generation_key s) = Inr om" "om_manifest om = os_manifest s" "om_header om = os_header s"
proof (rule chain_from_walk [OF assms(1), of get])
  show "gains get get" by (simp add: gains_def)
next
  fix om gk vs
  assume stored: "\<And>j om' gk'. (j, om', gk') \<in> set ((head, om, gk) # vs) \<Longrightarrow>
       \<exists>enc. get j = Inr enc \<and> object_id P enc = j \<and> open_manifest P enc gk' = Inr om'"
    and m: "map (\<lambda>s. (os_id s, os_manifest s, os_header s, os_generation_key s)) chain = map entry_of ((head, om, gk) # vs)"
  have "(os_id s, os_manifest s, os_header s, os_generation_key s) \<in> set (map entry_of ((head, om, gk) # vs))"
    using assms(2) by (simp only: m [symmetric]) force
  then obtain om' where "(os_id s, om', os_generation_key s) \<in> set ((head, om, gk) # vs)"
    "om_manifest om' = os_manifest s" "om_header om' = os_header s"
    unfolding set_map by (fastforce simp: entry_of_def)
  with stored that show thesis by metis
qed

section \<open>Readers obtain the generation key\<close>

text \<open>No second key has the commitment of this one; a collision of the digest would be needed.\<close>

definition binding_commitment :: "'a prims_scheme \<Rightarrow> bytes \<Rightarrow> bool" where
  "binding_commitment P gk \<longleftrightarrow> (\<forall>gk'. length gk' = 32 \<longrightarrow>
     sha256 P (KEY_COMMITMENT_DOMAIN @ gk') = sha256 P (KEY_COMMITMENT_DOMAIN @ gk) \<longrightarrow> gk' = gk)"

lemma unwrap_loop_length: "unwrap_loop P h key i es = Inr gk \<Longrightarrow> length gk = 32"
  by (induction P h key i es rule: unwrap_loop.induct)
    (auto simp: Let_def key_unwrap_generation_key_def and_then_eq_Inr bail_if_eq_Inr split: sum.splits if_splits)

lemma reader_unwraps_key:
  assumes laws: "hex_laws P" "b64_laws P" "hpke_laws P" and binding: "binding_commitment P gk"
    and verified: "verify_manifest P om policy parent gk = Inr ()"
    and gk: "length gk = 32" "verify_key_commitment P gk (mh_key_commitment (om_header om)) = Inr ()"
    and reader: "d \<in> set (active_readers policy)" "wf_policy P (st_body policy)"
    and key: "key_public_device P key = Inr (dv_public d)"
  shows "unwrap_generation_key P (om_header om) key = Inr gk"
proof -
  from verified_manifest_unwraps [OF laws verified gk reader key] obtain gk' where
    gk': "unwrap_generation_key P (om_header om) key = Inr gk'"
      "verify_key_commitment P gk' (mh_key_commitment (om_header om)) = Inr ()" by blast
  have "length gk' = 32"
    using gk'(1) by (auto simp: unwrap_generation_key_def and_then_eq_Inr bail_if_eq_Inr dest: unwrap_loop_length)
  moreover have "sha256 P (KEY_COMMITMENT_DOMAIN @ gk') = sha256 P (KEY_COMMITMENT_DOMAIN @ gk)"
    using gk(2) gk'(2) by (simp add: verify_key_commitment_ok [OF laws(1)])
  ultimately show ?thesis using binding gk'(1) by (simp add: binding_commitment_def)
qed

section \<open>A new head is accepted\<close>

text \<open>The genesis manifest.\<close>

lemma genesis_chain_accepted:
  assumes "manifest_validate_genesis P (om_manifest om) policy = Inr ()"
    and "open_manifest P enc gk = Inr om" and "verify_manifest P om policy None gk = Inr ()"
    and "mf_introduced_policy (om_manifest om) = Some b" and "policy_parse P b = Inr policy"
    and "policy_validate_genesis P policy (kf_repository_root key) = Inr ()"
    and "get (object_id P enc) = Inr enc" and "unwrap_generation_key P (om_header om) key = Inr gk"
  shows "chain_from P key (object_id P enc) (read_manifest_material P get) None
    = (Inr [state_of (object_id P enc) om gk policy], None)"
proof -
  have "read_manifest_material P get (object_id P enc) = Inr (object_id P enc, enc, om_header om)"
    using assms(2,7) open_manifest_peek by (simp add: read_manifest_material_ok)
  moreover have "mf_previous (om_manifest om) = None" "mf_generation (om_manifest om) = 0" "mf_new_packs (om_manifest om) = []"
    using assms(1) by (auto simp: manifest_validate_genesis_ok)
  ultimately show ?thesis
    using assms by (simp add: chain_from_def charge_def chain_loop.simps verify_opened_chain_def select_policy_def)
qed

text \<open>A successor of the head of an accepted chain, for any device that obtains its generation key.\<close>

lemma successor_chain_accepted:
  assumes chain: "chain_from P key head (read_manifest_material P get) budget = (Inr chain, budget')"
    and gains: "gains get get'" and stored: "get' i = Inr enc" "object_id P enc = i"
    and opened: "open_manifest P enc gk = Inr om"
    and successor: "manifest_validate_successor P (om_manifest om) (os_id (hd chain)) (os_manifest (hd chain)) policy = Inr ()"
    and select: "select_policy P (kf_repository_root key) chain (om_manifest om) = Inr (policy, parent)"
    and verified: "verify_manifest P om policy parent gk = Inr ()"
    and link: "unwrap_predecessor_key P gk (om_manifest om) (os_header (hd chain)) = Inr (os_generation_key (hd chain))"
    and packs: "distinct (map pk_id (mf_new_packs (om_manifest om)))"
      "set (map pk_id (mf_new_packs (om_manifest om))) \<inter> set (chain_pack_ids chain) = {}"
    and reader: "unwrap_generation_key P (om_header om) key' = Inr gk" "kf_repository_root key' = kf_repository_root key"
  shows "chain_from P key' i (read_manifest_material P get') None = (Inr (state_of i om gk policy # chain), None)"
proof (rule chain_from_walk [OF chain gains])
  fix om0 gk0 vs
  assume hd: "os_id (hd chain) = head" "os_generation_key (hd chain) = gk0" "os_header (hd chain) = om_header om0"
    and read: "\<And>j om' gk'. (j, om', gk') \<in> set ((head, om0, gk0) # vs) \<Longrightarrow>
       \<exists>enc. get j = Inr enc \<and> object_id P enc = j \<and> open_manifest P enc gk' = Inr om'"
    and again: "\<And>seen us. set (map fst ((head, om0, gk0) # vs)) \<inter> seen = {} \<Longrightarrow>
       chain_loop P (read_manifest_material P get') seen head om0 gk0 us None = (Inr (us @ (head, om0, gk0) # vs), None)"
    and verify: "verify_chain_loop P (kf_repository_root key) {} [] (rev ((head, om0, gk0) # vs)) = Inr chain"
    and entries: "map (\<lambda>s. (os_id s, os_manifest s, os_header s, os_generation_key s)) chain
       = map entry_of ((head, om0, gk0) # vs)"
  note auth = chain_from_authentic(1) [OF chain]
  obtain p ps where ps: "chain = p # ps" using authentic_chain_not_Nil [OF auth] by (cases chain) auto
  have gen: "unat (mf_generation (om_manifest om)) = length chain"
    using successor_manifest_facts [OF successor] authentic_chain_generation [OF auth [unfolded ps]] ps by simp
  have prev: "mf_previous (om_manifest om) = Some head"
    using successor_manifest_facts [OF successor] hd by simp
  obtain enc0 where enc0: "get head = Inr enc0" "object_id P enc0 = head" "open_manifest P enc0 gk0 = Inr om0"
    using read [of head om0 gk0] by auto
  have fresh: "i \<notin> set (map fst ((head, om0, gk0) # vs))"
  proof
    assume "i \<in> set (map fst ((head, om0, gk0) # vs))"
    then obtain om' gk' where e: "(i, om', gk') \<in> set ((head, om0, gk0) # vs)" by force
    from read [OF e] gains stored(1) have "open_manifest P enc gk' = Inr om'" by (auto simp: gains_def)
    then have same: "om_header om' = om_header om" using open_manifest_peek opened by (metis sum.inject(2))
    have "entry_of (i, om', gk') \<in> set (map (\<lambda>s. (os_id s, os_manifest s, os_header s, os_generation_key s)) chain)"
      using e by (simp only: entries) force
    then obtain s where s: "s \<in> set chain" "os_manifest s = om_manifest om'" by (auto simp: entry_of_def)
    then obtain k where k: "k < length chain" "chain ! k = s" by (meson in_set_conv_nth)
    have "unat (mf_generation (os_manifest s)) < length chain"
      using authentic_chain_nth_generation [OF auth k(1)] k by simp
    moreover have "mf_generation (om_manifest om') = mf_generation (om_manifest om)"
      using open_manifest_generation [OF opened] open_manifest_generation \<open>open_manifest P enc gk' = Inr om'\<close> same by metis
    ultimately show False using gen s(2) by simp
  qed
  have head': "read_manifest_material P get' head = Inr (head, enc0, om_header om0)"
    by (rule gains_read [OF gains]) (use enc0 open_manifest_peek in \<open>simp add: read_manifest_material_ok\<close>)
  have loop: "chain_loop P (read_manifest_material P get') {} i om gk [] None = (Inr ([(i, om, gk)] @ (head, om0, gk0) # vs), None)"
    using again [of "{i}" "[(i, om, gk)]"] fresh prev head' link hd enc0(3)
    by (subst chain_loop.simps) (simp add: charge_def)
  have ids: "set (concat (map (\<lambda>(i, om, gk). map pk_id (mf_new_packs (om_manifest om))) (rev ((head, om0, gk0) # vs))))
      = set (chain_pack_ids chain)"
  proof -
    have "map os_manifest chain = map (fst \<circ> snd) (map entry_of ((head, om0, gk0) # vs))"
      by (simp only: entries [symmetric]) simp
    then have "map os_manifest chain = map (\<lambda>u. om_manifest (fst (snd u))) ((head, om0, gk0) # vs)"
      by (simp add: entry_of_def comp_def split_def)
    then have "map (\<lambda>m. map pk_id (mf_new_packs m)) (map os_manifest chain)
        = map (\<lambda>m. map pk_id (mf_new_packs m)) (map (\<lambda>u. om_manifest (fst (snd u))) ((head, om0, gk0) # vs))"
      by (rule arg_cong)
    then have packs: "map (\<lambda>s. map pk_id (mf_new_packs (os_manifest s))) chain
        = map (\<lambda>(i, om, gk). map pk_id (mf_new_packs (om_manifest om))) ((head, om0, gk0) # vs)"
      by (simp add: comp_def split_def)
    show ?thesis unfolding packs by (simp only: set_concat set_map set_rev)
  qed
  have "insert_pack_ids (set (chain_pack_ids chain)) (mf_new_packs (om_manifest om))
      = Inr (set (chain_pack_ids chain) \<union> set (map pk_id (mf_new_packs (om_manifest om))))"
    using packs by (simp only: insert_pack_ids_ok)
  then have "verify_opened_chain P (kf_repository_root key) ([(i, om, gk)] @ (head, om0, gk0) # vs)
      = Inr (state_of i om gk policy # chain)"
    using verify_chain_loop_append [OF verify, of "[(i, om, gk)]"] ids select verified
    by (simp add: verify_opened_chain_def)
  with loop show ?thesis
    using stored opened reader open_manifest_peek [OF opened]
    by (simp add: chain_from_def read_manifest_material_ok [THEN iffD2] charge_def)
qed

end
