(* ===== verification/Continuity.thy ===== *)
theory Continuity
  imports Chain_Facts
begin

text \<open>
  \<^verbatim>\<open>src/continuity.rs\<close> and \<^verbatim>\<open>validate_pinned_head\<close> of \<^verbatim>\<open>src/repository.rs\<close>: the machine's
  continuity floor for each repository root, the newest authenticated head this machine has
  accepted. The local files are a map from paths to contents; a failed read other than an
  absent file is not modelled. Every operation holds the exclusive lock of the floor from
  validation through advancement, so the operations of the processes of one machine are a
  sequence of atomic steps; \<open>floor_run\<close> is that sequence.
\<close>

section \<open>Local JSON files\<close>

type_synonym files = "string \<rightharpoonup> bytes"

definition read_json :: "(bytes \<Rightarrow> 'v option) \<Rightarrow> string \<Rightarrow> files \<Rightarrow> 'v option result" where
  "read_json parse path fs = (case fs path of
     None \<Rightarrow> Inr None
   | Some contents \<Rightarrow>
       and_then (with_context (''parse '' @ path) (ok_or (parse contents) (Msg ''invalid JSON''))) (\<lambda>v.
       Inr (Some v)))"

definition write_json :: "('v \<Rightarrow> bytes) \<Rightarrow> string \<Rightarrow> 'v \<Rightarrow> files \<Rightarrow> files" where
  "write_json to_vec path v fs = fs(path \<mapsto> to_vec v)"

section \<open>The floor\<close>

definition FLOOR_FORMAT :: u32 where
  "FLOOR_FORMAT = 1"

record continuity_floor =
  cf_format_version :: u32
  cf_repository_root :: string
  cf_head_id :: string
  cf_generation :: u64
  cf_policy_generation :: u64

record continuity_prims = manifest_prims +
  floor_to_vec :: "continuity_floor \<Rightarrow> bytes"
  floor_of_slice :: "bytes \<Rightarrow> continuity_floor option"

definition floor_at :: "string \<Rightarrow> manifest \<Rightarrow> continuity_floor" where
  "floor_at head_id m = \<lparr>cf_format_version = FLOOR_FORMAT, cf_repository_root = mf_repository_root m,
     cf_head_id = head_id, cf_generation = mf_generation m, cf_policy_generation = mf_policy_generation m\<rparr>"

text \<open>\<^verbatim>\<open>FloorGuard::acquire\<close>: the guard is the path of the floor; taking the lock is the start of the
  atomic step.\<close>

definition floor_acquire :: "string \<Rightarrow> string \<Rightarrow> string" where
  "floor_acquire state_dir repository_root = state_dir @ ''/'' @ repository_root @ ''/continuity.json''"

definition floor_read :: "'a continuity_prims_scheme \<Rightarrow> string \<Rightarrow> files \<Rightarrow> continuity_floor option result" where
  "floor_read P path fs =
     and_then (read_json (floor_of_slice P) path fs) (\<lambda>f.
     bail_if (case f of None \<Rightarrow> False | Some x \<Rightarrow> cf_format_version x \<noteq> FLOOR_FORMAT)
       (Msg ''unsupported continuity floor format'') (
     Inr f))"

definition floor_advance ::
    "'a continuity_prims_scheme \<Rightarrow> string \<Rightarrow> continuity_floor \<Rightarrow> files \<Rightarrow> files result" where
  "floor_advance P path next fs =
     and_then (floor_read P path fs) (\<lambda>f. case f of
       None \<Rightarrow> Inr (write_json (floor_to_vec P) path next fs)
     | Some previous \<Rightarrow>
         bail_if (cf_repository_root previous \<noteq> cf_repository_root next)
           (Msg ''remote repository root changed'') (
         if cf_generation previous > cf_generation next then Inr fs
         else
         bail_if (cf_generation previous = cf_generation next \<and> cf_head_id previous \<noteq> cf_head_id next)
           (Msg ''remote manifest history forked from the locally pinned head'') (
         bail_if (cf_policy_generation next < cf_policy_generation previous)
           (Msg ''remote policy rolled back'') (
         if previous = next then Inr fs
         else Inr (write_json (floor_to_vec P) path next fs)))))"

definition validate_pinned_head :: "opened_state list \<Rightarrow> continuity_floor option \<Rightarrow> unit result" where
  "validate_pinned_head chain f =
     (case chain of
        [] \<Rightarrow> Inl (err (Msg ''manifest chain is empty''))
      | current # _ \<Rightarrow>
     (case f of
        None \<Rightarrow> Inr ()
      | Some x \<Rightarrow>
          bail_if (cf_repository_root x \<noteq> mf_repository_root (os_manifest current))
            (Msg ''remote repository root changed'') (
          bail_if (mf_policy_generation (os_manifest current) < cf_policy_generation x)
            (Msg ''remote policy rolled back'') (
          bail_if (mf_generation (os_manifest current) < cf_generation x)
            (Msg ''remote manifest rolled back'') (
          and_then (ok_or (find (\<lambda>e. mf_generation (os_manifest e) = cf_generation x) chain)
            (Msg ''remote manifest chain ended before pinned generation'')) (\<lambda>pinned.
          bail_if (os_id pinned \<noteq> cf_head_id x)
            (Msg ''remote manifest history forked from the locally pinned head'') (
          Inr ())))))))"

section \<open>The floor is monotone\<close>

definition floor_json_laws :: "'a continuity_prims_scheme \<Rightarrow> bool" where
  "floor_json_laws P \<longleftrightarrow> (\<forall>x. floor_of_slice P (floor_to_vec P x) = Some x)"

text \<open>How one floor may follow another.\<close>

definition floor_le :: "continuity_floor \<Rightarrow> continuity_floor \<Rightarrow> bool" where
  "floor_le a b \<longleftrightarrow> cf_repository_root b = cf_repository_root a \<and> cf_generation a \<le> cf_generation b \<and>
     cf_policy_generation a \<le> cf_policy_generation b \<and>
     (cf_generation a = cf_generation b \<longrightarrow> cf_head_id a = cf_head_id b)"

lemma floor_le_refl [simp]: "floor_le a a"
  by (simp add: floor_le_def)

lemma floor_le_trans: "floor_le a b \<Longrightarrow> floor_le b c \<Longrightarrow> floor_le a c"
  by (auto simp: floor_le_def)

lemma floor_read_write:
  "floor_json_laws P \<Longrightarrow> cf_format_version x = FLOOR_FORMAT \<Longrightarrow>
     floor_read P path (write_json (floor_to_vec P) path x fs) = Inr (Some x)"
  by (simp add: floor_read_def read_json_def write_json_def floor_json_laws_def)

lemma floor_advance_ok:
  assumes "floor_json_laws P" and "floor_advance P path next fs = Inr fs'" and "cf_format_version next = FLOOR_FORMAT"
  shows "\<exists>b. floor_read P path fs' = Inr (Some b) \<and> cf_generation next \<le> cf_generation b
    \<and> (cf_generation next = cf_generation b \<longrightarrow> cf_head_id next = cf_head_id b)
    \<and> (\<forall>a. floor_read P path fs = Inr (Some a) \<longrightarrow> floor_le a b)
    \<and> (\<forall>p. p \<noteq> path \<longrightarrow> fs' p = fs p)"
proof -
  from assms(2) obtain f where f: "floor_read P path fs = Inr f"
    by (auto simp: floor_advance_def and_then_eq_Inr)
  show ?thesis
  proof (cases f)
    case None
    then have "fs' = write_json (floor_to_vec P) path next fs"
      using assms(2) f by (simp add: floor_advance_def)
    then show ?thesis using floor_read_write [OF assms(1,3)] f None by (auto simp: write_json_def)
  next
    case (Some a)
    consider "cf_generation a > cf_generation next" "fs' = fs" | "a = next" "fs' = fs"
      | "floor_le a next" "fs' = write_json (floor_to_vec P) path next fs"
      using assms(2) f Some by (auto simp: floor_advance_def bail_if_eq_Inr floor_le_def not_less split: if_splits)
    then show ?thesis
    proof cases
      case 1
      then show ?thesis using f Some by auto
    next
      case 2
      then show ?thesis using f Some by auto
    next
      case 3
      then show ?thesis using floor_read_write [OF assms(1,3)] f Some by (auto simp: write_json_def)
    qed
  qed
qed


section \<open>Processes of one machine\<close>

text \<open>One step on the local files: some process completes \<^verbatim>\<open>advance\<close> for a head it validated, an
  \<^verbatim>\<open>advance\<close> fails and changes nothing, or another local file is written.\<close>

inductive floor_step :: "'a continuity_prims_scheme \<Rightarrow> string \<Rightarrow> files \<Rightarrow> files \<Rightarrow> bool"
  for P :: "'a continuity_prims_scheme" and path :: string where
  advanced: "floor_advance P path (floor_at h m) fs = Inr fs' \<Longrightarrow> floor_step P path fs fs'"
| refused: "floor_advance P path (floor_at h m) fs = Inl e \<Longrightarrow> floor_step P path fs fs"
| other_file: "p \<noteq> path \<Longrightarrow> floor_step P path fs (fs(p := c))"

inductive floor_run :: "'a continuity_prims_scheme \<Rightarrow> string \<Rightarrow> files \<Rightarrow> files \<Rightarrow> bool"
  for P :: "'a continuity_prims_scheme" and path :: string where
  stop: "floor_run P path fs fs"
| step: "floor_run P path fs fs' \<Longrightarrow> floor_step P path fs' fs'' \<Longrightarrow> floor_run P path fs fs''"

inductive_cases floor_stepE: "floor_step P path fs fs'"

lemma floor_step_le:
  assumes "floor_json_laws P" and "floor_step P path fs fs'" and "floor_read P path fs = Inr (Some a)"
  shows "\<exists>b. floor_read P path fs' = Inr (Some b) \<and> floor_le a b"
  using assms(2)
proof (cases rule: floor_step.cases)
  case (advanced h m)
  have "cf_format_version (floor_at h m) = FLOOR_FORMAT" by (simp add: floor_at_def)
  from floor_advance_ok [OF assms(1) advanced this] assms(3) show ?thesis by blast
next
  case refused
  then show ?thesis using assms(3) by auto
next
  case (other_file p c)
  then show ?thesis using assms(3) by (auto simp: floor_read_def read_json_def)
qed

text \<open>C20. The floor never moves back: along every sequence of completed and refused advances by the
  processes of one machine, the floor keeps its repository root, its generation and its policy
  generation never decrease, and at one generation it never names two heads.\<close>

theorem floor_is_monotone:
  assumes "floor_json_laws P" and "floor_run P path fs fs'" and "floor_read P path fs = Inr (Some a)"
  shows "\<exists>b. floor_read P path fs' = Inr (Some b) \<and> floor_le a b"
  using assms(2,3)
proof (induction rule: floor_run.induct)
  case (stop fs)
  then show ?case by auto
next
  case (step fs fs' fs'')
  then obtain b where b: "floor_read P path fs' = Inr (Some b)" "floor_le a b" by blast
  from floor_step_le [OF assms(1) step.hyps(2) b(1)] b(2) show ?case by (blast intro: floor_le_trans)
qed

section \<open>Rollback and fork protection\<close>

lemma validate_pinned_head_ok:
  "validate_pinned_head chain (Some x) = Inr () \<longleftrightarrow> chain \<noteq> [] \<and>
     mf_repository_root (os_manifest (hd chain)) = cf_repository_root x \<and>
     cf_policy_generation x \<le> mf_policy_generation (os_manifest (hd chain)) \<and>
     cf_generation x \<le> mf_generation (os_manifest (hd chain)) \<and>
     (\<exists>e. find (\<lambda>e. mf_generation (os_manifest e) = cf_generation x) chain = Some e \<and> os_id e = cf_head_id x)"
  by (cases chain) (auto simp: validate_pinned_head_def and_then_eq_Inr bail_if_eq_Inr ok_or_eq_Inr not_less)

text \<open>C1. No rollback and no fork: a chain that was authenticated from the storage head and passes
  the machine's floor contains the floor's own head, at the floor's generation, as the current
  head or one of its ancestors; and every device that the policy in force at the floor had
  revoked, or that any earlier policy of the chain had revoked, is an active reader, writer or
  administrator of neither the floor's policy nor the current one.\<close>

theorem pinned_chain_extends_floor:
  assumes chain: "chain_from P key head rd budget = (Inr chain, budget')"
    and pinned: "validate_pinned_head chain (Some x) = Inr ()"
  shows "\<exists>newer e older. chain = newer @ e # older \<and> os_id e = cf_head_id x
    \<and> mf_generation (os_manifest e) = cf_generation x \<and> length older = unat (cf_generation x)
    \<and> cf_generation x \<le> mf_generation (os_manifest (hd chain))
    \<and> cf_policy_generation x \<le> mf_policy_generation (os_manifest (hd chain))
    \<and> policy_descends P (os_policy e) (os_policy (hd chain))
    \<and> (\<forall>s \<in> set (e # older). \<forall>i d. policy_device (os_policy s) i = Some d \<and> \<not> dv_active d \<longrightarrow>
         \<not> is_active_reader (os_policy (hd chain)) i \<and> \<not> is_active_writer (os_policy (hd chain)) i
         \<and> \<not> is_active_admin (os_policy (hd chain)) i)"
proof -
  note auth = chain_from_authentic(1) [OF chain]
  from pinned obtain e where f: "find (\<lambda>e. mf_generation (os_manifest e) = cf_generation x) chain = Some e"
    and id: "os_id e = cf_head_id x"
    and gens: "cf_generation x \<le> mf_generation (os_manifest (hd chain))"
      "cf_policy_generation x \<le> mf_policy_generation (os_manifest (hd chain))"
    by (auto simp: validate_pinned_head_ok)
  from f have e: "e \<in> set chain" "mf_generation (os_manifest e) = cf_generation x" by (auto simp: find_Some_iff)
  then obtain newer older where split: "chain = newer @ e # older" by (meson split_list)
  have len: "length older = unat (cf_generation x)"
    using authentic_chain_generation [OF authentic_chain_suffix [OF auth [unfolded split]]] e(2) by simp
  have hd: "hd chain = hd (newer @ [e])" by (cases newer) (simp_all add: split)
  have desc: "policy_descends P (os_policy s) (os_policy (hd chain))" if s: "s \<in> set (e # older)" for s
  proof -
    from s obtain xs ys where xs: "e # older = xs @ s # ys" by (meson split_list)
    then have c: "chain = (newer @ xs) @ s # ys" by (simp add: split)
    then have "hd chain = hd ((newer @ xs) @ [s])" by (cases "newer @ xs") simp_all
    with authentic_chain_descends [of P _ "newer @ xs" s ys] auth c show ?thesis by simp
  qed
  have revoked: "\<not> is_active_reader (os_policy (hd chain)) i \<and> \<not> is_active_writer (os_policy (hd chain)) i
      \<and> \<not> is_active_admin (os_policy (hd chain)) i"
    if s: "s \<in> set (e # older)" and d: "policy_device (os_policy s) i = Some d" "\<not> dv_active d" for s i d
    using descendant_keeps_revoked [OF desc [OF s] d(1)] d(2) by simp
  show ?thesis
    using split id e(2) len gens desc [of e] revoked by (intro exI [of _ newer] exI [of _ e] exI [of _ older]) auto
qed

end
