(* ===== verification/Persist.thy ===== *)
theory Persist
  imports Rust_Strings
begin

text \<open>
  \<^verbatim>\<open>src/persist.rs\<close> and \<^verbatim>\<open>src/bounded.rs\<close>: durable replacement of a file by a renamed temporary,
  and bounded reads of entries that untrusted storage controls. A directory tree is a map from
  paths to entries. The step at which the operating system reports a failure is an argument of
  the model, and so is the random suffix of the temporary, so every outcome of the Rust code is
  a value of the model. \<open>replace_states\<close> lists the states a crash may leave behind.
\<close>

section \<open>Entries and bounded reads\<close>

datatype entry = RegularFile (contents: bytes) | SpecialFile

type_synonym tree = "string \<rightharpoonup> entry"

datatype opened = OpenedAbsent | OpenedRegular bytes nat | OpenedNotRegular

datatype bounded = BoundedAbsent | Within bytes | BoundedOversized | BoundedNotRegular

definition open_regular :: "tree \<Rightarrow> string \<Rightarrow> opened" where
  "open_regular fs path = (case fs path of
     None \<Rightarrow> OpenedAbsent
   | Some SpecialFile \<Rightarrow> OpenedNotRegular
   | Some (RegularFile b) \<Rightarrow> OpenedRegular b (length b))"

definition read_regular_bounded :: "tree \<Rightarrow> string \<Rightarrow> nat \<Rightarrow> bounded" where
  "read_regular_bounded fs path limit = (case open_regular fs path of
     OpenedAbsent \<Rightarrow> BoundedAbsent
   | OpenedNotRegular \<Rightarrow> BoundedNotRegular
   | OpenedRegular b len \<Rightarrow>
       if len > limit then BoundedOversized
       else let bytes = take (limit + 1) b in
         if length bytes > limit then BoundedOversized else Within bytes)"

lemma read_regular_bounded_Within:
  "read_regular_bounded fs path limit = Within b \<longleftrightarrow> fs path = Some (RegularFile b) \<and> length b \<le> limit"
  by (auto simp: read_regular_bounded_def open_regular_def Let_def split: option.splits entry.splits if_splits)

lemma read_regular_bounded_Absent:
  "read_regular_bounded fs path limit = BoundedAbsent \<longleftrightarrow> fs path = None"
  by (auto simp: read_regular_bounded_def open_regular_def Let_def split: option.splits entry.splits if_splits)

section \<open>Durable replacement\<close>

datatype replace_error = NotPublished io_kind | Unacknowledged io_kind

text \<open>Where the operating system fails, if it does.\<close>

datatype io_fault = FailCreate | FailWrite nat | FailSync | FailRename | FailDirectorySync

definition join_path :: "string \<Rightarrow> string \<Rightarrow> string" where
  "join_path directory name =
     (if ends_with directory ''/'' then directory @ name else directory @ ''/'' @ name)"

text \<open>\<^verbatim>\<open>Path::new(name).file_name() == Some(name)\<close>.\<close>

definition single_component :: "string \<Rightarrow> bool" where
  "single_component name = (name \<noteq> [] \<and> CHR ''/'' \<notin> set name \<and> name \<noteq> ''.'' \<and> name \<noteq> ''..'')"

definition temporary_path :: "string \<Rightarrow> string \<Rightarrow> string \<Rightarrow> string" where
  "temporary_path directory name random = join_path directory (''.'' @ name @ ''.'' @ random @ ''.tmp'')"

text \<open>\<open>random\<close> is the hexadecimal suffix drawn for the temporary.\<close>

definition replace_file_durably ::
    "io_fault option \<Rightarrow> string \<Rightarrow> string \<Rightarrow> string \<Rightarrow> bytes \<Rightarrow> tree \<Rightarrow> (replace_error + unit) \<times> tree" where
  "replace_file_durably fault random directory0 name data fs =
     (let directory = (if directory0 = [] then ''.'' else directory0);
          destination = join_path directory name;
          temporary = temporary_path directory name random
      in
      if \<not> single_component name then (Inl (NotPublished InvalidInput), fs)
      else if fs temporary \<noteq> None then (Inl (NotPublished AlreadyExists), fs)
      else case fault of
        Some FailCreate \<Rightarrow> (Inl (NotPublished OtherIo), fs)
      | Some (FailWrite _) \<Rightarrow> (Inl (NotPublished OtherIo), fs(temporary := None))
      | Some FailSync \<Rightarrow> (Inl (NotPublished OtherIo), fs(temporary := None))
      | Some FailRename \<Rightarrow> (Inl (NotPublished OtherIo), fs(temporary := None))
      | Some FailDirectorySync \<Rightarrow> (Inl (Unacknowledged OtherIo), fs(temporary := None, destination \<mapsto> RegularFile data))
      | None \<Rightarrow> (Inr (), fs(temporary := None, destination \<mapsto> RegularFile data)))"

text \<open>The states the file system passes through: the temporary is created empty, filled byte by byte,
  and renamed over the destination.\<close>

definition replace_states :: "string \<Rightarrow> string \<Rightarrow> string \<Rightarrow> bytes \<Rightarrow> tree \<Rightarrow> tree list" where
  "replace_states random directory name data fs =
     (let destination = join_path directory name; temporary = temporary_path directory name random in
      [fs] @ map (\<lambda>k. fs(temporary \<mapsto> RegularFile (take k data))) [0..<Suc (length data)]
      @ [fs(temporary := None, destination \<mapsto> RegularFile data)])"

lemma temporary_not_destination: "temporary_path d name random \<noteq> join_path d name"
proof
  assume "temporary_path d name random = join_path d name"
  then have "''.'' @ name @ ''.'' @ random @ ''.tmp'' = name"
    by (simp add: temporary_path_def join_path_def split: if_splits)
  then have "length (''.'' @ name @ ''.'' @ random @ ''.tmp'') = length name" by simp
  then show False by simp
qed

lemma replace_file_outcome:
  assumes "directory \<noteq> []"
  shows "case replace_file_durably fault random directory name data fs of
      (Inr _, fs') \<Rightarrow> fs' (join_path directory name) = Some (RegularFile data)
    | (Inl (Unacknowledged _), fs') \<Rightarrow> fs' (join_path directory name) = Some (RegularFile data)
    | (Inl (NotPublished _), fs') \<Rightarrow> fs' = fs"
proof -
  define t where "t = temporary_path directory name random"
  define d where "d = join_path directory name"
  have ne: "t \<noteq> d" unfolding t_def d_def by (rule temporary_not_destination)
  have eq: "replace_file_durably fault random directory name data fs =
     (if \<not> single_component name then (Inl (NotPublished InvalidInput), fs)
      else if fs t \<noteq> None then (Inl (NotPublished AlreadyExists), fs)
      else case fault of
        Some FailCreate \<Rightarrow> (Inl (NotPublished OtherIo), fs)
      | Some (FailWrite _) \<Rightarrow> (Inl (NotPublished OtherIo), fs(t := None))
      | Some FailSync \<Rightarrow> (Inl (NotPublished OtherIo), fs(t := None))
      | Some FailRename \<Rightarrow> (Inl (NotPublished OtherIo), fs(t := None))
      | Some FailDirectorySync \<Rightarrow> (Inl (Unacknowledged OtherIo), fs(t := None, d \<mapsto> RegularFile data))
      | None \<Rightarrow> (Inr (), fs(t := None, d \<mapsto> RegularFile data)))"
    using assms by (simp only: replace_file_durably_def Let_def t_def d_def if_False)
  have same: "fs t = None \<Longrightarrow> fs(t := None) = fs" by (rule fun_upd_idem)
  show ?thesis
    unfolding eq d_def [symmetric] using ne same
    by (cases fault) (simp_all split: io_fault.split)
qed

lemma replace_file_others:
  assumes "replace_file_durably fault random directory name data fs = (r, fs')" and "directory \<noteq> []"
    and "p \<noteq> join_path directory name" and "fs (temporary_path directory name random) = None"
  shows "fs' p = fs p"
  using assms
  by (auto simp: replace_file_durably_def Let_def split: if_splits option.splits io_fault.splits)



end
