(* ===== verification/Storage.thy ===== *)
theory Storage
  imports Crypto Persist
begin

text \<open>
  \<^verbatim>\<open>src/storage.rs\<close>, the object store and the directory backend: object kinds and size limits, the
  validating object stage, the contents of HEAD, the format check, and \<^verbatim>\<open>FilesystemStorage\<close> with
  its compare-and-swap of the head. Storage is untrusted: the tree may hold anything. The locale
  \<open>head_store\<close> states what clients rely on about the head, \<open>object_store\<close> what they rely on about
  objects; both are interpreted on the directory backend.
\<close>

section \<open>Limits and kinds\<close>

definition MAX_HEAD_BYTES :: nat where
  "MAX_HEAD_BYTES = 4096"

definition MAX_MANIFEST_BYTES :: nat where
  "MAX_MANIFEST_BYTES = 16 * 1024 * 1024"

definition CARRIER_CHUNK_BYTES :: nat where
  "CARRIER_CHUNK_BYTES = 32 * 1024 * 1024"

definition MAX_CHUNKS_PER_OBJECT :: nat where
  "MAX_CHUNKS_PER_OBJECT = 4096"

definition MAX_OBJECT_BYTES :: nat where
  "MAX_OBJECT_BYTES = CARRIER_CHUNK_BYTES * MAX_CHUNKS_PER_OBJECT"

datatype object_kind = Pack | Manifest

fun kind_directory :: "object_kind \<Rightarrow> string" where
  "kind_directory Pack = ''packs''"
| "kind_directory Manifest = ''manifests''"

fun kind_name :: "object_kind \<Rightarrow> string" where
  "kind_name Pack = ''pack''"
| "kind_name Manifest = ''manifest''"

fun kind_max_bytes :: "object_kind \<Rightarrow> nat" where
  "kind_max_bytes Pack = MAX_OBJECT_BYTES"
| "kind_max_bytes Manifest = MAX_MANIFEST_BYTES"

definition validate_id :: "string \<Rightarrow> unit result" where
  "validate_id i =
     bail_if (length i \<noteq> 64 \<or> \<not> list_all is_lower_hex i) (Msg ''invalid opaque object id'') (Inr ())"

section \<open>Staging an object\<close>

text \<open>The stage keeps what it has passed to its sink, what the digest has absorbed and how much was
  written. A sink may accept only a part of a write.\<close>

record object_stage =
  sg_kind :: object_kind
  sg_sink :: bytes
  sg_hashed :: bytes
  sg_written :: nat

definition stage_wrap :: "object_kind \<Rightarrow> object_stage" where
  "stage_wrap kind = \<lparr>sg_kind = kind, sg_sink = [], sg_hashed = [], sg_written = 0\<rparr>"

definition stage_write :: "object_stage \<Rightarrow> bytes \<Rightarrow> nat \<Rightarrow> (nat \<times> object_stage) result" where
  "stage_write stage data accepted =
     bail_if (sg_written stage + length data > kind_max_bytes (sg_kind stage)) (Io OtherIo) (
     let written = min accepted (length data) in
     Inr (written, stage\<lparr>sg_sink := sg_sink stage @ take written data,
       sg_hashed := sg_hashed stage @ take written data, sg_written := sg_written stage + written\<rparr>))"

definition stage_write_all :: "object_stage \<Rightarrow> bytes \<Rightarrow> object_stage result" where
  "stage_write_all stage data = and_then (stage_write stage data (length data)) (\<lambda>(_, stage'). Inr stage')"

text \<open>The checks of \<^verbatim>\<open>finish\<close> before it publishes the sink.\<close>

definition stage_finish :: "'a prims_scheme \<Rightarrow> object_stage \<Rightarrow> string \<Rightarrow> bytes result" where
  "stage_finish P stage i =
     and_then (validate_id i) (\<lambda>_.
     bail_if (hex_encode P (sha256 P (sg_hashed stage)) \<noteq> i) (Msg ''staged object hash does not match id'') (
     Inr (sg_sink stage)))"

section \<open>The contents of HEAD\<close>

datatype stored_head = HeadBytes bytes | HeadNotRegular | HeadOversized

fun stored_head_from_bounded :: "bounded \<Rightarrow> stored_head option" where
  "stored_head_from_bounded BoundedAbsent = None"
| "stored_head_from_bounded (Within b) = Some (HeadBytes b)"
| "stored_head_from_bounded BoundedOversized = Some HeadOversized"
| "stored_head_from_bounded BoundedNotRegular = Some HeadNotRegular"

fun stored_head_id :: "stored_head \<Rightarrow> string option" where
  "stored_head_id (HeadBytes b) = (case from_utf8 b of
     None \<Rightarrow> None
   | Some text \<Rightarrow> let v = trim text in if is_ok (validate_id v) then Some v else None)"
| "stored_head_id _ = None"

fun stored_head_parse :: "stored_head \<Rightarrow> string result" where
  "stored_head_parse (HeadBytes b) = ok_or (stored_head_id (HeadBytes b))
     (Msg ''storage HEAD is not a valid head: it does not name a manifest object ID'')"
| "stored_head_parse HeadNotRegular =
     Inl (err (Msg ''storage HEAD is not a valid head: it is not a regular file''))"
| "stored_head_parse HeadOversized =
     Inl (err (Msg ''storage HEAD is not a valid head: it exceeds 4096 bytes''))"

fun stored_head_evidence :: "stored_head \<Rightarrow> bytes" where
  "stored_head_evidence (HeadBytes b) = b"
| "stored_head_evidence HeadNotRegular = as_bytes ''storage HEAD is not a regular file''"
| "stored_head_evidence HeadOversized = as_bytes ''storage HEAD is oversized''"

record head_observation =
  ho_head_id :: "string option"
  ho_token :: bytes
  ho_head :: "stored_head option"

section \<open>The storage format\<close>

definition STORAGE_FORMAT_PREFIX :: string where
  "STORAGE_FORMAT_PREFIX = ''git-remote-e2ee storage ''"

definition STORAGE_FORMAT :: bytes where
  "STORAGE_FORMAT = as_bytes (STORAGE_FORMAT_PREFIX @ format_version_text @ [CHR 0x0A])"

definition MAX_STORAGE_FORMAT_BYTES :: nat where
  "MAX_STORAGE_FORMAT_BYTES = 256"

text \<open>The text of the error quotes what was found; the model leaves the quotation out.\<close>

definition check_storage_format :: "bytes option \<Rightarrow> bool \<Rightarrow> unit result" where
  "check_storage_format format head_present =
     (if format = Some STORAGE_FORMAT then Inr ()
      else if format = None \<and> \<not> head_present then Inr ()
      else Inl (err (Msg ''storage uses another format'')))"

definition read_root_file :: "tree \<Rightarrow> string \<Rightarrow> nat \<Rightarrow> bytes option result" where
  "read_root_file fs path max_bytes = (case read_regular_bounded fs path max_bytes of
     BoundedAbsent \<Rightarrow> Inr None
   | Within b \<Rightarrow> Inr (Some b)
   | BoundedOversized \<Rightarrow> Inl (err (Msg (path @ '' exceeds the size limit'')))
   | BoundedNotRegular \<Rightarrow> Inl (err (Msg (path @ '' is not a regular file''))))"

definition storage_readme :: "string \<Rightarrow> string" where
  "storage_readme subject = concat (map (\<lambda>l. l @ [CHR 0x0A])
     [''# Encrypted Git repository'', '''',
      subject @ '' holds an end-to-end encrypted Git repository managed by'',
      ''git-remote-e2ee (https://github.com/combinatrix-ai/git-remote-e2ee).'',
      ''Its contents are ciphertext. Do not edit, rename, or delete files here.'', '''',
      ''To clone it, install git-remote-e2ee and run:'', '''',
      ''    git -c e2ee.key=<your device key> clone e2ee::<this repository's URL>''])"

section \<open>The directory backend\<close>

text \<open>The state is the tree; \<open>dir\<close> is the storage root. Creating the object directories and the
  staging file does not change any entry the backend reads.\<close>

definition fs_object_path :: "string \<Rightarrow> object_kind \<Rightarrow> string \<Rightarrow> string result" where
  "fs_object_path dir kind i =
     and_then (validate_id i) (\<lambda>_.
     Inr (join_path dir (kind_directory kind @ ''/'' @ take 2 i @ ''/'' @ i)))"

definition fs_check_format :: "string \<Rightarrow> tree \<Rightarrow> unit result" where
  "fs_check_format dir fs =
     and_then (read_root_file fs (join_path dir ''FORMAT'') MAX_STORAGE_FORMAT_BYTES) (\<lambda>format.
     check_storage_format format (fs (join_path dir ''HEAD'') \<noteq> None))"

definition verify_file_id :: "'a prims_scheme \<Rightarrow> tree \<Rightarrow> string \<Rightarrow> string \<Rightarrow> unit result" where
  "verify_file_id P fs path i = (case open_regular fs path of
     OpenedRegular b _ \<Rightarrow>
       bail_if (hex_encode P (sha256 P b) \<noteq> i) (Msg (''object id collision for '' @ i)) (Inr ())
   | _ \<Rightarrow> Inl (err (Msg (''stored object '' @ i @ '' is not a regular file''))))"

definition fs_publish :: "'a prims_scheme \<Rightarrow> string \<Rightarrow> object_kind \<Rightarrow> string \<Rightarrow> bytes \<Rightarrow> tree \<Rightarrow> unit result \<times> tree" where
  "fs_publish P dir kind i data fs =
     (let target = join_path dir (kind_directory kind @ ''/'' @ take 2 i @ ''/'' @ i) in
      if fs target \<noteq> None then (verify_file_id P fs target i, fs)
      else (Inr (), fs(target \<mapsto> RegularFile data)))"

definition fs_put_object_if_absent ::
    "'a prims_scheme \<Rightarrow> string \<Rightarrow> object_kind \<Rightarrow> string \<Rightarrow> bytes \<Rightarrow> tree \<Rightarrow> unit result \<times> tree" where
  "fs_put_object_if_absent P dir kind i data fs =
     (case and_then (stage_write_all (stage_wrap kind) data) (\<lambda>stage. stage_finish P stage i) of
        Inl e \<Rightarrow> (Inl e, fs)
      | Inr sink \<Rightarrow> fs_publish P dir kind i sink fs)"

definition fs_open_object :: "string \<Rightarrow> object_kind \<Rightarrow> string \<Rightarrow> tree \<Rightarrow> bytes result" where
  "fs_open_object dir kind i fs =
     and_then (fs_object_path dir kind i) (\<lambda>path.
     let unavailable = (\<lambda>source. Inl (context_of (Msg (''read '' @ path))
           (err (ObjectUnavailable ''directory'' i source)))) in
     case open_regular fs path of
       OpenedRegular b len \<Rightarrow>
         if len \<le> kind_max_bytes kind then Inr (take (kind_max_bytes kind) b)
         else unavailable (Some InvalidData)
     | OpenedNotRegular \<Rightarrow> unavailable (Some InvalidData)
     | OpenedAbsent \<Rightarrow> unavailable (Some NotFound))"

text \<open>\<^verbatim>\<open>Storage::get_object\<close>, over the backend's \<^verbatim>\<open>open_object\<close>.\<close>

definition get_object :: "(object_kind \<Rightarrow> string \<Rightarrow> bytes result) \<Rightarrow> object_kind \<Rightarrow> string \<Rightarrow> bytes result" where
  "get_object open_object kind i =
     and_then (open_object kind i) (\<lambda>reader.
     let bytes = take (MAX_MANIFEST_BYTES + 1) reader in
     bail_if (length bytes > MAX_MANIFEST_BYTES) (Msg ''buffered object exceeds size limit'') (
     Inr bytes))"

definition read_stored_head :: "string \<Rightarrow> tree \<Rightarrow> stored_head option" where
  "read_stored_head path fs = stored_head_from_bounded (read_regular_bounded fs path MAX_HEAD_BYTES)"

definition fs_read_head :: "string \<Rightarrow> tree \<Rightarrow> string option result" where
  "fs_read_head dir fs =
     and_then (fs_check_format dir fs) (\<lambda>_.
     case read_stored_head (join_path dir ''HEAD'') fs of
       None \<Rightarrow> Inr None
     | Some head \<Rightarrow> and_then (stored_head_parse head) (\<lambda>i. Inr (Some i)))"

text \<open>One failing step for each of the three files a compare-and-swap may replace, and the suffixes
  drawn for their temporaries.\<close>

record cas_io =
  io_readme :: "io_fault option \<times> string"
  io_format :: "io_fault option \<times> string"
  io_head :: "io_fault option \<times> string"

fun replace_result :: "replace_error + unit \<Rightarrow> unit result" where
  "replace_result (Inr u) = Inr u"
| "replace_result (Inl (NotPublished k)) = Inl (err (Io k))"
| "replace_result (Inl (Unacknowledged k)) = Inl (err (Io k))"

definition replace_root_file ::
    "io_fault option \<times> string \<Rightarrow> string \<Rightarrow> string \<Rightarrow> bytes \<Rightarrow> tree \<Rightarrow> unit result \<times> tree" where
  "replace_root_file io dir name data fs =
     (case replace_file_durably (fst io) (snd io) dir name data fs of (r, fs') \<Rightarrow> (replace_result r, fs'))"

definition write_genesis_files :: "cas_io \<Rightarrow> string \<Rightarrow> tree \<Rightarrow> unit result \<times> tree" where
  "write_genesis_files io dir fs =
     (let step1 = (if fs (join_path dir ''README.md'') = None
                   then replace_root_file (io_readme io) dir ''README.md''
                          (as_bytes (storage_readme ''This directory'')) fs
                   else (Inr (), fs))
      in case step1 of
        (Inl e, fs1) \<Rightarrow> (Inl e, fs1)
      | (Inr _, fs1) \<Rightarrow> replace_root_file (io_format io) dir ''FORMAT'' STORAGE_FORMAT fs1)"

text \<open>The part both compare-and-swap functions end with.\<close>

definition fs_publish_head :: "cas_io \<Rightarrow> string \<Rightarrow> bool \<Rightarrow> string \<Rightarrow> tree \<Rightarrow> unit result \<times> tree" where
  "fs_publish_head io dir genesis next fs =
     (case (if genesis then write_genesis_files io dir fs else (Inr (), fs)) of
        (Inl e, fs1) \<Rightarrow> (Inl e, fs1)
      | (Inr _, fs1) \<Rightarrow> replace_root_file (io_head io) dir ''HEAD'' (as_bytes (next @ [CHR 0x0A])) fs1)"

definition fs_compare_and_swap_head ::
    "cas_io \<Rightarrow> string \<Rightarrow> string option \<Rightarrow> string \<Rightarrow> tree \<Rightarrow> unit result \<times> tree" where
  "fs_compare_and_swap_head io dir expected next fs =
     (case validate_id next of
        Inl e \<Rightarrow> (Inl e, fs)
      | Inr _ \<Rightarrow>
     (case fs_read_head dir fs of
        Inl e \<Rightarrow> (Inl e, fs)
      | Inr actual \<Rightarrow>
          if actual \<noteq> expected then (Inl (err (CasConflict expected actual)), fs)
          else fs_publish_head io dir (actual = None) next fs))"

definition fs_observe_head :: "string \<Rightarrow> tree \<Rightarrow> head_observation result" where
  "fs_observe_head dir fs =
     and_then (fs_check_format dir fs) (\<lambda>_.
     let head = read_stored_head (join_path dir ''HEAD'') fs in
     Inr \<lparr>ho_head_id = Option.bind head stored_head_id,
          ho_token = (case head of None \<Rightarrow> [] | Some h \<Rightarrow> stored_head_evidence h),
          ho_head = head\<rparr>)"

definition fs_compare_and_swap_observed_head ::
    "cas_io \<Rightarrow> string \<Rightarrow> head_observation \<Rightarrow> string \<Rightarrow> tree \<Rightarrow> unit result \<times> tree" where
  "fs_compare_and_swap_observed_head io dir observed next fs =
     (case validate_id next of
        Inl e \<Rightarrow> (Inl e, fs)
      | Inr _ \<Rightarrow>
          let actual = read_stored_head (join_path dir ''HEAD'') fs in
          if actual \<noteq> ho_head observed
          then (Inl (err (CasConflict (ho_head_id observed) (Option.bind actual stored_head_id))), fs)
          else fs_publish_head io dir (actual = None) next fs)"

end
