(* ===== verification/Storage_Facts.thy ===== *)
theory Storage_Facts
  imports Storage
begin

text \<open>
  The contracts of the storage and their proof for the directory backend. \<open>head_store\<close> is a
  compare-and-swap register whose failed swap either changed nothing or took effect anyway;
  \<open>object_store\<close> is a store in which an identifier, once it can be read, always reads the same
  bytes. Every client of one backend sees one linear history of heads.
\<close>

section \<open>The contract of the head\<close>

text \<open>The state after a sequence of swaps attempted by any clients, and after a sequence of puts.\<close>

fun cas_run :: "('io \<Rightarrow> string option \<Rightarrow> string \<Rightarrow> 's \<Rightarrow> unit result \<times> 's)
    \<Rightarrow> ('io \<times> string option \<times> string) list \<Rightarrow> 's \<Rightarrow> 's" where
  "cas_run cas [] s = s"
| "cas_run cas ((io, e, n) # ops) s = cas_run cas ops (snd (cas io e n s))"

fun put_all :: "(object_kind \<Rightarrow> string \<Rightarrow> bytes \<Rightarrow> 's \<Rightarrow> unit result \<times> 's)
    \<Rightarrow> (object_kind \<times> string \<times> bytes) list \<Rightarrow> 's \<Rightarrow> 's" where
  "put_all put [] s = s"
| "put_all put ((k, i, b) # ops) s = put_all put ops (snd (put k i b s))"

locale head_store =
  fixes read_head :: "'s \<Rightarrow> string option result"
    and cas :: "'io \<Rightarrow> string option \<Rightarrow> string \<Rightarrow> 's \<Rightarrow> unit result \<times> 's"
  assumes cas_success: "cas io e n s = (Inr (), s') \<Longrightarrow> read_head s = Inr e \<and> read_head s' = Inr (Some n)"
    and cas_failure: "cas io e n s = (Inl x, s') \<Longrightarrow>
      read_head s' = read_head s \<or> read_head s = Inr e \<and> read_head s' = Inr (Some n)"
begin

text \<open>Of two swaps that expect the same head, the second fails and leaves the head of the first.\<close>

lemma cas_exclusive:
  assumes first: "cas io e n s = (Inr (), s1)" and "e \<noteq> Some n" and second: "cas io' e m s1 = (r, s2)"
  shows "r \<noteq> Inr () \<and> read_head s2 = Inr (Some n)"
proof -
  from cas_success [OF first] have s1: "read_head s1 = Inr (Some n)" by simp
  show ?thesis
  proof (cases r)
    case (Inl x)
    with cas_failure second s1 assms(2) show ?thesis by fastforce
  next
    case (Inr u)
    with cas_success [of io' e m s1 s2] second s1 assms(2) show ?thesis by auto
  qed
qed

lemma cas_step_head:
  "read_head (snd (cas io e n s)) = read_head s \<or> read_head s = Inr e \<and> read_head (snd (cas io e n s)) = Inr (Some n)"
proof (cases "cas io e n s")
  case (Pair r s')
  then show ?thesis
    using cas_success [of io e n s s'] cas_failure [of io e n s _ s'] by (cases r) auto
qed

text \<open>Every change of the head was made by an attempt that expected exactly the head before it.\<close>

lemma cas_run_linear:
  "\<exists>links. (\<forall>l \<in> set links. \<exists>io. (io, fst l, snd l) \<in> set ops) \<and>
     (links = [] \<and> read_head (cas_run cas ops s) = read_head s \<or>
      links \<noteq> [] \<and> read_head s = Inr (fst (hd links)) \<and> read_head (cas_run cas ops s) = Inr (Some (snd (last links))) \<and>
      (\<forall>i. Suc i < length links \<longrightarrow> fst (links ! Suc i) = Some (snd (links ! i))))"
proof (induction ops arbitrary: s)
  case Nil
  show ?case by (rule exI [of _ "[]"]) simp
next
  case (Cons op ops)
  obtain io e n where op: "op = (io, e, n)" by (cases op)
  let ?s1 = "snd (cas io e n s)"
  from Cons.IH [of ?s1] obtain links where
    ops: "\<forall>l \<in> set links. \<exists>io. (io, fst l, snd l) \<in> set ops" and
    l: "links = [] \<and> read_head (cas_run cas ops ?s1) = read_head ?s1 \<or>
      links \<noteq> [] \<and> read_head ?s1 = Inr (fst (hd links)) \<and> read_head (cas_run cas ops ?s1) = Inr (Some (snd (last links))) \<and>
      (\<forall>i. Suc i < length links \<longrightarrow> fst (links ! Suc i) = Some (snd (links ! i)))"
    by blast
  from cas_step_head [of io e n s] show ?case
  proof
    assume "read_head ?s1 = read_head s"
    then show ?thesis using l ops by (intro exI [of _ links]) (auto simp: op)
  next
    assume step: "read_head s = Inr e \<and> read_head ?s1 = Inr (Some n)"
    have dense: "\<forall>i. Suc i < length ((e, n) # links) \<longrightarrow>
        fst (((e, n) # links) ! Suc i) = Some (snd (((e, n) # links) ! i))"
    proof (intro allI impI)
      fix i assume "Suc i < length ((e, n) # links)"
      then show "fst (((e, n) # links) ! Suc i) = Some (snd (((e, n) # links) ! i))"
        using l step by (cases i) (auto simp: hd_conv_nth)
    qed
    show ?thesis
      by (rule exI [of _ "(e, n) # links"]) (use l ops step dense in \<open>auto simp: op\<close>)
  qed
qed

end

section \<open>The contract of the objects\<close>

locale object_store =
  fixes get :: "object_kind \<Rightarrow> string \<Rightarrow> 's \<Rightarrow> bytes result"
    and put :: "object_kind \<Rightarrow> string \<Rightarrow> bytes \<Rightarrow> 's \<Rightarrow> unit result \<times> 's"
    and digest :: "bytes \<Rightarrow> string"
    and present :: "object_kind \<Rightarrow> string \<Rightarrow> 's \<Rightarrow> bool"
  assumes put_named: "put k i b s = (Inr (), s') \<Longrightarrow> digest b = i"
    and put_stores: "put k i b s = (Inr (), s') \<Longrightarrow> \<not> present k i s \<Longrightarrow> get k i s' = Inr b"
    and put_honest: "put k i b s = (Inr (), s') \<Longrightarrow> get k i s' = Inr c \<Longrightarrow> digest c = i"
    and put_keeps: "put k i b s = (r, s') \<Longrightarrow> get k' j s = Inr c \<Longrightarrow> get k' j s' = Inr c"
begin

text \<open>An object that can be read keeps its bytes through every later put.\<close>

lemma put_all_keeps: "get k i s = Inr c \<Longrightarrow> get k i (put_all put ops s) = Inr c"
proof (induction ops arbitrary: s)
  case (Cons op ops)
  obtain k' j b where op: "op = (k', j, b)" by (cases op)
  have "get k i (snd (put k' j b s)) = Inr c"
    using put_keeps [of k' j b s "fst (put k' j b s)" "snd (put k' j b s)"] Cons.prems by simp
  then show ?case using Cons.IH op by simp
qed simp

end

section \<open>Paths of the directory backend\<close>

lemma join_path_inject [simp]: "join_path d a = join_path d b \<longleftrightarrow> a = b"
  by (simp add: join_path_def)

lemma validate_id_ok [result_simps]: "validate_id i = Inr () \<longleftrightarrow> length i = 64 \<and> list_all is_lower_hex i"
  by (auto simp: validate_id_def bail_if_eq_Inr)

lemma is_ok_validate_id: "is_ok (validate_id i) \<longleftrightarrow> length i = 64 \<and> list_all is_lower_hex i"
  by (simp add: is_ok_iff validate_id_def bail_if_eq_Inr)

lemma lower_hex_ascii: "is_lower_hex c \<Longrightarrow> of_char c < (128 :: nat) \<and> \<not> is_whitespace (of_char c)"
  by (auto simp: is_lower_hex_def less_eq_char_def is_whitespace_def)

lemma stored_head_id_written:
  assumes "validate_id i = Inr ()"
  shows "stored_head_id (HeadBytes (as_bytes (i @ [CHR 0x0A]))) = Some i"
proof -
  from assms have hex: "\<forall>c \<in> set i. is_lower_hex c" and ok: "is_ok (validate_id i)"
    by (auto simp: validate_id_ok list_all_iff is_ok_validate_id)
  then have "\<forall>c \<in> set i. of_char c < (128 :: nat)" "\<forall>c \<in> set i. \<not> is_whitespace (of_char c)"
    using lower_hex_ascii by blast+
  then have "trim (i @ [CHR 0x0A]) = i" "from_utf8 (as_bytes (i @ [CHR 0x0A])) = Some (i @ [CHR 0x0A])"
    using from_utf8_as_bytes [of "i @ [CHR 0x0A]"] by (auto intro: trim_ascii_newline)
  then show ?thesis using ok by (simp add: Let_def)
qed

abbreviation head_path :: "string \<Rightarrow> string" where
  "head_path dir \<equiv> join_path dir ''HEAD''"

abbreviation format_path :: "string \<Rightarrow> string" where
  "format_path dir \<equiv> join_path dir ''FORMAT''"

text \<open>The head is a function of two entries.\<close>

lemma fs_read_head_cong:
  "fs (head_path dir) = fs' (head_path dir) \<Longrightarrow> fs (format_path dir) = fs' (format_path dir) \<Longrightarrow>
     fs_read_head dir fs = fs_read_head dir fs'"
  by (simp add: fs_read_head_def fs_check_format_def read_root_file_def read_stored_head_def
      read_regular_bounded_def open_regular_def)

lemma fs_read_head_None:
  assumes "fs (head_path dir) = None" and "fs (format_path dir) \<in> {None, Some (RegularFile STORAGE_FORMAT)}"
  shows "fs_read_head dir fs = Inr None"
proof -
  have "length STORAGE_FORMAT \<le> MAX_STORAGE_FORMAT_BYTES"
    by (simp add: STORAGE_FORMAT_def STORAGE_FORMAT_PREFIX_def format_version_text_def MAX_STORAGE_FORMAT_BYTES_def)
  then show ?thesis
    using assms
    by (auto simp: fs_read_head_def fs_check_format_def read_root_file_def read_stored_head_def
        read_regular_bounded_def open_regular_def check_storage_format_def Let_def)
qed

lemma fs_read_head_written:
  assumes "fs (head_path dir) = Some (RegularFile (as_bytes (i @ [CHR 0x0A])))"
    and "fs (format_path dir) = Some (RegularFile STORAGE_FORMAT)" and "validate_id i = Inr ()"
  shows "fs_read_head dir fs = Inr (Some i)"
proof -
  have "length STORAGE_FORMAT \<le> MAX_STORAGE_FORMAT_BYTES"
    by (simp add: STORAGE_FORMAT_def STORAGE_FORMAT_PREFIX_def format_version_text_def MAX_STORAGE_FORMAT_BYTES_def)
  moreover have "length (as_bytes (i @ [CHR 0x0A])) \<le> MAX_HEAD_BYTES"
    using assms(3) by (simp add: validate_id_ok MAX_HEAD_BYTES_def)
  ultimately show ?thesis
    using assms(1,2) stored_head_id_written [OF assms(3)]
    by (simp add: fs_read_head_def fs_check_format_def read_root_file_def read_stored_head_def
        read_regular_bounded_def open_regular_def check_storage_format_def Let_def)
qed

lemma fs_read_head_Some_format:
  "fs_read_head dir fs = Inr (Some i) \<Longrightarrow> fs (format_path dir) = Some (RegularFile STORAGE_FORMAT)"
  by (auto simp: fs_read_head_def fs_check_format_def and_then_eq_Inr check_storage_format_def read_root_file_def
      read_stored_head_def read_regular_bounded_def open_regular_def Let_def
      split: if_splits option.splits entry.splits bounded.splits)

lemma fs_read_head_None_iff:
  "fs_read_head dir fs = Inr None \<longleftrightarrow> fs (head_path dir) = None \<and>
     fs (format_path dir) \<in> {None, Some (RegularFile STORAGE_FORMAT)}"
proof
  assume "fs_read_head dir fs = Inr None"
  then show "fs (head_path dir) = None \<and> fs (format_path dir) \<in> {None, Some (RegularFile STORAGE_FORMAT)}"
    by (auto simp: fs_read_head_def fs_check_format_def and_then_eq_Inr check_storage_format_def read_root_file_def
        read_stored_head_def read_regular_bounded_def open_regular_def Let_def
        split: if_splits option.splits entry.splits bounded.splits)
qed (simp add: fs_read_head_None)


section \<open>The directory backend keeps the contract of the head\<close>

text \<open>A replaced root file does not touch another root file.\<close>

lemma temporary_not_root_file:
  assumes "name \<in> {''HEAD'', ''FORMAT'', ''README.md''}" and "p \<in> {''HEAD'', ''FORMAT''}"
  shows "temporary_path dir name random \<noteq> join_path dir p"
  using assms by (auto simp: temporary_path_def)

lemma replace_root_file_cases:
  assumes "replace_root_file io dir name data fs = (r, fs')" and "dir \<noteq> []"
    and "name \<in> {''HEAD'', ''FORMAT'', ''README.md''}"
  shows "(r = Inr () \<longrightarrow> fs' (join_path dir name) = Some (RegularFile data)) \<and>
    fs' (join_path dir name) \<in> {fs (join_path dir name), Some (RegularFile data)} \<and>
    (\<forall>p \<in> {''HEAD'', ''FORMAT''}. p \<noteq> name \<longrightarrow> fs' (join_path dir p) = fs (join_path dir p))"
proof -
  obtain r0 where r0: "replace_file_durably (fst io) (snd io) dir name data fs = (r0, fs')" "r = replace_result r0"
    using assms(1) by (auto simp: replace_root_file_def split: prod.splits)
  have "case r0 of Inr _ \<Rightarrow> fs' (join_path dir name) = Some (RegularFile data)
      | Inl (Unacknowledged _) \<Rightarrow> fs' (join_path dir name) = Some (RegularFile data) | Inl (NotPublished _) \<Rightarrow> fs' = fs"
    using replace_file_outcome [OF assms(2), where fault = "fst io" and random = "snd io" and name = name
      and data = data and fs = fs] r0(1) by (simp split: sum.splits replace_error.splits)
  moreover have "fs' (join_path dir p) = fs (join_path dir p)" if p: "p \<in> {''HEAD'', ''FORMAT''}" "p \<noteq> name" for p
    using r0(1) p assms(2) temporary_not_root_file [OF assms(3) p(1), of dir "snd io"]
    by (auto simp: replace_file_durably_def Let_def split: if_splits option.splits io_fault.splits)
  ultimately show ?thesis
    using r0(2) by (auto split: sum.splits replace_error.splits)
qed

lemma write_genesis_files_cases:
  assumes "write_genesis_files io dir fs = (r, fs')" and "dir \<noteq> []"
    and "fs (format_path dir) \<in> {None, Some (RegularFile STORAGE_FORMAT)}"
  shows "fs' (head_path dir) = fs (head_path dir) \<and>
    fs' (format_path dir) \<in> {None, Some (RegularFile STORAGE_FORMAT)} \<and>
    (r = Inr () \<longrightarrow> fs' (format_path dir) = Some (RegularFile STORAGE_FORMAT))"
proof -
  define step1 where "step1 = (if fs (join_path dir ''README.md'') = None
    then replace_root_file (io_readme io) dir ''README.md'' (as_bytes (storage_readme ''This directory'')) fs else (Inr (), fs))"
  obtain r1 fs1 where s1: "step1 = (r1, fs1)" by (cases step1)
  have keep1: "fs1 (head_path dir) = fs (head_path dir)" "fs1 (format_path dir) = fs (format_path dir)"
    using s1 replace_root_file_cases [of "io_readme io" dir "''README.md''" _ fs r1 fs1] assms(2)
    by (auto simp: step1_def split: if_splits)
  have eq: "write_genesis_files io dir fs = (case (r1, fs1) of (Inl e, fs1) \<Rightarrow> (Inl e, fs1)
      | (Inr _, fs1) \<Rightarrow> replace_root_file (io_format io) dir ''FORMAT'' STORAGE_FORMAT fs1)"
    by (simp only: write_genesis_files_def Let_def step1_def [symmetric] s1)
  show ?thesis
  proof (cases r1)
    case (Inl e)
    then show ?thesis using eq assms keep1 by auto
  next
    case (Inr u)
    then have "replace_root_file (io_format io) dir ''FORMAT'' STORAGE_FORMAT fs1 = (r, fs')"
      using eq assms(1) by simp
    from replace_root_file_cases [OF this assms(2)] show ?thesis using keep1 assms(3) by auto
  qed
qed

lemma fs_publish_head_cases:
  assumes pub: "fs_publish_head io dir genesis next fs = (r, fs')" and "dir \<noteq> []" and id: "validate_id next = Inr ()"
    and old: "fs_read_head dir fs = Inr expected" "genesis = (expected = None)"
  shows "(r = Inr () \<longrightarrow> fs_read_head dir fs' = Inr (Some next)) \<and>
    fs_read_head dir fs' \<in> {Inr expected, Inr (Some next)}"
proof -
  define step1 where "step1 = (if genesis then write_genesis_files io dir fs else (Inr (), fs))"
  obtain r1 fs1 where s1: "step1 = (r1, fs1)" by (cases step1)
  have fmt: "fs (format_path dir) \<in> {None, Some (RegularFile STORAGE_FORMAT)}"
    and fmt': "\<not> genesis \<Longrightarrow> fs (format_path dir) = Some (RegularFile STORAGE_FORMAT)"
    using old fs_read_head_None_iff [of dir fs] fs_read_head_Some_format [of dir fs] by (cases expected; auto)+
  have k1: "fs1 (head_path dir) = fs (head_path dir)"
    "fs1 (format_path dir) \<in> {None, Some (RegularFile STORAGE_FORMAT)}"
    "r1 = Inr () \<Longrightarrow> fs1 (format_path dir) = Some (RegularFile STORAGE_FORMAT)"
    "\<not> genesis \<Longrightarrow> fs1 = fs"
    using s1 write_genesis_files_cases [of io dir fs r1 fs1] assms(2) fmt fmt' by (auto simp: step1_def split: if_splits)
  have same: "fs_read_head dir f = Inr expected"
    if "f (head_path dir) = fs (head_path dir)" "f (format_path dir) = fs1 (format_path dir)" for f
  proof (cases genesis)
    case True
    then show ?thesis using that old k1(2) fs_read_head_None_iff [of dir fs] fs_read_head_None [of f dir] by simp
  next
    case False
    then show ?thesis using that k1(4) old fs_read_head_cong [of f dir fs] by simp
  qed
  have eq: "fs_publish_head io dir genesis next fs = (case (r1, fs1) of (Inl e, fs1) \<Rightarrow> (Inl e, fs1)
      | (Inr _, fs1) \<Rightarrow> replace_root_file (io_head io) dir ''HEAD'' (as_bytes (next @ [CHR 0x0A])) fs1)"
    by (simp only: fs_publish_head_def step1_def [symmetric] s1)
  show ?thesis
  proof (cases r1)
    case (Inl e)
    then show ?thesis using eq pub same [of fs1] k1 by simp
  next
    case (Inr u)
    then have "replace_root_file (io_head io) dir ''HEAD'' (as_bytes (next @ [CHR 0x0A])) fs1 = (r, fs')"
      using eq pub by simp
    from replace_root_file_cases [OF this assms(2)] have
      h: "r = Inr () \<Longrightarrow> fs' (head_path dir) = Some (RegularFile (as_bytes (next @ [CHR 0x0A])))"
        "fs' (head_path dir) \<in> {fs1 (head_path dir), Some (RegularFile (as_bytes (next @ [CHR 0x0A])))}"
        "fs' (format_path dir) = fs1 (format_path dir)" by auto
    have f1: "fs1 (format_path dir) = Some (RegularFile STORAGE_FORMAT)" using k1(3) Inr by simp
    have new: "fs_read_head dir fs' = Inr (Some next)"
      if "fs' (head_path dir) = Some (RegularFile (as_bytes (next @ [CHR 0x0A])))"
      by (rule fs_read_head_written) (use that h(3) f1 id in simp_all)
    show ?thesis using h new same [of fs'] k1(1) by auto
  qed
qed

lemma fs_cas_cases:
  assumes "fs_compare_and_swap_head io dir e n fs = (r, fs')" and "dir \<noteq> []"
  shows "(r = Inr () \<longrightarrow> fs_read_head dir fs = Inr e \<and> fs_read_head dir fs' = Inr (Some n)) \<and>
    (fs_read_head dir fs' = fs_read_head dir fs \<or> fs_read_head dir fs = Inr e \<and> fs_read_head dir fs' = Inr (Some n))"
proof (cases "validate_id n = Inr () \<and> fs_read_head dir fs = Inr e")
  case True
  then have "fs_publish_head io dir (e = None) n fs = (r, fs')"
    using assms(1) by (simp add: fs_compare_and_swap_head_def)
  from fs_publish_head_cases [OF this assms(2)] True show ?thesis by auto
next
  case False
  then have "r \<noteq> Inr () \<and> fs' = fs"
    using assms(1) by (auto simp: fs_compare_and_swap_head_def split: sum.splits if_splits)
  then show ?thesis by simp
qed


text \<open>The storage root of the interpretation: any directory name, with a stand-in for the empty one,
  which the command line never produces.\<close>

definition storage_dir :: "string \<Rightarrow> string" where
  "storage_dir dir = (if dir = [] then ''.'' else dir)"

lemma storage_dir_not_Nil [simp]: "storage_dir dir \<noteq> []"
  by (simp add: storage_dir_def)

interpretation fs_head: head_store "fs_read_head (storage_dir dir)" "\<lambda>io. fs_compare_and_swap_head io (storage_dir dir)"
  for dir :: string
proof unfold_locales
  fix io e n s s'
  assume "fs_compare_and_swap_head io (storage_dir dir) e n s = (Inr (), s')"
  from fs_cas_cases [OF this storage_dir_not_Nil] show "fs_read_head (storage_dir dir) s = Inr e \<and>
      fs_read_head (storage_dir dir) s' = Inr (Some n)" by simp
next
  fix io e n s x s'
  assume "fs_compare_and_swap_head io (storage_dir dir) e n s = (Inl x, s')"
  from fs_cas_cases [OF this storage_dir_not_Nil] show "fs_read_head (storage_dir dir) s' = fs_read_head (storage_dir dir) s \<or>
      fs_read_head (storage_dir dir) s = Inr e \<and> fs_read_head (storage_dir dir) s' = Inr (Some n)" by simp
qed

section \<open>The directory backend keeps the contract of the objects\<close>

abbreviation object_path :: "string \<Rightarrow> object_kind \<Rightarrow> string \<Rightarrow> string" where
  "object_path dir kind i \<equiv> join_path dir (kind_directory kind @ ''/'' @ take 2 i @ ''/'' @ i)"

lemma stage_content:
  "and_then (stage_write_all (stage_wrap kind) data) (\<lambda>stage. stage_finish P stage i) = Inr sink \<Longrightarrow>
     sink = data \<and> object_id P data = i \<and> validate_id i = Inr () \<and> length data \<le> kind_max_bytes kind"
  by (auto simp: stage_write_all_def stage_write_def stage_wrap_def stage_finish_def object_id_def
      and_then_eq_Inr bail_if_eq_Inr Let_def)

lemma fs_put_cases:
  assumes "fs_put_object_if_absent P dir kind i data fs = (r, fs')"
  shows "fs' = fs \<or> fs (object_path dir kind i) = None \<and> fs' = fs(object_path dir kind i \<mapsto> RegularFile data)"
    and "r = Inr () \<Longrightarrow> object_id P data = i \<and> validate_id i = Inr () \<and> length data \<le> kind_max_bytes kind \<and>
      (fs (object_path dir kind i) = None \<and> fs' = fs(object_path dir kind i \<mapsto> RegularFile data) \<or>
       fs' = fs \<and> (\<exists>b. fs (object_path dir kind i) = Some (RegularFile b) \<and> object_id P b = i))"
  using assms stage_content [of kind data P i]
  by (auto simp: fs_put_object_if_absent_def fs_publish_def verify_file_id_def open_regular_def Let_def object_id_def
      bail_if_eq_Inr split: sum.splits if_splits option.splits entry.splits)

lemma fs_open_object_ok:
  "fs_open_object dir kind i fs = Inr c \<longleftrightarrow> validate_id i = Inr () \<and> fs (object_path dir kind i) = Some (RegularFile c)
     \<and> length c \<le> kind_max_bytes kind"
  by (auto simp: fs_open_object_def fs_object_path_def open_regular_def Let_def and_then_eq_Inr
      split: opened.splits option.splits entry.splits if_splits)

interpretation fs_objects: object_store "\<lambda>k i. fs_open_object dir k i" "\<lambda>k i. fs_put_object_if_absent P dir k i"
    "object_id P" "\<lambda>k i fs. fs (object_path dir k i) \<noteq> None"
  for P :: "'a prims_scheme" and dir :: string
proof unfold_locales
  fix k i b s s'
  assume put: "fs_put_object_if_absent P dir k i b s = (Inr (), s')"
  then show "object_id P b = i" using fs_put_cases(2) by blast
  show "fs_open_object dir k i s' = Inr b" if "\<not> s (object_path dir k i) \<noteq> None"
    using fs_put_cases(2) [OF put] that by (auto simp: fs_open_object_ok)
  show "object_id P c = i" if "fs_open_object dir k i s' = Inr c" for c
    using fs_put_cases(2) [OF put] that by (auto simp: fs_open_object_ok)
next
  fix k i b s r s' k' j c
  assume "fs_put_object_if_absent P dir k i b s = (r, s')" "fs_open_object dir k' j s = Inr c"
  then show "fs_open_object dir k' j s' = Inr c"
    using fs_put_cases(1) [of P dir k i b s r s'] by (auto simp: fs_open_object_ok)
qed

text \<open>Objects and the head live at different paths.\<close>

lemma object_path_not_root: "object_path dir kind i \<noteq> head_path dir" "object_path dir kind i \<noteq> format_path dir"
  by (cases kind; simp)+

lemma fs_put_keeps_head: "fs_put_object_if_absent P dir kind i data fs = (r, fs') \<Longrightarrow> fs_read_head dir fs' = fs_read_head dir fs"
  using fs_put_cases(1) [of P dir kind i data fs r fs'] object_path_not_root [of dir kind i]
  by (auto intro!: fs_read_head_cong)

section \<open>Properties\<close>

text \<open>C21. One linear history of heads: whatever sequence of compare-and-swaps the clients of a
  directory storage attempt, and whichever of them fail at whatever step, the heads that ever
  become current form one chain in which each new head was published by an attempt that expected
  exactly the head before it; no published head is overwritten by a client that had not seen it.\<close>

theorem directory_heads_are_linear:
  "\<exists>links. (\<forall>l \<in> set links. \<exists>io. (io, fst l, snd l) \<in> set ops) \<and>
     (links = [] \<and> fs_read_head (storage_dir dir) (cas_run (\<lambda>io. fs_compare_and_swap_head io (storage_dir dir)) ops fs) = fs_read_head (storage_dir dir) fs \<or>
      links \<noteq> [] \<and> fs_read_head (storage_dir dir) fs = Inr (fst (hd links)) \<and>
      fs_read_head (storage_dir dir) (cas_run (\<lambda>io. fs_compare_and_swap_head io (storage_dir dir)) ops fs) = Inr (Some (snd (last links))) \<and>
      (\<forall>i. Suc i < length links \<longrightarrow> fst (links ! Suc i) = Some (snd (links ! i))))"
  by (rule fs_head.cas_run_linear)

text \<open>Losing a race is detected: after one client's compare-and-swap succeeded, a second client that
  expected the same old head fails, and the head stays the first client's.\<close>

theorem directory_cas_is_exclusive:
  assumes "fs_compare_and_swap_head io (storage_dir dir) e n fs = (Inr (), fs1)" and "e \<noteq> Some n"
    and "fs_compare_and_swap_head io' (storage_dir dir) e m fs1 = (r, fs2)"
  shows "r \<noteq> Inr () \<and> fs_read_head (storage_dir dir) fs2 = Inr (Some n)"
  using assms by (rule fs_head.cas_exclusive)

text \<open>C22. Objects are immutable: an object that a reader of the directory storage could open keeps
  exactly its bytes through every later sequence of puts, successful or not; and a put that
  succeeds stored bytes whose digest is the name.\<close>

theorem directory_objects_are_immutable:
  assumes "fs_open_object dir k i fs = Inr c"
  shows "fs_open_object dir k i (put_all (\<lambda>k i. fs_put_object_if_absent P dir k i) ops fs) = Inr c"
  using assms by (rule fs_objects.put_all_keeps)


section \<open>Concrete instances\<close>

definition quiet_io :: cas_io where
  "quiet_io = \<lparr>io_readme = (None, ''a''), io_format = (None, ''b''), io_head = (None, ''c'')\<rparr>"

definition sample_head :: "char \<Rightarrow> string" where
  "sample_head c = replicate 64 c"

lemma sample_head_valid: "is_lower_hex c \<Longrightarrow> validate_id (sample_head c) = Inr ()"
  by (simp add: validate_id_ok sample_head_def list_all_iff)

lemma genesis_swap_succeeds:
  assumes "is_lower_hex c"
  shows "fst (fs_compare_and_swap_head quiet_io (storage_dir ''d'') None (sample_head c) Map.empty) = Inr ()"
proof -
  have "fs_read_head (storage_dir ''d'') Map.empty = Inr None" by (rule fs_read_head_None) simp_all
  then show ?thesis
    using sample_head_valid [OF assms]
    by (simp add: fs_compare_and_swap_head_def fs_publish_head_def write_genesis_files_def replace_root_file_def
        replace_file_durably_def quiet_io_def storage_dir_def single_component_def temporary_path_def Let_def)
qed

theorem directory_cas_is_exclusive_witness:
  "fst (fs_compare_and_swap_head quiet_io (storage_dir ''d'') None (sample_head (CHR ''b''))
     (snd (fs_compare_and_swap_head quiet_io (storage_dir ''d'') None (sample_head (CHR ''a'')) Map.empty))) \<noteq> Inr ()"
proof -
  let ?s1 = "snd (fs_compare_and_swap_head quiet_io (storage_dir ''d'') None (sample_head (CHR ''a'')) Map.empty)"
  have "fs_compare_and_swap_head quiet_io (storage_dir ''d'') None (sample_head (CHR ''a'')) Map.empty = (Inr (), ?s1)"
    using genesis_swap_succeeds [of "CHR ''a''"] by (simp add: is_lower_hex_def less_eq_char_def prod_eq_iff)
  then show ?thesis
    using directory_cas_is_exclusive [of quiet_io "''d''" None "sample_head (CHR ''a'')" Map.empty ?s1 quiet_io
        "sample_head (CHR ''b'')"] by (simp add: prod_eq_iff)
qed

text \<open>Two clients initialize the same empty directory; the first one's head is published over none.\<close>

theorem directory_heads_are_linear_witness:
  "let swap = (\<lambda>io. fs_compare_and_swap_head io (storage_dir ''d''));
       ops = [(quiet_io, None, sample_head (CHR ''a'')), (quiet_io, None, sample_head (CHR ''b''))]
   in \<exists>links. links \<noteq> [] \<and> hd links = (None, sample_head (CHR ''a'')) \<and>
        fs_read_head (storage_dir ''d'') (cas_run swap ops Map.empty) = Inr (Some (snd (last links)))"
proof -
  let ?swap = "\<lambda>io. fs_compare_and_swap_head io (storage_dir ''d'')"
  let ?a = "sample_head (CHR ''a'')" and ?b = "sample_head (CHR ''b'')"
  let ?ops = "[(quiet_io, None, ?a), (quiet_io, None, ?b)]"
  have "is_lower_hex (CHR ''a'')" by (simp add: is_lower_hex_def less_eq_char_def)
  from genesis_swap_succeeds [OF this] obtain fs1 where
    one: "?swap quiet_io None ?a Map.empty = (Inr (), fs1)" by (metis prod.collapse)
  obtain r fs2 where two: "?swap quiet_io None ?b fs1 = (r, fs2)" by (cases "?swap quiet_io None ?b fs1")
  have "fs_read_head (storage_dir ''d'') fs2 = Inr (Some ?a)"
    using fs_head.cas_exclusive [OF one _ two] by simp
  then have final: "fs_read_head (storage_dir ''d'') (cas_run ?swap ?ops Map.empty) = Inr (Some ?a)"
    using one two by simp
  have first: "fs_read_head (storage_dir ''d'') Map.empty = Inr None" by (rule fs_read_head_None) simp_all
  from directory_heads_are_linear [of ?ops "''d''" Map.empty] obtain links where
    ops: "\<forall>l \<in> set links. \<exists>io. (io, fst l, snd l) \<in> set ?ops" and
    or: "links = [] \<and> fs_read_head (storage_dir ''d'') (cas_run ?swap ?ops Map.empty) = fs_read_head (storage_dir ''d'') Map.empty \<or>
      links \<noteq> [] \<and> fs_read_head (storage_dir ''d'') (cas_run ?swap ?ops Map.empty) = Inr (Some (snd (last links)))
        \<and> (\<forall>i. Suc i < length links \<longrightarrow> fst (links ! Suc i) = Some (snd (links ! i)))"
    by blast
  from or final first have l: "links \<noteq> []" "snd (last links) = ?a" by auto
  have "links = [last links]"
  proof (cases links rule: rev_cases)
    case (snoc xs x)
    show ?thesis
    proof (cases xs rule: rev_cases)
      case (snoc ys y)
      then have "fst (links ! Suc (length ys)) = Some (snd (links ! length ys))"
        using or \<open>links = xs @ [x]\<close> by auto
      then have "fst x = Some (snd y)" by (simp add: snoc \<open>links = xs @ [x]\<close> nth_append)
      with ops show ?thesis by (auto simp: \<open>links = xs @ [x]\<close>)
    qed (simp add: snoc)
  qed (use l in simp)
  then obtain x where x: "links = [x]" by blast
  with ops l have "x = (None, ?a)" by (cases x) auto
  with x final show ?thesis by (auto simp: Let_def)
qed

end
