(* ===== verification/Pack_Stream.thy ===== *)
theory Pack_Stream
  imports Crypto
begin

text \<open>
  The segmented encryption of packs in \<^verbatim>\<open>src/crypto.rs\<close>. A reader is the list of bytes still to
  be read and a writer the list written so far; a read that is interrupted or short is retried
  by the code, so \<^verbatim>\<open>read_chunk\<close> takes a full chunk or what is left. The tracing calls have no
  effect on the result. The main results are that opening inverts sealing, and that opening
  accepts only the ciphertext whose identifier and size the descriptor names.
\<close>

section \<open>Definitions\<close>

definition PACK_STREAM_MAGIC :: bytes where
  "PACK_STREAM_MAGIC = as_bytes (''E2EEPK'' @ format_version_text @ [CHR 0x00])"

definition PACK_STREAM_CHUNK_SIZE :: nat where
  "PACK_STREAM_CHUNK_SIZE = 1024 * 1024"

definition PACK_STREAM_NONCE_SIZE :: nat where
  "PACK_STREAM_NONCE_SIZE = 19"

definition PACK_STREAM_TAG_SIZE :: nat where
  "PACK_STREAM_TAG_SIZE = 16"

definition PACK_STREAM_HEADER_SIZE :: nat where
  "PACK_STREAM_HEADER_SIZE = length PACK_STREAM_MAGIC + 4 + PACK_STREAM_NONCE_SIZE"

record stream_seal_result =
  sr_object_id :: string
  sr_plaintext_size :: u64
  sr_ciphertext_size :: u64

text \<open>\<^verbatim>\<open>DigestWriter\<close>: it forwards what it is given, digests it and counts it.\<close>

record digest_writer =
  dw_inner :: bytes
  dw_hashed :: bytes
  dw_count :: u64

definition digest_new :: digest_writer where
  "digest_new = \<lparr>dw_inner = [], dw_hashed = [], dw_count = 0\<rparr>"

definition digest_write :: "digest_writer \<Rightarrow> bytes \<Rightarrow> digest_writer" where
  "digest_write w data = \<lparr>dw_inner = dw_inner w @ data, dw_hashed = dw_hashed w @ data,
     dw_count = dw_count w + of_nat (length data)\<rparr>"

definition digest_finish :: "'a prims_scheme \<Rightarrow> digest_writer \<Rightarrow> string \<times> u64" where
  "digest_finish P w = (hex_encode P (sha256 P (dw_hashed w)), dw_count w)"

definition pack_stream_aad :: "bytes \<Rightarrow> bytes \<Rightarrow> bytes" where
  "pack_stream_aad base_aad header =
     domain ''pack stream'' @ u32_to_le_bytes (of_nat (length base_aad)) @ base_aad
     @ u32_to_le_bytes (of_nat (length header)) @ header"

definition read_chunk :: "bytes \<Rightarrow> bytes \<times> bytes" where
  "read_chunk reader = (take PACK_STREAM_CHUNK_SIZE reader, drop PACK_STREAM_CHUNK_SIZE reader)"

definition U32_MAX :: nat where
  "U32_MAX = 2 ^ 32 - 1"

text \<open>The loop of \<^verbatim>\<open>seal_pack_stream\<close>: \<open>segments\<close> counts the segments sealed, which is also the
  position of the stream encryptor.\<close>

function seal_segments ::
    "'a prims_scheme \<Rightarrow> bytes \<Rightarrow> bytes \<Rightarrow> bytes \<Rightarrow> nat \<Rightarrow> u64 \<Rightarrow> bytes \<Rightarrow> bytes \<Rightarrow> digest_writer
       \<Rightarrow> (u64 \<times> digest_writer) result" where
  "seal_segments P key nonce aad segments plaintext_size current plaintext output =
     (case read_chunk plaintext of (next, plaintext') \<Rightarrow>
      and_then (ok_or (checked_add plaintext_size (of_nat (length current)))
        (Msg ''pack plaintext size overflow'')) (\<lambda>size.
      bail_if (Suc segments \<ge> U32_MAX) (Msg ''pack stream exceeds segment counter limit'') (
      if next = [] then
        and_then (ok_or (stream_encrypt P key nonce segments True current aad)
          (Msg ''pack stream encryption failed'')) (\<lambda>sealed.
        Inr (size, digest_write output sealed))
      else
        and_then (ok_or (stream_encrypt P key nonce segments False current aad)
          (Msg ''pack stream encryption failed'')) (\<lambda>sealed.
        seal_segments P key nonce aad (Suc segments) size next plaintext' (digest_write output sealed)))))"
  by pat_completeness auto

termination
  by (relation "measure (\<lambda>(P, k, n, a, s, z, c, plaintext, w). length plaintext)")
    (auto simp: read_chunk_def PACK_STREAM_CHUNK_SIZE_def)

declare seal_segments.simps [simp del]

definition pack_stream_header :: "bytes \<Rightarrow> bytes" where
  "pack_stream_header nonce =
     PACK_STREAM_MAGIC @ u32_to_le_bytes (of_nat PACK_STREAM_CHUNK_SIZE) @ nonce"

text \<open>\<open>nonce\<close> is the 19-byte value the function draws; the second component is what it wrote.\<close>

definition seal_pack_stream ::
    "'a prims_scheme \<Rightarrow> bytes \<Rightarrow> bytes \<Rightarrow> bytes \<Rightarrow> bytes \<Rightarrow> (stream_seal_result \<times> bytes) result" where
  "seal_pack_stream P nonce key plaintext base_aad =
     (let header = pack_stream_header nonce;
          aad = pack_stream_aad base_aad header;
          output = digest_write digest_new header
      in case read_chunk plaintext of (current, plaintext') \<Rightarrow>
      bail_if (current = []) (Msg ''cannot encrypt an empty pack stream'') (
      and_then (seal_segments P key nonce aad 0 0 current plaintext' output) (\<lambda>(size, out).
      case digest_finish P out of (i, count) \<Rightarrow>
      Inr (\<lparr>sr_object_id = i, sr_plaintext_size = size, sr_ciphertext_size = count\<rparr>, dw_inner out))))"

text \<open>\<^verbatim>\<open>read_exact\<close>.\<close>

definition read_exact :: "nat \<Rightarrow> bytes \<Rightarrow> (bytes \<times> bytes) result" where
  "read_exact n reader = (if length reader < n then Inl (err (Io UnexpectedEof))
     else Inr (take n reader, drop n reader))"

text \<open>The loop of \<^verbatim>\<open>open_pack_stream\<close>; \<open>left\<close> is the number of segments not yet processed. The result is
  the plaintext written, the bytes digested, the unread ciphertext and the plaintext size left.\<close>

fun open_segments ::
    "'a prims_scheme \<Rightarrow> bytes \<Rightarrow> bytes \<Rightarrow> bytes \<Rightarrow> nat \<Rightarrow> nat \<Rightarrow> nat \<Rightarrow> bytes \<Rightarrow> bytes \<Rightarrow> bytes
       \<Rightarrow> (bytes \<times> bytes \<times> bytes \<times> nat) result" where
  "open_segments P key nonce aad 0 segment remaining ciphertext hashed written =
     Inr (written, hashed, ciphertext, remaining)"
| "open_segments P key nonce aad (Suc left) segment remaining ciphertext hashed written =
     (let plain_len = min remaining PACK_STREAM_CHUNK_SIZE;
          cipher_len = plain_len + PACK_STREAM_TAG_SIZE
      in
      and_then (with_context (''truncated pack stream segment '' @ show_nat segment)
        (read_exact cipher_len ciphertext)) (\<lambda>(chunk, ciphertext').
      and_then (ok_or (stream_decrypt P key nonce segment (left = 0) chunk aad)
        (Msg ''pack stream authentication failed'')) (\<lambda>plain.
      bail_if (length plain \<noteq> plain_len) (Msg ''pack stream segment length mismatch'') (
      open_segments P key nonce aad left (Suc segment) (remaining - plain_len) ciphertext'
        (hashed @ chunk) (written @ plain)))))"

definition div_ceil :: "nat \<Rightarrow> nat \<Rightarrow> nat" where
  "div_ceil a b = (if a mod b = 0 then a div b else a div b + 1)"

text \<open>The result is the plaintext written and the ciphertext size the function returns.\<close>

definition open_pack_stream ::
    "'a prims_scheme \<Rightarrow> bytes \<Rightarrow> bytes \<Rightarrow> bytes \<Rightarrow> u64 \<Rightarrow> string \<Rightarrow> (bytes \<times> nat) result" where
  "open_pack_stream P key ciphertext base_aad plaintext_size expected_id =
     bail_if (plaintext_size = 0) (Msg ''pack plaintext size must be nonzero'') (
     and_then (with_context ''truncated pack stream header''
       (read_exact PACK_STREAM_HEADER_SIZE ciphertext)) (\<lambda>(header, ciphertext').
     bail_if (take (length PACK_STREAM_MAGIC) header \<noteq> PACK_STREAM_MAGIC) (Msg ''invalid pack stream magic'') (
     let chunk_size_start = length PACK_STREAM_MAGIC;
         chunk_size = le_value (take 4 (drop chunk_size_start header)) in
     bail_if (chunk_size \<noteq> PACK_STREAM_CHUNK_SIZE) (Unsupported ''unsupported pack stream chunk size'') (
     let segments = div_ceil (unat plaintext_size) PACK_STREAM_CHUNK_SIZE in
     bail_if (segments = 0 \<or> segments \<ge> U32_MAX) (Msg ''pack stream exceeds segment counter limit'') (
     and_then (ok_or (checked_mul (of_nat segments) (of_nat PACK_STREAM_TAG_SIZE))
       (Msg ''pack stream tag size overflow'')) (\<lambda>tag_bytes.
     and_then (ok_or (Option.bind (checked_add (of_nat PACK_STREAM_HEADER_SIZE) plaintext_size)
         (\<lambda>size. checked_add size tag_bytes))
       (Msg ''pack ciphertext size overflow'')) (\<lambda>expected_ciphertext_size.
     let aad = pack_stream_aad base_aad header;
         nonce_start = chunk_size_start + 4;
         nonce = drop nonce_start header in
     and_then (open_segments P key nonce aad segments 0 (unat plaintext_size) ciphertext' header [])
       (\<lambda>(written, hashed, trailing, remaining).
     bail_if (trailing \<noteq> []) (Msg ''pack stream has trailing data'') (
     bail_if (remaining \<noteq> 0 \<or> length hashed \<noteq> unat expected_ciphertext_size)
       (Msg ''pack stream size mismatch'') (
     bail_if (hex_encode P (sha256 P hashed) \<noteq> expected_id)
       (Msg (''pack ciphertext hash mismatch for '' @ expected_id)) (
     Inr (written, length hashed))))))))))))"

text \<open>What the stream cipher promises: a segment opens, at the same position and with the same final
  flag, to what was sealed, and a sealed segment is 16 bytes longer.\<close>

definition stream_laws :: "'a prims_scheme \<Rightarrow> bool" where
  "stream_laws P \<longleftrightarrow> (\<forall>key nonce n final m aad c. stream_encrypt P key nonce n final m aad = Some c \<longrightarrow>
     stream_decrypt P key nonce n final c aad = Some m \<and> length c = length m + 16)"

section \<open>Opening inverts sealing\<close>

lemma read_exact_append [simp]: "length a = n \<Longrightarrow> read_exact n (a @ b) = Inr (a, b)"
  by (simp add: read_exact_def)

lemma read_exact_ok [result_simps]: "read_exact n reader = Inr (a, b) \<longleftrightarrow> reader = a @ b \<and> length a = n"
  by (auto simp: read_exact_def)

lemma chunk_size_pos: "0 < PACK_STREAM_CHUNK_SIZE"
  by (simp add: PACK_STREAM_CHUNK_SIZE_def)

lemma div_ceil_step:
  assumes "0 < c" and "c \<le> n"
  shows "div_ceil n c = Suc (div_ceil (n - c) c)"
proof -
  have "n mod c = (n - c) mod c" "n div c = Suc ((n - c) div c)"
    using assms by (simp_all add: le_mod_geq le_div_geq)
  then show ?thesis by (simp add: div_ceil_def)
qed

lemma div_ceil_small: "0 < n \<Longrightarrow> n \<le> c \<Longrightarrow> div_ceil n c = 1"
  by (cases "n = c") (auto simp: div_ceil_def)

lemma div_ceil_zero: "0 < c \<Longrightarrow> div_ceil n c = 0 \<longleftrightarrow> n = 0"
  by (cases "n = 0") (auto simp: div_ceil_def div_eq_0_iff)

lemma unat_chunk_length: "n \<le> PACK_STREAM_CHUNK_SIZE \<Longrightarrow> unat (of_nat n :: u64) = n"
  by (simp add: unat_of_nat PACK_STREAM_CHUNK_SIZE_def)

text \<open>What one run of the sealing loop appends, and how the opening loop reads it back.\<close>

definition sealed_as ::
    "'a prims_scheme \<Rightarrow> bytes \<Rightarrow> bytes \<Rightarrow> bytes \<Rightarrow> nat \<Rightarrow> bytes \<Rightarrow> bytes \<Rightarrow> bool" where
  "sealed_as P key nonce aad s plain ct \<longleftrightarrow>
     (let n = div_ceil (length plain) PACK_STREAM_CHUNK_SIZE in
      s + n < U32_MAX \<and> length ct = length plain + 16 * n \<and>
      (\<forall>hashed written tail. open_segments P key nonce aad n s (length plain) (ct @ tail) hashed written
         = Inr (written @ plain, hashed @ ct, tail, 0)))"

lemma sealed_as_last:
  assumes "stream_laws P" and "plain \<noteq> []" and "length plain \<le> PACK_STREAM_CHUNK_SIZE" and "Suc s < U32_MAX"
    and "stream_encrypt P key nonce s True plain aad = Some ct"
  shows "sealed_as P key nonce aad s plain ct"
proof -
  have n: "div_ceil (length plain) PACK_STREAM_CHUNK_SIZE = Suc 0"
    using assms(2,3) by (simp add: div_ceil_small)
  have "stream_decrypt P key nonce s True ct aad = Some plain" "length ct = length plain + 16"
    using assms(1,5) by (auto simp: stream_laws_def)
  then show ?thesis
    using assms(3,4) by (simp add: sealed_as_def n Let_def min_absorb1 PACK_STREAM_TAG_SIZE_def)
qed

lemma sealed_as_next:
  assumes "stream_laws P" and len: "length cur = PACK_STREAM_CHUNK_SIZE" and rest: "rest \<noteq> []"
    and enc: "stream_encrypt P key nonce s False cur aad = Some ct"
    and sealed: "sealed_as P key nonce aad (Suc s) rest ct'"
  shows "sealed_as P key nonce aad s (cur @ rest) (ct @ ct')"
proof -
  let ?n = "div_ceil (length rest) PACK_STREAM_CHUNK_SIZE"
  have n: "div_ceil (length (cur @ rest)) PACK_STREAM_CHUNK_SIZE = Suc ?n"
    using div_ceil_step [OF chunk_size_pos, of "length (cur @ rest)"] len by simp
  have "stream_decrypt P key nonce s False ct aad = Some cur" "length ct = length cur + 16"
    using assms(1) enc by (auto simp: stream_laws_def)
  moreover have "?n \<noteq> 0" using rest by (simp add: div_ceil_zero [OF chunk_size_pos])
  moreover have "min (length cur + length rest) PACK_STREAM_CHUNK_SIZE = PACK_STREAM_CHUNK_SIZE" using len by simp
  ultimately show ?thesis
    using sealed len unfolding sealed_as_def n by (simp add: Let_def PACK_STREAM_TAG_SIZE_def)
qed

lemma seal_segments_sealed:
  assumes "stream_laws P" and "seal_segments P key nonce aad s z cur rest w = Inr (z', w')"
    and "cur \<noteq> []" and "length cur \<le> PACK_STREAM_CHUNK_SIZE" and "rest \<noteq> [] \<longrightarrow> length cur = PACK_STREAM_CHUNK_SIZE"
  shows "unat z' = unat z + length (cur @ rest) \<and> (\<exists>ct. sealed_as P key nonce aad s (cur @ rest) ct \<and>
    dw_inner w' = dw_inner w @ ct \<and> dw_hashed w' = dw_hashed w @ ct \<and> dw_count w' = dw_count w + of_nat (length ct))"
  using assms
proof (induction P key nonce aad s z cur rest w arbitrary: z' w' rule: seal_segments.induct)
  case (1 P key nonce aad s z cur rest w)
  let ?next = "take PACK_STREAM_CHUNK_SIZE rest" and ?rest = "drop PACK_STREAM_CHUNK_SIZE rest"
  have rc: "read_chunk rest = (?next, ?rest)" by (simp add: read_chunk_def)
  from "1.prems"(2) obtain z1 where z1: "checked_add z (of_nat (length cur)) = Some z1" and seg: "Suc s < U32_MAX"
    by (subst (asm) seal_segments.simps) (auto simp: rc and_then_eq_Inr bail_if_eq_Inr ok_or_eq_Inr)
  have size: "unat z1 = unat z + length cur"
    using checked_add_Some [OF z1] unat_chunk_length [OF "1.prems"(4)] by simp
  show ?case
  proof (cases "rest = []")
    case True
    then obtain ct where ct: "stream_encrypt P key nonce s True cur aad = Some ct"
      and out: "z' = z1" "w' = digest_write w ct"
      using "1.prems"(2) z1 seg by (subst (asm) seal_segments.simps)
        (auto simp: read_chunk_def and_then_eq_Inr bail_if_eq_Inr ok_or_eq_Inr)
    then show ?thesis
      using sealed_as_last [OF "1.prems"(1,3,4) seg ct] size True by (auto simp: digest_write_def)
  next
    case False
    then have ne: "?next \<noteq> []" by (simp add: PACK_STREAM_CHUNK_SIZE_def)
    then obtain ct where ct: "stream_encrypt P key nonce s False cur aad = Some ct"
      and rec: "seal_segments P key nonce aad (Suc s) z1 ?next ?rest (digest_write w ct) = Inr (z', w')"
      using "1.prems"(2) z1 seg by (subst (asm) seal_segments.simps)
        (auto simp: rc and_then_eq_Inr bail_if_eq_Inr ok_or_eq_Inr)
    have seg': "\<not> U32_MAX \<le> Suc s" using seg by simp
    have prem: "length ?next \<le> PACK_STREAM_CHUNK_SIZE" "?rest \<noteq> [] \<longrightarrow> length ?next = PACK_STREAM_CHUNK_SIZE"
      by auto
    have IH: "unat z' = unat z1 + length (?next @ ?rest) \<and> (\<exists>ct'. sealed_as P key nonce aad (Suc s) (?next @ ?rest) ct' \<and>
      dw_inner w' = dw_inner (digest_write w ct) @ ct' \<and> dw_hashed w' = dw_hashed (digest_write w ct) @ ct' \<and>
      dw_count w' = dw_count (digest_write w ct) + of_nat (length ct'))"
      by (rule "1.IH" [OF rc [symmetric] _ _ ne _ "1.prems"(1) rec ne prem]) (use z1 seg' ct in simp_all)
    then obtain ct' where s': "sealed_as P key nonce aad (Suc s) rest ct'"
      and w': "dw_inner w' = dw_inner (digest_write w ct) @ ct'" "dw_hashed w' = dw_hashed (digest_write w ct) @ ct'"
        "dw_count w' = dw_count (digest_write w ct) + of_nat (length ct')"
      by auto
    have "sealed_as P key nonce aad s (cur @ rest) (ct @ ct')"
      using sealed_as_next [OF "1.prems"(1) _ False ct s'] "1.prems"(5) False by simp
    then show ?thesis
      using IH size w' by (intro conjI exI [of _ "ct @ ct'"]) (simp_all add: digest_write_def)
  qed
qed


lemma pack_stream_header_parts:
  assumes "length nonce = PACK_STREAM_NONCE_SIZE"
  shows "length (pack_stream_header nonce) = PACK_STREAM_HEADER_SIZE"
    and "take (length PACK_STREAM_MAGIC) (pack_stream_header nonce) = PACK_STREAM_MAGIC"
    and "le_value (take 4 (drop (length PACK_STREAM_MAGIC) (pack_stream_header nonce))) = PACK_STREAM_CHUNK_SIZE"
    and "drop (length PACK_STREAM_MAGIC + 4) (pack_stream_header nonce) = nonce"
proof -
  show "length (pack_stream_header nonce) = PACK_STREAM_HEADER_SIZE"
    using assms by (simp add: pack_stream_header_def PACK_STREAM_HEADER_SIZE_def)
  have "unat (of_nat PACK_STREAM_CHUNK_SIZE :: u32) = PACK_STREAM_CHUNK_SIZE"
    by (simp add: unat_of_nat PACK_STREAM_CHUNK_SIZE_def)
  then have "le_value (u32_to_le_bytes (of_nat PACK_STREAM_CHUNK_SIZE)) = PACK_STREAM_CHUNK_SIZE"
    by (simp add: u32_to_le_bytes_def le_value_le_bytes PACK_STREAM_CHUNK_SIZE_def)
  then show "le_value (take 4 (drop (length PACK_STREAM_MAGIC) (pack_stream_header nonce))) = PACK_STREAM_CHUNK_SIZE"
    by (simp add: pack_stream_header_def)
qed (simp_all add: pack_stream_header_def)

lemma PACK_STREAM_HEADER_SIZE_31 [simp]: "PACK_STREAM_HEADER_SIZE = 31"
  by (simp add: PACK_STREAM_HEADER_SIZE_def PACK_STREAM_MAGIC_def format_version_text_def PACK_STREAM_NONCE_SIZE_def)

lemma seal_pack_stream_parts:
  assumes "stream_laws P" and "length nonce = PACK_STREAM_NONCE_SIZE"
    and "seal_pack_stream P nonce key plain base = Inr (res, ct)"
  obtains body where "ct = pack_stream_header nonce @ body"
    and "sealed_as P key nonce (pack_stream_aad base (pack_stream_header nonce)) 0 plain body"
    and "sr_object_id res = object_id P ct" and "unat (sr_plaintext_size res) = length plain" and "plain \<noteq> []"
proof -
  let ?h = "pack_stream_header nonce"
  let ?cur = "take PACK_STREAM_CHUNK_SIZE plain" and ?rest = "drop PACK_STREAM_CHUNK_SIZE plain"
  from assms(3) obtain z w where ne: "?cur \<noteq> []"
    and seg: "seal_segments P key nonce (pack_stream_aad base ?h) 0 0 ?cur ?rest (digest_write digest_new ?h) = Inr (z, w)"
    and res: "res = \<lparr>sr_object_id = hex_encode P (sha256 P (dw_hashed w)), sr_plaintext_size = z,
      sr_ciphertext_size = dw_count w\<rparr>" "ct = dw_inner w"
    by (auto simp: seal_pack_stream_def read_chunk_def Let_def digest_finish_def and_then_eq_Inr bail_if_eq_Inr)
  have "length ?cur \<le> PACK_STREAM_CHUNK_SIZE" "?rest \<noteq> [] \<longrightarrow> length ?cur = PACK_STREAM_CHUNK_SIZE" by auto
  from seal_segments_sealed [OF assms(1) seg ne this]
  obtain body where z: "unat z = length plain"
    and b: "sealed_as P key nonce (pack_stream_aad base ?h) 0 plain body"
      "dw_inner w = ?h @ body" "dw_hashed w = ?h @ body"
    by (auto simp: digest_write_def digest_new_def)
  have "plain \<noteq> []" using ne by auto
  then show thesis using that [of body] z b res by (simp add: object_id_def)
qed

lemma sealed_pack_opens:
  assumes "stream_laws P" and "length nonce = PACK_STREAM_NONCE_SIZE"
    and "seal_pack_stream P nonce key plain base = Inr (res, ct)" and "length ct < 2 ^ 64"
  shows "open_pack_stream P key ct base (sr_plaintext_size res) (sr_object_id res) = Inr (plain, length ct)
    \<and> sr_object_id res = object_id P ct
    \<and> length ct = 31 + length plain + 16 * div_ceil (length plain) PACK_STREAM_CHUNK_SIZE"
proof (rule seal_pack_stream_parts [OF assms(1-3)])
  fix body
  let ?h = "pack_stream_header nonce" and ?n = "div_ceil (length plain) PACK_STREAM_CHUNK_SIZE"
  assume ct: "ct = ?h @ body" and sealed: "sealed_as P key nonce (pack_stream_aad base ?h) 0 plain body"
    and res: "sr_object_id res = object_id P ct" "unat (sr_plaintext_size res) = length plain" and ne: "plain \<noteq> []"
  note h = pack_stream_header_parts [OF assms(2)]
  from sealed have n: "?n < U32_MAX" "length body = length plain + 16 * ?n"
    and all: "\<And>tail. open_segments P key nonce (pack_stream_aad base ?h) ?n 0 (length plain) (body @ tail) ?h []
      = Inr (plain, ?h @ body, tail, 0)"
    by (auto simp: sealed_as_def Let_def)
  note opens = all [of "[]", simplified]
  have pos: "?n \<noteq> 0" using ne by (simp add: div_ceil_zero [OF chunk_size_pos])
  have len: "length ct = 31 + length plain + 16 * ?n" using n h(1) by (simp add: ct)
  have un: "unat (of_nat ?n :: u64) = ?n" using n(1) by (simp add: unat_of_nat U32_MAX_def)
  then obtain tags where tags: "checked_mul (of_nat ?n) (of_nat PACK_STREAM_TAG_SIZE) = Some tags" "unat tags = ?n * 16"
    using n(1) by (auto simp: checked_mul_def PACK_STREAM_TAG_SIZE_def U32_MAX_def unat_word_ariths)
  obtain total where total: "Option.bind (checked_add (of_nat PACK_STREAM_HEADER_SIZE) (sr_plaintext_size res))
      (\<lambda>size. checked_add size tags) = Some total" "unat total = length ct"
    using assms(4) len res(2) tags(2) by (auto simp: checked_add_def unat_word_ariths)
  have nz: "sr_plaintext_size res \<noteq> 0" using res(2) ne by auto
  have "open_pack_stream P key ct base (sr_plaintext_size res) (sr_object_id res) = Inr (plain, length ct)"
    unfolding open_pack_stream_def
    using h n(1) pos tags(1) total opens nz res
    by (simp add: ct Let_def object_id_def)
  with res len show ?thesis by simp
qed

section \<open>What opening accepts\<close>

lemma open_segments_ok:
  "open_segments P key nonce aad n s rem ct hashed written = Inr (w', h', tail, rem') \<Longrightarrow>
     \<exists>plain used. w' = written @ plain \<and> h' = hashed @ used \<and> ct = used @ tail \<and> rem = length plain + rem'"
proof (induction P key nonce aad n s rem ct hashed written arbitrary: w' h' tail rem' rule: open_segments.induct)
  case (2 P key nonce aad left s rem ct hashed written)
  let ?len = "min rem PACK_STREAM_CHUNK_SIZE"
  from "2.prems" obtain chunk ct' plain where
    rd: "ct = chunk @ ct'" "length chunk = ?len + PACK_STREAM_TAG_SIZE" and len: "length plain = ?len"
    and dec: "stream_decrypt P key nonce s (left = 0) chunk aad = Some plain"
    and rec: "open_segments P key nonce aad left (Suc s) (rem - ?len) ct' (hashed @ chunk) (written @ plain)
        = Inr (w', h', tail, rem')"
    by (auto simp: Let_def and_then_eq_Inr map_err_eq_Inr bail_if_eq_Inr ok_or_eq_Inr read_exact_ok)
  have "\<exists>plain' used. w' = (written @ plain) @ plain' \<and> h' = (hashed @ chunk) @ used \<and> ct' = used @ tail \<and>
      rem - ?len = length plain' + rem'"
    by (rule "2.IH" [OF refl refl _ refl _ _ rec]) (use rd len dec in \<open>simp_all add: read_exact_ok\<close>)
  then obtain plain' used where r: "w' = (written @ plain) @ plain'" "h' = (hashed @ chunk) @ used" "ct' = used @ tail"
      "rem - ?len = length plain' + rem'" by blast
  show ?case
    by (rule exI [of _ "plain @ plain'"], rule exI [of _ "chunk @ used"]) (use rd len r in simp)
qed simp

lemma open_pack_stream_ok:
  assumes "open_pack_stream P key ct base sz i = Inr (plain, count)"
  shows "object_id P ct = i \<and> length plain = unat sz \<and> count = length ct
    \<and> length ct = 31 + unat sz + 16 * div_ceil (unat sz) PACK_STREAM_CHUNK_SIZE"
proof -
  let ?n = "div_ceil (unat sz) PACK_STREAM_CHUNK_SIZE"
  from assms obtain h body hashed tags total where
    ct: "ct = h @ body" "length h = PACK_STREAM_HEADER_SIZE" and n: "?n < U32_MAX"
    and tags: "checked_mul (of_nat ?n) (of_nat PACK_STREAM_TAG_SIZE) = Some tags"
    and total: "Option.bind (checked_add (of_nat PACK_STREAM_HEADER_SIZE) sz) (\<lambda>z. checked_add z tags) = Some total"
    and seg: "open_segments P key (drop (length PACK_STREAM_MAGIC + 4) h) (pack_stream_aad base h) ?n 0 (unat sz) body h []
        = Inr (plain, hashed, [], 0)"
    and fin: "length hashed = unat total" "hex_encode P (sha256 P hashed) = i" "count = length hashed"
    by (auto simp: open_pack_stream_def Let_def and_then_eq_Inr map_err_eq_Inr bail_if_eq_Inr ok_or_eq_Inr read_exact_ok)
  from open_segments_ok [OF seg] ct have hashed: "hashed = ct" "length plain = unat sz" by auto
  have "unat (of_nat ?n :: u64) = ?n" using n by (simp add: unat_of_nat U32_MAX_def)
  with checked_mul_Some [OF tags] have "unat tags = ?n * 16" by (simp add: PACK_STREAM_TAG_SIZE_def)
  moreover from total obtain z where "checked_add (of_nat PACK_STREAM_HEADER_SIZE) sz = Some z" "checked_add z tags = Some total"
    by (auto simp: bind_eq_Some_conv)
  ultimately have "unat total = 31 + unat sz + 16 * ?n"
    using checked_add_Some [of "of_nat PACK_STREAM_HEADER_SIZE" sz z] checked_add_Some [of z tags total] by simp
  with fin hashed show ?thesis by (simp add: object_id_def)
qed


text \<open>C24. Pack round trip: what \<^verbatim>\<open>seal_pack_stream\<close> wrote opens, with the same key and additional data and
  with the size and identifier it returned, to the same plaintext; the identifier is the digest
  of the ciphertext, and the ciphertext is the 31-byte header, the plaintext and one 16-byte tag
  for each started MiB.\<close>

theorem seal_open_pack_stream:
  assumes "stream_laws P" and "length nonce = PACK_STREAM_NONCE_SIZE"
    and "seal_pack_stream P nonce key plain base = Inr (res, ct)" and "length ct < 2 ^ 64"
  shows "open_pack_stream P key ct base (sr_plaintext_size res) (sr_object_id res) = Inr (plain, length ct)
    \<and> sr_object_id res = object_id P ct
    \<and> length ct = 31 + length plain + 16 * div_ceil (length plain) PACK_STREAM_CHUNK_SIZE"
  using assms by (rule sealed_pack_opens)

text \<open>C25. Opening is exact: \<^verbatim>\<open>open_pack_stream\<close> succeeds only on the ciphertext whose digest is the
  identifier the manifest names, with exactly the length that follows from the plaintext size
  the manifest names, and then writes exactly that many plaintext bytes. Truncated, extended or
  substituted packs are refused whatever the cipher returns.\<close>

theorem open_pack_stream_exact:
  assumes "open_pack_stream P key ct base sz i = Inr (plain, count)"
  shows "object_id P ct = i \<and> length plain = unat sz \<and> count = length ct
    \<and> length ct = 31 + unat sz + 16 * div_ceil (unat sz) PACK_STREAM_CHUNK_SIZE"
  using assms by (rule open_pack_stream_ok)

end
