(* ===== verification/Sample_Chain.thy ===== *)
theory Sample_Chain
  imports Sample Chain_Build Continuity Storage_Facts Pack_Stream
begin

text \<open>
  Closed instances of the properties of the chain, the floor, the directory storage and the pack
  stream, evaluated with the concrete primitives. The chain is a genesis manifest sealed by the
  owner and read back from a map of objects.
\<close>

section \<open>A genesis chain\<close>

definition floor_enc :: "continuity_floor \<Rightarrow> bytes" where
  "floor_enc f = enc_u32 (cf_format_version f) @ enc_string (cf_repository_root f) @ enc_string (cf_head_id f)
     @ enc_u64 (cf_generation f) @ enc_u64 (cf_policy_generation f)"

definition floor_dec :: "continuity_floor dec" where
  "floor_dec = dec_then dec_u32 (\<lambda>a. dec_then dec_string (\<lambda>b. dec_then dec_string (\<lambda>c.
     dec_then dec_u64 (\<lambda>d. dec_then dec_u64 (\<lambda>e. dec_done \<lparr>cf_format_version = a, cf_repository_root = b,
       cf_head_id = c, cf_generation = d, cf_policy_generation = e\<rparr>)))))"

definition cp :: continuity_prims where
  "cp = sample \<lparr>floor_to_vec = floor_enc, floor_of_slice = whole floor_dec\<rparr>"

lemma cp_floor_laws [simp]: "floor_json_laws cp"
proof -
  have "floor_dec (floor_enc f @ r) = Some (f, r)" for f r
    by (simp add: floor_dec_def floor_enc_def dec_simps)
  then have "whole floor_dec (floor_enc f) = Some f" for f by (rule whole_enc)
  then show ?thesis by (simp add: floor_json_laws_def cp_def sample_def)
qed

text \<open>The policy \<^verbatim>\<open>PolicyState::genesis\<close> creates for the owner.\<close>

lemma sample_genesis_policy:
  obtains st b where "policy_genesis (sample x) (sample_key 1 2) ''owner'' = Inr (st, b)"
    "pb_devices (st_body st) = [owner]" "wf_policy (sample x) (st_body st)" "policy_parse (sample x) b = Inr st"
    "policy_validate_genesis (sample x) st sample_root = Inr ()" "pb_repository_root (st_body st) = sample_root"
proof -
  have r: "repository_root_for_public_keys (sample x) (replicate 32 1) (replicate 32 2) = sample_root"
    by (simp only: repository_root_for_public_keys_def rev_replicate_sample hex_encode_sample sample_id_def sample_root_def)
  have key: "sample_key 1 2 = key_file_generate (sample x) (replicate 32 1) (replicate 32 2)"
    using r by (simp add: key_file_generate_def sample_key_def) (simp add: sample_def)
  let ?body = "\<lparr>pb_format_version = FORMAT_VERSION, pb_repository_root = sample_root, pb_generation = 0,
      pb_previous = None, pb_admin_threshold = 1, pb_devices = [owner]\<rparr>"
  have root: "kf_repository_root (sample_key 1 2) = sample_root" by (simp add: sample_key_def)
  have wf: "wf_policy (sample x) ?body" by (simp add: wf_policy_def wf_devices_def wf_device_def)
  then obtain st b where create: "policy_create (sample x) ?body (sample_key 1 2) = Inr (st, b)"
    by (auto simp: policy_create_def wf_policy_def validate_devices_ok validate_device_roots_ok
        validate_active_roles_ok key_device_id_def Let_def result_simps)
  then have gen: "policy_genesis (sample x) (sample_key 1 2) ''owner'' = Inr (st, b)"
    by (simp add: policy_genesis_def root owner_def [symmetric])
  have "st_body st = ?body" using policy_create_wf [OF create] by simp
  moreover have "policy_parse (sample x) b = Inr st \<and>
      policy_validate_genesis (sample x) st (kf_repository_root (sample_key 1 2)) = Inr ()"
    by (rule genesis_policy_valid [OF _ _ _ _ _ _ key gen]) (simp_all, simp add: sample_def)
  ultimately show thesis using that [OF gen] wf root by simp
qed

text \<open>Sealing by a device that is the only reader.\<close>

definition solo :: "byte \<Rightarrow> byte \<Rightarrow> device_record" where
  "solo s w = owner\<lparr>dv_public := sample_device s w\<rparr>"

lemma solo_fields [simp]: "dv_public (solo s w) = sample_device s w" "dv_active (solo s w)" "dv_roles (solo s w) = roles_owner"
  "dv_label (solo s w) = ''owner''" "dv_revoked_at (solo s w) = None"
  by (simp_all add: solo_def owner_def dv_active_def)

lemma solo_owner: "solo 1 2 = owner"
  by (simp add: solo_def owner_def)

lemma solo_envelopes:
  assumes "active_readers policy = [solo s w]" and "length gk = 32"
  shows "\<exists>es audit. build_envelopes (sample x) sample_random policy m gk c = Inr (es, audit) \<and>
    length es = 4 \<and> envelope_layout_loop (sample x) None es = Inr ()
    \<and> length (enc_list enc_key_envelope es) = 653 \<and> length (enc_list enc_audit audit) = 203"
proof -
  have pow: "checked_next_power_of_two (Suc 0) = Some 1"
    by (simp add: checked_next_power_of_two_def pow2_above.simps)
  let ?e = "\<lambda>w k. \<lparr>ge_encapsulated_key = b64_encode (sample x) (replicate 32 w), ge_ciphertext = b64_encode (sample x) (k @ tag16)\<rparr>"
  let ?r = "(replicate 32 1, ?e 1 gk, Recipient (sample_id w) (b64_encode (sample x) (replicate 32 1)))"
  let ?d = "\<lambda>w. (replicate 32 w, ?e w (replicate 32 0), Dummy)"
  have rp: "recipient_pairs (sample x) m gk c (mr_seeds sample_random) 0 [solo s w] = Inr [?r]"
    by (simp add: sample_random_def sample_wrapping_key Let_def)
  have dp: "dummy_pairs (sample x) (mr_dummies sample_random) 0 3 = Inr [?d 101, ?d 102, ?d 103]"
    by (simp add: numeral_3_eq_3 sample_random_def)
  have "sort_key fst ([?r] @ [?d 101, ?d 102, ?d 103]) = [?r, ?d 101, ?d 102, ?d 103]" by simp
  then have "build_envelopes (sample x) sample_random policy m gk c =
     Inr ([?e 1 gk, ?e 101 (replicate 32 0), ?e 102 (replicate 32 0), ?e 103 (replicate 32 0)],
          [Recipient (sample_id w) (b64_encode (sample x) (replicate 32 1)), Dummy, Dummy, Dummy])"
    using rp dp by (simp add: build_envelopes_def assms(1) pow Let_def MIN_GENERATION_ENVELOPES_def
        MAX_GENERATION_ENVELOPES_def del: recipient_pairs.simps)
  moreover have "envelope_layout_loop (sample x) None
      [?e 1 gk, ?e 101 (replicate 32 0), ?e 102 (replicate 32 0), ?e 103 (replicate 32 0)] = Inr ()"
    using assms by (simp add: HPKE_ENCAPSULATED_KEY_SIZE_def HPKE_CIPHERTEXT_SIZE_def tag16_def word_le_nat_alt)
  moreover have "length (enc_list enc_key_envelope
      [?e 1 gk, ?e 101 (replicate 32 0), ?e 102 (replicate 32 0), ?e 103 (replicate 32 0)]) = 653"
    using assms(2) by (simp add: enc_list_def enc_key_envelope_def enc_string_def tag16_def)
  moreover have "length (enc_list enc_audit
      [Recipient (sample_id w) (b64_encode (sample x) (replicate 32 1)), Dummy, Dummy, Dummy]) = 203"
    using s_hex [of "replicate 32 w"] by (simp add: enc_list_def enc_string_def sample_id_def)
  ultimately show ?thesis by simp
qed

lemma solo_seals:
  assumes "active_readers policy = [solo s w]" and "length gk = 32" and "mf_repository_root m = sample_root"
    and "validate_manifest_policy m policy = Inr ()" and "validate_pack_delta m = Inr ()"
    and "(case mf_authorization m of Writer \<Rightarrow> validate_introduced_policy (sample x) m policy False
        | PolicyTransition \<Rightarrow> validate_introduced_policy (sample x) m policy True | Checkpoint \<Rightarrow> Inl e) = Inr ()"
  shows "\<exists>enc. seal_manifest (sample x) sample_random (sample_key s w) policy gk (mf_authorization m) m = Inr enc"
proof -
  from solo_envelopes [OF assms(1,2), of x m "commit_key (sample x) gk"] obtain es audit where
    es: "build_envelopes (sample x) sample_random policy m gk (commit_key (sample x) gk) = Inr (es, audit)"
      "length es = 4" "envelope_layout_loop (sample x) None es = Inr ()" by blast
  from sample_subkey obtain k k' where
    "derive_subkey (sample x) gk sample_root (mf_generation m) ManifestBodyKey 0 = Inr k"
    "derive_subkey (sample x) gk sample_root (mf_generation m) SealedHeaderKey 0 = Inr k'" by metis
  moreover have "mf_format_version m = 6"
    using assms(4) by (auto simp: validate_manifest_policy_def bail_if_eq_Inr FORMAT_VERSION_def)
  ultimately show ?thesis
    using es assms(3-) by (auto simp: seal_manifest_def key_device_id_def validate_public_header_def
        validate_envelope_layout_def commit_key_def Let_def bail_if_def FORMAT_VERSION_def
        MIN_GENERATION_ENVELOPES_def MAX_GENERATION_ENVELOPES_def is_power_of_two.simps split: manifest_authorization.splits)
qed

lemma sample_binding: "length gk = 32 \<Longrightarrow> binding_commitment (sample x) gk"
  by (auto simp: binding_commitment_def sample_def pad_to_def)

text \<open>The genesis manifest, sealed by the owner and accepted as a chain of length one.\<close>

lemma sample_genesis_chain:
  obtains enc chain where "object_id cp enc = os_id (hd chain)" "length chain = 1"
    "\<And>get. get (object_id cp enc) = Inr enc \<Longrightarrow>
       chain_from cp (sample_key 1 2) (object_id cp enc) (read_manifest_material cp get) None = (Inr chain, None)"
    "mf_repository_root (os_manifest (hd chain)) = sample_root" "mf_generation (os_manifest (hd chain)) = 0"
    "mf_policy_generation (os_manifest (hd chain)) = 0" "os_generation_key (hd chain) = sample_gk"
proof (rule sample_genesis_policy [of "\<lparr>floor_to_vec = floor_enc, floor_of_slice = whole floor_dec\<rparr>", folded cp_def])
  fix st b
  assume st: "policy_genesis cp (sample_key 1 2) ''owner'' = Inr (st, b)" "pb_devices (st_body st) = [owner]"
    "wf_policy cp (st_body st)" "policy_parse cp b = Inr st" "policy_validate_genesis cp st sample_root = Inr ()"
    "pb_repository_root (st_body st) = sample_root"
  let ?m = "manifest_genesis sample_root st b"
  have g0: "pb_generation (st_body st) = 0"
    using st(5) by (auto simp: policy_validate_genesis_def and_then_eq_Inr bail_if_eq_Inr)
  have vg: "manifest_validate_genesis cp ?m st = Inr ()"
    using st g0 by (simp add: manifest_validate_genesis_ok manifest_genesis_def validate_manifest_policy_def FORMAT_VERSION_def bail_if_def)
  have readers: "active_readers st = [owner]" using st(2) by (simp add: active_readers_def)
  have owner: "policy_device st (sample_id 2) = Some owner" using st(2) by (simp add: policy_device_def)
  have gk: "length sample_gk = 32" by (simp add: sample_gk_def)
  have "\<exists>enc. seal_manifest cp sample_random (sample_key 1 2) st sample_gk (mf_authorization ?m) ?m = Inr enc"
    unfolding cp_def
    by (rule solo_seals [of _ 1 2, unfolded solo_owner, OF readers gk, where e = "err InvalidState"])
      (use vg [unfolded cp_def] in \<open>auto simp: manifest_validate_genesis_def and_then_eq_Inr manifest_genesis_def validate_pack_delta_def\<close>)
  then obtain enc where seal: "seal_manifest cp sample_random (sample_key 1 2) st sample_gk PolicyTransition ?m = Inr enc"
    by (auto simp: manifest_genesis_def)
  have "\<exists>om. open_manifest cp enc sample_gk = Inr om \<and> om_manifest om = ?m
    \<and> om_claimed_signer_id om = pd_device_id (sample_device 1 2) \<and> verify_manifest cp om st None sample_gk = Inr ()"
    by (rule sealed_manifest_verifies [OF _ _ _ _ _ _ _ _ _ st(3) seal, where d = owner])
      (simp_all add: cp_def owner sample_random_def well_placed_def may_sign_def is_active_admin_def manifest_genesis_def)
  then obtain om where om: "open_manifest cp enc sample_gk = Inr om" "om_manifest om = ?m"
    "verify_manifest cp om st None sample_gk = Inr ()" by blast
  have unwrap: "unwrap_generation_key cp (om_header om) (sample_key 1 2) = Inr sample_gk"
    by (rule reader_unwraps_key [OF _ _ _ _ om(3) gk _ _ st(3), where d = owner])
      (use open_manifest_generation [OF om(1)] in \<open>simp_all add: cp_def sample_binding gk readers\<close>)
  have root: "kf_repository_root (sample_key 1 2) = sample_root" by (simp add: sample_key_def)
  have "chain_from cp (sample_key 1 2) (object_id cp enc) (read_manifest_material cp get) None
      = (Inr [state_of (object_id cp enc) om sample_gk st], None)" if "get (object_id cp enc) = Inr enc" for get
    by (rule genesis_chain_accepted [OF _ om(1,3) _ st(4) _ _ unwrap])
      (simp_all add: that vg om(2) root st(5), simp add: manifest_genesis_def)
  then show thesis
    by (intro that [of enc "[state_of (object_id cp enc) om sample_gk st]"]) (simp_all add: om(2) manifest_genesis_def g0)
qed

section \<open>Instances\<close>

definition sample_floor :: "string \<Rightarrow> continuity_floor" where
  "sample_floor h = \<lparr>cf_format_version = 1, cf_repository_root = sample_root, cf_head_id = h,
     cf_generation = 0, cf_policy_generation = 0\<rparr>"


theorem pinned_chain_extends_floor_witness:
  "\<exists>head get chain. chain_from cp (sample_key 1 2) head (read_manifest_material cp get) None = (Inr chain, None)
     \<and> validate_pinned_head chain (Some (sample_floor head)) = Inr ()
     \<and> (\<exists>e \<in> set chain. os_id e = head)"
proof (rule sample_genesis_chain)
  fix enc chain
  assume id: "object_id cp enc = os_id (hd chain)" "length chain = 1" and
    "\<And>get. get (object_id cp enc) = Inr enc \<Longrightarrow>
     chain_from cp (sample_key 1 2) (object_id cp enc) (read_manifest_material cp get) None = (Inr chain, None)"
    and m: "mf_repository_root (os_manifest (hd chain)) = sample_root" "mf_generation (os_manifest (hd chain)) = 0"
    "mf_policy_generation (os_manifest (hd chain)) = 0"
  from this(3) [of "\<lambda>_. Inr enc"]
  have c: "chain_from cp (sample_key 1 2) (object_id cp enc) (read_manifest_material cp (\<lambda>_. Inr enc)) None = (Inr chain, None)"
    by simp
  have v: "validate_pinned_head chain (Some (sample_floor (object_id cp enc))) = Inr ()"
    using id m by (cases chain) (simp_all add: validate_pinned_head_ok sample_floor_def)
  from pinned_chain_extends_floor [OF c v] c v show ?thesis by (fastforce simp: sample_floor_def)
qed

theorem floor_is_monotone_witness:
  "\<exists>fs'. floor_run cp ''f'' (write_json (floor_to_vec cp) ''f'' (sample_floor ''m0'') Map.empty) fs'
     \<and> (\<exists>b. floor_read cp ''f'' fs' = Inr (Some b) \<and> floor_le (sample_floor ''m0'') b \<and> cf_generation b = 1)"
proof -
  let ?a = "sample_floor ''m0''" and ?b = "floor_at ''m1'' sample_manifest"
  let ?fs = "write_json (floor_to_vec cp) ''f'' ?a Map.empty"
  let ?fs' = "write_json (floor_to_vec cp) ''f'' ?b ?fs"
  have a: "floor_read cp ''f'' ?fs = Inr (Some ?a)"
    by (rule floor_read_write) (simp_all add: sample_floor_def FLOOR_FORMAT_def)
  have b: "floor_read cp ''f'' ?fs' = Inr (Some ?b)"
    by (rule floor_read_write) (simp_all add: floor_at_def)
  have "floor_advance cp ''f'' ?b ?fs = Inr ?fs'"
    using a by (simp add: floor_advance_def) (simp add: floor_at_def sample_floor_def bail_if_def)
  then have run: "floor_run cp ''f'' ?fs ?fs'"
    by (intro floor_run.step [OF floor_run.stop] floor_step.advanced)
  from floor_is_monotone [OF cp_floor_laws run a] b run show ?thesis
    by (intro exI [of _ ?fs']) (auto simp: floor_at_def)
qed

theorem directory_objects_are_immutable_witness:
  "fs_open_object ''d'' Pack (sample_head (CHR ''a''))
     (put_all (\<lambda>k i. fs_put_object_if_absent sp ''d'' k i)
        [(Pack, sample_head (CHR ''a''), [2]), (Manifest, sample_head (CHR ''b''), [3])]
        [object_path ''d'' Pack (sample_head (CHR ''a'')) \<mapsto> RegularFile [1]]) = Inr [1]"
  by (rule directory_objects_are_immutable)
    (simp add: fs_open_object_ok sample_head_valid is_lower_hex_def less_eq_char_def MAX_OBJECT_BYTES_def CARRIER_CHUNK_BYTES_def MAX_CHUNKS_PER_OBJECT_def)

lemma sample_stream_laws: "stream_laws (sample x)"
  by (simp add: stream_laws_def sample_def) (simp add: tag16_def)

lemma sample_stream:
  obtains res ct where "seal_pack_stream sp (replicate 19 5) sample_gk [1, 2, 3] [9] = Inr (res, ct)" "length ct < 2 ^ 64"
proof -
  have "\<exists>res ct. seal_pack_stream sp (replicate 19 5) sample_gk [1, 2, 3] [9] = Inr (res, ct) \<and> length ct = 50"
    by (simp add: seal_pack_stream_def read_chunk_def PACK_STREAM_CHUNK_SIZE_def seal_segments.simps Let_def
        digest_finish_def checked_add_def U32_MAX_def bail_if_def digest_write_def digest_new_def pack_stream_header_def
        PACK_STREAM_MAGIC_def) (simp add: sample_def tag16_def as_bytes_def format_version_text_def)
  then show thesis using that by fastforce
qed

theorem seal_open_pack_stream_witness:
  "\<exists>res ct. seal_pack_stream sp (replicate 19 5) sample_gk [1, 2, 3] [9] = Inr (res, ct) \<and>
     open_pack_stream sp sample_gk ct [9] (sr_plaintext_size res) (sr_object_id res) = Inr ([1, 2, 3], length ct)"
proof (rule sample_stream)
  fix res ct
  assume s: "seal_pack_stream sp (replicate 19 5) sample_gk [1, 2, 3] [9] = Inr (res, ct)" "length ct < 2 ^ 64"
  have "length (replicate 19 (5 :: byte)) = PACK_STREAM_NONCE_SIZE" by (simp add: PACK_STREAM_NONCE_SIZE_def)
  from seal_open_pack_stream [OF sample_stream_laws this s] s(1) show ?thesis by blast
qed

theorem open_pack_stream_exact_witness:
  "\<exists>ct sz i. open_pack_stream sp sample_gk ct [9] sz i = Inr ([1, 2, 3], length ct) \<and> object_id sp ct = i"
proof (rule sample_stream)
  fix res ct
  assume s: "seal_pack_stream sp (replicate 19 5) sample_gk [1, 2, 3] [9] = Inr (res, ct)" "length ct < 2 ^ 64"
  have o: "open_pack_stream sp sample_gk ct [9] (sr_plaintext_size res) (sr_object_id res) = Inr ([1, 2, 3], length ct)"
    by (rule conjunct1, rule sealed_pack_opens [OF sample_stream_laws _ s]) (simp add: PACK_STREAM_NONCE_SIZE_def)
  from open_pack_stream_exact [OF o] o show ?thesis by blast
qed

end
