(* ===== verification/Storage_Trait.thy ===== *)
theory Storage_Trait
  imports Storage BTree_Map
begin

text \<open>
  The \<^verbatim>\<open>Storage\<close> trait of \<^verbatim>\<open>src/storage.rs\<close> as a record of operations on a state, its default
  methods, and the directory backend as one value of it. Reading an object, the head or the
  history changes no state a client can see in either backend.
\<close>

record recovery_commit =
  rc_commit_id :: string
  rc_head_id :: "string option"

record recovery_history =
  rh_commits :: "recovery_commit list"
  rh_manifests :: "(string, bytes) btree_map"

record 's storage_ops =
  so_open_object :: "object_kind \<Rightarrow> string \<Rightarrow> 's \<Rightarrow> bytes result"
  so_put_object_if_absent :: "object_kind \<Rightarrow> string \<Rightarrow> bytes \<Rightarrow> 's \<Rightarrow> unit result \<times> 's"
  so_read_head :: "'s \<Rightarrow> string option result"
  so_refresh :: "'s \<Rightarrow> bool result \<times> 's"
  so_compare_and_swap_head :: "string option \<Rightarrow> string \<Rightarrow> 's \<Rightarrow> unit result \<times> 's"
  so_observe_head :: "'s \<Rightarrow> head_observation result"
  so_compare_and_swap_observed_head :: "head_observation \<Rightarrow> string \<Rightarrow> 's \<Rightarrow> unit result \<times> 's"
  so_recovery_history :: "nat \<Rightarrow> nat \<Rightarrow> 's \<Rightarrow> recovery_history option result"
  so_restore_historical_object :: "object_kind \<Rightarrow> string \<Rightarrow> nat \<Rightarrow> 's \<Rightarrow> bool result \<times> 's"
  so_prepare_recovery :: "string list \<Rightarrow> string list \<Rightarrow> 's \<Rightarrow> unit result \<times> 's"

section \<open>Default methods\<close>

definition default_refresh :: "'s \<Rightarrow> bool result \<times> 's" where
  "default_refresh s = (Inr False, s)"

definition default_recovery_history :: "nat \<Rightarrow> nat \<Rightarrow> 's \<Rightarrow> recovery_history option result" where
  "default_recovery_history max_commits max_manifest_bytes s = Inr None"

definition default_restore_historical_object :: "object_kind \<Rightarrow> string \<Rightarrow> nat \<Rightarrow> 's \<Rightarrow> bool result \<times> 's" where
  "default_restore_historical_object kind i max_bytes s = (Inr False, s)"

definition default_prepare_recovery :: "string list \<Rightarrow> string list \<Rightarrow> 's \<Rightarrow> unit result \<times> 's" where
  "default_prepare_recovery manifest_ids pack_ids s = (Inr (), s)"

definition so_get_object :: "'s storage_ops \<Rightarrow> object_kind \<Rightarrow> string \<Rightarrow> 's \<Rightarrow> bytes result" where
  "so_get_object S kind i s = get_object (\<lambda>k j. so_open_object S k j s) kind i"

section \<open>The directory backend\<close>

text \<open>\<open>io\<close> gives the faults of the compare-and-swap, if any.\<close>

definition directory_storage :: "'a prims_scheme \<Rightarrow> cas_io \<Rightarrow> string \<Rightarrow> tree storage_ops" where
  "directory_storage P io dir =
     \<lparr>so_open_object = fs_open_object dir,
      so_put_object_if_absent = fs_put_object_if_absent P dir,
      so_read_head = fs_read_head dir,
      so_refresh = default_refresh,
      so_compare_and_swap_head = fs_compare_and_swap_head io dir,
      so_observe_head = fs_observe_head dir,
      so_compare_and_swap_observed_head = fs_compare_and_swap_observed_head io dir,
      so_recovery_history = default_recovery_history,
      so_restore_historical_object = default_restore_historical_object,
      so_prepare_recovery = default_prepare_recovery\<rparr>"

end
