(* ===== verification/Effects.thy ===== *)
theory Effects
  imports Prelude
begin

text \<open>
  Actions: functions from a state to a result and a state, for the operations that call the
  storage, write local files or run git. A failed step keeps the state it produced, as in the
  code; \<open>act_then\<close> is \<^verbatim>\<open>?\<close> followed by the rest of the function.
\<close>

type_synonym ('a, 'w) act = "'w \<Rightarrow> 'a result \<times> 'w"

definition act_ret :: "'a result \<Rightarrow> ('a, 'w) act" where
  "act_ret r w = (r, w)"

definition act_get :: "('w \<Rightarrow> 'a result) \<Rightarrow> ('a, 'w) act" where
  "act_get f w = (f w, w)"

definition act_then :: "('a, 'w) act \<Rightarrow> ('a \<Rightarrow> ('b, 'w) act) \<Rightarrow> ('b, 'w) act" where
  "act_then m f w = (case m w of (Inl e, w') \<Rightarrow> (Inl e, w') | (Inr a, w') \<Rightarrow> f a w')"

lemma act_ret_eq [result_simps]: "act_ret r w = (r', w') \<longleftrightarrow> r = r' \<and> w = w'"
  by (auto simp: act_ret_def)

lemma act_get_eq [result_simps]: "act_get f w = (r, w') \<longleftrightarrow> f w = r \<and> w = w'"
  by (auto simp: act_get_def)

lemma act_then_Inr [result_simps]:
  "act_then m f w = (Inr b, w'') \<longleftrightarrow> (\<exists>a w'. m w = (Inr a, w') \<and> f a w' = (Inr b, w''))"
  by (auto simp: act_then_def split: sum.splits prod.splits)

lemma act_then_Inl [result_simps]:
  "act_then m f w = (Inl e, w'') \<longleftrightarrow> m w = (Inl e, w'') \<or> (\<exists>a w'. m w = (Inr a, w') \<and> f a w' = (Inl e, w''))"
  by (auto simp: act_then_def split: sum.splits prod.splits)

lemma act_then_run [simp]: "m w = (Inr a, w') \<Longrightarrow> act_then m f w = f a w'"
  by (simp add: act_then_def)

lemmas act_simps = act_ret_eq act_get_eq act_then_Inr

text \<open>A property of the state that every step keeps.\<close>

definition act_keeps :: "('w \<Rightarrow> 'w \<Rightarrow> bool) \<Rightarrow> ('a, 'w) act \<Rightarrow> bool" where
  "act_keeps R m \<longleftrightarrow> (\<forall>w. R w (snd (m w)))"

lemma act_keeps_ret: "reflp R \<Longrightarrow> act_keeps R (act_ret r)"
  by (simp add: act_keeps_def act_ret_def reflp_def)

lemma act_keeps_get: "reflp R \<Longrightarrow> act_keeps R (act_get f)"
  by (simp add: act_keeps_def act_get_def reflp_def)

lemma act_keeps_then:
  assumes "transp R" and "act_keeps R m" and "\<And>a. act_keeps R (f a)"
  shows "act_keeps R (act_then m f)"
proof -
  have "R w (snd (act_then m f w))" for w
  proof (cases "m w")
    case (Pair r w')
    then have m: "R w w'" using assms(2) by (metis act_keeps_def snd_conv)
    show ?thesis
    proof (cases r)
      case (Inl e)
      then show ?thesis using m Pair by (simp add: act_then_def)
    next
      case (Inr a)
      have "R w' (snd (f a w'))" using assms(3) by (simp add: act_keeps_def)
      then show ?thesis using m Pair Inr assms(1) by (auto simp: act_then_def dest: transpD)
    qed
  qed
  then show ?thesis by (simp add: act_keeps_def)
qed


text \<open>A step that only reads, and a step that leaves the state alone when it fails.\<close>

definition act_reads :: "('a, 'w) act \<Rightarrow> bool" where
  "act_reads m \<longleftrightarrow> (\<forall>w. snd (m w) = w)"

definition act_atomic :: "('a, 'w) act \<Rightarrow> bool" where
  "act_atomic m \<longleftrightarrow> (\<forall>w e w'. m w = (Inl e, w') \<longrightarrow> w' = w)"

lemma act_reads_ret: "act_reads (act_ret r)" and act_reads_get: "act_reads (act_get f)"
  by (simp_all add: act_reads_def act_ret_def act_get_def)

lemma act_reads_atomic: "act_reads m \<Longrightarrow> act_atomic m"
  by (metis act_atomic_def act_reads_def snd_conv)

lemma act_atomic_then: "act_reads m \<Longrightarrow> (\<And>a. act_atomic (f a)) \<Longrightarrow> act_atomic (act_then m f)"
  by (auto simp: act_atomic_def act_reads_def act_then_Inl) (metis snd_conv)+

lemma act_atomic_last: "act_atomic m \<Longrightarrow> act_atomic (act_then m (\<lambda>a. act_ret (Inr (g a))))"
  by (auto simp: act_atomic_def act_then_Inl act_ret_eq)

lemmas act_atomic_intros = act_atomic_then act_atomic_last act_reads_ret act_reads_get act_reads_atomic

end
