(* ===== verification/Git.thy ===== *)
theory Git
  imports Refname Manifest
begin

text \<open>
  \<^verbatim>\<open>src/git.rs\<close> and the parsing half of \<^verbatim>\<open>src/catfile.rs\<close>: what the program computes from the
  answers of the \<^verbatim>\<open>git\<close> processes it runs on the user's repository. Git itself is not code of
  this repository: \<open>git_ops\<close> is a parameter that gives, for a state of the user's repository,
  what each process prints and how it exits. \<^verbatim>\<open>Objects\<close> only caches the two \<^verbatim>\<open>cat-file\<close> processes,
  so its queries are functions of that state.
\<close>

section \<open>The processes\<close>

text \<open>A process that could not be run is an error; otherwise its exit status and its output. A line
  answered by \<^verbatim>\<open>cat-file\<close> is empty when the process ended; after the header of \<^verbatim>\<open>--batch\<close> comes
  whatever the process wrote next.\<close>

record 'g git_ops =
  go_cat_check :: "'g \<Rightarrow> string \<Rightarrow> bytes result"
  go_cat_batch :: "'g \<Rightarrow> string \<Rightarrow> (bytes \<times> bytes) result"
  go_rev_parse :: "'g \<Rightarrow> string \<Rightarrow> (bool \<times> bytes) result"
  go_is_shallow :: "'g \<Rightarrow> (bool \<times> bytes) result"
  go_promisor_config :: "'g \<Rightarrow> (int option \<times> bytes) result"
  go_merge_base :: "'g \<Rightarrow> string \<Rightarrow> string \<Rightarrow> int option result"
  go_rev_list :: "'g \<Rightarrow> string list \<Rightarrow> string list \<Rightarrow> (bool \<times> bytes) result"
  go_ls_tree :: "'g \<Rightarrow> string \<Rightarrow> (bool \<times> bytes) result"
  go_pack_objects :: "'g \<Rightarrow> string list \<Rightarrow> string list \<Rightarrow> (bool \<times> bytes) result"
  go_index_pack :: "bytes \<Rightarrow> 'g \<Rightarrow> bool result \<times> 'g"
  go_update_ref :: "string \<Rightarrow> string \<Rightarrow> 'g \<Rightarrow> bool result \<times> 'g"

section \<open>Reading text\<close>

definition is_ascii_whitespace :: "char \<Rightarrow> bool" where
  "is_ascii_whitespace c = (c \<in> {CHR 0x20, CHR 0x09, CHR 0x0A, CHR 0x0C, CHR 0x0D})"

text \<open>\<^verbatim>\<open>str::split_ascii_whitespace\<close>; \<open>field\<close> is the field being read.\<close>

fun split_fields :: "string \<Rightarrow> string \<Rightarrow> string list" where
  "split_fields field [] = (if field = [] then [] else [field])"
| "split_fields field (c # cs) =
     (if is_ascii_whitespace c then (if field = [] then [] else [field]) @ split_fields [] cs
      else split_fields (field @ [c]) cs)"

definition split_ascii_whitespace :: "string \<Rightarrow> string list" where
  "split_ascii_whitespace s = split_fields [] s"

text \<open>\<^verbatim>\<open>str::parse::<u64>\<close>: an optional plus sign and at least one decimal digit, without overflow.\<close>

fun digits_value :: "nat \<Rightarrow> string \<Rightarrow> nat option" where
  "digits_value acc [] = Some acc"
| "digits_value acc (c # cs) =
     (if CHR ''0'' \<le> c \<and> c \<le> CHR ''9'' then digits_value (10 * acc + (of_char c - 48)) cs else None)"

definition parse_u64 :: "string \<Rightarrow> nat option" where
  "parse_u64 s = (let digits = (if starts_with s ''+'' then tl s else s) in
     if digits = [] then None
     else case digits_value 0 digits of
       None \<Rightarrow> None
     | Some n \<Rightarrow> if n < 2 ^ 64 then Some n else None)"

text \<open>Bytes handled as raw text, and \<^verbatim>\<open>str::lines\<close>.\<close>

definition text_of_bytes :: "bytes \<Rightarrow> string" where
  "text_of_bytes b = map (\<lambda>w. char_of (unat w)) b"

definition strip_cr :: "string \<Rightarrow> string" where
  "strip_cr l = (if l \<noteq> [] \<and> last l = CHR 0x0D then butlast l else l)"

definition text_lines :: "string \<Rightarrow> string list" where
  "text_lines s = (let ls = split_on (CHR 0x0A) s in
     map strip_cr (if last ls = [] then butlast ls else ls))"

section \<open>catfile.rs\<close>

datatype git_object_type = CommitType | TreeType | BlobType | TagType

definition parse_object_type :: "string \<Rightarrow> git_object_type option" where
  "parse_object_type name =
     (if name = ''commit'' then Some CommitType
      else if name = ''tree'' then Some TreeType
      else if name = ''blob'' then Some BlobType
      else if name = ''tag'' then Some TagType
      else None)"

datatype batch_header = Missing | Object string git_object_type nat

text \<open>\<^verbatim>\<open>CatFile::request\<close>; \<open>answer\<close> is the line the process answers for a name.\<close>

definition cat_request :: "(string \<Rightarrow> bytes result) \<Rightarrow> string \<Rightarrow> batch_header result" where
  "cat_request answer object =
     bail_if (object = [] \<or> list_ex is_ascii_control object) (Io InvalidInput) (
     and_then (answer object) (\<lambda>line.
     bail_if (line = []) (Io UnexpectedEof) (
     and_then (ok_or (from_utf8 line) (Io InvalidData)) (\<lambda>header.
     case split_ascii_whitespace header of
       [a, b] \<Rightarrow> if b = ''missing'' then Inr Missing else Inl (err (Io InvalidData))
     | [i, kind, sz] \<Rightarrow>
         and_then (ok_or (parse_object_type kind) (Io InvalidData)) (\<lambda>kind.
         and_then (ok_or (parse_u64 sz) (Io InvalidData)) (\<lambda>sz.
         Inr (Object i kind sz)))
     | _ \<Rightarrow> Inl (err (Io InvalidData))))))"

section \<open>Object queries\<close>

definition MAX_TAG_HEADER_BYTES :: nat where
  "MAX_TAG_HEADER_BYTES = 64 * 1024"

definition objects_kind :: "'g git_ops \<Rightarrow> 'g \<Rightarrow> string \<Rightarrow> git_object_type option result" where
  "objects_kind G g object =
     and_then (with_context ''git cat-file --batch-check failed'' (cat_request (go_cat_check G g) object)) (\<lambda>h.
     case h of Missing \<Rightarrow> Inr None | Object _ kind _ \<Rightarrow> Inr (Some kind))"

definition objects_exists :: "'g git_ops \<Rightarrow> 'g \<Rightarrow> string \<Rightarrow> bool result" where
  "objects_exists G g object = and_then (objects_kind G g object) (\<lambda>kind. Inr (kind \<noteq> None))"

text \<open>The position of the first empty line: \<^verbatim>\<open>prefix.windows(2).position(..)\<close>.\<close>

fun blank_line :: "string \<Rightarrow> nat option" where
  "blank_line (a # b # cs) =
     (if a = CHR 0x0A \<and> b = CHR 0x0A then Some 0 else map_option Suc (blank_line (b # cs)))"
| "blank_line _ = None"

definition tag_header :: "'g git_ops \<Rightarrow> 'g \<Rightarrow> string \<Rightarrow> string \<Rightarrow> string result" where
  "tag_header G g reference tag =
     and_then (with_context ''git cat-file --batch failed''
       (cat_request (\<lambda>name. and_then (go_cat_batch G g name) (\<lambda>a. Inr (fst a))) tag)) (\<lambda>h.
     case h of
       Missing \<Rightarrow> Inl (err (Msg (''annotated tag of '' @ reference @ '' disappeared while reading'')))
     | Object _ kind sz \<Rightarrow>
         bail_if (kind \<noteq> TagType) (Msg (''annotated tag of '' @ reference @ '' changed type while reading'')) (
         and_then (go_cat_batch G g tag) (\<lambda>(_, body).
         let prefix = take (min sz MAX_TAG_HEADER_BYTES) body;
             rest = sz - length prefix in
         bail_if (length (take rest (drop (length prefix) body)) \<noteq> rest)
           (Msg (''git cat-file truncated annotated tag of '' @ reference)) (
         let trailer = drop (length prefix + rest) body in
         bail_if (trailer = []) (Io UnexpectedEof) (
         bail_if (hd trailer \<noteq> 0x0A) (Io InvalidData) (
         let text = text_of_bytes prefix in
         case blank_line text of
           Some e \<Rightarrow> Inr (take e text)
         | None \<Rightarrow>
             bail_if (rest \<noteq> 0) (Msg (''annotated tag of '' @ reference @ '' has a header larger than the limit'')) (
             Inr text)))))))"

text \<open>The loop over the header lines, with the target and the type found so far.\<close>

fun tag_lines ::
    "string \<Rightarrow> string option \<Rightarrow> string option \<Rightarrow> string list \<Rightarrow> (string option \<times> string option) result" where
  "tag_lines reference target kind [] = Inr (target, kind)"
| "tag_lines reference target kind (line # ls) =
     (case strip_prefix line ''object '' of
        Some value \<Rightarrow>
          bail_if (target \<noteq> None) (Msg (''annotated tag '' @ reference @ '' has duplicate target objects'')) (
          tag_lines reference (Some value) kind ls)
      | None \<Rightarrow>
     (case strip_prefix line ''type '' of
        Some value \<Rightarrow>
          bail_if (kind \<noteq> None) (Msg (''annotated tag '' @ reference @ '' has duplicate target types'')) (
          tag_lines reference target (Some value) ls)
      | None \<Rightarrow> tag_lines reference target kind ls))"

definition git_id :: "string \<Rightarrow> bool" where
  "git_id s = ((length s = 40 \<or> length s = 64) \<and> list_all is_ascii_hexdigit s)"

definition tag_target :: "'g git_ops \<Rightarrow> 'g \<Rightarrow> string \<Rightarrow> string \<Rightarrow> (string \<times> git_object_type) result" where
  "tag_target G g reference tag =
     and_then (tag_header G g reference tag) (\<lambda>header.
     and_then (tag_lines reference None None (split_on (CHR 0x0A) header)) (\<lambda>(target, kind).
     and_then (ok_or target (Msg ''annotated tag is missing its target object'')) (\<lambda>target.
     bail_if (\<not> git_id target) (Msg (''annotated tag '' @ reference @ '' has a malformed target object'')) (
     and_then (ok_or kind (Msg ''annotated tag is missing its target type'')) (\<lambda>kind.
     and_then (ok_or (parse_object_type kind)
       (Msg (''annotated tag '' @ reference @ '' has an unknown target type''))) (\<lambda>kind.
     Inr (target, kind)))))))"

section \<open>Peeling a tag chain\<close>

lemma tag_target_git_id: "tag_target G g r t = Inr (target, k) \<Longrightarrow> git_id target"
  by (auto simp: tag_target_def and_then_eq_Inr bail_if_eq_Inr)

lemma finite_git_ids: "finite {s. git_id s}"
proof -
  have "{s. git_id s} \<subseteq> {s. set s \<subseteq> UNIV \<and> length s = 40} \<union> {s. set s \<subseteq> UNIV \<and> length s = 64}"
    by (auto simp: git_id_def)
  moreover have "finite {s :: string. set s \<subseteq> UNIV \<and> length s = n}" for n
    by (rule finite_lists_length_eq) simp
  ultimately show ?thesis by (meson finite_UnI finite_subset)
qed

definition missing_ref :: "string \<Rightarrow> string \<Rightarrow> cause" where
  "missing_ref label reference =
     (if label = ''verified'' then Msg (''verified ref '' @ reference @ '' is missing locally'')
      else Msg (''fetched ref '' @ reference @ '' does not resolve to a complete Git object graph''))"

text \<open>The loop of \<^verbatim>\<open>resolve_tag_chain\<close>. It terminates on every answer of git: each target is a
  hexadecimal identifier not seen before, and there are finitely many.\<close>

function tag_chain_loop ::
    "'g git_ops \<Rightarrow> 'g \<Rightarrow> string \<Rightarrow> string \<Rightarrow> string set \<Rightarrow> string \<Rightarrow> (string \<times> git_object_type) result" where
  "tag_chain_loop G g reference label seen current =
     bail_if (current \<in> seen) (Msg (label @ '' ref '' @ reference @ '' contains a cyclic tag chain'')) (
     and_then (and_then (objects_kind G g current) (\<lambda>k. ok_or k (missing_ref label reference))) (\<lambda>kind.
     if kind \<noteq> TagType then Inr (current, kind)
     else
       and_then (tag_target G g reference current) (\<lambda>(target, expected_kind).
       and_then (and_then (objects_kind G g target) (\<lambda>k. ok_or k (missing_ref label reference))) (\<lambda>target_kind.
       bail_if (target_kind \<noteq> expected_kind)
         (Msg (''annotated tag '' @ reference @ '' has a mismatched target type'')) (
       tag_chain_loop G g reference label (insert current seen) target)))))"
  by pat_completeness auto

termination
proof (relation "measure (\<lambda>(G, g, r, l, seen, current).
    2 * card ({s. git_id s} - seen) + (if git_id current then 0 else 1))")
  fix seen :: "string set" and current target :: string
  have less: "card ({s. git_id s} - insert current seen) < card ({s. git_id s} - seen)"
    if "current \<notin> seen" "git_id current"
    by (rule psubset_card_mono) (use finite_git_ids that in auto)
  have same: "{s. git_id s} - insert current seen = {s. git_id s} - seen" if "\<not> git_id current"
    using that by auto
  fix G :: "'g git_ops" and g r l kind x and y :: git_object_type and k
  assume "\<not> current \<in> seen" "tag_target G g r current = Inr x" "(target, y) = x"
  then show "((G, g, r, l, insert current seen, target), G, g, r, l, seen, current)
      \<in> measure (\<lambda>(G, g, r, l, seen, current).
          2 * card ({s. git_id s} - seen) + (if git_id current then 0 else 1))"
    using tag_target_git_id [of G g r current target y] less same by (auto simp: split_def)
qed simp

declare tag_chain_loop.simps [simp del]

definition resolve_tag_chain ::
    "'g git_ops \<Rightarrow> 'g \<Rightarrow> string \<Rightarrow> string \<Rightarrow> string \<Rightarrow> (string \<times> git_object_type) result" where
  "resolve_tag_chain G g reference object label = tag_chain_loop G g reference label {} object"

section \<open>Branches and connectivity\<close>

definition ensure_branch_target :: "'g git_ops \<Rightarrow> 'g \<Rightarrow> string \<Rightarrow> string \<Rightarrow> unit result" where
  "ensure_branch_target G g reference object =
     and_then (resolve_tag_chain G g reference object ''pushed'') (\<lambda>(_, kind).
     bail_if (kind \<noteq> CommitType) (Msg (''branch ref '' @ reference @ '' must resolve to a commit'')) (Inr ()))"

definition is_ancestor :: "'g git_ops \<Rightarrow> 'g \<Rightarrow> string \<Rightarrow> string \<Rightarrow> bool result" where
  "is_ancestor G g ancestor descendant =
     and_then (go_merge_base G g ancestor descendant) (\<lambda>code.
     if code = Some 0 then Inr True
     else if code = Some 1 then Inr False
     else Inl (err (Msg ''git merge-base failed'')))"

definition git_text :: "(bool \<times> bytes) result \<Rightarrow> string result" where
  "git_text output =
     and_then output (\<lambda>(success, stdout).
     bail_if (\<not> success) (Msg ''git failed'') (
     and_then (ok_or (from_utf8 stdout) (Msg ''invalid utf-8'')) (\<lambda>text.
     Inr (trim text))))"

definition resolve_ref :: "'g git_ops \<Rightarrow> 'g \<Rightarrow> string \<Rightarrow> string result" where
  "resolve_ref G g reference = git_text (go_rev_parse G g reference)"

definition has_complete_object_graph :: "'g git_ops \<Rightarrow> 'g \<Rightarrow> bool" where
  "has_complete_object_graph G g =
     (case go_is_shallow G g of
        Inr (True, stdout) \<Rightarrow>
          (if map_option trim (from_utf8 stdout) \<noteq> Some ''false'' then False
           else case go_promisor_config G g of
             Inr (code, stdout) \<Rightarrow> code = Some 1 \<and> stdout = []
           | Inl _ \<Rightarrow> False)
      | _ \<Rightarrow> False)"

fun tree_entries :: "'g git_ops \<Rightarrow> 'g \<Rightarrow> string \<Rightarrow> bytes list \<Rightarrow> unit result" where
  "tree_entries G g reference [] = Inr ()"
| "tree_entries G g reference (entry # entries) =
     (if entry = [] then tree_entries G g reference entries
      else
      and_then (ok_or (from_utf8 (hd (split_on 0x09 entry))) (Msg ''invalid utf-8'')) (\<lambda>header.
      let fields = split_ascii_whitespace header in
      bail_if (length fields < 1) (Msg ''Git ls-tree returned an entry without a mode'') (
      bail_if (length fields < 2) (Msg ''Git ls-tree returned an entry without an object type'') (
      bail_if (length fields < 3) (Msg ''Git ls-tree returned an entry without an object ID'') (
      if fields ! 0 = ''160000'' then tree_entries G g reference entries
      else
        and_then (objects_exists G g (fields ! 2)) (\<lambda>present.
        bail_if (\<not> present)
          (Msg (''fetched tag '' @ reference @ '' contains missing Git object '' @ fields ! 2)) (
        tree_entries G g reference entries)))))))"

definition ensure_tree_connected :: "'g git_ops \<Rightarrow> 'g \<Rightarrow> string \<Rightarrow> string \<Rightarrow> unit result" where
  "ensure_tree_connected G g reference t =
     and_then (go_ls_tree G g t) (\<lambda>(success, stdout).
     bail_if (\<not> success) (Msg (''fetched tag '' @ reference @ '' contains an incomplete tree'')) (
     tree_entries G g reference (split_on 0 stdout)))"

text \<open>Both loops of \<^verbatim>\<open>ensure_refs_connected_since\<close>: they differ in the label only. The result is the
  commits the refs peel to, in order.\<close>

fun ref_roots :: "'g git_ops \<Rightarrow> 'g \<Rightarrow> string \<Rightarrow> (string \<times> string) list \<Rightarrow> string list result" where
  "ref_roots G g label [] = Inr []"
| "ref_roots G g label ((reference, object) # refs) =
     and_then (inner_ref_kind_of reference) (\<lambda>ref_kind.
     and_then (resolve_tag_chain G g reference object label) (\<lambda>(oid, kind).
     and_then
       (if kind = CommitType then Inr [oid]
        else if kind = TreeType \<and> ref_kind = Tag then
          and_then (ensure_tree_connected G g reference oid) (\<lambda>_. Inr [])
        else if kind = BlobType \<and> ref_kind = Tag then Inr []
        else Inl (err (Msg (label @ '' ref '' @ reference @ '' does not resolve to a supported Git object'')))) (\<lambda>roots.
     and_then (ref_roots G g label refs) (\<lambda>rest.
     Inr (roots @ rest)))))"

definition ensure_refs_connected_since ::
    "'g git_ops \<Rightarrow> 'g \<Rightarrow> (string, string) btree_map \<Rightarrow> (string, string) btree_map \<Rightarrow> unit result" where
  "ensure_refs_connected_since G g refs verified_refs =
     (if refs = [] then Inr ()
      else
      and_then (ref_roots G g ''fetched'' refs) (\<lambda>commit_roots.
      and_then (ref_roots G g ''verified'' verified_refs) (\<lambda>verified_commit_roots.
      if commit_roots = [] then Inr ()
      else
      and_then (go_rev_list G g commit_roots verified_commit_roots) (\<lambda>(success, stdout).
      bail_if (\<not> success) (Msg ''git connectivity check failed'') (
      and_then (ok_or (from_utf8 stdout) (Msg ''invalid utf-8'')) (\<lambda>text.
      bail_if (list_ex (\<lambda>line. starts_with line ''?'') (text_lines text))
        (Msg ''fetched refs contain missing Git objects'') (
      Inr ())))))))"

section \<open>Packs and refs\<close>

text \<open>\<^verbatim>\<open>start_incremental_pack\<close>: the bytes the reader of the pack sees, and whether \<^verbatim>\<open>finish\<close> will find a
  successful exit.\<close>

definition start_incremental_pack ::
    "'g git_ops \<Rightarrow> 'g \<Rightarrow> (string, string) btree_map \<Rightarrow> (string, string) btree_map \<Rightarrow> (bool \<times> bytes) result" where
  "start_incremental_pack G g new_refs old_refs =
     and_then (go_is_shallow G g) (\<lambda>(success, stdout).
     bail_if (\<not> success) (Msg ''could not determine whether the source repository is shallow'') (
     and_then (ok_or (from_utf8 stdout) (Msg ''invalid utf-8'')) (\<lambda>text.
     bail_if (trim text = ''true'')
       (Msg ''cannot publish from a shallow repository; fetch --unshallow first'') (
     go_pack_objects G g (map snd new_refs) (map snd old_refs)))))"

definition pack_source_finish :: "bool \<times> bytes \<Rightarrow> unit result" where
  "pack_source_finish source = bail_if (\<not> fst source) (Msg ''git pack-objects failed'') (Inr ())"

text \<open>\<^verbatim>\<open>start_pack_import\<close>, the copy of the plaintext into the importer and \<^verbatim>\<open>PackImporter::finish\<close>.\<close>

definition import_pack :: "'g git_ops \<Rightarrow> bytes \<Rightarrow> 'g \<Rightarrow> unit result \<times> 'g" where
  "import_pack G pack g = (case go_index_pack G pack g of
     (Inl e, g') \<Rightarrow> (Inl e, g')
   | (Inr success, g') \<Rightarrow> (bail_if (\<not> success) (Msg ''git index-pack failed'') (Inr ()), g'))"

definition update_ref :: "'g git_ops \<Rightarrow> string \<Rightarrow> string \<Rightarrow> 'g \<Rightarrow> unit result \<times> 'g" where
  "update_ref G reference object g = (case go_update_ref G reference object g of
     (Inl e, g') \<Rightarrow> (Inl e, g')
   | (Inr success, g') \<Rightarrow> (bail_if (\<not> success) (Msg ''git update-ref failed'') (Inr ()), g'))"

section \<open>What a resolved tag chain is\<close>

text \<open>One annotated tag and the object it names, present with the type the tag declares.\<close>

definition peel_step :: "'g git_ops \<Rightarrow> 'g \<Rightarrow> string \<Rightarrow> string \<Rightarrow> string \<Rightarrow> bool" where
  "peel_step G g r x y \<longleftrightarrow> objects_kind G g x = Inr (Some TagType) \<and>
     (\<exists>k. tag_target G g r x = Inr (y, k) \<and> objects_kind G g y = Inr (Some k))"

lemma peel_step_fun: "peel_step G g r x y \<Longrightarrow> peel_step G g r x z \<Longrightarrow> y = z"
  by (auto simp: peel_step_def)

lemma peel_steps_unique:
  assumes "(peel_step G g r ^^ m) x t" and "(peel_step G g r ^^ n) x t"
    and "objects_kind G g t = Inr (Some k)" and "k \<noteq> TagType"
  shows "m = n"
  using assms(1,2)
proof (induction m arbitrary: x n)
  case 0
  then have [simp]: "x = t" by simp
  show ?case
  proof (cases n)
    case (Suc n')
    with 0(2) obtain y where "peel_step G g r t y" by (metis \<open>x = t\<close> relpowp_Suc_D2)
    then show ?thesis using assms(3,4) by (auto simp: peel_step_def)
  qed simp
next
  case (Suc m)
  then obtain y where y: "peel_step G g r x y" "(peel_step G g r ^^ m) y t" by (meson relpowp_Suc_D2)
  then have "x \<noteq> t" using assms(3,4) by (auto simp: peel_step_def)
  then have "n \<noteq> 0" using Suc.prems(2) by (cases n) auto
  then obtain n' z where n': "n = Suc n'" "peel_step G g r x z" "(peel_step G g r ^^ n') z t"
    using Suc.prems(2) by (metis not0_implies_Suc relpowp_Suc_D2)
  with y peel_step_fun have "z = y" by metis
  then show ?case using Suc.IH [of y n'] y n' by simp
qed

lemma tag_chain_loop_sound:
  "tag_chain_loop G g r l seen x = Inr (t, k) \<Longrightarrow>
     (peel_step G g r)\<^sup>*\<^sup>* x t \<and> objects_kind G g t = Inr (Some k) \<and> k \<noteq> TagType"
proof (induction G g r l seen x rule: tag_chain_loop.induct)
  case (1 G g r l seen x)
  from "1.prems" obtain kind where kind: "x \<notin> seen" "objects_kind G g x = Inr (Some kind)"
    by (subst (asm) tag_chain_loop.simps) (auto simp: and_then_eq_Inr bail_if_eq_Inr ok_or_eq_Inr)
  show ?case
  proof (cases "kind = TagType")
    case False
    then show ?thesis using "1.prems" kind by (subst (asm) tag_chain_loop.simps) auto
  next
    case True
    from "1.prems" kind True obtain y ky where y: "tag_target G g r x = Inr (y, ky)" "objects_kind G g y = Inr (Some ky)"
      and rec: "tag_chain_loop G g r l (insert x seen) y = Inr (t, k)"
      by (subst (asm) tag_chain_loop.simps) (auto simp: and_then_eq_Inr bail_if_eq_Inr ok_or_eq_Inr)
    have "peel_step G g r x y" using kind(2) True y by (simp add: peel_step_def)
    moreover have "(peel_step G g r)\<^sup>*\<^sup>* y t \<and> objects_kind G g t = Inr (Some k) \<and> k \<noteq> TagType"
      by (rule "1.IH" [OF _ _ _ y(1) refl _ _ rec]) (use kind True y in auto)
    ultimately show ?thesis by (meson converse_rtranclp_into_rtranclp)
  qed
qed

lemma tag_chain_loop_complete:
  assumes "(peel_step G g r ^^ n) x t" and t: "objects_kind G g t = Inr (Some k)" "k \<noteq> TagType"
    and "\<forall>s \<in> seen. \<exists>m > n. (peel_step G g r ^^ m) s t"
  shows "tag_chain_loop G g r l seen x = Inr (t, k)"
  using assms(1,4)
proof (induction n arbitrary: x seen)
  case 0
  then have "x \<notin> seen" using peel_steps_unique [OF _ "0.prems"(1) t] by auto
  then show ?case using 0 t by (subst tag_chain_loop.simps) simp
next
  case (Suc n)
  have fresh: "x \<notin> seen" using peel_steps_unique [OF _ Suc.prems(1) t] Suc.prems(2) by auto
  from Suc.prems(1) obtain y where y: "peel_step G g r x y" "(peel_step G g r ^^ n) y t" by (meson relpowp_Suc_D2)
  have "tag_chain_loop G g r l (insert x seen) y = Inr (t, k)"
  proof (rule Suc.IH [OF y(2)])
    show "\<forall>s \<in> insert x seen. \<exists>m > n. (peel_step G g r ^^ m) s t"
      using Suc.prems by (metis Suc_lessD insert_iff lessI)
  qed
  then show ?case using fresh y(1) by (subst tag_chain_loop.simps) (auto simp: peel_step_def)
qed

text \<open>C36. Peeling is exact: \<^verbatim>\<open>resolve_tag_chain\<close> returns an object exactly when the ref's object leads to
  it along annotated tags, each present and naming a present object of the type it declares,
  and the object is not itself a tag; it never loops and never rejects such a chain as cyclic.\<close>

theorem resolve_tag_chain_exact:
  "resolve_tag_chain G g r x label = Inr (t, k) \<longleftrightarrow>
     (peel_step G g r)\<^sup>*\<^sup>* x t \<and> objects_kind G g t = Inr (Some k) \<and> k \<noteq> TagType"
  unfolding resolve_tag_chain_def
  using tag_chain_loop_sound [of G g r label "{}" x t k] tag_chain_loop_complete [of _ G g r x t k "{}" label]
  by (auto simp: rtranclp_power)

end
