(* ===== verification/Repository.thy ===== *)
theory Repository
  imports Continuity Pack_Stream Storage_Trait Effects Git
begin

text \<open>
  \<^verbatim>\<open>src/repository.rs\<close>: the operations of \<^verbatim>\<open>EncryptedRepository\<close> other than recovery. An operation
  is an action on a \<open>world\<close>: the storage, the local files (the machine's floor and the
  checkout's progress) and the user's Git repository. It holds the floor's lock from its first
  read to its last write, so the floor is read and advanced inside one action; the storage may
  change between actions, and an operation relies on the compare-and-swap alone to detect that.
  What the code draws from the random generator is an argument.
\<close>

section \<open>Data\<close>

record checkout_progress =
  cg_format_version :: u32
  cg_imported_generation :: "u64 option"
  cg_verified_refs :: "(string, string) btree_map"

record rejected_head_evidence =
  re_head_id :: string
  re_classification :: recovery_class
  re_reason :: string

record rejected_head_log =
  rl_format_version :: u32
  rl_entries :: "rejected_head_evidence list"

record repository_prims = continuity_prims +
  progress_to_vec :: "checkout_progress \<Rightarrow> bytes"
  progress_of_slice :: "bytes \<Rightarrow> checkout_progress option"
  rejected_log_to_vec :: "rejected_head_log \<Rightarrow> bytes"
  rejected_log_of_slice :: "bytes \<Rightarrow> rejected_head_log option"

record 's encrypted_repository =
  er_storage :: "'s storage_ops"
  er_key :: key_file
  er_state_dir :: string

record 'g git_repository =
  gr_git_dir :: string
  gr_ops :: "'g git_ops"

record ('s, 'g) world =
  w_storage :: 's
  w_files :: files
  w_git :: 'g

record publication_random =
  pr_key :: bytes
  pr_link_nonce :: bytes
  pr_pack_nonce :: bytes
  pr_manifest :: manifest_random

datatype initialize_error =
    BeforePublication error
  | PublicationUncertain error
  | AfterPublication string error

datatype ref_change = Update string bool | Delete

record ref_push =
  rp_destination :: string
  rp_change :: ref_change

datatype push_mode = Publish | DryRun

datatype ref_outcome = Accepted | Rejected error

record push_outcome =
  pu_refs :: "ref_outcome list"
  pu_publication :: "string result"

text \<open>\<^verbatim>\<open>PushRejection\<close>: three of the causes, with the status Git recognises.\<close>

fun git_status :: "cause \<Rightarrow> string option" where
  "git_status (NonFastForward _) = Some ''non-fast forward''"
| "git_status (FetchFirst _) = Some ''fetch first''"
| "git_status (TagAlreadyExists _) = Some ''already exists''"
| "git_status _ = None"

section \<open>Actions on the parts of the world\<close>

definition on_storage :: "('s \<Rightarrow> 'b result \<times> 's) \<Rightarrow> ('b, ('s, 'g) world) act" where
  "on_storage f w = (case f (w_storage w) of (r, s) \<Rightarrow> (r, w\<lparr>w_storage := s\<rparr>))"

definition on_git :: "('g \<Rightarrow> 'b result \<times> 'g) \<Rightarrow> ('b, ('s, 'g) world) act" where
  "on_git f w = (case f (w_git w) of (r, g) \<Rightarrow> (r, w\<lparr>w_git := g\<rparr>))"

definition on_files :: "(files \<Rightarrow> files result) \<Rightarrow> (unit, ('s, 'g) world) act" where
  "on_files f w = (case f (w_files w) of Inl e \<Rightarrow> (Inl e, w) | Inr fs \<Rightarrow> (Inr (), w\<lparr>w_files := fs\<rparr>))"

section \<open>The floor and the checkout\<close>

definition lock_floor :: "'s encrypted_repository \<Rightarrow> string" where
  "lock_floor R = floor_acquire (er_state_dir R) (kf_repository_root (er_key R))"

definition open_checkout :: "'s encrypted_repository \<Rightarrow> 'g git_repository \<Rightarrow> string" where
  "open_checkout R repo = gr_git_dir repo @ ''/git-remote-e2ee/'' @ kf_repository_root (er_key R)"

definition CHECKOUT_PROGRESS_FORMAT :: u32 where
  "CHECKOUT_PROGRESS_FORMAT = 2"

definition default_progress :: checkout_progress where
  "default_progress = \<lparr>cg_format_version = 0, cg_imported_generation = None, cg_verified_refs = []\<rparr>"

definition progress_path :: "string \<Rightarrow> string" where
  "progress_path directory = directory @ ''/progress.json''"

definition checkout_read :: "'a repository_prims_scheme \<Rightarrow> string \<Rightarrow> files \<Rightarrow> checkout_progress result" where
  "checkout_read P directory fs =
     and_then (read_json (progress_of_slice P) (progress_path directory) fs) (\<lambda>progress.
     case progress of
       None \<Rightarrow> Inr default_progress
     | Some progress \<Rightarrow>
         bail_if (cg_format_version progress \<noteq> CHECKOUT_PROGRESS_FORMAT)
           (Msg (''unsupported checkout progress format '' @ show_nat (unat (cg_format_version progress)))) (
         Inr progress))"

definition checkout_write :: "'a repository_prims_scheme \<Rightarrow> string \<Rightarrow> checkout_progress \<Rightarrow> files \<Rightarrow> files result" where
  "checkout_write P directory progress fs =
     Inr (write_json (progress_to_vec P) (progress_path directory)
       (progress\<lparr>cg_format_version := CHECKOUT_PROGRESS_FORMAT\<rparr>) fs)"

section \<open>The pinned chain\<close>

definition read_material :: "'a manifest_prims_scheme \<Rightarrow> 's encrypted_repository \<Rightarrow> 's \<Rightarrow> string \<Rightarrow> material result" where
  "read_material P R s = read_manifest_material P (\<lambda>i. so_get_object (er_storage R) Manifest i s)"

definition current_chain :: "'a manifest_prims_scheme \<Rightarrow> 's encrypted_repository \<Rightarrow> 's \<Rightarrow> opened_state list result" where
  "current_chain P R s =
     and_then (so_read_head (er_storage R) s) (\<lambda>head.
     and_then (ok_or head (Msg ''encrypted repository is not initialized'')) (\<lambda>head.
     fst (chain_from P (er_key R) head (read_material P R s) None)))"

definition pinned_chain ::
    "'a continuity_prims_scheme \<Rightarrow> 's encrypted_repository \<Rightarrow> string \<Rightarrow> (opened_state list, ('s, 'g) world) act" where
  "pinned_chain P R floor =
     act_then (act_get (\<lambda>w. floor_read P floor (w_files w))) (\<lambda>f.
     act_then (act_get (\<lambda>w. current_chain P R (w_storage w))) (\<lambda>chain.
     case validate_pinned_head chain f of
       Inr _ \<Rightarrow> act_ret (Inr chain)
     | Inl e \<Rightarrow>
         act_then (on_storage (so_refresh (er_storage R))) (\<lambda>changed.
         if \<not> changed then act_ret (Inl e)
         else
           act_then (act_get (\<lambda>w. current_chain P R (w_storage w))) (\<lambda>chain.
           act_then (act_ret (validate_pinned_head chain f)) (\<lambda>_.
           act_ret (Inr chain))))))"

definition first_state :: "opened_state list \<Rightarrow> opened_state result" where
  "first_state chain = (case chain of [] \<Rightarrow> Inl (err (Msg ''manifest chain is empty'')) | s # _ \<Rightarrow> Inr s)"

section \<open>Publishing a manifest\<close>

definition seal_and_store_manifest ::
    "'a manifest_prims_scheme \<Rightarrow> 's encrypted_repository \<Rightarrow> manifest_random \<Rightarrow> opened_state option \<Rightarrow> policy_state
       \<Rightarrow> policy_state option \<Rightarrow> bytes \<Rightarrow> manifest_authorization \<Rightarrow> manifest \<Rightarrow> (string, ('s, 'g) world) act" where
  "seal_and_store_manifest P R rnd previous policy parent_policy generation_key authorization m =
     act_then (act_ret (case previous of
         Some p \<Rightarrow> manifest_validate_successor P m (os_id p) (os_manifest p) policy
       | None \<Rightarrow> manifest_validate_genesis P m policy)) (\<lambda>_.
     act_then (act_ret (seal_manifest P rnd (er_key R) policy generation_key authorization m)) (\<lambda>encrypted.
     let i = object_id P encrypted in
     act_then (on_storage (so_put_object_if_absent (er_storage R) Manifest i encrypted)) (\<lambda>_.
     act_ret
       (and_then (open_manifest P encrypted generation_key) (\<lambda>opened.
        and_then (verify_manifest P opened policy parent_policy generation_key) (\<lambda>_.
        and_then (case previous of
            None \<Rightarrow> Inr ()
          | Some p \<Rightarrow>
              and_then (unwrap_predecessor_key P generation_key (om_manifest opened) (os_header p)) (\<lambda>recovered.
              bail_if (recovered \<noteq> os_generation_key p)
                (Msg ''new manifest predecessor link did not recover the parent key'') (Inr ()))) (\<lambda>_.
        bail_if (mh_generation (om_header opened) \<noteq> mf_generation m)
          (Msg ''new manifest self-check changed generation'') (
        Inr i))))))))"

definition commit_manifest_with_observation ::
    "'a manifest_prims_scheme \<Rightarrow> 's encrypted_repository \<Rightarrow> manifest_random \<Rightarrow> opened_state option
       \<Rightarrow> head_observation option \<Rightarrow> policy_state \<Rightarrow> policy_state option \<Rightarrow> bytes \<Rightarrow> manifest_authorization
       \<Rightarrow> manifest \<Rightarrow> (string, ('s, 'g) world) act" where
  "commit_manifest_with_observation P R rnd previous observation policy parent_policy generation_key authorization m =
     act_then (seal_and_store_manifest P R rnd previous policy parent_policy generation_key authorization m) (\<lambda>i.
     act_then (case observation of
         Some o' \<Rightarrow> on_storage (so_compare_and_swap_observed_head (er_storage R) o' i)
       | None \<Rightarrow> on_storage (so_compare_and_swap_head (er_storage R) (map_option os_id previous) i)) (\<lambda>_.
     act_ret (Inr i)))"

definition commit_manifest ::
    "'a manifest_prims_scheme \<Rightarrow> 's encrypted_repository \<Rightarrow> manifest_random \<Rightarrow> opened_state option
       \<Rightarrow> policy_state \<Rightarrow> policy_state option \<Rightarrow> bytes \<Rightarrow> manifest_authorization \<Rightarrow> manifest
       \<Rightarrow> (string, ('s, 'g) world) act" where
  "commit_manifest P R rnd previous policy parent_policy generation_key authorization m =
     commit_manifest_with_observation P R rnd previous None policy parent_policy generation_key authorization m"

definition advance_floor ::
    "'a continuity_prims_scheme \<Rightarrow> string \<Rightarrow> string \<Rightarrow> manifest \<Rightarrow> (unit, ('s, 'g) world) act" where
  "advance_floor P floor i m = on_files (floor_advance P floor (floor_at i m))"

section \<open>Initialization\<close>

definition prepare_genesis ::
    "'a continuity_prims_scheme \<Rightarrow> 's encrypted_repository \<Rightarrow> publication_random \<Rightarrow> string
       \<Rightarrow> (string \<times> manifest \<times> string, ('s, 'g) world) act" where
  "prepare_genesis P R rnd owner_label =
     (let floor = lock_floor R in
      act_then (act_get (\<lambda>w. so_read_head (er_storage R) (w_storage w))) (\<lambda>head.
      act_then (act_ret (bail_if (head \<noteq> None) (Msg ''encrypted repository is already initialized'') (Inr ()))) (\<lambda>_.
      act_then (act_get (\<lambda>w. floor_read P floor (w_files w))) (\<lambda>pinned.
      act_then (act_ret (bail_if (pinned \<noteq> None)
        (Msg (''this machine already pins repository root '' @ kf_repository_root (er_key R)
          @ ''; refusing to initialize other storage for it'')) (Inr ()))) (\<lambda>_.
      act_then (act_ret (policy_genesis P (er_key R) owner_label)) (\<lambda>(policy, policy_bytes).
      let genesis = manifest_genesis (kf_repository_root (er_key R)) policy policy_bytes in
      act_then (seal_and_store_manifest P R (pr_manifest rnd) None policy None (pr_key rnd) PolicyTransition genesis) (\<lambda>i.
      act_ret (Inr (floor, genesis, i)))))))))"

definition initialize ::
    "'a continuity_prims_scheme \<Rightarrow> 's encrypted_repository \<Rightarrow> publication_random \<Rightarrow> string \<Rightarrow> ('s, 'g) world
       \<Rightarrow> (initialize_error + string) \<times> ('s, 'g) world" where
  "initialize P R rnd owner_label w =
     (case prepare_genesis P R rnd owner_label w of
        (Inl e, w1) \<Rightarrow> (Inl (BeforePublication e), w1)
      | (Inr (floor, genesis, i), w1) \<Rightarrow>
     (case on_storage (so_compare_and_swap_head (er_storage R) None i) w1 of
        (Inl e, w2) \<Rightarrow>
          (Inl (if downcast is_StorageOccupied e then BeforePublication e else PublicationUncertain e), w2)
      | (Inr _, w2) \<Rightarrow>
     (case advance_floor P floor i genesis w2 of
        (Inl e, w3) \<Rightarrow> (Inl (AfterPublication i e), w3)
      | (Inr _, w3) \<Rightarrow> (Inr i, w3))))"

section \<open>Membership\<close>

definition require_admin :: "'a prims_scheme \<Rightarrow> 's encrypted_repository \<Rightarrow> policy_state \<Rightarrow> unit result" where
  "require_admin P R policy =
     and_then (key_device_id P (er_key R)) (\<lambda>device_id.
     bail_if (\<not> is_active_admin policy device_id) (Msg ''device is not an active administrator'') (Inr ()))"

definition transition_manifest ::
    "'a prims_scheme \<Rightarrow> bytes \<Rightarrow> opened_state \<Rightarrow> policy_state \<Rightarrow> bytes \<Rightarrow> bytes \<Rightarrow> manifest result" where
  "transition_manifest P nonce current policy policy_bytes generation_key =
     and_then (ok_or (checked_add (mf_generation (os_manifest current)) 1) (Msg ''manifest generation overflow'')) (\<lambda>generation.
     and_then (wrap_predecessor_key P nonce generation_key (os_generation_key current)
       (mf_repository_root (os_manifest current)) generation (os_id current)) (\<lambda>link.
     Inr \<lparr>mf_format_version = mf_format_version (os_manifest current),
          mf_repository_root = mf_repository_root (os_manifest current),
          mf_generation = generation, mf_previous = Some (os_id current),
          mf_policy_id = st_id policy, mf_policy_generation = pb_generation (st_body policy),
          mf_authorization = PolicyTransition,
          mf_total_pack_count = mf_total_pack_count (os_manifest current),
          mf_refs = mf_refs (os_manifest current), mf_new_packs = [],
          mf_predecessor_key_wrap = Some link, mf_introduced_policy = Some policy_bytes\<rparr>))"

definition change_policy ::
    "'a continuity_prims_scheme \<Rightarrow> 's encrypted_repository \<Rightarrow> publication_random
       \<Rightarrow> (opened_state \<Rightarrow> device_record list result) \<Rightarrow> (string \<times> string, ('s, 'g) world) act" where
  "change_policy P R rnd next_devices =
     (let floor = lock_floor R in
      act_then (pinned_chain P R floor) (\<lambda>chain.
      act_then (act_ret (first_state chain)) (\<lambda>current.
      act_then (act_ret (require_admin P R (os_policy current))) (\<lambda>_.
      act_then (act_ret (next_devices current)) (\<lambda>devices.
      act_then (act_ret (policy_successor P (os_policy current) devices (er_key R))) (\<lambda>(next_policy, policy_bytes).
      act_then (act_ret (transition_manifest P (pr_link_nonce rnd) current next_policy policy_bytes (pr_key rnd))) (\<lambda>next.
      act_then (act_ret (policy_validate_successor P next_policy (os_policy current))) (\<lambda>_.
      act_then (commit_manifest P R (pr_manifest rnd) (Some current) next_policy (Some (os_policy current))
        (pr_key rnd) PolicyTransition next) (\<lambda>manifest_id.
      act_then (advance_floor P floor manifest_id next) (\<lambda>_.
      act_ret (Inr (manifest_id, st_id next_policy))))))))))))"

definition with_device :: "public_device \<Rightarrow> string \<Rightarrow> device_roles \<Rightarrow> opened_state \<Rightarrow> device_record list result" where
  "with_device public label roles current =
     bail_if (policy_device (os_policy current) (pd_device_id public) \<noteq> None)
       (Msg ''device already exists in policy'') (
     Inr (pb_devices (st_body (os_policy current))
       @ [\<lparr>dv_public = public, dv_label = label, dv_roles = roles, dv_revoked_at = None\<rparr>]))"

definition add_device ::
    "'a continuity_prims_scheme \<Rightarrow> 's encrypted_repository \<Rightarrow> publication_random \<Rightarrow> public_device \<Rightarrow> string
       \<Rightarrow> device_roles \<Rightarrow> (string \<times> string, ('s, 'g) world) act" where
  "add_device P R rnd public label roles = change_policy P R rnd (with_device public label roles)"

text \<open>\<^verbatim>\<open>devices.iter_mut().find(..)\<close> and the assignment to the device found.\<close>

fun revoke_first :: "string \<Rightarrow> u64 \<Rightarrow> device_record list \<Rightarrow> device_record list option" where
  "revoke_first device_id stamp [] = None"
| "revoke_first device_id stamp (d # ds) =
     (if dv_id d = device_id \<and> dv_active d then Some (d\<lparr>dv_revoked_at := Some stamp\<rparr> # ds)
      else map_option ((#) d) (revoke_first device_id stamp ds))"

definition without_device :: "string \<Rightarrow> opened_state \<Rightarrow> device_record list result" where
  "without_device device_id current =
     (let devices = pb_devices (st_body (os_policy current)) in
      bail_if (\<not> list_ex (\<lambda>d. dv_id d = device_id \<and> dv_active d) devices)
        (Msg ''device is not active in the current policy'') (
      and_then (ok_or (checked_add (pb_generation (st_body (os_policy current))) 1)
        (Msg ''policy generation overflow'')) (\<lambda>stamp.
      and_then (ok_or (revoke_first device_id stamp devices)
        (Msg ''device is not active in the current policy'')) (\<lambda>devices.
      bail_if (\<not> list_ex (\<lambda>d. dv_active d \<and> dr_reader (dv_roles d)) devices)
        (Msg ''cannot revoke the last active reader'') (
      bail_if (\<not> list_ex (\<lambda>d. dv_active d \<and> dr_administrator (dv_roles d)) devices)
        (Msg ''cannot revoke the last active administrator'') (
      Inr devices))))))"

definition revoke_device ::
    "'a continuity_prims_scheme \<Rightarrow> 's encrypted_repository \<Rightarrow> publication_random \<Rightarrow> string
       \<Rightarrow> (string \<times> string, ('s, 'g) world) act" where
  "revoke_device P R rnd device_id = change_policy P R rnd (without_device device_id)"

section \<open>Reading the head\<close>

definition pinned_head ::
    "'a continuity_prims_scheme \<Rightarrow> 's encrypted_repository \<Rightarrow> (opened_state, ('s, 'g) world) act" where
  "pinned_head P R =
     (let floor = lock_floor R in
      act_then (pinned_chain P R floor) (\<lambda>chain.
      act_then (act_ret (first_state chain)) (\<lambda>current.
      act_then (advance_floor P floor (os_id current) (os_manifest current)) (\<lambda>_.
      act_ret (Inr current)))))"

definition list_devices ::
    "'a continuity_prims_scheme \<Rightarrow> 's encrypted_repository \<Rightarrow> (device_record list, ('s, 'g) world) act" where
  "list_devices P R = act_then (pinned_head P R) (\<lambda>s. act_ret (Inr (pb_devices (st_body (os_policy s)))))"

definition current_manifest ::
    "'a continuity_prims_scheme \<Rightarrow> 's encrypted_repository \<Rightarrow> (string \<times> manifest, ('s, 'g) world) act" where
  "current_manifest P R = act_then (pinned_head P R) (\<lambda>s. act_ret (Inr (os_id s, os_manifest s)))"

section \<open>Pushing\<close>

definition preflight_ref_change ::
    "'g git_ops \<Rightarrow> 'g \<Rightarrow> (string, string) btree_map \<Rightarrow> ref_push \<Rightarrow> string option result" where
  "preflight_ref_change G g parent_refs p =
     (let destination = rp_destination p in
      and_then (validate_inner_ref destination) (\<lambda>ref_kind.
      let old_object = bt_get parent_refs destination in
      case rp_change p of
        Delete \<Rightarrow>
          bail_if (old_object = None) (Msg (''remote ref '' @ destination @ '' does not exist'')) (
          bail_if (destination = ''refs/heads/main'')
            (Msg ''cannot delete refs/heads/main because it is advertised as the remote default branch'') (
          Inr None))
      | Update source force \<Rightarrow>
          and_then (resolve_ref G g source) (\<lambda>next_object.
          if old_object = Some next_object then Inr (Some next_object)
          else
          and_then (if ref_kind = Branch then ensure_branch_target G g destination next_object else Inr ()) (\<lambda>_.
          bail_if (ref_kind = Tag \<and> old_object \<noteq> None \<and> \<not> force) (TagAlreadyExists destination) (
          and_then (case old_object of
              Some old \<Rightarrow>
                if ref_kind = Branch then
                  and_then (objects_exists G g old) (\<lambda>present.
                  bail_if (\<not> present) (FetchFirst destination) (
                  if force then Inr ()
                  else and_then (is_ancestor G g old next_object) (\<lambda>fast_forward.
                    bail_if (\<not> fast_forward) (NonFastForward destination) (Inr ()))))
                else Inr ()
            | None \<Rightarrow> Inr ()) (\<lambda>_.
          Inr (Some next_object)))))))"

text \<open>The loop of \<^verbatim>\<open>push\<close>: the destinations met, the refs of the successor, the refs whose objects need a
  pack, and the outcomes in request order.\<close>

fun push_loop ::
    "'g git_ops \<Rightarrow> 'g \<Rightarrow> (string, string) btree_map \<Rightarrow> string set \<Rightarrow> (string, string) btree_map
       \<Rightarrow> (string, string) btree_map \<Rightarrow> ref_outcome list \<Rightarrow> ref_push list
       \<Rightarrow> (string, string) btree_map \<times> (string, string) btree_map \<times> ref_outcome list" where
  "push_loop G g parent_refs destinations next_refs pack_refs outcomes [] = (next_refs, pack_refs, outcomes)"
| "push_loop G g parent_refs destinations next_refs pack_refs outcomes (p # pushes) =
     (let destination = rp_destination p;
          preflight = (if destination \<notin> destinations then preflight_ref_change G g parent_refs p
            else Inl (err (Msg (destination @ '' appears more than once in one push''))))
      in case preflight of
        Inr (Some next_object) \<Rightarrow>
          push_loop G g parent_refs (insert destination destinations) (bt_insert destination next_object next_refs)
            (if bt_get parent_refs destination \<noteq> Some next_object
             then bt_insert destination next_object pack_refs else pack_refs)
            (outcomes @ [Accepted]) pushes
      | Inr None \<Rightarrow>
          push_loop G g parent_refs (insert destination destinations) (bt_remove destination next_refs) pack_refs
            (outcomes @ [Accepted]) pushes
      | Inl e \<Rightarrow>
          push_loop G g parent_refs (insert destination destinations) next_refs pack_refs
            (outcomes @ [Rejected e]) pushes)"

fun local_exclusions ::
    "'g git_ops \<Rightarrow> 'g \<Rightarrow> (string, string) btree_map \<Rightarrow> (string \<times> string) list \<Rightarrow> (string, string) btree_map result" where
  "local_exclusions G g exclusions [] = Inr exclusions"
| "local_exclusions G g exclusions ((reference, object) # refs) =
     and_then (objects_exists G g object) (\<lambda>present.
     local_exclusions G g (if present then bt_insert reference object exclusions else exclusions) refs)"

text \<open>The pack of a publication. The stage of the storage receives the ciphertext as it is produced;
  the model hands it over at \<^verbatim>\<open>finish\<close>, so a stage that refuses to take more bytes fails there.\<close>

definition store_pack ::
    "'a prims_scheme \<Rightarrow> 's encrypted_repository \<Rightarrow> 'g git_repository \<Rightarrow> publication_random \<Rightarrow> opened_state \<Rightarrow> u64
       \<Rightarrow> (string, string) btree_map \<Rightarrow> (pack_descriptor, ('s, 'g) world) act" where
  "store_pack P R repo rnd current generation pack_refs =
     act_then (act_get (\<lambda>w. local_exclusions (gr_ops repo) (w_git w) [] (mf_refs (os_manifest current)))) (\<lambda>exclusions.
     let ordinal = 0 in
     act_then (act_ret (derive_subkey P (pr_key rnd) (mf_repository_root (os_manifest current)) generation PackKey ordinal)) (\<lambda>pack_key.
     act_then (act_get (\<lambda>w. start_incremental_pack (gr_ops repo) (w_git w) pack_refs exclusions)) (\<lambda>pack_source.
     act_then (act_ret (seal_pack_stream P (pr_pack_nonce rnd) pack_key (snd pack_source)
       (pack_aad (mf_repository_root (os_manifest current)) generation ordinal))) (\<lambda>(sealed, ciphertext).
     act_then (act_ret (pack_source_finish pack_source)) (\<lambda>_.
     act_then (on_storage (so_put_object_if_absent (er_storage R) Pack (sr_object_id sealed) ciphertext)) (\<lambda>_.
     act_ret (Inr \<lparr>pk_id = sr_object_id sealed, pk_plaintext_size = sr_plaintext_size sealed,
       pk_generation = generation, pk_ordinal = ordinal\<rparr>)))))))"

definition publish_refs ::
    "'a repository_prims_scheme \<Rightarrow> 's encrypted_repository \<Rightarrow> 'g git_repository \<Rightarrow> publication_random \<Rightarrow> string
       \<Rightarrow> opened_state \<Rightarrow> (string, string) btree_map \<Rightarrow> (string, string) btree_map \<Rightarrow> (string, ('s, 'g) world) act" where
  "publish_refs P R repo rnd floor current next_refs pack_refs =
     act_then (act_ret (ok_or (checked_add (mf_generation (os_manifest current)) 1) (Msg ''manifest generation overflow''))) (\<lambda>generation.
     act_then (if pack_refs \<noteq> []
         then act_then (store_pack P R repo rnd current generation pack_refs) (\<lambda>d. act_ret (Inr [d]))
         else act_ret (Inr [])) (\<lambda>new_packs.
     act_then (act_ret (wrap_predecessor_key P (pr_link_nonce rnd) (pr_key rnd) (os_generation_key current)
       (mf_repository_root (os_manifest current)) generation (os_id current))) (\<lambda>link.
     let next = \<lparr>mf_format_version = mf_format_version (os_manifest current),
          mf_repository_root = mf_repository_root (os_manifest current),
          mf_generation = generation, mf_previous = Some (os_id current),
          mf_policy_id = st_id (os_policy current),
          mf_policy_generation = pb_generation (st_body (os_policy current)),
          mf_authorization = Writer,
          mf_total_pack_count = mf_total_pack_count (os_manifest current) + of_nat (length new_packs),
          mf_refs = next_refs, mf_new_packs = new_packs,
          mf_predecessor_key_wrap = Some link, mf_introduced_policy = None\<rparr> in
     act_then (commit_manifest P R (pr_manifest rnd) (Some current) (os_policy current) None (pr_key rnd) Writer next) (\<lambda>next_id.
     act_then (advance_floor P floor next_id next) (\<lambda>_.
     let checkout = open_checkout R repo in
     act_then (act_get (\<lambda>w. checkout_read P checkout (w_files w))) (\<lambda>progress.
     act_then (act_get (\<lambda>w. Inr (cg_verified_refs progress = mf_refs (os_manifest current)
         \<and> has_complete_object_graph (gr_ops repo) (w_git w)))) (\<lambda>complete.
     act_then (if complete then on_files (checkout_write P checkout (progress\<lparr>cg_verified_refs := mf_refs next\<rparr>))
               else act_ret (Inr ())) (\<lambda>_.
     act_ret (Inr next_id)))))))))"

definition push ::
    "'a repository_prims_scheme \<Rightarrow> 's encrypted_repository \<Rightarrow> 'g git_repository \<Rightarrow> publication_random
       \<Rightarrow> ref_push list \<Rightarrow> push_mode \<Rightarrow> (push_outcome, ('s, 'g) world) act" where
  "push P R repo rnd pushes mode =
     (let floor = lock_floor R in
      act_then (pinned_chain P R floor) (\<lambda>chain.
      act_then (act_ret (first_state chain)) (\<lambda>current.
      act_then (act_ret (key_device_id P (er_key R))) (\<lambda>device_id.
      act_then (act_ret
        (if is_active_writer (os_policy current) device_id then Inr ()
         else if is_active_reader (os_policy current) device_id then Inl (err ReadOnlyDevice)
         else Inl (err (Msg ''device is not an active writer'')))) (\<lambda>_.
      act_then (act_ret (validate_inner_refs (mf_refs (os_manifest current)))) (\<lambda>_.
      act_then (act_get (\<lambda>w. Inr (push_loop (gr_ops repo) (w_git w) (mf_refs (os_manifest current)) {}
        (mf_refs (os_manifest current)) [] [] pushes))) (\<lambda>(next_refs, pack_refs, outcomes).
      if mode = DryRun \<or> next_refs = mf_refs (os_manifest current) then
        act_then (advance_floor P floor (os_id current) (os_manifest current)) (\<lambda>_.
        act_ret (Inr \<lparr>pu_refs = outcomes, pu_publication = Inr (os_id current)\<rparr>))
      else (\<lambda>w. case publish_refs P R repo rnd floor current next_refs pack_refs w of
        (publication, w') \<Rightarrow> (Inr \<lparr>pu_refs = outcomes, pu_publication = publication\<rparr>, w')))))))))"

section \<open>Importing and verifying packs\<close>

definition open_chain_pack ::
    "'a prims_scheme \<Rightarrow> 's encrypted_repository \<Rightarrow> opened_state \<Rightarrow> pack_descriptor \<Rightarrow> 's \<Rightarrow> bytes result" where
  "open_chain_pack P R entry d s =
     and_then (so_open_object (er_storage R) Pack (pk_id d) s) (\<lambda>encrypted.
     and_then (derive_subkey P (os_generation_key entry) (mf_repository_root (os_manifest entry)) (pk_generation d)
       PackKey (pk_ordinal d)) (\<lambda>pack_key.
     and_then (open_pack_stream P pack_key encrypted
       (pack_aad (mf_repository_root (os_manifest entry)) (pk_generation d) (pk_ordinal d))
       (pk_plaintext_size d) (pk_id d)) (\<lambda>(plaintext, _).
     Inr plaintext)))"

fun import_descriptors ::
    "'a prims_scheme \<Rightarrow> 's encrypted_repository \<Rightarrow> 'g git_repository \<Rightarrow> opened_state \<Rightarrow> pack_descriptor list
       \<Rightarrow> (unit, ('s, 'g) world) act" where
  "import_descriptors P R repo entry [] = act_ret (Inr ())"
| "import_descriptors P R repo entry (d # ds) =
     act_then (act_get (\<lambda>w. open_chain_pack P R entry d (w_storage w))) (\<lambda>plaintext.
     act_then (on_git (import_pack (gr_ops repo) plaintext)) (\<lambda>_.
     import_descriptors P R repo entry ds))"

text \<open>The loop of \<^verbatim>\<open>import_chain_packs\<close> over the entries, oldest first.\<close>

fun import_entries ::
    "'a prims_scheme \<Rightarrow> 's encrypted_repository \<Rightarrow> 'g git_repository \<Rightarrow> u64 option \<Rightarrow> opened_state list
       \<Rightarrow> (unit, ('s, 'g) world) act" where
  "import_entries P R repo after [] = act_ret (Inr ())"
| "import_entries P R repo after (entry # entries) =
     (if (case after of None \<Rightarrow> False | Some generation \<Rightarrow> mf_generation (os_manifest entry) \<le> generation)
      then import_entries P R repo after entries
      else act_then (import_descriptors P R repo entry (mf_new_packs (os_manifest entry))) (\<lambda>_.
        import_entries P R repo after entries))"

definition import_chain_packs ::
    "'a prims_scheme \<Rightarrow> 's encrypted_repository \<Rightarrow> 'g git_repository \<Rightarrow> opened_state list \<Rightarrow> u64 option
       \<Rightarrow> (unit, ('s, 'g) world) act" where
  "import_chain_packs P R repo chain after = import_entries P R repo after (rev chain)"

definition import_packs ::
    "'a repository_prims_scheme \<Rightarrow> 's encrypted_repository \<Rightarrow> 'g git_repository \<Rightarrow> (manifest, ('s, 'g) world) act" where
  "import_packs P R repo =
     (let floor = lock_floor R; checkout = open_checkout R repo in
      act_then (pinned_chain P R floor) (\<lambda>chain.
      act_then (act_ret (first_state chain)) (\<lambda>current.
      let m = os_manifest current in
      act_then (act_ret (validate_inner_refs (mf_refs m))) (\<lambda>_.
      act_then (act_get (\<lambda>w. checkout_read P checkout (w_files w))) (\<lambda>progress.
      act_then (import_chain_packs P R repo chain (cg_imported_generation progress)) (\<lambda>_.
      act_then (act_get (\<lambda>w. Inr (is_ok (ensure_refs_connected_since (gr_ops repo) (w_git w) (mf_refs m)
        (cg_verified_refs progress))))) (\<lambda>connected.
      act_then (if connected then act_ret (Inr ())
        else act_then (import_chain_packs P R repo chain None) (\<lambda>_.
          act_get (\<lambda>w. ensure_refs_connected_since (gr_ops repo) (w_git w) (mf_refs m) []))) (\<lambda>_.
      act_then (advance_floor P floor (os_id current) m) (\<lambda>_.
      act_then (on_files (checkout_write P checkout \<lparr>cg_format_version = CHECKOUT_PROGRESS_FORMAT,
        cg_imported_generation = Some (mf_generation m), cg_verified_refs = mf_refs m\<rparr>)) (\<lambda>_.
      act_ret (Inr m)))))))))))"

definition observe_manifest ::
    "'a repository_prims_scheme \<Rightarrow> 's encrypted_repository \<Rightarrow> 'g git_repository \<Rightarrow> (manifest, ('s, 'g) world) act" where
  "observe_manifest P R repo =
     (let floor = lock_floor R; checkout = open_checkout R repo in
      act_then (pinned_chain P R floor) (\<lambda>chain.
      act_then (act_ret (first_state chain)) (\<lambda>current.
      let m = os_manifest current in
      act_then (act_ret (validate_inner_refs (mf_refs m))) (\<lambda>_.
      act_then (advance_floor P floor (os_id current) m) (\<lambda>_.
      act_then (act_get (\<lambda>w. checkout_read P checkout (w_files w))) (\<lambda>progress.
      act_then (act_get (\<lambda>w. Inr (is_ok (ensure_refs_connected_since (gr_ops repo) (w_git w) (mf_refs m)
        (cg_verified_refs progress))))) (\<lambda>connected.
      act_then (if connected then on_files (checkout_write P checkout (progress\<lparr>
            cg_imported_generation := Some (mf_generation m), cg_verified_refs := mf_refs m\<rparr>))
        else act_ret (Inr ())) (\<lambda>_.
      act_ret (Inr m)))))))))"

fun update_remote_refs ::
    "'g git_repository \<Rightarrow> string \<Rightarrow> (string \<times> string) list \<Rightarrow> (unit, ('s, 'g) world) act" where
  "update_remote_refs repo remote_name [] = act_ret (Inr ())"
| "update_remote_refs repo remote_name ((reference, object) # refs) =
     act_then (act_ret (inner_ref_kind_of reference)) (\<lambda>kind.
     act_then (on_git (update_ref (gr_ops repo)
       (case kind of
          Branch \<Rightarrow> ''refs/remotes/'' @ remote_name @ ''/'' @ drop (length ''refs/heads/'') reference
        | Tag \<Rightarrow> reference) object)) (\<lambda>_.
     update_remote_refs repo remote_name refs))"

definition fetch_into ::
    "'a repository_prims_scheme \<Rightarrow> 's encrypted_repository \<Rightarrow> 'g git_repository \<Rightarrow> string \<Rightarrow> (manifest, ('s, 'g) world) act" where
  "fetch_into P R repo remote_name =
     act_then (import_packs P R repo) (\<lambda>m.
     act_then (update_remote_refs repo remote_name (mf_refs m)) (\<lambda>_.
     act_ret (Inr m)))"

text \<open>The two nested loops of \<^verbatim>\<open>verify_ciphertext\<close>, over the packs of the chain oldest first.\<close>

fun verify_packs ::
    "'a prims_scheme \<Rightarrow> 's encrypted_repository \<Rightarrow> 's \<Rightarrow> u64 \<Rightarrow> (opened_state \<times> pack_descriptor) list \<Rightarrow> u64 result" where
  "verify_packs P R s n [] = Inr n"
| "verify_packs P R s n ((entry, d) # packs) =
     and_then (open_chain_pack P R entry d s) (\<lambda>_. verify_packs P R s (n + 1) packs)"

definition chain_packs :: "opened_state list \<Rightarrow> (opened_state \<times> pack_descriptor) list" where
  "chain_packs chain = concat (map (\<lambda>e. map (Pair e) (mf_new_packs (os_manifest e))) (rev chain))"

definition verify_ciphertext ::
    "'a continuity_prims_scheme \<Rightarrow> 's encrypted_repository \<Rightarrow> (manifest, ('s, 'g) world) act" where
  "verify_ciphertext P R =
     (let floor = lock_floor R in
      act_then (pinned_chain P R floor) (\<lambda>chain.
      act_then (act_ret (first_state chain)) (\<lambda>current.
      act_then (act_get (\<lambda>w. verify_packs P R (w_storage w) 0 (chain_packs chain))) (\<lambda>n.
      act_then (act_ret (bail_if (n \<noteq> mf_total_pack_count (os_manifest current))
        (Msg ''manifest delta log pack count mismatch'') (Inr ()))) (\<lambda>_.
      act_then (advance_floor P floor (os_id current) (os_manifest current)) (\<lambda>_.
      act_ret (Inr (os_manifest current))))))))"

end
