(* ===== verification/Repository_Facts.thy ===== *)
theory Repository_Facts
  imports Repository Chain_Build Storage_Facts
begin

text \<open>
  What the operations of the repository promise. The locale \<open>repository_storage\<close> is the contract
  the repository relies on: the head and the objects of the storage behave as in
  \<open>Storage_Facts\<close>, storing an object does not move the head, moving the head does not lose an
  object. The lemmas about committing a manifest are proved in it once, and the directory
  backend is an interpretation of it.
\<close>

section \<open>Inversion\<close>

lemma on_storage_eq: "on_storage f w = (r, w') \<longleftrightarrow> (\<exists>s. f (w_storage w) = (r, s) \<and> w' = w\<lparr>w_storage := s\<rparr>)"
  by (auto simp: on_storage_def split: prod.splits)

lemma on_git_eq: "on_git f w = (r, w') \<longleftrightarrow> (\<exists>g. f (w_git w) = (r, g) \<and> w' = w\<lparr>w_git := g\<rparr>)"
  by (auto simp: on_git_def split: prod.splits)

lemma on_files_Inr: "on_files f w = (Inr (), w') \<longleftrightarrow> (\<exists>fs. f (w_files w) = Inr fs \<and> w' = w\<lparr>w_files := fs\<rparr>)"
  by (auto simp: on_files_def split: sum.splits)

lemmas world_simps = act_simps on_storage_eq on_git_eq on_files_Inr

lemma first_state_ok: "first_state chain = Inr s \<longleftrightarrow> (\<exists>ps. chain = s # ps)"
  by (auto simp: first_state_def split: list.splits)

lemma current_chain_ok:
  "current_chain P R s = Inr chain \<longleftrightarrow> (\<exists>head b. so_read_head (er_storage R) s = Inr (Some head) \<and>
     chain_from P (er_key R) head (read_manifest_material P (\<lambda>i. so_get_object (er_storage R) Manifest i s)) None
       = (Inr chain, b))"
  by (auto simp: current_chain_def read_material_def and_then_eq_Inr ok_or_eq_Inr) (metis prod.collapse)

text \<open>What sealing and storing did when it succeeded.\<close>

lemma seal_and_store_ok:
  assumes "seal_and_store_manifest P R rnd previous policy parent gk auth m w = (Inr i, w')"
  obtains enc om s where
    "seal_manifest P rnd (er_key R) policy gk auth m = Inr enc" "i = object_id P enc"
    "(case previous of Some p \<Rightarrow> manifest_validate_successor P m (os_id p) (os_manifest p) policy
       | None \<Rightarrow> manifest_validate_genesis P m policy) = Inr ()"
    "open_manifest P enc gk = Inr om" "verify_manifest P om policy parent gk = Inr ()"
    "\<And>p. previous = Some p \<Longrightarrow> unwrap_predecessor_key P gk (om_manifest om) (os_header p) = Inr (os_generation_key p)"
    "so_put_object_if_absent (er_storage R) Manifest i enc (w_storage w) = (Inr (), s)" "w' = w\<lparr>w_storage := s\<rparr>"
proof -
  from assms obtain enc om s where parts:
    "seal_manifest P rnd (er_key R) policy gk auth m = Inr enc" "i = object_id P enc"
    "(case previous of Some p \<Rightarrow> manifest_validate_successor P m (os_id p) (os_manifest p) policy
       | None \<Rightarrow> manifest_validate_genesis P m policy) = Inr ()"
    "open_manifest P enc gk = Inr om" "verify_manifest P om policy parent gk = Inr ()"
    and link: "(case previous of None \<Rightarrow> Inr () | Some p \<Rightarrow>
        and_then (unwrap_predecessor_key P gk (om_manifest om) (os_header p)) (\<lambda>recovered.
        bail_if (recovered \<noteq> os_generation_key p)
          (Msg ''new manifest predecessor link did not recover the parent key'') (Inr ()))) = Inr ()"
    and put: "so_put_object_if_absent (er_storage R) Manifest i enc (w_storage w) = (Inr (), s)" "w' = w\<lparr>w_storage := s\<rparr>"
    unfolding seal_and_store_manifest_def Let_def
    by (simp only: world_simps and_then_eq_Inr bail_if_eq_Inr) auto
  have "unwrap_predecessor_key P gk (om_manifest om) (os_header p) = Inr (os_generation_key p)"
    if "previous = Some p" for p
    using link that by (auto simp: and_then_eq_Inr bail_if_eq_Inr)
  from that [OF parts this put] show thesis .
qed

lemma commit_manifest_ok:
  assumes "commit_manifest P R rnd previous policy parent gk auth m w = (Inr i, w')"
  obtains w1 s where "seal_and_store_manifest P R rnd previous policy parent gk auth m w = (Inr i, w1)"
    "so_compare_and_swap_head (er_storage R) (map_option os_id previous) i (w_storage w1) = (Inr (), s)"
    "w' = w1\<lparr>w_storage := s\<rparr>"
  using assms by (auto simp: commit_manifest_def commit_manifest_with_observation_def world_simps)

section \<open>The chain on top of a stored successor\<close>

text \<open>A sealed and stored successor of an authenticated chain, as every active reader of the selected
  policy reads it from any storage that has it and the chain's manifests.\<close>

lemma sealed_successor_chain:
  assumes laws: "manifest_json_laws P" "b64_laws P" "hex_laws P" "aead_laws P" "hpke_laws P"
    and random: "length (mr_body_nonce rnd) = 24" "length (mr_header_nonce rnd) = 24"
    and gk: "length gk = 32" "binding_commitment P gk"
    and cf: "chain_from P (er_key R) head (read_manifest_material P get) b = (Inr chain, b')"
    and store: "seal_and_store_manifest P R rnd (Some (hd chain)) policy parent gk auth m w = (Inr i, w1)"
    and gains: "gains get get'" and stored: "\<And>enc. seal_manifest P rnd (er_key R) policy gk auth m = Inr enc \<Longrightarrow> get' i = Inr enc"
    and select: "select_policy P (kf_repository_root (er_key R)) chain m = Inr (policy, parent)"
    and wf: "wf_policy P (st_body policy)"
    and fresh: "set (map pk_id (mf_new_packs m)) \<inter> set (chain_pack_ids chain) = {}"
    and reader: "d \<in> set (active_readers policy)" "key_public_device P (er_key R') = Inr (dv_public d)"
  shows "\<exists>s. chain_from P (er_key R') i (read_manifest_material P get') None = (Inr (s # chain), None)
    \<and> os_id s = i \<and> os_manifest s = m \<and> os_policy s = policy \<and> os_generation_key s = gk"
proof (rule seal_and_store_ok [OF store])
  fix enc om
  assume seal: "seal_manifest P rnd (er_key R) policy gk auth m = Inr enc" and i: "i = object_id P enc"
    and succ: "(case Some (hd chain) of Some p \<Rightarrow> manifest_validate_successor P m (os_id p) (os_manifest p) policy
     | None \<Rightarrow> manifest_validate_genesis P m policy) = Inr ()"
    and opened: "open_manifest P enc gk = Inr om" and verified: "verify_manifest P om policy parent gk = Inr ()"
    and link: "\<And>p. Some (hd chain) = Some p \<Longrightarrow>
      unwrap_predecessor_key P gk (om_manifest om) (os_header p) = Inr (os_generation_key p)"
  have succ: "manifest_validate_successor P m (os_id (hd chain)) (os_manifest (hd chain)) policy = Inr ()"
    using succ by simp
  have "well_placed m"
    using successor_manifest_facts [OF succ] by (auto simp: well_placed_def)
  from open_sealed_manifest [OF laws(1-4) random this seal] opened have m: "om_manifest om = m" by (metis sum.inject(2))
  have "distinct (map pk_id (mf_new_packs m))"
    using successor_manifest_facts [OF succ] by (simp add: wf_pack_delta_def)
  moreover have key: "unwrap_generation_key P (om_header om) (er_key R') = Inr gk"
    by (rule reader_unwraps_key [OF laws(3,2,5) gk(2) verified gk(1) _ reader(1) wf reader(2)])
      (use open_manifest_generation [OF opened] in simp)
  moreover have "kf_repository_root (er_key R') = kf_repository_root (er_key R)"
  proof -
    note auth = chain_from_authentic(1) [OF cf]
    have "d \<in> set (pb_devices (st_body policy))" using reader(1) by (simp add: active_readers_def)
    then have "kf_repository_root (er_key R') = pb_repository_root (st_body policy)"
      using reader(2) wf by (auto simp: key_public_device_ok wf_policy_def)
    also have "\<dots> = mf_repository_root m"
      using succ by (auto simp: manifest_validate_successor_def validate_manifest_policy_def and_then_eq_Inr bail_if_eq_Inr)
    also have "\<dots> = kf_repository_root (er_key R)"
      using successor_manifest_facts [OF succ] authentic_chain_root [OF auth] authentic_chain_not_Nil [OF auth] by simp
    finally show ?thesis .
  qed
  ultimately have "chain_from P (er_key R') i (read_manifest_material P get') None
      = (Inr (state_of i om gk policy # chain), None)"
    using successor_chain_accepted [OF cf gains stored [OF seal] i [symmetric]
        opened _ _ verified link [OF refl], unfolded m, OF succ select _ fresh key] m by simp
  then show ?thesis using m by simp
qed

section \<open>The contract of a storage\<close>

locale repository_storage =
  head_store "so_read_head S" "\<lambda>(_ :: unit). so_compare_and_swap_head S" +
  object_store "so_open_object S" "so_put_object_if_absent S" digest present
  for S :: "'s storage_ops" and digest :: "bytes \<Rightarrow> string" and present :: "object_kind \<Rightarrow> string \<Rightarrow> 's \<Rightarrow> bool" +
  assumes put_bounded: "so_put_object_if_absent S k i b s = (Inr (), s') \<Longrightarrow> length b \<le> kind_max_bytes k"
    and put_keeps_head: "so_put_object_if_absent S k i b s = (r, s') \<Longrightarrow> so_read_head S s' = so_read_head S s"
    and cas_keeps_objects: "so_compare_and_swap_head S e n s = (r, s') \<Longrightarrow> so_open_object S k i s = Inr c \<Longrightarrow>
      so_open_object S k i s' = Inr c"
begin

lemma get_object_open: "so_get_object S k i s = Inr c \<longleftrightarrow> so_open_object S k i s = Inr c \<and> length c \<le> MAX_MANIFEST_BYTES"
  by (auto simp: so_get_object_def get_object_def and_then_eq_Inr bail_if_eq_Inr Let_def)

lemma gains_put: "so_put_object_if_absent S k i b s = (r, s') \<Longrightarrow>
    gains (\<lambda>j. so_get_object S Manifest j s) (\<lambda>j. so_get_object S Manifest j s')"
  by (auto simp: gains_def get_object_open intro: put_keeps)

lemma gains_cas: "so_compare_and_swap_head S e n s = (r, s') \<Longrightarrow>
    gains (\<lambda>j. so_get_object S Manifest j s) (\<lambda>j. so_get_object S Manifest j s')"
  by (auto simp: gains_def get_object_open intro: cas_keeps_objects)

lemma gains_trans: "gains f g \<Longrightarrow> gains g h \<Longrightarrow> gains f h"
  by (simp add: gains_def)

text \<open>A commit that succeeded found the head it expected, made the manifest the head, and lost nothing.\<close>

lemma commit_moves_head:
  assumes "commit_manifest P R rnd previous policy parent gk auth m w = (Inr i, w')" and R: "er_storage R = S"
  shows "so_read_head S (w_storage w) = Inr (map_option os_id previous)" and "so_read_head S (w_storage w') = Inr (Some i)"
    and "gains (\<lambda>j. so_get_object S Manifest j (w_storage w)) (\<lambda>j. so_get_object S Manifest j (w_storage w'))"
    and "w_files w' = w_files w" and "w_git w' = w_git w"
proof -
  from assms(1) obtain w1 s where store: "seal_and_store_manifest P R rnd previous policy parent gk auth m w = (Inr i, w1)"
    and cas: "so_compare_and_swap_head S (map_option os_id previous) i (w_storage w1) = (Inr (), s)"
    and w': "w' = w1\<lparr>w_storage := s\<rparr>"
    using R by (auto elim: commit_manifest_ok)
  from store obtain enc s1 where put: "so_put_object_if_absent S Manifest i enc (w_storage w) = (Inr (), s1)"
    and w1: "w1 = w\<lparr>w_storage := s1\<rparr>"
    using R by (auto elim: seal_and_store_ok)
  have s1: "w_storage w1 = s1" by (simp add: w1)
  show "so_read_head S (w_storage w) = Inr (map_option os_id previous)" "so_read_head S (w_storage w') = Inr (Some i)"
    using cas_success [OF cas] put_keeps_head [OF put] w' w1 by simp_all
  show "gains (\<lambda>j. so_get_object S Manifest j (w_storage w)) (\<lambda>j. so_get_object S Manifest j (w_storage w'))"
    using gains_trans [OF gains_put [OF put] gains_cas [OF cas [unfolded s1]]] w' w1 by simp
  show "w_files w' = w_files w" "w_git w' = w_git w" using w' w1 by simp_all
qed

lemma commit_keeps_objects:
  assumes "commit_manifest P R rnd previous policy parent gk auth m w = (r, w')" and R: "er_storage R = S"
    and "so_open_object S k j (w_storage w) = Inr c"
  shows "so_open_object S k j (w_storage w') = Inr c"
proof -
  have put: "so_open_object S k j (w_storage w1) = Inr c"
    if "seal_and_store_manifest P R rnd previous policy parent gk auth m w = (r1, w1)" for r1 w1
    using that [unfolded seal_and_store_manifest_def Let_def R] assms(3)
    by (cases r1) (auto simp: world_simps act_then_Inl intro: put_keeps)
  show ?thesis
    using assms(1) [unfolded commit_manifest_def commit_manifest_with_observation_def R] put
    by (cases r) (auto simp: world_simps act_then_Inl intro: cas_keeps_objects)
qed

lemma commit_stores:
  assumes "commit_manifest P R rnd previous policy parent gk auth m w = (Inr i, w')" and R: "er_storage R = S"
    and "\<not> present Manifest i (w_storage w)" and "seal_manifest P rnd (er_key R) policy gk auth m = Inr enc"
  shows "so_get_object S Manifest i (w_storage w') = Inr enc"
proof -
  from assms(1) obtain w1 s where store: "seal_and_store_manifest P R rnd previous policy parent gk auth m w = (Inr i, w1)"
    and cas: "so_compare_and_swap_head S (map_option os_id previous) i (w_storage w1) = (Inr (), s)"
    and w': "w' = w1\<lparr>w_storage := s\<rparr>"
    using R by (auto elim: commit_manifest_ok)
  from store obtain s1 where put: "so_put_object_if_absent S Manifest i enc (w_storage w) = (Inr (), s1)"
    and w1: "w1 = w\<lparr>w_storage := s1\<rparr>"
    using R assms(4) by (auto elim: seal_and_store_ok)
  have "so_open_object S Manifest i s1 = Inr enc" using put_stores [OF put assms(3)] .
  then have "so_open_object S Manifest i (w_storage w') = Inr enc" using cas_keeps_objects [OF cas] w' w1 by simp
  then show ?thesis using put_bounded [OF put] by (simp add: get_object_open)
qed

text \<open>The chain after a commit on its head, as every active reader of the selected policy sees it.\<close>

lemma commit_extends_chain:
  assumes laws: "manifest_json_laws P" "b64_laws P" "hex_laws P" "aead_laws P" "hpke_laws P"
    and random: "length (mr_body_nonce rnd) = 24" "length (mr_header_nonce rnd) = 24"
    and gk: "length gk = 32" "binding_commitment P gk" and R: "er_storage R = S"
    and chain: "current_chain P R (w_storage w) = Inr chain"
    and commit: "commit_manifest P R rnd (Some (hd chain)) policy parent gk auth m w = (Inr i, w')"
    and select: "select_policy P (kf_repository_root (er_key R)) chain m = Inr (policy, parent)"
    and wf: "wf_policy P (st_body policy)"
    and fresh: "\<not> present Manifest i (w_storage w)"
      "set (map pk_id (mf_new_packs m)) \<inter> set (chain_pack_ids chain) = {}"
    and reader: "er_storage R' = S" "d \<in> set (active_readers policy)" "key_public_device P (er_key R') = Inr (dv_public d)"
  shows "\<exists>s. current_chain P R' (w_storage w') = Inr (s # chain) \<and> os_id s = i \<and> os_manifest s = m
    \<and> os_policy s = policy \<and> os_generation_key s = gk"
proof -
  let ?get = "\<lambda>j. so_get_object S Manifest j (w_storage w)" and ?get' = "\<lambda>j. so_get_object S Manifest j (w_storage w')"
  from chain R obtain head b' where head: "so_read_head S (w_storage w) = Inr (Some head)"
    and cf: "chain_from P (er_key R) head (read_manifest_material P ?get) None = (Inr chain, b')"
    by (auto simp: current_chain_ok)
  from commit obtain w1 where store: "seal_and_store_manifest P R rnd (Some (hd chain)) policy parent gk auth m w = (Inr i, w1)"
    by (auto elim: commit_manifest_ok)
  have gains: "gains ?get ?get'" by (rule commit_moves_head(3) [OF commit R])
  have "\<exists>s. chain_from P (er_key R') i (read_manifest_material P ?get') None = (Inr (s # chain), None)
      \<and> os_id s = i \<and> os_manifest s = m \<and> os_policy s = policy \<and> os_generation_key s = gk"
    by (rule sealed_successor_chain [OF laws random gk cf store gains _ select wf fresh(2) reader(2,3)])
      (rule commit_stores [OF commit R fresh(1)])
  then show ?thesis
    using commit_moves_head(2) [OF commit R] reader(1) by (auto simp: current_chain_def read_material_def)
qed

end

section \<open>The directory backend keeps the contract\<close>

lemma replace_root_file_objects:
  assumes "replace_root_file io dir name data fs = (r, fs')" and "dir \<noteq> []"
    and "name \<in> {''HEAD'', ''FORMAT'', ''README.md''}"
  shows "fs' (object_path dir k i) = fs (object_path dir k i)"
proof -
  have "object_path dir k i \<noteq> join_path dir name" "object_path dir k i \<noteq> temporary_path dir name (snd io)"
    using assms(3) by (cases k; auto simp: temporary_path_def)+
  then show ?thesis
    using assms(1,2)
    by (auto simp: replace_root_file_def replace_file_durably_def Let_def split: prod.splits if_splits option.splits io_fault.splits)
qed

lemma fs_publish_keeps_objects:
  assumes p: "fs_publish_head io dir g n fs = (r, fs')" and dir: "dir \<noteq> []"
  shows "fs' (object_path dir k i) = fs (object_path dir k i)"
proof -
  note root_file = replace_root_file_objects [OF _ dir, of _ "''HEAD''" _ _ _ _ k i]
    replace_root_file_objects [OF _ dir, of _ "''FORMAT''" _ _ _ _ k i]
    replace_root_file_objects [OF _ dir, of _ "''README.md''" _ _ _ _ k i]
  have readme: "snd (replace_root_file io' dir ''README.md'' data fs1) (object_path dir k i) = fs1 (object_path dir k i)"
    for io' data fs1
    by (rule root_file(3) [where r = "fst (replace_root_file io' dir ''README.md'' data fs1)"]) simp_all
  have genesis: "fs2 (object_path dir k i) = fs1 (object_path dir k i)"
    if w: "write_genesis_files io dir fs1 = (r1, fs2)" for fs1 r1 fs2
  proof -
    define step where "step = (if fs1 (join_path dir ''README.md'') = None
      then replace_root_file (io_readme io) dir ''README.md'' (as_bytes (storage_readme ''This directory'')) fs1 else (Inr (), fs1))"
    have "snd step (object_path dir k i) = fs1 (object_path dir k i)" using readme by (simp add: step_def)
    moreover have "(case step of (Inl e, fs1) \<Rightarrow> (Inl e, fs1)
        | (Inr _, fs1) \<Rightarrow> replace_root_file (io_format io) dir ''FORMAT'' STORAGE_FORMAT fs1) = (r1, fs2)"
      using w by (simp only: write_genesis_files_def Let_def step_def)
    ultimately show ?thesis by (cases step) (auto split: sum.splits dest!: root_file(2))
  qed
  define step where "step = (if g then write_genesis_files io dir fs else (Inr (), fs))"
  have "snd step (object_path dir k i) = fs (object_path dir k i)"
    using genesis by (cases "write_genesis_files io dir fs") (simp add: step_def)
  moreover have "(case step of (Inl e, fs1) \<Rightarrow> (Inl e, fs1)
      | (Inr _, fs1) \<Rightarrow> replace_root_file (io_head io) dir ''HEAD'' (as_bytes (n @ [CHR 0x0A])) fs1) = (r, fs')"
    using p by (simp only: fs_publish_head_def step_def)
  ultimately show ?thesis by (cases step) (auto split: sum.splits dest!: root_file(1))
qed

lemma fs_cas_keeps_objects:
  assumes "fs_compare_and_swap_head io dir e n fs = (r, fs')" and dir: "dir \<noteq> []"
  shows "fs' (object_path dir k i) = fs (object_path dir k i)"
  using assms fs_publish_keeps_objects [OF _ dir]
  by (auto simp: fs_compare_and_swap_head_def split: sum.splits if_splits)

lemma directory_storage_ops [simp]:
  "so_read_head (directory_storage P io dir) = fs_read_head dir"
  "so_open_object (directory_storage P io dir) = fs_open_object dir"
  "so_put_object_if_absent (directory_storage P io dir) = fs_put_object_if_absent P dir"
  "so_compare_and_swap_head (directory_storage P io dir) = fs_compare_and_swap_head io dir"
  "so_refresh (directory_storage P io dir) = default_refresh"
  by (simp_all add: directory_storage_def)

interpretation directory: repository_storage "directory_storage P io (storage_dir dir)" "object_id P"
    "\<lambda>k i fs. fs (object_path (storage_dir dir) k i) \<noteq> None"
  for P :: "'a prims_scheme" and io :: cas_io and dir :: string
proof (unfold_locales, unfold directory_storage_ops)
  fix k i b s s'
  assume "fs_put_object_if_absent P (storage_dir dir) k i b s = (Inr (), s')"
  then show "length b \<le> kind_max_bytes k" using fs_put_cases(2) by blast
next
  fix k i b s r s'
  assume "fs_put_object_if_absent P (storage_dir dir) k i b s = (r, s')"
  then show "fs_read_head (storage_dir dir) s' = fs_read_head (storage_dir dir) s" by (rule fs_put_keeps_head)
next
  fix e n s r s' k i c
  assume "fs_compare_and_swap_head io (storage_dir dir) e n s = (r, s')" "fs_open_object (storage_dir dir) k i s = Inr c"
  then show "fs_open_object (storage_dir dir) k i s' = Inr c"
    using fs_cas_keeps_objects [OF _ storage_dir_not_Nil] unfolding fs_open_object_ok by metis
qed (rule fs_head.cas_success fs_head.cas_failure fs_objects.put_named fs_objects.put_stores
    fs_objects.put_honest fs_objects.put_keeps; assumption)+

end
