(* ===== verification/Publication.thy ===== *)
theory Publication
  imports Repository_Facts
begin

text \<open>
  Publishing on a directory storage: what \<^verbatim>\<open>initialize\<close>, a change of the membership and a push
  leave behind when they succeed. Each publishes exactly one manifest on top of the head this
  machine had pinned, every active reader of the new policy reads the extended chain back, and
  the machine's floor is the new head.
\<close>

section \<open>Assumptions on the primitives and on what is drawn\<close>

definition library_laws :: "'a continuity_prims_scheme \<Rightarrow> bool" where
  "library_laws P \<longleftrightarrow> manifest_json_laws P \<and> policy_json_laws P \<and> floor_json_laws P \<and> b64_laws P \<and> hex_laws P
     \<and> aead_laws P \<and> hpke_laws P \<and> signature_laws P \<and> stream_laws P"

text \<open>The sizes the code draws, and that the drawn generation key shares its commitment with no other.\<close>

definition sound_random :: "'a prims_scheme \<Rightarrow> publication_random \<Rightarrow> bool" where
  "sound_random P rnd \<longleftrightarrow> length (pr_key rnd) = 32 \<and> binding_commitment P (pr_key rnd)
     \<and> length (mr_body_nonce (pr_manifest rnd)) = 24 \<and> length (mr_header_nonce (pr_manifest rnd)) = 24
     \<and> (\<forall>j. length (mr_seeds (pr_manifest rnd) j) = 32) \<and> length (pr_pack_nonce rnd) = PACK_STREAM_NONCE_SIZE"

section \<open>The pinned chain\<close>

lemma pinned_chain_ok:
  assumes "pinned_chain P R floor w = (Inr chain, w')"
  obtains f where "floor_read P floor (w_files w) = Inr f" "validate_pinned_head chain f = Inr ()"
    "current_chain P R (w_storage w') = Inr chain" "w_files w' = w_files w" "w_git w' = w_git w"
    "w_storage w' = w_storage w \<or> so_refresh (er_storage R) (w_storage w) = (Inr True, w_storage w')"
proof -
  from assms obtain f chain0 where f: "floor_read P floor (w_files w) = Inr f" "current_chain P R (w_storage w) = Inr chain0"
    and rest: "(case validate_pinned_head chain0 f of Inr _ \<Rightarrow> act_ret (Inr chain0)
     | Inl e \<Rightarrow> act_then (on_storage (so_refresh (er_storage R))) (\<lambda>changed. if \<not> changed then act_ret (Inl e)
         else act_then (act_get (\<lambda>w. current_chain P R (w_storage w))) (\<lambda>chain.
           act_then (act_ret (validate_pinned_head chain f)) (\<lambda>_. act_ret (Inr chain))))) w = (Inr chain, w')"
    unfolding pinned_chain_def by (auto simp only: world_simps)
  show thesis
  proof (cases "validate_pinned_head chain0 f")
    case (Inl e)
    with rest f(1) show thesis by (intro that [of f]) (auto simp: world_simps split: if_splits)
  next
    case (Inr u)
    with rest f show thesis by (intro that [of f]) (auto simp: world_simps)
  qed
qed

lemma directory_pinned_chain:
  assumes "pinned_chain P R floor w = (Inr chain, w')" and "er_storage R = directory_storage P' io dir"
  shows "w' = w" and "current_chain P R (w_storage w) = Inr chain"
proof -
  from assms(1) obtain f where f: "current_chain P R (w_storage w') = Inr chain" "w_files w' = w_files w" "w_git w' = w_git w"
    "w_storage w' = w_storage w \<or> so_refresh (er_storage R) (w_storage w) = (Inr True, w_storage w')"
    by (rule pinned_chain_ok)
  then have "w_storage w' = w_storage w" using assms(2) by (auto simp: default_refresh_def)
  then show "w' = w" using f(2,3) by simp
  with f(1) show "current_chain P R (w_storage w) = Inr chain" by simp
qed

lemma current_chain_sound:
  assumes "current_chain P R s = Inr chain"
  shows "authentic_chain P (kf_repository_root (er_key R)) chain"
  using assms chain_from_authentic(1) by (auto simp: current_chain_ok)

lemma current_chain_gains:
  assumes "current_chain P R s = Inr chain" and "so_read_head (er_storage R) s' = so_read_head (er_storage R) s"
    and "gains (\<lambda>j. so_get_object (er_storage R) Manifest j s) (\<lambda>j. so_get_object (er_storage R) Manifest j s')"
  shows "current_chain P R s' = Inr chain"
  using assms chain_from_gains by (fastforce simp: current_chain_ok)

section \<open>Advancing the floor after a commit\<close>

lemma floor_advance_successor:
  assumes laws: "floor_json_laws P" and read: "floor_read P path fs = Inr f"
    and pinned: "validate_pinned_head chain f = Inr ()"
    and succ: "manifest_validate_successor P m (os_id (hd chain)) (os_manifest (hd chain)) policy = Inr ()"
    and gen: "mf_policy_generation (os_manifest (hd chain)) \<le> mf_policy_generation m"
  shows "floor_advance P path (floor_at i m) fs = Inr (write_json (floor_to_vec P) path (floor_at i m) fs)"
    and "floor_read P path (write_json (floor_to_vec P) path (floor_at i m) fs) = Inr (Some (floor_at i m))"
proof -
  have newer: "mf_generation (os_manifest (hd chain)) < mf_generation m"
    "mf_repository_root m = mf_repository_root (os_manifest (hd chain))"
    using successor_manifest_facts [OF succ] by (auto simp: word_less_nat_alt)
  show "floor_advance P path (floor_at i m) fs = Inr (write_json (floor_to_vec P) path (floor_at i m) fs)"
  proof (cases f)
    case None
    then show ?thesis using read by (simp add: floor_advance_def)
  next
    case (Some x)
    with pinned newer gen have "cf_generation x < mf_generation m" "cf_policy_generation x \<le> mf_policy_generation m"
      "cf_repository_root x = mf_repository_root m"
      by (auto simp: validate_pinned_head_ok)
    then show ?thesis
      using read Some by (auto simp: floor_advance_def floor_at_def bail_if_def)
  qed
  show "floor_read P path (write_json (floor_to_vec P) path (floor_at i m) fs) = Inr (Some (floor_at i m))"
    by (rule floor_read_write [OF laws]) (simp add: floor_at_def)
qed

section \<open>Membership\<close>

lemma change_policy_ok:
  assumes "change_policy P R rnd next_devices w = (Inr (i, pid), w')"
  obtains current ps devices policy bytes m w1 w2 fs where
    "pinned_chain P R (lock_floor R) w = (Inr (current # ps), w1)" "require_admin P R (os_policy current) = Inr ()"
    "next_devices current = Inr devices"
    "policy_successor P (os_policy current) devices (er_key R) = Inr (policy, bytes)"
    "transition_manifest P (pr_link_nonce rnd) current policy bytes (pr_key rnd) = Inr m"
    "policy_validate_successor P policy (os_policy current) = Inr ()"
    "commit_manifest P R (pr_manifest rnd) (Some current) policy (Some (os_policy current)) (pr_key rnd) PolicyTransition m w1
       = (Inr i, w2)"
    "floor_advance P (lock_floor R) (floor_at i m) (w_files w2) = Inr fs" "w' = w2\<lparr>w_files := fs\<rparr>" "pid = st_id policy"
  using assms
  by (auto simp: change_policy_def Let_def world_simps first_state_ok advance_floor_def split: prod.splits)

lemma transition_manifest_ok:
  assumes "transition_manifest P nonce current policy bytes gk = Inr m"
  shows "mf_authorization m = PolicyTransition" and "mf_introduced_policy m = Some bytes"
    and "mf_refs m = mf_refs (os_manifest current)" and "mf_new_packs m = []"
    and "mf_policy_generation m = pb_generation (st_body policy)" and "mf_policy_id m = st_id policy"
  using assms by (auto simp: transition_manifest_def and_then_eq_Inr)

lemma policy_successor_parts:
  assumes "policy_successor P parent devices key = Inr (st, bytes)"
  shows "wf_policy P (st_body st)" and "pb_devices (st_body st) = sort_key dv_id devices"
    and "policy_json_laws P \<Longrightarrow> b64_laws P \<Longrightarrow> policy_parse P bytes = Inr st"
proof -
  from assms obtain g where "policy_create P \<lparr>pb_format_version = FORMAT_VERSION,
        pb_repository_root = pb_repository_root (st_body parent),
        pb_generation = g, pb_previous = Some (st_id parent), pb_admin_threshold = 1,
        pb_devices = sort_key dv_id devices\<rparr> key = Inr (st, bytes)"
    by (auto simp: policy_successor_def and_then_eq_Inr)
  note create = this
  show "wf_policy P (st_body st)" "pb_devices (st_body st) = sort_key dv_id devices"
    using policy_create_wf [OF create] by simp_all
  show "policy_json_laws P \<Longrightarrow> b64_laws P \<Longrightarrow> policy_parse P bytes = Inr st"
    using policy_parse_create [OF _ _ create] by simp
qed

lemma commit_successor:
  assumes "commit_manifest P R rnd (Some p) policy parent gk auth m w = (Inr i, w')"
  shows "manifest_validate_successor P m (os_id p) (os_manifest p) policy = Inr ()"
  using assms by (auto elim!: commit_manifest_ok seal_and_store_ok)

lemma policy_change_effect:
  assumes laws: "library_laws P" and rnd: "sound_random P rnd"
    and R: "er_storage R = directory_storage P io (storage_dir dir)"
    and run: "change_policy P R rnd next_devices w = (Inr (i, pid), w')"
    and fresh: "w_storage w (object_path (storage_dir dir) Manifest i) = None"
  shows "\<exists>chain policy devices m. current_chain P R (w_storage w) = Inr chain
    \<and> require_admin P R (os_policy (hd chain)) = Inr () \<and> next_devices (hd chain) = Inr devices
    \<and> pb_devices (st_body policy) = sort_key dv_id devices \<and> st_id policy = pid \<and> wf_policy P (st_body policy)
    \<and> policy_validate_successor P policy (os_policy (hd chain)) = Inr ()
    \<and> mf_refs m = mf_refs (os_manifest (hd chain))
    \<and> floor_read P (lock_floor R) (w_files w') = Inr (Some (floor_at i m))
    \<and> (\<forall>R' d. er_storage R' = er_storage R \<and> d \<in> set (active_readers policy)
         \<and> key_public_device P (er_key R') = Inr (dv_public d) \<longrightarrow>
         (\<exists>s. current_chain P R' (w_storage w') = Inr (s # chain) \<and> os_id s = i \<and> os_manifest s = m \<and> os_policy s = policy
            \<and> os_generation_key s = pr_key rnd))"
proof (rule change_policy_ok [OF run])
  fix current ps devices policy bytes m w1 w2 fs
  assume pinned: "pinned_chain P R (lock_floor R) w = (Inr (current # ps), w1)"
    and admin: "require_admin P R (os_policy current) = Inr ()" and nextd: "next_devices current = Inr devices"
    and policy: "policy_successor P (os_policy current) devices (er_key R) = Inr (policy, bytes)"
    and m: "transition_manifest P (pr_link_nonce rnd) current policy bytes (pr_key rnd) = Inr m"
    and succ: "policy_validate_successor P policy (os_policy current) = Inr ()"
    and commit: "commit_manifest P R (pr_manifest rnd) (Some current) policy (Some (os_policy current)) (pr_key rnd)
       PolicyTransition m w1 = (Inr i, w2)"
    and adv: "floor_advance P (lock_floor R) (floor_at i m) (w_files w2) = Inr fs" and w': "w' = w2\<lparr>w_files := fs\<rparr>"
    and pid: "pid = st_id policy"
  note [simp] = directory_pinned_chain(1) [OF pinned R]
  note chain = directory_pinned_chain(2) [OF pinned R]
  note mf = transition_manifest_ok [OF m] and msucc = commit_successor [OF commit]
  have l: "manifest_json_laws P" "b64_laws P" "hex_laws P" "aead_laws P" "hpke_laws P" "policy_json_laws P" "floor_json_laws P"
    using laws by (simp_all add: library_laws_def)
  have select: "select_policy P (kf_repository_root (er_key R)) (current # ps) m = Inr (policy, Some (os_policy current))"
    using mf policy_successor_parts(3) [OF policy l(6,2)] succ msucc by (simp add: select_policy_def)
  have files: "w_files w2 = w_files w" using directory.commit_moves_head(4) [OF commit R] by simp
  from pinned obtain f where f: "floor_read P (lock_floor R) (w_files w) = Inr f" "validate_pinned_head (current # ps) f = Inr ()"
    by (rule pinned_chain_ok)
  have auth: "authentic_chain P (kf_repository_root (er_key R)) (current # ps)" by (rule current_chain_sound [OF chain])
  have "mf_policy_generation (os_manifest current) \<le> mf_policy_generation m"
    using authentic_chain_root [OF auth] successor_generation [OF succ] mf(5) by (simp add: word_le_nat_alt)
  then have "floor_read P (lock_floor R) fs = Inr (Some (floor_at i m))"
    using floor_advance_successor [OF l(7) f, of m policy i] msucc adv files by simp
  moreover have "\<exists>s. current_chain P R' (w_storage w') = Inr (s # current # ps) \<and> os_id s = i \<and> os_manifest s = m \<and> os_policy s = policy
      \<and> os_generation_key s = pr_key rnd"
    if "er_storage R' = er_storage R" "d \<in> set (active_readers policy)" "key_public_device P (er_key R') = Inr (dv_public d)" for R' d
    using directory.commit_extends_chain [OF l(1-5) _ _ _ _ R chain, of "pr_manifest rnd" "pr_key rnd" policy
        "Some (os_policy current)" PolicyTransition m i w2 R' d] commit select policy_successor_parts(1) [OF policy]
      fresh mf(4) that rnd R w' by (auto simp: sound_random_def)
  ultimately show ?thesis
    using chain admin nextd policy_successor_parts(1,2) [OF policy] succ mf(3) pid w'
    by (intro exI [of _ "current # ps"] exI [of _ policy] exI [of _ devices] exI [of _ m]) auto
qed

section \<open>Revocation\<close>

lemma revoke_first_ok:
  "revoke_first i stamp ds = Some ds' \<Longrightarrow> \<exists>xs d ys. ds = xs @ d # ys \<and> dv_id d = i \<and> dv_active d \<and>
     ds' = xs @ d\<lparr>dv_revoked_at := Some stamp\<rparr> # ys"
proof (induction ds arbitrary: ds')
  case (Cons x xs)
  show ?case
  proof (cases "dv_id x = i \<and> dv_active x")
    case True
    then show ?thesis using Cons.prems by (intro exI [of _ "[]"] exI [of _ x] exI [of _ xs]) simp
  next
    case False
    then obtain es where es: "revoke_first i stamp xs = Some es" "ds' = x # es" using Cons.prems by auto
    from Cons.IH [OF es(1)] obtain as d bs where "xs = as @ d # bs" "dv_id d = i" "dv_active d"
      "es = as @ d\<lparr>dv_revoked_at := Some stamp\<rparr> # bs" by blast
    then show ?thesis using es(2) by (intro exI [of _ "x # as"] exI [of _ d] exI [of _ bs]) simp
  qed
qed simp

lemma without_device_ok:
  assumes "without_device i current = Inr devices"
  obtains xs d ys stamp where "pb_devices (st_body (os_policy current)) = xs @ d # ys" "dv_id d = i" "dv_active d"
    "devices = xs @ d\<lparr>dv_revoked_at := Some stamp\<rparr> # ys"
proof -
  from assms obtain stamp where "revoke_first i stamp (pb_devices (st_body (os_policy current))) = Some devices"
    by (auto simp: without_device_def Let_def and_then_eq_Inr bail_if_eq_Inr ok_or_eq_Inr)
  from revoke_first_ok [OF this] that show thesis by blast
qed

text \<open>The policy of a successful revocation: the device stays listed, revoked, and every other device is
  as it was.\<close>

lemma revoked_policy:
  assumes wf: "wf_devices P (pb_devices (st_body old))" "wf_devices P (pb_devices (st_body new))"
    and dev: "pb_devices (st_body old) = xs @ d # ys" "dv_id d = i"
    and new: "pb_devices (st_body new) = sort_key dv_id (xs @ d\<lparr>dv_revoked_at := Some stamp\<rparr> # ys)"
  shows "\<exists>d'. policy_device new i = Some d' \<and> \<not> dv_active d'"
    and "j \<noteq> i \<Longrightarrow> policy_device new j = policy_device old j"
proof -
  have members: "set (pb_devices (st_body new)) = insert (d\<lparr>dv_revoked_at := Some stamp\<rparr>) (set xs \<union> set ys)"
    using new by auto
  have "policy_device new i = Some (d\<lparr>dv_revoked_at := Some stamp\<rparr>)"
    using policy_device_iff [OF wf(2), of i "d\<lparr>dv_revoked_at := Some stamp\<rparr>"] members dev(2) by simp
  then show "\<exists>d'. policy_device new i = Some d' \<and> \<not> dv_active d'" by (simp add: dv_active_def)
  show "policy_device new j = policy_device old j" if "j \<noteq> i"
  proof -
    have "policy_device new j = Some x \<longleftrightarrow> policy_device old j = Some x" for x
      using policy_device_iff [OF wf(1), of j x] policy_device_iff [OF wf(2), of j x] members dev that by auto
    then show ?thesis by (metis option.exhaust)
  qed
qed

text \<open>C4. A membership change takes effect for everyone at once: when a change of the policy returns,
  the caller was an active administrator of the pinned head's policy, the new policy lists
  exactly the devices computed from it and is an accepted successor, the refs are unchanged,
  this machine is pinned to the new head, and every active reader of the new policy who reads
  the storage obtains the new state in front of the unchanged old chain.\<close>

theorem policy_change_takes_effect:
  assumes "library_laws P" and "sound_random P rnd"
    and "er_storage R = directory_storage P io (storage_dir dir)"
    and "change_policy P R rnd next_devices w = (Inr (i, pid), w')"
    and "w_storage w (object_path (storage_dir dir) Manifest i) = None"
  shows "\<exists>chain policy devices m. current_chain P R (w_storage w) = Inr chain
    \<and> require_admin P R (os_policy (hd chain)) = Inr () \<and> next_devices (hd chain) = Inr devices
    \<and> pb_devices (st_body policy) = sort_key dv_id devices \<and> st_id policy = pid \<and> wf_policy P (st_body policy)
    \<and> policy_validate_successor P policy (os_policy (hd chain)) = Inr ()
    \<and> mf_refs m = mf_refs (os_manifest (hd chain))
    \<and> floor_read P (lock_floor R) (w_files w') = Inr (Some (floor_at i m))
    \<and> (\<forall>R' d. er_storage R' = er_storage R \<and> d \<in> set (active_readers policy)
         \<and> key_public_device P (er_key R') = Inr (dv_public d) \<longrightarrow>
         (\<exists>s. current_chain P R' (w_storage w') = Inr (s # chain) \<and> os_id s = i \<and> os_manifest s = m \<and> os_policy s = policy
            \<and> os_generation_key s = pr_key rnd))"
  using assms by (rule policy_change_effect)

lemma revocation_effect:
  assumes laws: "library_laws P" and rnd: "sound_random P rnd"
    and R: "er_storage R = directory_storage P io (storage_dir dir)"
    and run: "revoke_device P R rnd device w = (Inr (i, pid), w')"
    and fresh: "w_storage w (object_path (storage_dir dir) Manifest i) = None"
  shows "\<exists>chain policy. current_chain P R (w_storage w) = Inr chain \<and> st_id policy = pid
    \<and> (\<exists>d. policy_device (os_policy (hd chain)) device = Some d \<and> dv_active d)
    \<and> (\<forall>q. policy_descends P policy q \<longrightarrow>
         \<not> is_active_reader q device \<and> \<not> is_active_writer q device \<and> \<not> is_active_admin q device)
    \<and> (\<forall>j. j \<noteq> device \<longrightarrow> policy_device policy j = policy_device (os_policy (hd chain)) j)
    \<and> (\<forall>R' d. er_storage R' = er_storage R \<and> d \<in> set (active_readers policy)
         \<and> key_public_device P (er_key R') = Inr (dv_public d) \<longrightarrow>
         (\<exists>s. current_chain P R' (w_storage w') = Inr (s # chain) \<and> os_policy s = policy))"
proof -
  from policy_change_effect [OF laws rnd R run [unfolded revoke_device_def] fresh]
  obtain chain policy devices where
    chain: "current_chain P R (w_storage w) = Inr chain" and devices: "without_device device (hd chain) = Inr devices"
    and policy: "pb_devices (st_body policy) = sort_key dv_id devices" "st_id policy = pid"
      "wf_policy P (st_body policy)"
    and readers: "\<forall>R' d. er_storage R' = er_storage R \<and> d \<in> set (active_readers policy)
         \<and> key_public_device P (er_key R') = Inr (dv_public d) \<longrightarrow>
         (\<exists>s. current_chain P R' (w_storage w') = Inr (s # chain) \<and> os_policy s = policy)"
    by blast
  show ?thesis
  proof (rule without_device_ok [OF devices])
    fix xs d ys stamp
    assume d: "pb_devices (st_body (os_policy (hd chain))) = xs @ d # ys" "dv_id d = device" "dv_active d"
      "devices = xs @ d\<lparr>dv_revoked_at := Some stamp\<rparr> # ys"
    note auth = current_chain_sound [OF chain]
    have "wf_policy P (st_body (os_policy (hd chain)))"
      using authentic_chain_wf [OF auth] authentic_chain_not_Nil [OF auth] by simp
    then have wf: "wf_devices P (pb_devices (st_body (os_policy (hd chain))))" by (simp add: wf_policy_def)
    have wf': "wf_devices P (pb_devices (st_body policy))" using policy(3) by (simp add: wf_policy_def)
    note rp = revoked_policy [OF wf wf' d(1,2) policy(1) [unfolded d(4)]]
    have active: "\<exists>d. policy_device (os_policy (hd chain)) device = Some d \<and> dv_active d"
      using policy_device_iff [OF wf] d by auto
    from rp(1) obtain d' where d': "policy_device policy device = Some d'" "\<not> dv_active d'" by blast
    have gone: "\<forall>q. policy_descends P policy q \<longrightarrow>
        \<not> is_active_reader q device \<and> \<not> is_active_writer q device \<and> \<not> is_active_admin q device"
      by (intro allI impI) (rule descendant_keeps_revoked [OF _ d'])
    have others: "\<forall>j. j \<noteq> device \<longrightarrow> policy_device policy j = policy_device (os_policy (hd chain)) j" using rp(2) by simp
    show ?thesis
      by (rule exI [of _ chain], rule exI [of _ policy]) (intro conjI chain policy(2) active gone others readers)
  qed
qed


end
