(* ===== verification/Push_Facts.thy ===== *)
theory Push_Facts
  imports Publication
begin

text \<open>
  What a push does: which changes pass the preflight, which refs the successor has, and that the
  publication is one manifest on the pinned head that every active reader reads back.
\<close>

section \<open>The preflight\<close>

lemma preflight_delete:
  "rp_change p = Delete \<Longrightarrow> preflight_ref_change G g refs p = Inr x \<longleftrightarrow>
     x = None \<and> is_ok (validate_inner_ref (rp_destination p)) \<and> bt_get refs (rp_destination p) \<noteq> None
     \<and> rp_destination p \<noteq> ''refs/heads/main''"
  by (auto simp: preflight_ref_change_def Let_def and_then_eq_Inr bail_if_eq_Inr is_ok_iff)

lemma ensure_branch_target_ok:
  "ensure_branch_target G g r x = Inr () \<longleftrightarrow> (\<exists>t. resolve_tag_chain G g r x ''pushed'' = Inr (t, CommitType))"
  by (auto simp: ensure_branch_target_def and_then_eq_Inr bail_if_eq_Inr)

text \<open>C33. The preflight protects what is published: an accepted change names a valid branch or tag. An
  accepted update points the ref at the object its source resolves to; a branch then peels to a
  commit, and unless it is forced it descends from the published tip, which is present locally;
  an existing tag moves only when forced. An accepted deletion is of an existing ref other than
  the default branch.\<close>

theorem preflight_protects_refs:
  assumes "preflight_ref_change G g refs p = Inr x"
  shows "\<exists>kind. validate_inner_ref (rp_destination p) = Inr kind \<and>
    (case rp_change p of
       Delete \<Rightarrow> x = None \<and> bt_get refs (rp_destination p) \<noteq> None \<and> rp_destination p \<noteq> ''refs/heads/main''
     | Update source force \<Rightarrow> (\<exists>new. x = Some new \<and> resolve_ref G g source = Inr new \<and>
         (bt_get refs (rp_destination p) = Some new \<or>
          (kind = Branch \<longrightarrow> (\<exists>t. resolve_tag_chain G g (rp_destination p) new ''pushed'' = Inr (t, CommitType)) \<and>
            (\<forall>old. bt_get refs (rp_destination p) = Some old \<longrightarrow>
               objects_exists G g old = Inr True \<and> (\<not> force \<longrightarrow> is_ancestor G g old new = Inr True))) \<and>
          (kind = Tag \<longrightarrow> bt_get refs (rp_destination p) = None \<or> force))))"
proof -
  from assms obtain kind where kind: "validate_inner_ref (rp_destination p) = Inr kind"
    by (auto simp: preflight_ref_change_def Let_def and_then_eq_Inr)
  show ?thesis
  proof (cases "rp_change p")
    case Delete
    then show ?thesis using assms kind preflight_delete [OF Delete, of G g refs x] by auto
  next
    case (Update source force)
    from assms kind Update obtain new where new: "resolve_ref G g source = Inr new" "x = Some new"
      by (auto simp: preflight_ref_change_def Let_def and_then_eq_Inr bail_if_eq_Inr split: if_splits)
    show ?thesis
    proof (cases "bt_get refs (rp_destination p) = Some new")
      case True
      then show ?thesis using kind Update new by auto
    next
      case False
      with assms kind Update new have
        target: "(if kind = Branch then ensure_branch_target G g (rp_destination p) new else Inr ()) = Inr ()" and
        tag: "\<not> (kind = Tag \<and> bt_get refs (rp_destination p) \<noteq> None \<and> \<not> force)" and
        old: "\<And>old. bt_get refs (rp_destination p) = Some old \<Longrightarrow> kind = Branch \<Longrightarrow>
          objects_exists G g old = Inr True \<and> (\<not> force \<longrightarrow> is_ancestor G g old new = Inr True)"
        by (auto simp: preflight_ref_change_def Let_def and_then_eq_Inr bail_if_eq_Inr)
      from target have "kind = Branch \<Longrightarrow> \<exists>t. resolve_tag_chain G g (rp_destination p) new ''pushed'' = Inr (t, CommitType)"
        by (simp add: ensure_branch_target_ok)
      with kind Update new tag old show ?thesis by auto
    qed
  qed
qed

section \<open>The batch\<close>

text \<open>The change that decides a ref: the first push of the batch that names it.\<close>

definition first_push :: "ref_push list \<Rightarrow> string \<Rightarrow> ref_push option" where
  "first_push pushes r = find (\<lambda>p. rp_destination p = r) pushes"

text \<open>The refs after the batch: each ref is decided by its first push alone, against the parent's refs.\<close>

definition batch_ref :: "'g git_ops \<Rightarrow> 'g \<Rightarrow> (string, string) btree_map \<Rightarrow> ref_push list \<Rightarrow> string \<Rightarrow> string option" where
  "batch_ref G g parent pushes r = (case first_push pushes r of
     None \<Rightarrow> bt_get parent r
   | Some p \<Rightarrow> (case preflight_ref_change G g parent p of Inr x \<Rightarrow> x | Inl _ \<Rightarrow> bt_get parent r))"

lemma push_loop_refs:
  assumes "push_loop G g parent seen refs packs outs pushes = (refs', packs', outs')" and "bt_wf refs" and "bt_wf packs"
  shows "bt_wf refs' \<and> bt_wf packs'
    \<and> (\<forall>r. bt_get refs' r = (if r \<in> seen then bt_get refs r else case first_push pushes r of
         None \<Rightarrow> bt_get refs r
       | Some p \<Rightarrow> (case preflight_ref_change G g parent p of Inr x \<Rightarrow> x | Inl _ \<Rightarrow> bt_get refs r)))
    \<and> (\<forall>r. bt_get packs' r = (if r \<in> seen then bt_get packs r else case first_push pushes r of
         None \<Rightarrow> bt_get packs r
       | Some p \<Rightarrow> (case preflight_ref_change G g parent p of
           Inr (Some x) \<Rightarrow> if bt_get parent r \<noteq> Some x then Some x else bt_get packs r | _ \<Rightarrow> bt_get packs r)))"
  using assms
proof (induction pushes arbitrary: seen refs packs outs)
  case Nil
  then show ?case by (simp add: first_push_def)
next
  case (Cons p pushes)
  let ?d = "rp_destination p"
  let ?pre = "if ?d \<notin> seen then preflight_ref_change G g parent p
     else Inl (err (Msg (?d @ '' appears more than once in one push'')))"
  consider (upd) x where "?pre = Inr (Some x)" | (del) "?pre = Inr None" | (rej) e where "?pre = Inl e"
    by (metis not_None_eq old.sum.exhaust)
  then show ?case
  proof cases
    case upd
    then have d: "?d \<notin> seen" "preflight_ref_change G g parent p = Inr (Some x)" by (auto split: if_splits)
    let ?packs = "if bt_get parent ?d \<noteq> Some x then bt_insert ?d x packs else packs"
    have loop: "push_loop G g parent (insert ?d seen) (bt_insert ?d x refs) ?packs (outs @ [Accepted]) pushes = (refs', packs', outs')"
      using Cons.prems(1) d by (simp add: Let_def)
    have gp: "bt_get ?packs r = (if r = ?d \<and> bt_get parent ?d \<noteq> Some x then Some x else bt_get packs r)" for r
      using bt_get_insert [OF Cons.prems(3), of ?d x] by simp
    have "bt_wf (bt_insert ?d x refs)" "bt_wf ?packs" using Cons.prems(2,3) by (simp_all add: bt_wf_insert)
    from Cons.IH [OF loop this, unfolded bt_get_insert [OF Cons.prems(2)] gp] show ?thesis
      using d by (auto simp: first_push_def cong: option.case_cong sum.case_cong)
  next
    case del
    then have d: "?d \<notin> seen" "preflight_ref_change G g parent p = Inr None" by (auto split: if_splits)
    have "push_loop G g parent (insert ?d seen) (bt_remove ?d refs) packs (outs @ [Accepted]) pushes = (refs', packs', outs')"
      using Cons.prems(1) d by (simp add: Let_def)
    from Cons.IH [OF this] Cons.prems(2,3)
    show ?thesis using d
      by (auto simp: bt_get_remove bt_wf_remove first_push_def cong: option.case_cong sum.case_cong)
  next
    case rej
    have "push_loop G g parent (insert ?d seen) refs packs (outs @ [Rejected e]) pushes = (refs', packs', outs')"
      using Cons.prems(1) rej by (simp add: Let_def split: if_splits)
    from Cons.IH [OF this] Cons.prems(2,3) rej
    show ?thesis by (auto simp: first_push_def split: if_splits)
  qed
qed

lemma push_loop_outcomes:
  assumes "push_loop G g parent seen refs packs outs pushes = (refs', packs', outs')"
  shows "\<exists>new. outs' = outs @ new \<and> length new = length pushes \<and> (\<forall>k < length pushes.
    new ! k = (if rp_destination (pushes ! k) \<in> seen \<union> set (map rp_destination (take k pushes))
      then Rejected (err (Msg (rp_destination (pushes ! k) @ '' appears more than once in one push'')))
      else case preflight_ref_change G g parent (pushes ! k) of Inr _ \<Rightarrow> Accepted | Inl e \<Rightarrow> Rejected e))"
  using assms
proof (induction pushes arbitrary: seen refs packs outs)
  case (Cons p pushes)
  let ?d = "rp_destination p"
  let ?pre = "if ?d \<notin> seen then preflight_ref_change G g parent p
     else Inl (err (Msg (?d @ '' appears more than once in one push'')))"
  define o1 where "o1 = (case ?pre of Inr _ \<Rightarrow> Accepted | Inl e \<Rightarrow> Rejected e)"
  obtain refs1 packs1 where
    "push_loop G g parent (insert ?d seen) refs1 packs1 (outs @ [o1]) pushes = (refs', packs', outs')"
    using Cons.prems by (auto simp: Let_def o1_def split: sum.splits option.splits if_splits)
  from Cons.IH [OF this] obtain new where new: "outs' = outs @ o1 # new" "length new = length pushes"
    and each: "\<And>k. k < length pushes \<Longrightarrow>
      new ! k = (if rp_destination (pushes ! k) \<in> insert ?d seen \<union> set (map rp_destination (take k pushes))
        then Rejected (err (Msg (rp_destination (pushes ! k) @ '' appears more than once in one push'')))
        else case preflight_ref_change G g parent (pushes ! k) of Inr _ \<Rightarrow> Accepted | Inl e \<Rightarrow> Rejected e)"
    by auto
  have "(o1 # new) ! k = (if rp_destination ((p # pushes) ! k) \<in> seen \<union> set (map rp_destination (take k (p # pushes)))
      then Rejected (err (Msg (rp_destination ((p # pushes) ! k) @ '' appears more than once in one push'')))
      else case preflight_ref_change G g parent ((p # pushes) ! k) of Inr _ \<Rightarrow> Accepted | Inl e \<Rightarrow> Rejected e)"
    if "k < length (p # pushes)" for k
    using that each by (cases k) (simp_all add: o1_def)
  with new show ?case by (intro exI [of _ "o1 # new"]) simp
qed simp

lemma push_batch:
  assumes wf: "bt_wf parent" and loop: "push_loop G g parent {} parent [] [] pushes = (refs, packs, outs)"
  shows "bt_wf refs" and "\<forall>r. bt_get refs r = batch_ref G g parent pushes r"
    and "\<forall>r. bt_get packs r = (if batch_ref G g parent pushes r = bt_get parent r then None else batch_ref G g parent pushes r)"
proof -
  note facts = push_loop_refs [OF loop wf bt_wf_Nil]
  show "bt_wf refs" using facts by simp
  show "\<forall>r. bt_get refs r = batch_ref G g parent pushes r"
    using facts by (simp add: batch_ref_def)
  show "\<forall>r. bt_get packs r = (if batch_ref G g parent pushes r = bt_get parent r then None else batch_ref G g parent pushes r)"
    using facts by (auto simp: batch_ref_def split: option.splits sum.splits)
qed

text \<open>C32. A batch is checked against one head: in the refs of the successor every ref has the value its
  first accepted change gives it, every other ref keeps its value; the refs that need a pack
  are exactly those with a new value; there is one outcome per change in request order, and a
  change is accepted exactly when its destination is new in the batch and its preflight passes.
  A rejected change never affects the others.\<close>

theorem push_batch_is_exact:
  assumes "bt_wf parent" and "push_loop G g parent {} parent [] [] pushes = (refs, packs, outs)"
  shows "bt_wf refs \<and> (\<forall>r. bt_get refs r = batch_ref G g parent pushes r)
    \<and> (\<forall>r. bt_get packs r = (if batch_ref G g parent pushes r = bt_get parent r then None else batch_ref G g parent pushes r))
    \<and> length outs = length pushes
    \<and> (\<forall>k < length pushes. outs ! k = Accepted \<longleftrightarrow>
         rp_destination (pushes ! k) \<notin> set (map rp_destination (take k pushes))
         \<and> is_ok (preflight_ref_change G g parent (pushes ! k)))"
proof -
  from push_loop_outcomes [OF assms(2)] have len: "length outs = length pushes" and
    each: "\<forall>k < length pushes. outs ! k = (if rp_destination (pushes ! k) \<in> set (map rp_destination (take k pushes))
      then Rejected (err (Msg (rp_destination (pushes ! k) @ '' appears more than once in one push'')))
      else case preflight_ref_change G g parent (pushes ! k) of Inr _ \<Rightarrow> Accepted | Inl e \<Rightarrow> Rejected e)" by auto
  have "outs ! k = Accepted \<longleftrightarrow> rp_destination (pushes ! k) \<notin> set (map rp_destination (take k pushes))
      \<and> is_ok (preflight_ref_change G g parent (pushes ! k))" if "k < length pushes" for k
    using each that by (cases "preflight_ref_change G g parent (pushes ! k)") auto
  with push_batch [OF assms] len show ?thesis by simp
qed

section \<open>Publishing the refs\<close>

lemma lock_floor_not_progress: "progress_path d \<noteq> lock_floor R"
proof
  assume "progress_path d = lock_floor R"
  then have "rev (progress_path d) = rev (lock_floor R)" by simp
  then show False by (simp add: progress_path_def lock_floor_def floor_acquire_def)
qed

lemma store_pack_ok:
  assumes "store_pack P R repo rnd current generation pack_refs w = (Inr d, w')"
  obtains exclusions pack_key plain sealed ct s where
    "local_exclusions (gr_ops repo) (w_git w) [] (mf_refs (os_manifest current)) = Inr exclusions"
    "derive_subkey P (pr_key rnd) (mf_repository_root (os_manifest current)) generation PackKey 0 = Inr pack_key"
    "start_incremental_pack (gr_ops repo) (w_git w) pack_refs exclusions = Inr (True, plain)"
    "seal_pack_stream P (pr_pack_nonce rnd) pack_key plain (pack_aad (mf_repository_root (os_manifest current)) generation 0)
       = Inr (sealed, ct)"
    "so_put_object_if_absent (er_storage R) Pack (sr_object_id sealed) ct (w_storage w) = (Inr (), s)"
    "d = \<lparr>pk_id = sr_object_id sealed, pk_plaintext_size = sr_plaintext_size sealed, pk_generation = generation, pk_ordinal = 0\<rparr>"
    "w' = w\<lparr>w_storage := s\<rparr>"
  using assms
  by (auto simp: store_pack_def Let_def world_simps pack_source_finish_def bail_if_eq_Inr)

lemma publish_refs_ok:
  assumes "publish_refs P R repo rnd (lock_floor R) current next_refs pack_refs w = (Inr i, w')"
  obtains generation packs m w1 w2 fs where
    "checked_add (mf_generation (os_manifest current)) 1 = Some generation"
    "if pack_refs = [] then packs = [] \<and> w1 = w
     else \<exists>d. packs = [d] \<and> store_pack P R repo rnd current generation pack_refs w = (Inr d, w1)"
    "mf_refs m = next_refs" "mf_new_packs m = packs" "mf_authorization m = Writer" "mf_introduced_policy m = None"
    "mf_policy_generation m = pb_generation (st_body (os_policy current))" "mf_generation m = generation"
    "mf_repository_root m = mf_repository_root (os_manifest current)"
    "commit_manifest P R (pr_manifest rnd) (Some current) (os_policy current) None (pr_key rnd) Writer m w1 = (Inr i, w2)"
    "floor_advance P (lock_floor R) (floor_at i m) (w_files w2) = Inr fs"
    "w_storage w' = w_storage w2" "w_git w' = w_git w2"
    "floor_read P (lock_floor R) (w_files w') = floor_read P (lock_floor R) fs"
proof -
  let ?m = "\<lambda>generation packs link. \<lparr>mf_format_version = mf_format_version (os_manifest current),
          mf_repository_root = mf_repository_root (os_manifest current),
          mf_generation = generation, mf_previous = Some (os_id current),
          mf_policy_id = st_id (os_policy current),
          mf_policy_generation = pb_generation (st_body (os_policy current)),
          mf_authorization = Writer,
          mf_total_pack_count = mf_total_pack_count (os_manifest current) + of_nat (length packs),
          mf_refs = next_refs, mf_new_packs = packs,
          mf_predecessor_key_wrap = Some link, mf_introduced_policy = None\<rparr>"
  from assms [unfolded publish_refs_def Let_def act_then_Inr] obtain generation wa packs w1 link wb next_id w2 u w3 progress w4 complete w5 u' w6
    where
    gen: "act_ret (ok_or (checked_add (mf_generation (os_manifest current)) 1) (Msg ''manifest generation overflow'')) w
       = (Inr generation, wa)" and
    packs: "(if pack_refs \<noteq> [] then act_then (store_pack P R repo rnd current generation pack_refs) (\<lambda>d. act_ret (Inr [d]))
         else act_ret (Inr [])) wa = (Inr packs, w1)" and
    link: "act_ret (wrap_predecessor_key P (pr_link_nonce rnd) (pr_key rnd) (os_generation_key current)
       (mf_repository_root (os_manifest current)) generation (os_id current)) w1 = (Inr link, wb)" and
    commit: "commit_manifest P R (pr_manifest rnd) (Some current) (os_policy current) None (pr_key rnd) Writer
       (?m generation packs link) wb = (Inr next_id, w2)" and
    adv: "advance_floor P (lock_floor R) next_id (?m generation packs link) w2 = (Inr u, w3)" and
    progress: "act_get (\<lambda>w. checkout_read P (open_checkout R repo) (w_files w)) w3 = (Inr progress, w4)" and
    complete: "act_get (\<lambda>w. Inr (cg_verified_refs progress = mf_refs (os_manifest current)
         \<and> has_complete_object_graph (gr_ops repo) (w_git w))) w4 = (Inr complete, w5)" and
    wr: "(if complete then on_files (checkout_write P (open_checkout R repo)
         (progress\<lparr>cg_verified_refs := mf_refs (?m generation packs link)\<rparr>)) else act_ret (Inr ())) w5 = (Inr u', w6)" and
    ret: "act_ret (Inr next_id) w6 = (Inr i, w')"
    by blast
  note [simp] = gen [unfolded act_ret_eq, THEN conjunct2, symmetric] link [unfolded act_ret_eq, THEN conjunct2, symmetric]
  from ret have [simp]: "next_id = i" "w6 = w'" by (simp_all add: act_ret_eq)
  from progress complete have w5: "w5 = w3" by (simp add: act_get_eq)
  have gen: "checked_add (mf_generation (os_manifest current)) 1 = Some generation"
    using gen by (simp add: act_ret_eq ok_or_eq_Inr)
  from adv obtain fs where adv: "floor_advance P (lock_floor R) (floor_at i (?m generation packs link)) (w_files w2) = Inr fs"
    and w3: "w3 = w2\<lparr>w_files := fs\<rparr>" by (auto simp: advance_floor_def on_files_Inr)
  from wr w5 w3 have ends: "w' = w2\<lparr>w_files := fs\<rparr> \<or> w' = w2\<lparr>w_files := write_json (progress_to_vec P)
       (progress_path (open_checkout R repo)) (progress\<lparr>cg_verified_refs := next_refs,
       cg_format_version := CHECKOUT_PROGRESS_FORMAT\<rparr>) fs\<rparr>"
    by (auto simp: on_files_Inr act_ret_eq checkout_write_def split: if_splits)
  have packs': "if pack_refs = [] then packs = [] \<and> w1 = w
     else \<exists>d. packs = [d] \<and> store_pack P R repo rnd current generation pack_refs w = (Inr d, w1)"
    using packs by (auto simp: world_simps)
  have files: "floor_read P (lock_floor R) (w_files w') = floor_read P (lock_floor R) fs"
    using ends lock_floor_not_progress [of "open_checkout R repo" R]
    by (auto simp: floor_read_def read_json_def write_json_def)
  have "w_storage w' = w_storage w2" "w_git w' = w_git w2" using ends by auto
  from that [OF gen packs' _ _ _ _ _ _ _ commit [simplified] adv this files] show thesis by simp
qed


section \<open>What a push leaves behind\<close>

text \<open>A published pack reads back as the bytes git produced for it, from every later storage that still
  holds the object.\<close>

lemma stored_pack_opens:
  assumes laws: "library_laws P" and rnd: "sound_random P rnd"
    and R: "er_storage R = directory_storage P io (storage_dir dir)"
    and run: "store_pack P R repo rnd current generation pack_refs w = (Inr d, w1)"
    and fresh: "w_storage w (object_path (storage_dir dir) Pack (pk_id d)) = None"
  obtains exclusions plain ct where
    "local_exclusions (gr_ops repo) (w_git w) [] (mf_refs (os_manifest current)) = Inr exclusions"
    "start_incremental_pack (gr_ops repo) (w_git w) pack_refs exclusions = Inr (True, plain)"
    "fs_open_object (storage_dir dir) Pack (pk_id d) (w_storage w1) = Inr ct"
    "\<And>s R' e. fs_open_object (storage_dir dir) Pack (pk_id d) s = Inr ct \<Longrightarrow> er_storage R' = er_storage R \<Longrightarrow>
       os_generation_key e = pr_key rnd \<Longrightarrow>
       mf_repository_root (os_manifest e) = mf_repository_root (os_manifest current) \<Longrightarrow>
       open_chain_pack P R' e d s = Inr plain"
proof (rule store_pack_ok [OF run])
  fix exclusions pack_key plain sealed ct s
  assume a: "local_exclusions (gr_ops repo) (w_git w) [] (mf_refs (os_manifest current)) = Inr exclusions"
    "start_incremental_pack (gr_ops repo) (w_git w) pack_refs exclusions = Inr (True, plain)"
    and key: "derive_subkey P (pr_key rnd) (mf_repository_root (os_manifest current)) generation PackKey 0 = Inr pack_key"
    and seal: "seal_pack_stream P (pr_pack_nonce rnd) pack_key plain
       (pack_aad (mf_repository_root (os_manifest current)) generation 0) = Inr (sealed, ct)"
    and put: "so_put_object_if_absent (er_storage R) Pack (sr_object_id sealed) ct (w_storage w) = (Inr (), s)"
    and d: "d = \<lparr>pk_id = sr_object_id sealed, pk_plaintext_size = sr_plaintext_size sealed, pk_generation = generation, pk_ordinal = 0\<rparr>"
    and w1: "w1 = w\<lparr>w_storage := s\<rparr>"
  have put: "fs_put_object_if_absent P (storage_dir dir) Pack (pk_id d) ct (w_storage w) = (Inr (), w_storage w1)"
    using put R d w1 by simp
  have small: "length ct \<le> MAX_OBJECT_BYTES" using fs_put_cases(2) [OF put refl] by simp
  then have "length ct < 2 ^ 64" by (simp add: MAX_OBJECT_BYTES_def CARRIER_CHUNK_BYTES_def MAX_CHUNKS_PER_OBJECT_def)
  from sealed_pack_opens [OF _ _ seal this]
  have opens: "open_pack_stream P pack_key ct (pack_aad (mf_repository_root (os_manifest current)) generation 0)
      (pk_plaintext_size d) (pk_id d) = Inr (plain, length ct)"
    using laws rnd d unfolding library_laws_def sound_random_def by (metis pack_descriptor.select_convs(1,2))
  have "fs_open_object (storage_dir dir) Pack (pk_id d) (w_storage w1) = Inr ct"
    using fs_objects.put_stores [OF put] fresh by simp
  from that [OF a this] show thesis
    using key opens d R by (simp add: open_chain_pack_def)
qed

lemma publication_effect:
  assumes laws: "library_laws P" and rnd: "sound_random P rnd"
    and R: "er_storage R = directory_storage P io (storage_dir dir)"
    and chain: "current_chain P R (w_storage w) = Inr (current # ps)"
    and f: "floor_read P (lock_floor R) (w_files w) = Inr f" "validate_pinned_head (current # ps) f = Inr ()"
    and run: "publish_refs P R repo rnd (lock_floor R) current next_refs pack_refs w = (Inr i, w')"
    and fresh: "w_storage w (object_path (storage_dir dir) Manifest i) = None"
  shows "\<exists>m. mf_refs m = next_refs \<and> (mf_new_packs m = [] \<longleftrightarrow> pack_refs = [])
    \<and> floor_read P (lock_floor R) (w_files w') = Inr (Some (floor_at i m))
    \<and> (\<forall>R' v. er_storage R' = er_storage R \<and> v \<in> set (active_readers (os_policy current))
         \<and> key_public_device P (er_key R') = Inr (dv_public v)
         \<and> (\<forall>d \<in> set (mf_new_packs m). pk_id d \<notin> set (chain_pack_ids (current # ps))
              \<and> w_storage w (object_path (storage_dir dir) Pack (pk_id d)) = None) \<longrightarrow>
         (\<exists>s. current_chain P R' (w_storage w') = Inr (s # current # ps) \<and> os_id s = i \<and> os_manifest s = m
            \<and> os_policy s = os_policy current
            \<and> (\<forall>d \<in> set (mf_new_packs m). \<exists>exclusions plain.
                 local_exclusions (gr_ops repo) (w_git w) [] (mf_refs (os_manifest current)) = Inr exclusions
                 \<and> start_incremental_pack (gr_ops repo) (w_git w) pack_refs exclusions = Inr (True, plain)
                 \<and> open_chain_pack P R' s d (w_storage w') = Inr plain)))"
proof (rule publish_refs_ok [OF run])
  fix generation packs m w1 w2 fs
  assume packs: "if pack_refs = [] then packs = [] \<and> w1 = w
     else \<exists>d. packs = [d] \<and> store_pack P R repo rnd current generation pack_refs w = (Inr d, w1)"
    and m: "mf_refs m = next_refs" "mf_new_packs m = packs" "mf_authorization m = Writer" "mf_introduced_policy m = None"
      "mf_policy_generation m = pb_generation (st_body (os_policy current))"
    and root: "mf_repository_root m = mf_repository_root (os_manifest current)"
    and commit: "commit_manifest P R (pr_manifest rnd) (Some current) (os_policy current) None (pr_key rnd) Writer m w1 = (Inr i, w2)"
    and adv: "floor_advance P (lock_floor R) (floor_at i m) (w_files w2) = Inr fs"
    and w': "w_storage w' = w_storage w2" "floor_read P (lock_floor R) (w_files w') = floor_read P (lock_floor R) fs"
  have l: "manifest_json_laws P" "b64_laws P" "hex_laws P" "aead_laws P" "hpke_laws P" "floor_json_laws P"
    using laws by (simp_all add: library_laws_def)
  have "w1 = w \<or> (\<exists>k ct. fs_put_object_if_absent P (storage_dir dir) Pack k ct (w_storage w) = (Inr (), w_storage w1)
      \<and> w_files w1 = w_files w)"
  proof (cases "pack_refs = []")
    case False
    then obtain d where "store_pack P R repo rnd current generation pack_refs w = (Inr d, w1)" using packs by auto
    then show ?thesis using R by (elim store_pack_ok) auto
  qed (use packs in simp)
  then have keep: "current_chain P R (w_storage w1) = Inr (current # ps) \<and> w_files w1 = w_files w
      \<and> w_storage w1 (object_path (storage_dir dir) Manifest i) = None"
  proof (elim disjE exE conjE, goal_cases)
    case (2 k ct)
    note put = this(1)
    have "current_chain P R (w_storage w1) = Inr (current # ps)"
      by (rule current_chain_gains [OF chain])
        (use R fs_put_keeps_head [OF put] directory.gains_put [of P io dir Pack k ct "w_storage w"] put in simp_all)
    moreover have "w_storage w1 (object_path (storage_dir dir) Manifest i) = None"
      using fs_put_cases(1) [OF put] fresh by auto
    ultimately show ?case using 2(2) by blast
  qed (use chain fresh in simp_all)
  note msucc = commit_successor [OF commit] and auth = current_chain_sound [OF chain]
  have files: "w_files w2 = w_files w" using directory.commit_moves_head(4) [OF commit R] keep by simp
  have "mf_policy_generation (os_manifest current) \<le> mf_policy_generation m"
    using authentic_chain_root [OF auth] m(5) by simp
  then have floor: "floor_read P (lock_floor R) (w_files w') = Inr (Some (floor_at i m))"
    using floor_advance_successor [OF l(6) f, of m "os_policy current" i] msucc adv files w'(2) by simp
  have select: "select_policy P (kf_repository_root (er_key R)) (current # ps) m = Inr (os_policy current, None)"
    using m msucc by (simp add: select_policy_def)
  have wf: "wf_policy P (st_body (os_policy current))" using authentic_chain_wf [OF auth] by simp
  show ?thesis
  proof (intro exI [of _ m] conjI allI impI m(1) floor)
    show "mf_new_packs m = [] \<longleftrightarrow> pack_refs = []" using packs m(2) by (auto split: if_splits)
    fix R' :: "tree encrypted_repository" and v
    assume r: "er_storage R' = er_storage R \<and> v \<in> set (active_readers (os_policy current))
         \<and> key_public_device P (er_key R') = Inr (dv_public v)
         \<and> (\<forall>d \<in> set (mf_new_packs m). pk_id d \<notin> set (chain_pack_ids (current # ps))
              \<and> w_storage w (object_path (storage_dir dir) Pack (pk_id d)) = None)"
    then obtain s where s: "current_chain P R' (w_storage w2) = Inr (s # current # ps)" "os_id s = i" "os_manifest s = m"
        "os_policy s = os_policy current" "os_generation_key s = pr_key rnd"
      using directory.commit_extends_chain [OF l(1-5) _ _ _ _ R keep [THEN conjunct1], of "pr_manifest rnd" "pr_key rnd" "os_policy current"
          None Writer m i w2 R' v] commit select wf keep rnd R by (auto simp: sound_random_def)
    have "\<exists>exclusions plain. local_exclusions (gr_ops repo) (w_git w) [] (mf_refs (os_manifest current)) = Inr exclusions
         \<and> start_incremental_pack (gr_ops repo) (w_git w) pack_refs exclusions = Inr (True, plain)
         \<and> open_chain_pack P R' s d (w_storage w') = Inr plain" if d: "d \<in> set (mf_new_packs m)" for d
    proof -
      from d packs m(2) have run: "store_pack P R repo rnd current generation pack_refs w = (Inr d, w1)"
        by (auto split: if_splits)
      show ?thesis
      proof (rule stored_pack_opens [OF laws rnd R run])
        show "w_storage w (object_path (storage_dir dir) Pack (pk_id d)) = None" using r d by blast
        fix exclusions plain ct
        assume a: "local_exclusions (gr_ops repo) (w_git w) [] (mf_refs (os_manifest current)) = Inr exclusions"
            "start_incremental_pack (gr_ops repo) (w_git w) pack_refs exclusions = Inr (True, plain)"
          and ct: "fs_open_object (storage_dir dir) Pack (pk_id d) (w_storage w1) = Inr ct"
          and opens: "\<And>s R' e. fs_open_object (storage_dir dir) Pack (pk_id d) s = Inr ct \<Longrightarrow> er_storage R' = er_storage R \<Longrightarrow>
           os_generation_key e = pr_key rnd \<Longrightarrow>
           mf_repository_root (os_manifest e) = mf_repository_root (os_manifest current) \<Longrightarrow>
           open_chain_pack P R' e d s = Inr plain"
        have "fs_open_object (storage_dir dir) Pack (pk_id d) (w_storage w2) = Inr ct"
          using directory.commit_keeps_objects [OF commit R, of Pack "pk_id d" ct] ct by simp
        with opens [of "w_storage w'" R' s] r s root w'(1) a show ?thesis by auto
      qed
    qed
    with s w'(1) show "\<exists>s. current_chain P R' (w_storage w') = Inr (s # current # ps) \<and> os_id s = i \<and> os_manifest s = m
            \<and> os_policy s = os_policy current
            \<and> (\<forall>d \<in> set (mf_new_packs m). \<exists>exclusions plain.
                 local_exclusions (gr_ops repo) (w_git w) [] (mf_refs (os_manifest current)) = Inr exclusions
                 \<and> start_incremental_pack (gr_ops repo) (w_git w) pack_refs exclusions = Inr (True, plain)
                 \<and> open_chain_pack P R' s d (w_storage w') = Inr plain)" by auto
  qed
qed


lemma push_ok:
  assumes "push P R repo rnd pushes mode w = (Inr out, w')" and R: "er_storage R = directory_storage P' io dir"
  obtains current ps f i refs packs where
    "current_chain P R (w_storage w) = Inr (current # ps)" "floor_read P (lock_floor R) (w_files w) = Inr f"
    "validate_pinned_head (current # ps) f = Inr ()" "key_device_id P (er_key R) = Inr i"
    "is_active_writer (os_policy current) i" "validate_inner_refs (mf_refs (os_manifest current)) = Inr ()"
    "push_loop (gr_ops repo) (w_git w) (mf_refs (os_manifest current)) {} (mf_refs (os_manifest current)) [] [] pushes
       = (refs, packs, pu_refs out)"
    "if mode = DryRun \<or> refs = mf_refs (os_manifest current)
     then pu_publication out = Inr (os_id current) \<and>
       (\<exists>fs. floor_advance P (lock_floor R) (floor_at (os_id current) (os_manifest current)) (w_files w) = Inr fs
         \<and> w' = w\<lparr>w_files := fs\<rparr>)
     else publish_refs P R repo rnd (lock_floor R) current refs packs w = (pu_publication out, w')"
proof -
  from assms(1) obtain chain w1 where pinned: "pinned_chain P R (lock_floor R) w = (Inr chain, w1)"
    by (auto simp: push_def Let_def act_then_Inr)
  note [simp] = directory_pinned_chain(1) [OF pinned R]
  note chain = directory_pinned_chain(2) [OF pinned R]
  from pinned obtain f where f: "floor_read P (lock_floor R) (w_files w) = Inr f" "validate_pinned_head chain f = Inr ()"
    by (rule pinned_chain_ok)
  from authentic_chain_not_Nil [OF current_chain_sound [OF chain]] obtain current ps where cons: "chain = current # ps"
    by (cases chain) auto
  obtain refs packs outs where loop: "push_loop (gr_ops repo) (w_git w) (mf_refs (os_manifest current)) {}
      (mf_refs (os_manifest current)) [] [] pushes = (refs, packs, outs)" by (rule prod_cases3)
  from assms(1) pinned cons obtain i where writer: "key_device_id P (er_key R) = Inr i" "is_active_writer (os_policy current) i"
      "validate_inner_refs (mf_refs (os_manifest current)) = Inr ()"
    and rest: "(if mode = DryRun \<or> refs = mf_refs (os_manifest current) then
        act_then (advance_floor P (lock_floor R) (os_id current) (os_manifest current)) (\<lambda>_.
        act_ret (Inr \<lparr>pu_refs = outs, pu_publication = Inr (os_id current)\<rparr>))
      else (\<lambda>w. case publish_refs P R repo rnd (lock_floor R) current refs packs w of
        (publication, w') \<Rightarrow> (Inr \<lparr>pu_refs = outs, pu_publication = publication\<rparr>, w'))) w = (Inr out, w')"
    unfolding push_def Let_def act_then_Inr
    by (simp add: act_ret_eq act_get_eq first_state_def loop split: if_splits)
  show thesis
  proof (rule that [of current ps f i refs packs, OF _ _ _ writer])
    show "current_chain P R (w_storage w) = Inr (current # ps)" "floor_read P (lock_floor R) (w_files w) = Inr f"
      "validate_pinned_head (current # ps) f = Inr ()" using chain f cons by simp_all
    show "push_loop (gr_ops repo) (w_git w) (mf_refs (os_manifest current)) {} (mf_refs (os_manifest current)) [] [] pushes
       = (refs, packs, pu_refs out)"
      using rest loop by (auto simp: world_simps split: if_splits prod.splits)
    show "if mode = DryRun \<or> refs = mf_refs (os_manifest current)
     then pu_publication out = Inr (os_id current) \<and>
       (\<exists>fs. floor_advance P (lock_floor R) (floor_at (os_id current) (os_manifest current)) (w_files w) = Inr fs
         \<and> w' = w\<lparr>w_files := fs\<rparr>)
     else publish_refs P R repo rnd (lock_floor R) current refs packs w = (pu_publication out, w')"
      using rest by (auto simp: world_simps advance_floor_def split: if_splits prod.splits)
  qed
qed

text \<open>C2. A push takes effect as one step: when it returns with a publication, the caller is an active
  writer of the head this machine had pinned, and the outcomes and the refs are those of the
  batch. If no ref changes, the head and the storage are untouched. Otherwise the machine is
  pinned to a new head with exactly the refs of the batch under the same policy; every active
  reader obtains it in front of the unchanged old chain; it carries a pack exactly when a ref
  has a new value, and that pack opens to the bytes \<^verbatim>\<open>git pack-objects\<close> gave for the new values
  without what the old refs reach.\<close>

theorem push_takes_effect:
  assumes laws: "library_laws P" and rnd: "sound_random P rnd"
    and R: "er_storage R = directory_storage P io (storage_dir dir)"
    and run: "push P R repo rnd pushes Publish w = (Inr out, w')" and pub: "pu_publication out = Inr i"
  shows "\<exists>current ps refs packs. current_chain P R (w_storage w) = Inr (current # ps)
    \<and> (\<exists>device. key_device_id P (er_key R) = Inr device \<and> is_active_writer (os_policy current) device)
    \<and> push_loop (gr_ops repo) (w_git w) (mf_refs (os_manifest current)) {} (mf_refs (os_manifest current)) [] [] pushes
        = (refs, packs, pu_refs out)
    \<and> (if refs = mf_refs (os_manifest current) then i = os_id current \<and> w_storage w' = w_storage w
       else w_storage w (object_path (storage_dir dir) Manifest i) = None \<longrightarrow>
       (\<exists>m. mf_refs m = refs \<and> (mf_new_packs m = [] \<longleftrightarrow> packs = [])
        \<and> floor_read P (lock_floor R) (w_files w') = Inr (Some (floor_at i m))
        \<and> (\<forall>R' v. er_storage R' = er_storage R \<and> v \<in> set (active_readers (os_policy current))
             \<and> key_public_device P (er_key R') = Inr (dv_public v)
             \<and> (\<forall>d \<in> set (mf_new_packs m). pk_id d \<notin> set (chain_pack_ids (current # ps))
                  \<and> w_storage w (object_path (storage_dir dir) Pack (pk_id d)) = None) \<longrightarrow>
             (\<exists>s. current_chain P R' (w_storage w') = Inr (s # current # ps) \<and> os_id s = i \<and> os_manifest s = m
                \<and> os_policy s = os_policy current
                \<and> (\<forall>d \<in> set (mf_new_packs m). \<exists>exclusions plain.
                     local_exclusions (gr_ops repo) (w_git w) [] (mf_refs (os_manifest current)) = Inr exclusions
                     \<and> start_incremental_pack (gr_ops repo) (w_git w) packs exclusions = Inr (True, plain)
                     \<and> open_chain_pack P R' s d (w_storage w') = Inr plain)))))"
proof (rule push_ok [OF run R])
  fix current ps f device refs packs
  assume chain: "current_chain P R (w_storage w) = Inr (current # ps)"
    and f: "floor_read P (lock_floor R) (w_files w) = Inr f" "validate_pinned_head (current # ps) f = Inr ()"
    and writer: "key_device_id P (er_key R) = Inr device" "is_active_writer (os_policy current) device"
    and loop: "push_loop (gr_ops repo) (w_git w) (mf_refs (os_manifest current)) {} (mf_refs (os_manifest current)) [] [] pushes
       = (refs, packs, pu_refs out)"
    and ends: "if Publish = DryRun \<or> refs = mf_refs (os_manifest current)
     then pu_publication out = Inr (os_id current) \<and>
       (\<exists>fs. floor_advance P (lock_floor R) (floor_at (os_id current) (os_manifest current)) (w_files w) = Inr fs
         \<and> w' = w\<lparr>w_files := fs\<rparr>)
     else publish_refs P R repo rnd (lock_floor R) current refs packs w = (pu_publication out, w')"
  show ?thesis
  proof (rule exI [of _ current], rule exI [of _ ps], rule exI [of _ refs], rule exI [of _ packs],
      intro conjI chain exI [of _ device] writer loop, cases "refs = mf_refs (os_manifest current)", goal_cases)
    case 1
    then show ?case using ends pub by auto
  next
    case 2
    then have "publish_refs P R repo rnd (lock_floor R) current refs packs w = (Inr i, w')" using ends pub by simp
    from publication_effect [OF laws rnd R chain f this] show ?case by (simp only: 2 if_False) blast
  qed
qed


section \<open>Pushes that may not publish\<close>

lemma directory_pinned_chain_keeps:
  assumes "er_storage R = directory_storage P' io dir"
  shows "snd (pinned_chain P R floor w) = w"
  using assms
  by (auto simp: pinned_chain_def act_then_def act_get_def act_ret_def on_storage_def default_refresh_def
      split: sum.splits)

lemma advance_floor_atomic: "act_atomic (advance_floor P floor i m)"
  by (auto simp: act_atomic_def advance_floor_def on_files_def split: sum.splits)

lemma directory_pinned_chain_reads:
  "er_storage R = directory_storage P' io dir \<Longrightarrow> act_reads (pinned_chain P R floor)"
  by (simp add: act_reads_def directory_pinned_chain_keeps)

lemma push_stops:
  assumes R: "er_storage R = directory_storage P' io dir"
  shows "act_atomic (push P R repo rnd pushes mode)"
proof -
  have publish: "act_atomic (\<lambda>w. case publish_refs P R repo rnd floor current refs packs w of
      (publication, w') \<Rightarrow> (Inr \<lparr>pu_refs = outs, pu_publication = publication\<rparr>, w'))" for floor current refs packs outs
    by (auto simp: act_atomic_def split: prod.splits)
  show ?thesis
    unfolding push_def Let_def
    by (intro act_atomic_then act_reads_ret act_reads_get directory_pinned_chain_reads [OF R])
      (auto split: prod.splits intro: act_atomic_last advance_floor_atomic publish)
qed

text \<open>C34. A push that may not publish changes nothing outside this machine's own files: in a dry run, or
  when the device is not an active writer of the current head, the storage and the Git
  repository are as before, whatever is returned; and a real push by such a device is an error,
  with no outcome for any ref and the floor as before.\<close>

theorem push_without_right_publishes_nothing:
  assumes R: "er_storage R = directory_storage P' io dir" and run: "push P R repo rnd pushes mode w = (r, w')"
    and right: "mode = DryRun \<or> (\<forall>chain device. current_chain P R (w_storage w) = Inr chain \<and>
      key_device_id P (er_key R) = Inr device \<longrightarrow> \<not> is_active_writer (os_policy (hd chain)) device)"
  shows "w_storage w' = w_storage w \<and> w_git w' = w_git w \<and> (mode = Publish \<longrightarrow> (\<exists>e. r = Inl e) \<and> w' = w)"
proof (cases r)
  case (Inl e)
  then show ?thesis using push_stops [OF R, of P repo rnd pushes mode] run unfolding act_atomic_def by blast
next
  case (Inr out)
  show ?thesis
  proof (rule push_ok [OF run [unfolded Inr] R])
    fix current ps f i refs packs
    assume chain: "current_chain P R (w_storage w) = Inr (current # ps)" "key_device_id P (er_key R) = Inr i"
      "is_active_writer (os_policy current) i"
      and ends: "if mode = DryRun \<or> refs = mf_refs (os_manifest current)
       then pu_publication out = Inr (os_id current) \<and>
         (\<exists>fs. floor_advance P (lock_floor R) (floor_at (os_id current) (os_manifest current)) (w_files w) = Inr fs
           \<and> w' = w\<lparr>w_files := fs\<rparr>)
       else publish_refs P R repo rnd (lock_floor R) current refs packs w = (pu_publication out, w')"
    from right chain have "mode = DryRun" by fastforce
    with ends show ?thesis by auto
  qed
qed

end
