(* ===== verification/Initialization.thy ===== *)
theory Initialization
  imports Publication
begin

text \<open>
  What \<^verbatim>\<open>EncryptedRepository::initialize\<close> leaves behind, on success and on every kind of error. The
  last section is about the key: \<^verbatim>\<open>initialize\<close> never asks whether the key that signs the genesis
  policy is the key the repository root is derived from.
\<close>

section \<open>Inversion\<close>

lemma prepare_genesis_ok:
  assumes "prepare_genesis P R rnd label w = (Inr (floor, genesis, i), w')"
  obtains policy bytes where "floor = lock_floor R" "so_read_head (er_storage R) (w_storage w) = Inr None"
    "floor_read P floor (w_files w) = Inr None" "policy_genesis P (er_key R) label = Inr (policy, bytes)"
    "genesis = manifest_genesis (kf_repository_root (er_key R)) policy bytes"
    "seal_and_store_manifest P R (pr_manifest rnd) None policy None (pr_key rnd) PolicyTransition genesis w = (Inr i, w')"
  using assms by (auto simp: prepare_genesis_def Let_def world_simps bail_if_eq_Inr)

lemma initialize_ok:
  assumes "initialize P R rnd label w = (Inr i, w')"
  obtains floor genesis w1 s fs where "prepare_genesis P R rnd label w = (Inr (floor, genesis, i), w1)"
    "so_compare_and_swap_head (er_storage R) None i (w_storage w1) = (Inr (), s)"
    "floor_advance P floor (floor_at i genesis) (w_files w1) = Inr fs" "w' = w1\<lparr>w_storage := s, w_files := fs\<rparr>"
proof -
  obtain r1 w1 where p: "prepare_genesis P R rnd label w = (r1, w1)" by fastforce
  with assms obtain x where r1: "r1 = Inr x" by (cases r1) (simp_all add: initialize_def)
  obtain floor genesis j where x: "x = (floor, genesis, j)" by (rule prod_cases3)
  obtain r2 s where c: "so_compare_and_swap_head (er_storage R) None j (w_storage w1) = (r2, s)" by fastforce
  with assms p r1 x have r2: "r2 = Inr ()" by (cases r2) (simp_all add: initialize_def on_storage_def)
  from assms p r1 x c r2 obtain fs where "floor_advance P floor (floor_at j genesis) (w_files w1) = Inr fs"
    "i = j" "w' = w1\<lparr>w_storage := s, w_files := fs\<rparr>"
    by (cases "floor_advance P floor (floor_at j genesis) (w_files w1)")
      (auto simp: initialize_def on_storage_def advance_floor_def on_files_def)
  then show thesis using that p r1 x c r2 by simp
qed

lemma policy_genesis_parts:
  assumes "policy_genesis P key label = Inr (st, bytes)"
  obtains pub where "key_public_device P key = Inr pub" "wf_policy P (st_body st)"
    "pb_repository_root (st_body st) = kf_repository_root key"
    "pb_devices (st_body st) = [\<lparr>dv_public = pub, dv_label = label, dv_roles = roles_owner, dv_revoked_at = None\<rparr>]"
    "policy_json_laws P \<Longrightarrow> b64_laws P \<Longrightarrow> policy_parse P bytes = Inr st"
proof -
  from assms obtain pub where pub: "key_public_device P key = Inr pub"
    and create: "policy_create P \<lparr>pb_format_version = FORMAT_VERSION, pb_repository_root = kf_repository_root key,
      pb_generation = 0, pb_previous = None, pb_admin_threshold = 1,
      pb_devices = [\<lparr>dv_public = pub, dv_label = label, dv_roles = roles_owner, dv_revoked_at = None\<rparr>]\<rparr> key
        = Inr (st, bytes)"
    by (auto simp: policy_genesis_def and_then_eq_Inr)
  show thesis using that [OF pub] policy_create_wf [OF create] policy_parse_create [OF _ _ create] by simp
qed

text \<open>What a successful initialization stored, whoever signed it.\<close>

lemma initialize_stores:
  assumes laws: "library_laws P" and rnd: "sound_random P rnd"
    and R: "er_storage R = directory_storage P io (storage_dir dir)"
    and run: "initialize P R rnd label w = (Inr i, w')"
    and fresh: "w_storage w (object_path (storage_dir dir) Manifest i) = None"
  obtains policy bytes enc om where
    "fs_read_head (storage_dir dir) (w_storage w) = Inr None" "floor_read P (lock_floor R) (w_files w) = Inr None"
    "policy_genesis P (er_key R) label = Inr (policy, bytes)"
    "fs_read_head (storage_dir dir) (w_storage w') = Inr (Some i)" "i = object_id P enc"
    "so_get_object (er_storage R) Manifest i (w_storage w') = Inr enc"
    "open_manifest P enc (pr_key rnd) = Inr om" "verify_manifest P om policy None (pr_key rnd) = Inr ()"
    "om_manifest om = manifest_genesis (kf_repository_root (er_key R)) policy bytes"
    "manifest_validate_genesis P (om_manifest om) policy = Inr ()"
    "floor_read P (lock_floor R) (w_files w') = Inr (Some (floor_at i (om_manifest om)))"
proof (rule initialize_ok [OF run], erule prepare_genesis_ok)
  fix floor genesis w1 s fs policy bytes
  assume cas: "so_compare_and_swap_head (er_storage R) None i (w_storage w1) = (Inr (), s)"
    and adv: "floor_advance P floor (floor_at i genesis) (w_files w1) = Inr fs" and w': "w' = w1\<lparr>w_storage := s, w_files := fs\<rparr>"
    and floor: "floor = lock_floor R" and head: "so_read_head (er_storage R) (w_storage w) = Inr None"
    and pin: "floor_read P floor (w_files w) = Inr None"
    and policy: "policy_genesis P (er_key R) label = Inr (policy, bytes)"
    and genesis: "genesis = manifest_genesis (kf_repository_root (er_key R)) policy bytes"
    and store: "seal_and_store_manifest P R (pr_manifest rnd) None policy None (pr_key rnd) PolicyTransition genesis w = (Inr i, w1)"
  have l: "manifest_json_laws P" "b64_laws P" "hex_laws P" "aead_laws P" "floor_json_laws P"
    using laws by (simp_all add: library_laws_def)
  show thesis
  proof (rule seal_and_store_ok [OF store])
    fix enc om s1
    assume seal: "seal_manifest P (pr_manifest rnd) (er_key R) policy (pr_key rnd) PolicyTransition genesis = Inr enc"
      and i: "i = object_id P enc" and om: "open_manifest P enc (pr_key rnd) = Inr om"
        "verify_manifest P om policy None (pr_key rnd) = Inr ()"
      and valid: "(case None of Some p \<Rightarrow> manifest_validate_successor P genesis (os_id p) (os_manifest p) policy
       | None \<Rightarrow> manifest_validate_genesis P genesis policy) = Inr ()"
      and put: "so_put_object_if_absent (er_storage R) Manifest i enc (w_storage w) = (Inr (), s1)" and w1: "w1 = w\<lparr>w_storage := s1\<rparr>"
    have "well_placed genesis" by (simp add: genesis manifest_genesis_def well_placed_def)
    from open_sealed_manifest [OF l(1-4) _ _ this seal] om rnd have m: "om_manifest om = genesis"
      unfolding sound_random_def by (metis sum.inject(2))
    have "fs_open_object (storage_dir dir) Manifest i s1 = Inr enc"
      using fs_objects.put_stores [of P "storage_dir dir" Manifest i enc "w_storage w" s1] put R fresh by simp
    then have "fs_open_object (storage_dir dir) Manifest i s = Inr enc"
      using directory.cas_keeps_objects [of P io dir None i s1 _ s Manifest i enc] cas R w1 by simp
    moreover have "length enc \<le> MAX_MANIFEST_BYTES" using fs_put_cases(2) [of P "storage_dir dir" Manifest i enc "w_storage w" _ s1] put R by simp
    ultimately have get: "so_get_object (er_storage R) Manifest i (w_storage w') = Inr enc"
      using R w' directory.get_object_open [of P io dir Manifest i s enc] by simp
    have "fs = write_json (floor_to_vec P) floor (floor_at i genesis) (w_files w)"
      using adv pin w1 by (simp add: floor_advance_def)
    then have pin': "floor_read P (lock_floor R) (w_files w') = Inr (Some (floor_at i genesis))"
      using floor_read_write [OF l(5)] w' floor by (simp add: floor_at_def)
    have "fs_read_head (storage_dir dir) (w_storage w') = Inr (Some i)"
      using fs_head.cas_success [of io dir None i "w_storage w1" s] cas R w' by simp
    then show thesis
      using that [OF _ _ policy _ i get om] head pin pin' floor R m genesis valid by simp
  qed
qed

lemma initialize_effect:
  assumes laws: "library_laws P" and rnd: "sound_random P rnd"
    and R: "er_storage R = directory_storage P io (storage_dir dir)"
    and key: "er_key R = key_file_generate P signing wrapping" "length signing = 32" "kem_private_ok P wrapping"
    and run: "initialize P R rnd label w = (Inr i, w')"
    and fresh: "w_storage w (object_path (storage_dir dir) Manifest i) = None"
  shows "fs_read_head (storage_dir dir) (w_storage w) = Inr None \<and> floor_read P (lock_floor R) (w_files w) = Inr None
    \<and> (\<exists>s pub. current_chain P R (w_storage w') = Inr [s] \<and> os_id s = i \<and> mf_refs (os_manifest s) = []
        \<and> key_public_device P (er_key R) = Inr pub
        \<and> pb_devices (st_body (os_policy s)) = [\<lparr>dv_public = pub, dv_label = label, dv_roles = roles_owner, dv_revoked_at = None\<rparr>]
        \<and> floor_read P (lock_floor R) (w_files w') = Inr (Some (floor_at i (os_manifest s))) \<and> os_generation_key s = pr_key rnd
        \<and> (\<exists>b. policy_genesis P (er_key R) label = Inr (os_policy s, b)))"
proof (rule initialize_stores [OF laws rnd R run fresh])
  fix policy bytes enc om
  assume pre: "fs_read_head (storage_dir dir) (w_storage w) = Inr None" "floor_read P (lock_floor R) (w_files w) = Inr None"
    and policy: "policy_genesis P (er_key R) label = Inr (policy, bytes)"
    and head: "fs_read_head (storage_dir dir) (w_storage w') = Inr (Some i)" and i: "i = object_id P enc"
    and get: "so_get_object (er_storage R) Manifest i (w_storage w') = Inr enc"
    and om: "open_manifest P enc (pr_key rnd) = Inr om" "verify_manifest P om policy None (pr_key rnd) = Inr ()"
    and m: "om_manifest om = manifest_genesis (kf_repository_root (er_key R)) policy bytes"
    and valid: "manifest_validate_genesis P (om_manifest om) policy = Inr ()"
    and pin: "floor_read P (lock_floor R) (w_files w') = Inr (Some (floor_at i (om_manifest om)))"
  have l: "policy_json_laws P" "b64_laws P" "signature_laws P" "hpke_laws P" "hex_laws P"
    using laws by (simp_all add: library_laws_def)
  note accepted = genesis_policy_valid [OF l(1-4) key(2,3,1) policy]
  from policy obtain pub where pub: "key_public_device P (er_key R) = Inr pub" and wf: "wf_policy P (st_body policy)"
    and devices: "pb_devices (st_body policy) = [\<lparr>dv_public = pub, dv_label = label, dv_roles = roles_owner, dv_revoked_at = None\<rparr>]"
    by (rule policy_genesis_parts)
  have unwrap: "unwrap_generation_key P (om_header om) (er_key R) = Inr (pr_key rnd)"
    by (rule reader_unwraps_key [OF l(5,2,4) _ om(2) _ _ _ wf, where d = "\<lparr>dv_public = pub, dv_label = label,
        dv_roles = roles_owner, dv_revoked_at = None\<rparr>"])
      (use rnd open_manifest_generation [OF om(1)] devices pub in
        \<open>simp_all add: sound_random_def active_readers_def dv_active_def roles_owner_def\<close>)
  have "chain_from P (er_key R) i (read_material P R (w_storage w')) None = (Inr [state_of i om (pr_key rnd) policy], None)"
    unfolding i read_material_def
    by (rule genesis_chain_accepted [OF valid om _ accepted [THEN conjunct1] accepted [THEN conjunct2] _ unwrap])
      (use get i m in \<open>simp_all add: manifest_genesis_def\<close>)
  then have "current_chain P R (w_storage w') = Inr [state_of i om (pr_key rnd) policy]"
    using head R by (simp add: current_chain_def)
  then show ?thesis
    using pre pub devices pin m policy by (auto simp: manifest_genesis_def)
qed

text \<open>C30. Initialization takes effect: when \<^verbatim>\<open>initialize\<close> returns for a key generated for a new repository,
  the storage had no head and this machine no floor; now the owner reads back a chain of exactly
  the genesis manifest, with no refs, under a policy that lists the owner's device alone with
  every role, and the machine is pinned to it.\<close>

theorem initialize_takes_effect:
  assumes laws: "library_laws P" and rnd: "sound_random P rnd"
    and R: "er_storage R = directory_storage P io (storage_dir dir)"
    and key: "er_key R = key_file_generate P signing wrapping" "length signing = 32" "kem_private_ok P wrapping"
    and run: "initialize P R rnd label w = (Inr i, w')"
    and fresh: "w_storage w (object_path (storage_dir dir) Manifest i) = None"
  shows "fs_read_head (storage_dir dir) (w_storage w) = Inr None \<and> floor_read P (lock_floor R) (w_files w) = Inr None
    \<and> (\<exists>s pub. current_chain P R (w_storage w') = Inr [s] \<and> os_id s = i \<and> mf_refs (os_manifest s) = []
        \<and> key_public_device P (er_key R) = Inr pub
        \<and> pb_devices (st_body (os_policy s)) = [\<lparr>dv_public = pub, dv_label = label, dv_roles = roles_owner, dv_revoked_at = None\<rparr>]
        \<and> floor_read P (lock_floor R) (w_files w') = Inr (Some (floor_at i (os_manifest s))))"
  using initialize_effect [OF assms] by blast

section \<open>Errors\<close>

lemma prepare_genesis_keeps_head:
  assumes R: "er_storage R = directory_storage P' io (storage_dir dir)" and run: "prepare_genesis P R rnd label w = (r, w')"
  shows "fs_read_head (storage_dir dir) (w_storage w') = fs_read_head (storage_dir dir) (w_storage w) \<and> w_files w' = w_files w"
proof -
  let ?keep = "\<lambda>w w'. fs_read_head (storage_dir dir) (w_storage w') = fs_read_head (storage_dir dir) (w_storage w)
    \<and> w_files w' = w_files w"
  have rel: "reflp ?keep" "transp ?keep" by (auto simp: reflp_def transp_def)
  have put: "act_keeps ?keep (on_storage (so_put_object_if_absent (er_storage R) k i b))" for k i b
    using fs_put_keeps_head R by (fastforce simp: act_keeps_def on_storage_def split: prod.splits)
  have "act_keeps ?keep (prepare_genesis P R rnd label)"
    unfolding prepare_genesis_def seal_and_store_manifest_def Let_def
    by (intro act_keeps_then [OF rel(2)] act_keeps_ret [OF rel(1)] act_keeps_get [OF rel(1)] put)
      (auto intro!: act_keeps_then [OF rel(2)] act_keeps_ret [OF rel(1)] put split: prod.split)
  then show ?thesis using run unfolding act_keeps_def by (metis snd_conv)
qed

lemma replace_result_not_occupied: "replace_result x = Inl e \<Longrightarrow> \<not> downcast is_StorageOccupied e"
  by (cases x rule: replace_result.cases) auto

lemma replace_root_file_not_occupied:
  "replace_root_file io dir name data fs = (Inl e, fs') \<Longrightarrow> \<not> downcast is_StorageOccupied e"
  by (auto simp: replace_root_file_def split: prod.splits dest: replace_result_not_occupied)

lemma stored_head_parse_not_occupied: "stored_head_parse h = Inl e \<Longrightarrow> \<not> downcast is_StorageOccupied e"
  by (cases h) (auto simp: ok_or_def split: option.splits)

lemma fs_read_head_not_occupied: "fs_read_head dir fs = Inl e \<Longrightarrow> \<not> downcast is_StorageOccupied e"
  by (auto simp: fs_read_head_def fs_check_format_def read_root_file_def check_storage_format_def
      and_then_eq_Inl stored_head_parse_not_occupied split: option.splits bounded.splits if_splits)

lemma fs_cas_not_occupied:
  assumes "fs_compare_and_swap_head io dir e n fs = (Inl x, fs')"
  shows "\<not> downcast is_StorageOccupied x"
proof -
  have genesis: "\<not> downcast is_StorageOccupied y" if "write_genesis_files io dir fs = (Inl y, fs1)" for y fs1
    using that by (auto simp: write_genesis_files_def Let_def split: if_splits prod.splits sum.splits
        dest: replace_root_file_not_occupied)
  have "\<not> downcast is_StorageOccupied y" if "fs_publish_head io dir g n fs = (Inl y, fs1)" for g y fs1
    using that genesis by (cases g) (auto simp: fs_publish_head_def split: prod.splits sum.splits dest: replace_root_file_not_occupied)
  moreover have "\<not> downcast is_StorageOccupied y" if "validate_id n = Inl y" for y
    using that by (auto simp: validate_id_def bail_if_def split: if_splits)
  ultimately show ?thesis
    using assms fs_read_head_not_occupied
    by (auto simp: fs_compare_and_swap_head_def split: sum.splits if_splits)
qed

lemma initialize_outcomes:
  assumes st: "er_storage R = directory_storage P' io (storage_dir dir)"
  shows "case initialize P R rnd label w of
        (Inl (BeforePublication e), w') \<Rightarrow> fs_read_head (storage_dir dir) (w_storage w') = fs_read_head (storage_dir dir) (w_storage w) \<and> w_files w' = w_files w
      | (Inl (PublicationUncertain e), w') \<Rightarrow> w_files w' = w_files w \<and>
          (fs_read_head (storage_dir dir) (w_storage w') = fs_read_head (storage_dir dir) (w_storage w) \<or>
           fs_read_head (storage_dir dir) (w_storage w) = Inr None \<and> (\<exists>i. fs_read_head (storage_dir dir) (w_storage w') = Inr (Some i)))
      | (Inl (AfterPublication i e), w') \<Rightarrow> w_files w' = w_files w \<and>
          fs_read_head (storage_dir dir) (w_storage w) = Inr None \<and> fs_read_head (storage_dir dir) (w_storage w') = Inr (Some i)
      | (Inr i, w') \<Rightarrow> fs_read_head (storage_dir dir) (w_storage w) = Inr None \<and> fs_read_head (storage_dir dir) (w_storage w') = Inr (Some i)"
proof -
  obtain r1 w1 where p: "prepare_genesis P R rnd label w = (r1, w1)" by fastforce
  note keep = prepare_genesis_keeps_head [OF st p]
  show ?thesis
  proof (cases r1)
    case (Inl e)
    then show ?thesis using p keep by (simp add: initialize_def)
  next
    case (Inr x)
    obtain floor genesis i where x: "x = (floor, genesis, i)" by (rule prod_cases3)
    obtain r2 s where c: "fs_compare_and_swap_head io (storage_dir dir) None i (w_storage w1) = (r2, s)" by fastforce
    note cas = fs_cas_cases [OF c storage_dir_not_Nil]
    show ?thesis
    proof (cases r2)
      case (Inl e)
      then show ?thesis
        using p Inr x c cas keep st fs_cas_not_occupied [of io "storage_dir dir" None i "w_storage w1" e s]
        by (auto simp: initialize_def on_storage_def)
    next
      case r2: (Inr u)
      then show ?thesis
        using p Inr x c cas keep st
        by (cases "floor_advance P floor (floor_at i genesis) (w_files w1)")
          (auto simp: initialize_def on_storage_def advance_floor_def on_files_def)
    qed
  qed
qed

lemma initialize_files:
  assumes "er_storage R = directory_storage P' io (storage_dir dir)"
    and "initialize P R rnd label w = (Inr i, w')" and "p \<noteq> lock_floor R"
  shows "w_files w' p = w_files w p"
proof (rule initialize_ok [OF assms(2)])
  fix floor genesis w1 s fs
  assume prep: "prepare_genesis P R rnd label w = (Inr (floor, genesis, i), w1)"
    and adv: "floor_advance P floor (floor_at i genesis) (w_files w1) = Inr fs" and w': "w' = w1\<lparr>w_storage := s, w_files := fs\<rparr>"
  from prep have "floor = lock_floor R" by (rule prepare_genesis_ok)
  then have "fs p = w_files w1 p"
    using adv assms(3) by (auto simp: floor_advance_def and_then_eq_Inr bail_if_eq_Inr write_json_def split: option.splits if_splits)
  then show ?thesis using w' prepare_genesis_keeps_head [OF assms(1) prep] by simp
qed



section \<open>The key that signs the genesis\<close>

text \<open>Whoever reads the stored genesis obtains the key that sealed it, or none.\<close>

lemma unwrapped_key_unique:
  assumes "hex_laws P" and "binding_commitment P gk" and "open_manifest P enc gk = Inr om"
    and "unwrap_generation_key P (om_header om) key = Inr gk'"
  shows "gk' = gk"
proof -
  have "length gk' = 32" "verify_key_commitment P gk' (mh_key_commitment (om_header om)) = Inr ()"
    using assms(4) by (auto simp: unwrap_generation_key_def and_then_eq_Inr bail_if_eq_Inr dest: unwrap_loop_commitment)
  then show ?thesis
    using open_manifest_generation [OF assms(3)] assms(1,2) by (auto simp: verify_key_commitment_ok binding_commitment_def)
qed

text \<open>C35. Initialization does not check that the key it is given is the key of the repository root. With a
  key made for another repository's root (\<^verbatim>\<open>keygen --repository-root\<close>) it succeeds, publishes a
  genesis and pins it, but then no device at all can read the storage: every chain from its
  head is rejected.\<close>

theorem member_key_genesis_is_unreadable:
  assumes laws: "library_laws P" and rnd: "sound_random P rnd"
    and R: "er_storage R = directory_storage P io (storage_dir dir)"
    and foreign: "key_public_device P (er_key R) = Inr pub"
      "repository_root_for_device P pub \<noteq> Inr (kf_repository_root (er_key R))"
    and run: "initialize P R rnd label w = (Inr i, w')"
    and fresh: "w_storage w (object_path (storage_dir dir) Manifest i) = None"
  shows "\<forall>R'. er_storage R' = er_storage R \<longrightarrow> (\<exists>e. current_chain P R' (w_storage w') = Inl e)"
proof (rule initialize_stores [OF laws rnd R run fresh])
  fix policy bytes enc om
  assume policy: "policy_genesis P (er_key R) label = Inr (policy, bytes)"
    and head: "fs_read_head (storage_dir dir) (w_storage w') = Inr (Some i)" and i: "i = object_id P enc"
    and get: "so_get_object (er_storage R) Manifest i (w_storage w') = Inr enc"
    and om: "open_manifest P enc (pr_key rnd) = Inr om"
    and m: "om_manifest om = manifest_genesis (kf_repository_root (er_key R)) policy bytes"
  have l: "policy_json_laws P" "b64_laws P" "hex_laws P" using laws by (simp_all add: library_laws_def)
  have binding: "binding_commitment P (pr_key rnd)" using rnd by (simp add: sound_random_def)
  have root: "pb_repository_root (st_body policy) = kf_repository_root (er_key R)"
    and devices: "pb_devices (st_body policy) = [\<lparr>dv_public = pub, dv_label = label, dv_roles = roles_owner, dv_revoked_at = None\<rparr>]"
    and parse: "policy_parse P bytes = Inr policy"
    by (rule policy_genesis_parts [OF policy], use foreign l in simp)+
  have bad: "policy_validate_genesis P policy r \<noteq> Inr ()" for r
    using root devices foreign(2) by (auto simp: policy_validate_genesis_def bail_if_eq_Inr and_then_eq_Inr)
  have read: "read_manifest_material P (\<lambda>j. so_get_object (er_storage R) Manifest j (w_storage w')) i = Inr (i, enc, om_header om)"
    using get i open_manifest_peek [OF om] by (simp add: read_manifest_material_ok)
  show ?thesis
  proof (intro allI impI)
    fix R' :: "tree encrypted_repository"
    assume R': "er_storage R' = er_storage R"
    have "\<exists>e. fst (chain_from P (er_key R') i (read_material P R' (w_storage w')) None) = Inl e"
    proof (cases "unwrap_generation_key P (om_header om) (er_key R')")
      case (Inl e)
      then show ?thesis using read R' by (simp add: chain_from_def read_material_def charge_def)
    next
      case (Inr gk)
      then have gk: "gk = pr_key rnd" by (rule unwrapped_key_unique [OF l(3) binding om])
      obtain e where "policy_validate_genesis P policy (kf_repository_root (er_key R')) = Inl e"
        using bad by (cases "policy_validate_genesis P policy (kf_repository_root (er_key R'))") auto
      then show ?thesis
        using read R' Inr gk om m parse
        by (simp add: chain_from_def read_material_def charge_def chain_loop.simps verify_opened_chain_def select_policy_def
            manifest_genesis_def)
    qed
    then show "\<exists>e. current_chain P R' (w_storage w') = Inl e"
      using head R R' by (auto simp: current_chain_def)
  qed
qed

end
