(* ===== verification/Sample_Repository.thy ===== *)
theory Sample_Repository
  imports Sample_Chain Push_Facts Initialization
begin

text \<open>
  A repository on a directory storage, run with the concrete primitives: the owner initializes
  it, adds a device, revokes it and pushes a branch. The closed instances of the properties of
  the repository's operations are taken from this run.
\<close>

section \<open>Primitives and the repository\<close>

definition progress_enc :: "checkout_progress \<Rightarrow> bytes" where
  "progress_enc p = enc_u32 (cg_format_version p) @ enc_option enc_u64 (cg_imported_generation p)
     @ enc_list enc_ref (cg_verified_refs p)"

definition progress_dec :: "checkout_progress dec" where
  "progress_dec = dec_then dec_u32 (\<lambda>a. dec_then (dec_option dec_u64) (\<lambda>b. dec_then (dec_list dec_ref) (\<lambda>c.
     dec_done \<lparr>cg_format_version = a, cg_imported_generation = b, cg_verified_refs = c\<rparr>)))"

definition enc_class :: "recovery_class enc" where
  "enc_class c = [case c of Valid \<Rightarrow> 0 | Invalid \<Rightarrow> 1 | Unverifiable \<Rightarrow> 2 | UnsupportedFormat \<Rightarrow> 3 | Unavailable \<Rightarrow> 4 | Discontinuous \<Rightarrow> 5]"

fun dec_class :: "recovery_class dec" where
  "dec_class [] = None"
| "dec_class (b # bs) = Some (if b = 0 then Valid else if b = 1 then Invalid else if b = 2 then Unverifiable
     else if b = 3 then UnsupportedFormat else if b = 4 then Unavailable else Discontinuous, bs)"

definition enc_evidence :: "rejected_head_evidence enc" where
  "enc_evidence e = enc_string (re_head_id e) @ enc_class (re_classification e) @ enc_string (re_reason e)"

definition dec_evidence :: "rejected_head_evidence dec" where
  "dec_evidence = dec_then dec_string (\<lambda>a. dec_then dec_class (\<lambda>b. dec_then dec_string (\<lambda>c.
     dec_done \<lparr>re_head_id = a, re_classification = b, re_reason = c\<rparr>)))"

definition log_enc :: "rejected_head_log \<Rightarrow> bytes" where
  "log_enc l = enc_u32 (rl_format_version l) @ enc_list enc_evidence (rl_entries l)"

definition log_dec :: "rejected_head_log dec" where
  "log_dec = dec_then dec_u32 (\<lambda>a. dec_then (dec_list dec_evidence) (\<lambda>b.
     dec_done \<lparr>rl_format_version = a, rl_entries = b\<rparr>))"

lemma codec_evidence: "dec_evidence (enc_evidence x @ r) = Some (x, r)"
  by (cases "re_classification x") (simp_all add: dec_evidence_def enc_evidence_def enc_class_def dec_simps)

lemma codec_log: "whole log_dec (log_enc l) = Some l"
proof (rule whole_enc)
  show "log_dec (log_enc l @ r) = Some (l, r)" for r
    by (simp add: log_dec_def log_enc_def dec_simps codec_evidence)
qed

definition rp :: repository_prims where
  "rp = sample \<lparr>floor_to_vec = floor_enc, floor_of_slice = whole floor_dec,
     progress_to_vec = progress_enc, progress_of_slice = whole progress_dec,
     rejected_log_to_vec = log_enc, rejected_log_of_slice = whole log_dec\<rparr>"

lemma rp_laws: "library_laws rp"
proof -
  have "floor_dec (floor_enc f @ r) = Some (f, r)" for f r
    by (simp add: floor_dec_def floor_enc_def dec_simps)
  then have "whole floor_dec (floor_enc f) = Some f" for f by (rule whole_enc)
  then have "floor_json_laws rp" by (simp add: floor_json_laws_def rp_def sample_def)
  then show ?thesis by (simp add: library_laws_def rp_def sample_stream_laws)
qed

definition sample_publication :: publication_random where
  "sample_publication = \<lparr>pr_key = sample_gk, pr_link_nonce = replicate 24 0, pr_pack_nonce = replicate 19 5,
     pr_manifest = sample_random\<rparr>"

lemma sample_publication_sound: "sound_random rp sample_publication"
  by (simp add: sound_random_def sample_publication_def sample_random_def rp_def sample_binding sample_gk_def
      PACK_STREAM_NONCE_SIZE_def)

text \<open>The user's Git repository: every object is a commit, a history is linear in no way but equality,
  and a pack is three bytes.\<close>

definition sample_git :: "unit git_ops" where
  "sample_git = \<lparr>go_cat_check = \<lambda>g i. Inr (as_bytes (i @ '' commit 10'' @ [CHR 0x0A])),
     go_cat_batch = \<lambda>g i. Inl (err InvalidState),
     go_rev_parse = \<lambda>g r. Inr (True, as_bytes (r @ [CHR 0x0A])),
     go_is_shallow = \<lambda>g. Inr (True, as_bytes ''false''), go_promisor_config = \<lambda>g. Inr (Some 1, []),
     go_merge_base = \<lambda>g a b. Inr (Some (if a = b then 0 else 1)), go_rev_list = \<lambda>g a b. Inr (True, []),
     go_ls_tree = \<lambda>g t. Inr (True, []), go_pack_objects = \<lambda>g a b. Inr (True, [1, 2, 3]),
     go_index_pack = \<lambda>b g. (Inr True, g), go_update_ref = \<lambda>r i g. (Inr True, g)\<rparr>"

abbreviation sample_dir :: string where
  "sample_dir \<equiv> storage_dir ''d''"

text \<open>The repository as the device with the given secrets opens it.\<close>

definition repo_of :: "byte \<Rightarrow> byte \<Rightarrow> tree encrypted_repository" where
  "repo_of s w = \<lparr>er_storage = directory_storage rp quiet_io sample_dir, er_key = sample_key s w, er_state_dir = ''s''\<rparr>"

abbreviation sample_repo :: "tree encrypted_repository" where
  "sample_repo \<equiv> repo_of 1 2"

definition sample_checkout :: "unit git_repository" where
  "sample_checkout = \<lparr>gr_git_dir = ''g'', gr_ops = sample_git\<rparr>"

lemma repo_of_fields [simp]: "er_storage (repo_of s w) = directory_storage rp quiet_io sample_dir"
  "er_key (repo_of s w) = sample_key s w" "kf_repository_root (sample_key s w) = sample_root"
  by (simp_all add: repo_of_def sample_key_def)

lemma rp_device [simp]: "key_public_device rp (sample_key s w) = Inr (sample_device s w)"
  "key_device_id rp (sample_key s w) = Inr (sample_id w)"
  by (simp_all add: rp_def key_device_id_def)

section \<open>What the owner seals\<close>

lemma length_enc_string [simp]: "length (enc_string s) = Suc (2 * length s)"
  by (simp add: enc_string_def)

lemma length_enc_words [simp]: "length (enc_u64 v) = 8" "length (enc_u32 u) = 4"
  by (simp_all add: enc_u64_def enc_u32_def u64_to_le_bytes_def u32_to_le_bytes_def)

lemma sample_codecs:
  "manifest_envelope_to_vec (sample x) = enc_envelope" "manifest_header_to_vec (sample x) = enc_header"
  "sealed_envelope_to_vec (sample x) = enc_sealed_envelope" "sealed_content_to_vec (sample x) = enc_content"
  "manifest_body_to_vec (sample x) = enc_body" "sha256 (sample x) b = pad_to 32 (rev b)"
  "policy_body_to_vec (sample x) = enc_policy_body" "policy_object_to_vec (sample x) = enc_policy_object"
  by (simp_all add: sample_def)

lemma length_sample_digest [simp]: "length (s_hex_encode b) = 2 * length b"
  using s_hex by simp

lemma length_sample_id [simp]: "length (sample_id w) = 64" "length sample_root = 64"
  by (simp_all add: sample_id_def sample_root_def)

lemma length_codecs:
  "length (enc_header h) = 17 + 2 * length (mh_repository_root h) + (case mh_previous h of None \<Rightarrow> 0 | Some i \<Rightarrow> Suc (2 * length i))
     + 2 * length (mh_key_commitment h) + length (enc_list enc_key_envelope (mh_generation_key_envelopes h))
     + 2 * length (mh_body_digest h) + 2 * length (mh_sealed_header_digest h)"
  "length (enc_content c) = 2 * length (sc_policy_id c) + 2 * length (sc_signer_device_id c)
     + length (enc_list enc_audit (sc_envelope_audit c)) + 19"
  by (auto simp: enc_header_def enc_content_def enc_authorization_def split: option.splits)

lemma object_id_mark: "object_id (sample x) (b @ [c]) = s_hex_encode (c # take 31 (rev b @ replicate 32 0))"
  by (simp add: object_id_def sample_codecs pad_to_def)

lemma solo_sealed_bytes:
  assumes seal: "seal_manifest (sample x) sample_random (sample_key s w) policy gk auth m = Inr enc"
    and "active_readers policy = [solo s w]" and gk: "length gk = 32" and "mf_repository_root m = sample_root"
    and "length (mf_policy_id m) = 64" and "\<And>i. mf_previous m = Some i \<Longrightarrow> length i = 64"
    and body: "length (enc_body \<lparr>mb_refs = mf_refs m, mb_new_packs = mf_new_packs m,
       mb_predecessor_key_wrap = mf_predecessor_key_wrap m,
       mb_introduced_policy = map_option string_of_bytes (mf_introduced_policy m)\<rparr>) \<le> 1000000"
  shows "take 2 (object_id (sample x) enc) = s_hex_encode [ucast (mf_generation m)]" and "length enc \<le> MAX_MANIFEST_BYTES"
proof -
  from solo_envelopes [OF assms(2) gk, of x m "commit_key (sample x) gk"] obtain es audit where
    es: "build_envelopes (sample x) sample_random policy m gk (commit_key (sample x) gk) = Inr (es, audit)"
      "length (enc_list enc_key_envelope es) = 653" "length (enc_list enc_audit audit) = 203" by blast
  obtain h c where
    enc: "enc = enc_envelope \<lparr>me_header = string_of_bytes (enc_header h),
        me_sealed_header_ciphertext = string_of_bytes (SYMMETRIC_MAGIC @ replicate 24 1 @ enc_sealed_envelope
          \<lparr>se_content = string_of_bytes (enc_content c), se_signature = string_of_bytes (replicate 32 s)\<rparr> @ tag16),
        me_body_ciphertext = string_of_bytes (SYMMETRIC_MAGIC @ replicate 24 0 @ enc_body \<lparr>mb_refs = mf_refs m,
          mb_new_packs = mf_new_packs m, mb_predecessor_key_wrap = mf_predecessor_key_wrap m,
          mb_introduced_policy = map_option string_of_bytes (mf_introduced_policy m)\<rparr> @ tag16)\<rparr>"
    and h: "mh_generation h = mf_generation m" "mh_generation_key_envelopes h = es" "mh_previous h = mf_previous m"
      "length (mh_body_digest h) = 64" "length (mh_sealed_header_digest h) = 64" "length (mh_key_commitment h) = 64"
      "mh_repository_root h = sample_root"
    and c: "sc_policy_id c = mf_policy_id m" "sc_signer_device_id c = sample_id w" "sc_envelope_audit c = audit"
    using seal es assms(4)
    by (auto simp: seal_manifest_def and_then_eq_Inr bail_if_eq_Inr Let_def sample_codecs key_device_id_def commit_key_def
        sample_random_def)
  have "generation_mark \<lparr>me_header = string_of_bytes (enc_header h), me_sealed_header_ciphertext = t,
      me_body_ciphertext = b\<rparr> = ucast (mf_generation m)" for t b
    by (simp add: generation_mark_def whole_codecs h)
  then obtain pre where "enc = pre @ [ucast (mf_generation m)]" unfolding enc enc_envelope_def by auto
  then show "take 2 (object_id (sample x) enc) = s_hex_encode [ucast (mf_generation m)]" by (simp add: object_id_mark)
  have "length (enc_header h) \<le> 1500"
    using h es assms(6) by (auto simp: length_codecs split: option.splits)
  moreover have "length (enc_content c) = 478" using c es assms(5) by (simp add: length_codecs)
  ultimately show "length enc \<le> MAX_MANIFEST_BYTES"
    using body unfolding enc
    by (simp add: enc_envelope_def enc_sealed_envelope_def tag16_def MAX_MANIFEST_BYTES_def SYMMETRIC_MAGIC_def
        format_version_text_def)
qed


section \<open>A storage without faults\<close>

definition tidy :: "tree \<Rightarrow> bool" where
  "tidy fs \<longleftrightarrow> (\<forall>(name, r) \<in> {(''HEAD'', ''c''), (''FORMAT'', ''b''), (''README.md'', ''a'')}.
     fs (temporary_path sample_dir name r) = None)"

lemma quiet_replace:
  assumes "name \<in> {''HEAD'', ''FORMAT'', ''README.md''}" and "fs (temporary_path sample_dir name r) = None"
  shows "replace_root_file (None, r) sample_dir name data fs = (Inr (), fs(join_path sample_dir name \<mapsto> RegularFile data))"
proof -
  have "single_component name" using assms(1) by (auto simp: single_component_def)
  moreover have "fs(temporary_path sample_dir name r := None, p \<mapsto> e) = fs(p \<mapsto> e)" for p e
    using fun_upd_idem [of fs, OF assms(2)] by simp
  ultimately show ?thesis using assms(2)
    by (simp add: replace_root_file_def replace_file_durably_def Let_def)
qed

lemma tidy_root_file:
  "tidy fs \<Longrightarrow> name \<in> {''HEAD'', ''FORMAT'', ''README.md''} \<Longrightarrow> tidy (fs(join_path sample_dir name \<mapsto> e))"
  by (auto simp: tidy_def temporary_path_def)

lemma tidy_object: "tidy fs \<Longrightarrow> tidy (fs(object_path sample_dir k i \<mapsto> e))"
  by (cases k) (auto simp: tidy_def temporary_path_def)

lemma quiet_swap:
  assumes "validate_id n = Inr ()" and "fs_read_head sample_dir fs = Inr e" and "tidy fs"
  obtains fs' where "fs_compare_and_swap_head quiet_io sample_dir e n fs = (Inr (), fs')" "tidy fs'"
proof -
  define fs1 where "fs1 = (if fs (join_path sample_dir ''README.md'') = None
    then fs(join_path sample_dir ''README.md'' \<mapsto> RegularFile (as_bytes (storage_readme ''This directory''))) else fs)"
  have fs1: "tidy fs1" using assms(3) tidy_root_file [of fs "''README.md''"] by (simp add: fs1_def)
  note t = assms(3) [unfolded tidy_def] fs1 [unfolded tidy_def]
  have readme: "(if fs (join_path sample_dir ''README.md'') = None
      then replace_root_file (None, ''a'') sample_dir ''README.md'' (as_bytes (storage_readme ''This directory'')) fs
      else (Inr (), fs)) = (Inr (), fs1)"
    using t by (simp add: quiet_replace fs1_def)
  let ?fs2 = "fs1(join_path sample_dir ''FORMAT'' \<mapsto> RegularFile STORAGE_FORMAT)"
  have genesis: "write_genesis_files quiet_io sample_dir fs = (Inr (), ?fs2)"
    unfolding write_genesis_files_def quiet_io_def cas_io.simps readme Let_def using t by (simp add: quiet_replace)
  let ?fs3 = "if e = None then ?fs2 else fs"
  have t3: "tidy ?fs3" using fs1 assms(3) tidy_root_file [of fs1 "''FORMAT''"] by simp
  then have head: "replace_root_file (io_head quiet_io) sample_dir ''HEAD'' b ?fs3
      = (Inr (), ?fs3(join_path sample_dir ''HEAD'' \<mapsto> RegularFile b))" for b
    unfolding quiet_io_def cas_io.simps by (intro quiet_replace) (simp_all add: tidy_def)
  have "fs_publish_head quiet_io sample_dir (e = None) n fs
      = (Inr (), ?fs3(join_path sample_dir ''HEAD'' \<mapsto> RegularFile (as_bytes (n @ [CHR 0x0A]))))"
    using genesis head [of "as_bytes (n @ [CHR 0x0A])"] by (cases e) (simp_all add: fs_publish_head_def)
  then have "fs_compare_and_swap_head quiet_io sample_dir e n fs
      = (Inr (), ?fs3(join_path sample_dir ''HEAD'' \<mapsto> RegularFile (as_bytes (n @ [CHR 0x0A]))))"
    using assms by (simp add: fs_compare_and_swap_head_def)
  then show thesis by (rule that) (rule tidy_root_file [OF t3], simp)
qed

lemma sample_object_id [simp]: "validate_id (object_id (sample x) b) = Inr ()"
  using s_hex by (simp add: validate_id_ok object_id_def)

lemma quiet_put:
  assumes "length b \<le> kind_max_bytes k" and "fs (object_path sample_dir k (object_id (sample x) b)) = None"
  shows "fs_put_object_if_absent (sample x) sample_dir k (object_id (sample x) b) b fs
    = (Inr (), fs(object_path sample_dir k (object_id (sample x) b) \<mapsto> RegularFile b))"
  using assms sample_object_id [of x b]
  by (simp add: fs_put_object_if_absent_def stage_write_all_def stage_write_def stage_wrap_def stage_finish_def
      fs_publish_def object_id_def Let_def bail_if_def)


section \<open>Commits by the owner\<close>

text \<open>The manifests stored so far carry the generations below the next one.\<close>

definition marked :: "nat \<Rightarrow> tree \<Rightarrow> bool" where
  "marked n fs \<longleftrightarrow> (\<forall>i. length i = 64 \<and> fs (object_path sample_dir Manifest i) \<noteq> None \<longrightarrow>
     (\<exists>g < n. take 2 i = s_hex_encode [of_nat g]))"

lemma s_hex_encode_inject [simp]: "s_hex_encode a = s_hex_encode b \<longleftrightarrow> a = b"
  using s_hex by (metis option.inject)

lemma marked_fresh:
  assumes "marked n fs" and "n < 256" and "length i = 64" and "take 2 i = s_hex_encode [of_nat n]"
  shows "fs (object_path sample_dir Manifest i) = None"
proof (rule ccontr)
  assume "fs (object_path sample_dir Manifest i) \<noteq> None"
  then obtain g where g: "g < n" "take 2 i = s_hex_encode [of_nat g]"
    using assms(1) [unfolded marked_def, rule_format, of i] assms(3) by blast
  with assms(4) have "(of_nat g :: byte) = of_nat n" by (metis list.inject s_hex_encode_inject)
  then have "unat (of_nat g :: byte) = unat (of_nat n :: byte)" by simp
  with g(1) assms(2) show False by (simp add: unat_of_nat)
qed

lemma object_path_inject: "length i = 64 \<Longrightarrow> length j = 64 \<Longrightarrow> object_path d k i = object_path d k j \<longleftrightarrow> i = j"
  by auto

lemma marked_put:
  assumes "marked n fs" and "length j = 64" and "take 2 j = s_hex_encode [of_nat n]"
  shows "marked (Suc n) (fs(object_path sample_dir Manifest j \<mapsto> e))"
  using assms unfolding marked_def
  by (metis (no_types, lifting) fun_upd_other less_Suc_eq object_path_inject)

lemma length_object_id [simp]: "length (object_id (sample x) b) = 64"
  by (simp add: object_id_def)

lemma length_rp_object_id [simp]: "length (object_id rp b) = 64"
  by (simp add: rp_def)

lemma owner_head:
  assumes "current_chain rp sample_repo s = Inr (c # ps)"
  shows "length (os_id c) = 64" and "mh_repository_root (os_header c) = sample_root"
    and "verify_key_commitment rp (os_generation_key c) (mh_key_commitment (os_header c)) = Inr ()"
    and "mh_generation (os_header c) = mf_generation (os_manifest c)"
    and "mf_repository_root (os_manifest c) = sample_root" and "unat (mf_generation (os_manifest c)) = length ps"
proof -
  from assms obtain head b where
    cf: "chain_from rp (sample_key 1 2) head (read_manifest_material rp (\<lambda>i. so_get_object (er_storage sample_repo) Manifest i s)) None
       = (Inr (c # ps), b)"
    by (auto simp: current_chain_ok)
  have "c \<in> set (c # ps)" by simp
  from chain_entries_stored [OF cf this] obtain enc om where
    "object_id rp enc = os_id c" "open_manifest rp enc (os_generation_key c) = Inr om"
    "om_manifest om = os_manifest c" "om_header om = os_header c" by metis
  note e = this
  note auth = current_chain_sound [OF assms]
  show "length (os_id c) = 64" using e(1) unfolding rp_def by (metis length_object_id)
  show "mf_repository_root (os_manifest c) = sample_root" using authentic_chain_root [OF auth] by simp
  moreover have "mf_repository_root (om_manifest om) = mh_repository_root (om_header om)"
    using e(2) by (auto simp: open_manifest_def and_then_eq_Inr bail_if_eq_Inr Let_def)
  ultimately show "mh_repository_root (os_header c) = sample_root" using e by simp
  show "verify_key_commitment rp (os_generation_key c) (mh_key_commitment (os_header c)) = Inr ()"
    using open_manifest_generation [OF e(2)] e(4) by simp
  show "mh_generation (os_header c) = mf_generation (os_manifest c)" using open_manifest_generation [OF e(2)] e by simp
  show "unat (mf_generation (os_manifest c)) = length ps" by (rule authentic_chain_generation [OF auth])
qed


lemma owner_stores:
  fixes w :: "(tree, 'g) world"
  assumes chain: "current_chain rp sample_repo (w_storage w) = Inr (c # ps)" and key: "os_generation_key c = sample_gk"
    and tidy: "tidy (w_storage w)" "marked (Suc (length ps)) (w_storage w)" "length ps < 200"
    and succ: "manifest_validate_successor rp m (os_id c) (os_manifest c) policy = Inr ()"
    and policy: "wf_policy rp (st_body policy)" "active_readers policy = [owner]" "length (st_id policy) = 64"
    and link: "wrap_predecessor_key rp (replicate 24 0) sample_gk sample_gk sample_root (mf_generation m) (os_id c)
       = Inr link" "mf_predecessor_key_wrap m = Some link"
    and sign: "may_sign policy parent (mf_authorization m) (sample_id 2)"
      "policy_device (case (mf_authorization m, parent) of (PolicyTransition, Some p) \<Rightarrow> p | _ \<Rightarrow> policy) (sample_id 2) = Some owner"
    and body: "length (enc_body \<lparr>mb_refs = mf_refs m, mb_new_packs = mf_new_packs m,
       mb_predecessor_key_wrap = mf_predecessor_key_wrap m,
       mb_introduced_policy = map_option string_of_bytes (mf_introduced_policy m)\<rparr>) \<le> 1000000"
  obtains i enc where "length i = 64" "validate_id i = Inr ()" "take 2 i = s_hex_encode [of_nat (Suc (length ps))]"
    "w_storage w (object_path sample_dir Manifest i) = None"
    "\<And>v :: (tree, 'g) world. w_storage v (object_path sample_dir Manifest i) = None \<Longrightarrow>
      fs_put_object_if_absent rp sample_dir Manifest i enc (w_storage v)
        = (Inr (), (w_storage v)(object_path sample_dir Manifest i \<mapsto> RegularFile enc))
      \<and> seal_and_store_manifest rp sample_repo sample_random (Some c) policy parent sample_gk (mf_authorization m) m v
        = (Inr i, v\<lparr>w_storage := (w_storage v)(object_path sample_dir Manifest i \<mapsto> RegularFile enc)\<rparr>)"
proof -
  note head = owner_head [OF chain] and mf = successor_manifest_facts [OF succ]
  have gk: "length sample_gk = 32" by (simp add: sample_gk_def)
  have l: "manifest_json_laws rp" "b64_laws rp" "hex_laws rp" "aead_laws rp" "signature_laws rp"
    using rp_laws by (simp_all add: library_laws_def)
  have root: "mf_repository_root m = sample_root" using mf head by simp
  have "\<exists>enc. seal_manifest rp sample_random (sample_key 1 2) policy sample_gk (mf_authorization m) m = Inr enc"
    unfolding rp_def
    by (rule solo_seals [of _ 1 2, unfolded solo_owner, OF policy(2) gk root, where e = "err (Unsupported ''checkpoint transitions are reserved but not implemented'')"])
      (use succ [unfolded rp_def] in \<open>auto simp: manifest_validate_successor_def validate_authorization_def and_then_eq_Inr
        bail_if_eq_Inr split: manifest_authorization.splits\<close>)
  then obtain enc where seal: "seal_manifest rp sample_random (sample_key 1 2) policy sample_gk (mf_authorization m) m = Inr enc"
    by blast
  have gen: "mf_generation m = of_nat (Suc (length ps))"
  proof -
    have "mf_generation m = of_nat (unat (mf_generation m))" by simp
    then show ?thesis using mf head(6) by simp
  qed
  have "length (mf_policy_id m) = 64" "\<And>i. mf_previous m = Some i \<Longrightarrow> length i = 64"
    using mf policy(3) head(1) by auto
  note sealed = solo_sealed_bytes [of _ 1 2, unfolded solo_owner, OF seal [unfolded rp_def] policy(2) gk root this body, folded rp_def]
  let ?i = "object_id rp enc"
  have i: "length ?i = 64" "validate_id ?i = Inr ()" unfolding rp_def by simp_all
  have "(ucast (of_nat (Suc (length ps)) :: u64) :: byte) = of_nat (Suc (length ps))"
    using tidy(3) by (simp only: unsigned_of_nat) (simp add: take_bit_nat_eq_self)
  with sealed(1) gen have mark: "take 2 ?i = s_hex_encode [of_nat (Suc (length ps))]" by simp
  have fresh: "w_storage w (object_path sample_dir Manifest ?i) = None"
    by (rule marked_fresh [OF tidy(2) _ i(1) mark]) (use tidy(3) in simp)
  have put: "fs_put_object_if_absent rp sample_dir Manifest ?i enc fs = (Inr (), fs(object_path sample_dir Manifest ?i \<mapsto> RegularFile enc))"
    if "fs (object_path sample_dir Manifest ?i) = None" for fs
    using quiet_put [of enc Manifest fs] that sealed(2) unfolding rp_def by simp
  have "\<exists>om. open_manifest rp enc sample_gk = Inr om \<and> om_manifest om = m
    \<and> om_claimed_signer_id om = pd_device_id (sample_device 1 2) \<and> verify_manifest rp om policy parent sample_gk = Inr ()"
    by (rule sealed_manifest_verifies [OF l _ _ _ _ policy(1) seal, where d = owner])
      (use sign mf in \<open>auto simp: sample_random_def well_placed_def rp_def\<close>)
  then obtain om where om: "open_manifest rp enc sample_gk = Inr om" "om_manifest om = m"
    "verify_manifest rp om policy parent sample_gk = Inr ()" by blast
  have "unwrap_predecessor_key rp sample_gk m (os_header c) = Inr sample_gk"
    by (rule predecessor_key_unwraps [OF l(2-4) link(1) [folded root] _ gk])
      (use link mf head key root in simp_all)
  then have "seal_and_store_manifest rp sample_repo sample_random (Some c) policy parent sample_gk (mf_authorization m) m v
      = (Inr ?i, v\<lparr>w_storage := (w_storage v)(object_path sample_dir Manifest ?i \<mapsto> RegularFile enc)\<rparr>)"
    if "w_storage v (object_path sample_dir Manifest ?i) = None" for v :: "(tree, 'g) world"
    using succ seal put [of "w_storage v", OF that] om key open_manifest_generation [OF om(1)]
    by (simp add: seal_and_store_manifest_def Let_def act_then_def act_ret_def on_storage_def)
  from that [OF i mark fresh] this put show thesis by blast
qed

lemma owner_commits:
  fixes w :: "(tree, 'g) world"
  assumes chain: "current_chain rp sample_repo (w_storage w) = Inr (c # ps)" and key: "os_generation_key c = sample_gk"
    and tidy: "tidy (w_storage w)" "marked (Suc (length ps)) (w_storage w)" "length ps < 200"
    and succ: "manifest_validate_successor rp m (os_id c) (os_manifest c) policy = Inr ()"
    and policy: "wf_policy rp (st_body policy)" "active_readers policy = [owner]" "length (st_id policy) = 64"
    and link: "wrap_predecessor_key rp (replicate 24 0) sample_gk sample_gk sample_root (mf_generation m) (os_id c)
       = Inr link" "mf_predecessor_key_wrap m = Some link"
    and sign: "may_sign policy parent (mf_authorization m) (sample_id 2)"
      "policy_device (case (mf_authorization m, parent) of (PolicyTransition, Some p) \<Rightarrow> p | _ \<Rightarrow> policy) (sample_id 2) = Some owner"
    and body: "length (enc_body \<lparr>mb_refs = mf_refs m, mb_new_packs = mf_new_packs m,
       mb_predecessor_key_wrap = mf_predecessor_key_wrap m,
       mb_introduced_policy = map_option string_of_bytes (mf_introduced_policy m)\<rparr>) \<le> 1000000"
  obtains i w' where
    "commit_manifest rp sample_repo sample_random (Some c) policy parent sample_gk (mf_authorization m) m w = (Inr i, w')"
    "w_storage w (object_path sample_dir Manifest i) = None" "tidy (w_storage w')" "marked (Suc (Suc (length ps))) (w_storage w')"
proof (rule owner_stores [OF assms])
  fix i enc
  assume i: "length i = 64" "validate_id i = Inr ()" and mark: "take 2 i = s_hex_encode [of_nat (Suc (length ps))]"
    and fresh: "w_storage w (object_path sample_dir Manifest i) = None"
    and stores: "\<And>v :: (tree, 'g) world. w_storage v (object_path sample_dir Manifest i) = None \<Longrightarrow>
      fs_put_object_if_absent rp sample_dir Manifest i enc (w_storage v)
        = (Inr (), (w_storage v)(object_path sample_dir Manifest i \<mapsto> RegularFile enc))
      \<and> seal_and_store_manifest rp sample_repo sample_random (Some c) policy parent sample_gk (mf_authorization m) m v
        = (Inr i, v\<lparr>w_storage := (w_storage v)(object_path sample_dir Manifest i \<mapsto> RegularFile enc)\<rparr>)"
  let ?fs = "(w_storage w)(object_path sample_dir Manifest i \<mapsto> RegularFile enc)"
  note put = stores [OF fresh, THEN conjunct1] and store = stores [OF fresh, THEN conjunct2]
  have "so_read_head (er_storage sample_repo) (w_storage w) = Inr (Some (os_id c))"
    using chain chain_from_authentic(3) by (fastforce simp: current_chain_ok read_manifest_material_ok)
  then have "fs_read_head sample_dir ?fs = Inr (Some (os_id c))" using fs_put_keeps_head [OF put] by simp
  then obtain fs' where swap: "fs_compare_and_swap_head quiet_io sample_dir (Some (os_id c)) i ?fs = (Inr (), fs')" "tidy fs'"
    using quiet_swap [OF i(2), of ?fs "Some (os_id c)"] tidy_object [OF tidy(1)] by metis
  have "commit_manifest rp sample_repo sample_random (Some c) policy parent sample_gk (mf_authorization m) m w
      = (Inr i, w\<lparr>w_storage := fs'\<rparr>)"
    using store swap by (simp add: commit_manifest_def commit_manifest_with_observation_def act_then_def act_ret_def on_storage_def)
  moreover have "marked (Suc (Suc (length ps))) fs'"
    using marked_put [OF tidy(2) i(1) mark, of "RegularFile enc"]
      fs_cas_keeps_objects [OF swap(1) storage_dir_not_Nil, of Manifest] unfolding marked_def by metis
  ultimately show thesis using that fresh swap(2) by simp
qed


section \<open>Policies the sample devices create\<close>

definition policy_bytes :: "byte \<Rightarrow> byte \<Rightarrow> policy_body \<Rightarrow> bytes" where
  "policy_bytes s w body = enc_policy_object \<lparr>po_body = string_of_bytes (enc_policy_body body),
     po_signatures = [\<lparr>sg_device_id = sample_id w, sg_signature = string_of_bytes (replicate 32 s)\<rparr>]\<rparr>"

definition created :: "byte \<Rightarrow> byte \<Rightarrow> policy_body \<Rightarrow> policy_state" where
  "created s w body = \<lparr>st_id = object_id rp (policy_bytes s w body), st_body = body, st_exact_body = enc_policy_body body,
     st_signatures = [\<lparr>sg_device_id = sample_id w, sg_signature = string_of_bytes (replicate 32 s)\<rparr>]\<rparr>"

lemma created_fields [simp]: "st_body (created s w body) = body"
  "st_id (created s w body) = object_id rp (policy_bytes s w body)" "st_exact_body (created s w body) = enc_policy_body body"
  "st_signatures (created s w body) = [\<lparr>sg_device_id = sample_id w, sg_signature = string_of_bytes (replicate 32 s)\<rparr>]"
  by (simp_all add: created_def rp_def)

lemma policy_created:
  assumes "wf_policy rp body"
  shows "policy_create rp body (sample_key s w) = Inr (created s w body, policy_bytes s w body)"
proof -
  have "validate_devices rp (pb_devices body) = Inr ()" "validate_device_roots body = Inr ()" "validate_active_roles body = Inr ()"
    using assms by (simp_all add: wf_policy_def validate_devices_ok validate_device_roots_ok validate_active_roles_ok)
  then show ?thesis
    by (simp add: policy_create_def key_device_id_def Let_def created_def policy_bytes_def rp_def sample_codecs)
qed

section \<open>Initialization\<close>

definition genesis_body :: "byte \<Rightarrow> byte \<Rightarrow> policy_body" where
  "genesis_body s w = \<lparr>pb_format_version = FORMAT_VERSION, pb_repository_root = sample_root, pb_generation = 0,
     pb_previous = None, pb_admin_threshold = 1, pb_devices = [solo s w]\<rparr>"

definition empty_world :: "(tree, unit) world" where
  "empty_world = \<lparr>w_storage = Map.empty, w_files = Map.empty, w_git = ()\<rparr>"

lemma sample_policy_genesis:
  "wf_policy rp (genesis_body s w)"
  "policy_genesis rp (sample_key s w) ''owner'' = Inr (created s w (genesis_body s w), policy_bytes s w (genesis_body s w))"
proof -
  show wf: "wf_policy rp (genesis_body s w)"
    by (simp add: wf_policy_def wf_devices_def wf_device_def rp_def genesis_body_def)
  have solo: "\<lparr>dv_public = sample_device s w, dv_label = ''owner'', dv_roles = roles_owner, dv_revoked_at = None\<rparr> = solo s w"
    by (simp add: solo_def owner_def)
  show "policy_genesis rp (sample_key s w) ''owner'' = Inr (created s w (genesis_body s w), policy_bytes s w (genesis_body s w))"
    using policy_created [OF wf, of s w] unfolding genesis_body_def
    by (simp add: policy_genesis_def solo)
qed

lemma length_device [simp]: "length (enc_device (solo s w)) = 403"
  by (simp add: enc_device_def enc_public_def enc_roles_def roles_owner_def sample_device_def)

lemma sample_initializes:
  obtains i w' where "initialize rp (repo_of s w) sample_publication ''owner'' empty_world = (Inr i, w')"
    "tidy (w_storage w')" "marked 1 (w_storage w')" "\<And>j. w_storage w' (object_path sample_dir Pack j) = None"
proof -
  let ?p = "created s w (genesis_body s w)" and ?b = "policy_bytes s w (genesis_body s w)"
  let ?m = "manifest_genesis sample_root ?p ?b"
  have l: "manifest_json_laws rp" "b64_laws rp" "hex_laws rp" "aead_laws rp" "signature_laws rp" "policy_json_laws rp"
    using rp_laws by (simp_all add: library_laws_def)
  have gk: "length sample_gk = 32" by (simp add: sample_gk_def)
  have readers: "active_readers ?p = [solo s w]" by (simp add: active_readers_def genesis_body_def)
  have device: "policy_device ?p (sample_id w) = Some (solo s w)" by (simp add: policy_device_def genesis_body_def)
  have parse: "policy_parse rp ?b = Inr ?p"
    using policy_parse_create [OF l(6,2) policy_created [OF sample_policy_genesis(1), of s w s w]]
    by (simp add: genesis_body_def)
  have valid: "manifest_validate_genesis rp ?m ?p = Inr ()"
    using parse by (simp add: manifest_validate_genesis_ok manifest_genesis_def validate_manifest_policy_def bail_if_def
        genesis_body_def FORMAT_VERSION_def)
  have "\<exists>enc. seal_manifest rp sample_random (sample_key s w) ?p sample_gk (mf_authorization ?m) ?m = Inr enc"
    unfolding rp_def
    by (rule solo_seals [OF readers gk, where e = "err InvalidState"])
      (use valid [unfolded rp_def] in \<open>auto simp: manifest_validate_genesis_def and_then_eq_Inr manifest_genesis_def validate_pack_delta_def\<close>)
  then obtain enc where seal: "seal_manifest rp sample_random (sample_key s w) ?p sample_gk PolicyTransition ?m = Inr enc"
    by (auto simp: manifest_genesis_def)
  have size: "length (enc_body \<lparr>mb_refs = mf_refs ?m, mb_new_packs = mf_new_packs ?m,
       mb_predecessor_key_wrap = mf_predecessor_key_wrap ?m,
       mb_introduced_policy = map_option string_of_bytes (mf_introduced_policy ?m)\<rparr>) \<le> 1000000"
    by (simp add: manifest_genesis_def enc_body_def enc_list_def policy_bytes_def enc_policy_object_def
        enc_policy_signature_def enc_policy_body_def genesis_body_def)
  note sealed = solo_sealed_bytes [OF seal [unfolded rp_def] readers gk _ _ _ size, folded rp_def]
  let ?i = "object_id rp enc"
  have i: "length ?i = 64" "validate_id ?i = Inr ()" "length enc \<le> MAX_MANIFEST_BYTES" "take 2 ?i = s_hex_encode [of_nat 0]"
    using sealed by (simp_all add: manifest_genesis_def rp_def)
  let ?fs = "Map.empty(object_path sample_dir Manifest ?i \<mapsto> RegularFile enc)"
  have put: "fs_put_object_if_absent rp sample_dir Manifest ?i enc Map.empty = (Inr (), ?fs)"
    using quiet_put [of enc Manifest Map.empty] i(3) unfolding rp_def by simp
  have "\<exists>om. open_manifest rp enc sample_gk = Inr om \<and> om_manifest om = ?m
    \<and> om_claimed_signer_id om = pd_device_id (sample_device s w) \<and> verify_manifest rp om ?p None sample_gk = Inr ()"
    by (rule sealed_manifest_verifies [OF l(1-5) _ _ _ _ _ seal, where d = "solo s w"])
      (use sample_policy_genesis(1) device in \<open>simp_all add: sample_random_def well_placed_def manifest_genesis_def may_sign_def
        is_active_admin_def rp_def\<close>)
  then obtain om where om: "open_manifest rp enc sample_gk = Inr om" "om_manifest om = ?m"
    "verify_manifest rp om ?p None sample_gk = Inr ()" by blast
  have head: "fs_read_head sample_dir Map.empty = Inr None" by (rule fs_read_head_None) simp_all
  have pin: "floor_read rp f Map.empty = Inr None" for f by (simp add: floor_read_def read_json_def)
  have prepare: "prepare_genesis rp (repo_of s w) sample_publication ''owner'' empty_world
      = (Inr (lock_floor (repo_of s w), ?m, ?i), empty_world\<lparr>w_storage := ?fs\<rparr>)"
    using head pin sample_policy_genesis(2) [of s w] valid seal put om open_manifest_generation [OF om(1)]
    by (simp add: prepare_genesis_def seal_and_store_manifest_def Let_def act_then_def act_ret_def act_get_def on_storage_def
        empty_world_def sample_publication_def)
  have "fs_read_head sample_dir ?fs = Inr None" using fs_put_keeps_head [OF put] head by simp
  moreover have "tidy ?fs" by (rule tidy_object) (simp add: tidy_def)
  ultimately obtain fs' where swap: "fs_compare_and_swap_head quiet_io sample_dir None ?i ?fs = (Inr (), fs')" "tidy fs'"
    using quiet_swap [OF i(2), of ?fs None] by metis
  have "marked (Suc 0) ?fs" by (rule marked_put [OF _ i(1,4)]) (simp add: marked_def)
  then have "marked 1 fs'"
    using fs_cas_keeps_objects [OF swap(1) storage_dir_not_Nil, of Manifest] unfolding marked_def by simp
  moreover have "\<exists>w'. initialize rp (repo_of s w) sample_publication ''owner'' empty_world = (Inr ?i, w') \<and> w_storage w' = fs'"
    using prepare swap(1) pin
    by (simp add: initialize_def on_storage_def advance_floor_def on_files_def floor_advance_def empty_world_def)
  moreover have "fs' (object_path sample_dir Pack j) = None" for j
    using fs_cas_keeps_objects [OF swap(1) storage_dir_not_Nil, of Pack j] by simp
  ultimately show thesis using that swap(2) by blast
qed

end
