(* ===== verification/Sample_Run.thy ===== *)
theory Sample_Run
  imports Sample_Repository
begin

text \<open>
  The run of the sample repository, step by step, and the closed instances of the properties of
  the repository's operations. The owner initializes, adds a device without roles, revokes it,
  and pushes a branch; a device of another repository initializes an empty storage.
\<close>

section \<open>The states of the run\<close>

definition sample_ready :: "(tree, unit) world \<Rightarrow> opened_state \<Rightarrow> opened_state list \<Rightarrow> bool" where
  "sample_ready w c ps \<longleftrightarrow> current_chain rp sample_repo (w_storage w) = Inr (c # ps)
     \<and> floor_read rp (lock_floor sample_repo) (w_files w) = Inr (Some (floor_at (os_id c) (os_manifest c)))
     \<and> tidy (w_storage w) \<and> marked (Suc (length ps)) (w_storage w) \<and> length ps < 200
     \<and> os_generation_key c = sample_gk \<and> mf_refs (os_manifest c) = []"

lemma sample_owner_key: "sample_key 1 2 = key_file_generate rp (replicate 32 1) (replicate 32 2)"
proof -
  have "repository_root_for_public_keys rp (replicate 32 1) (replicate 32 2) = sample_root"
    unfolding rp_def
    by (simp only: repository_root_for_public_keys_def rev_replicate_sample hex_encode_sample sample_id_def sample_root_def)
  moreover have "b64_encode rp = string_of_bytes" "ed_verifying_key rp k = k" "kem_sk_to_pk rp k = k" for k
    by (simp_all add: rp_def sample_def)
  ultimately show ?thesis by (simp add: key_file_generate_def sample_key_def)
qed

lemma authentic_chain_version: "authentic_chain P r (c # ps) \<Longrightarrow> mf_format_version (os_manifest c) = FORMAT_VERSION"
  by (erule authentic_chain.cases)
    (auto simp: manifest_validate_genesis_ok manifest_validate_successor_def validate_manifest_policy_def and_then_eq_Inr bail_if_eq_Inr)

lemma sample_initialized:
  obtains i w c where "initialize rp sample_repo sample_publication ''owner'' empty_world = (Inr i, w)"
    "sample_ready w c []" "os_policy c = created 1 2 (genesis_body 1 2)" "mf_total_pack_count (os_manifest c) = 0"
    "\<And>j. w_storage w (object_path sample_dir Pack j) = None" "\<And>d. w_files w (progress_path d) = None"
proof (rule sample_initializes [of 1 2])
  fix i w
  assume run: "initialize rp sample_repo sample_publication ''owner'' empty_world = (Inr i, w)"
    and tidy: "tidy (w_storage w)" "marked 1 (w_storage w)" "\<And>j. w_storage w (object_path sample_dir Pack j) = None"
  have kem: "kem_private_ok rp (replicate 32 2)" by (simp add: rp_def sample_def)
  have key: "er_key sample_repo = key_file_generate rp (replicate 32 1) (replicate 32 2)"
    using sample_owner_key by simp
  obtain s pub where s: "current_chain rp sample_repo (w_storage w) = Inr [s]" "os_id s = i"
      "mf_refs (os_manifest s) = []" "key_public_device rp (er_key sample_repo) = Inr pub"
      "pb_devices (st_body (os_policy s)) = [\<lparr>dv_public = pub, dv_label = ''owner'', dv_roles = roles_owner, dv_revoked_at = None\<rparr>]"
      "floor_read rp (lock_floor sample_repo) (w_files w) = Inr (Some (floor_at i (os_manifest s)))"
      "os_generation_key s = pr_key sample_publication" "\<exists>b. policy_genesis rp (sample_key 1 2) ''owner'' = Inr (os_policy s, b)"
    using initialize_effect [OF rp_laws sample_publication_sound repo_of_fields(1) key _ kem run]
    by (auto simp: empty_world_def)
  then have "sample_ready w s []" using tidy by (simp add: sample_ready_def sample_publication_def)
  moreover have "os_policy s = created 1 2 (genesis_body 1 2)" using s(8) sample_policy_genesis(2) [of 1 2] by simp
  moreover have "mf_total_pack_count (os_manifest s) = 0"
    using current_chain_sound [OF s(1)] by (cases rule: authentic_chain.cases) (auto simp: manifest_validate_genesis_ok)
  moreover have "w_files w (progress_path d) = None" for d
    using initialize_files [OF repo_of_fields(1) run, of "progress_path d"] lock_floor_not_progress [of d sample_repo] by (simp add: empty_world_def)
  ultimately show thesis using that run tidy(3) by blast
qed

lemma ready_pinned: "sample_ready w c ps \<Longrightarrow> pinned_chain rp sample_repo (lock_floor sample_repo) w = (Inr (c # ps), w)"
  by (simp add: sample_ready_def pinned_chain_def act_then_def act_get_def act_ret_def validate_pinned_head_def floor_at_def bail_if_def)

section \<open>Membership changes\<close>

definition next_body :: "policy_state \<Rightarrow> u64 \<Rightarrow> device_record list \<Rightarrow> policy_body" where
  "next_body parent g devices = \<lparr>pb_format_version = FORMAT_VERSION, pb_repository_root = pb_repository_root (st_body parent),
     pb_generation = g, pb_previous = Some (st_id parent), pb_admin_threshold = 1, pb_devices = sort_key dv_id devices\<rparr>"

lemma sample_link: "\<exists>link. wrap_predecessor_key rp n sample_gk gk sample_root g i = Inr link \<and> length link = length gk + 40 + length SYMMETRIC_MAGIC"
  if "length n = 24"
proof -
  from sample_subkey [of _ sample_gk g PredecessorLinkKey 0] obtain k where
    "derive_subkey rp sample_gk sample_root g PredecessorLinkKey 0 = Inr k" unfolding rp_def by metis
  then show ?thesis using that by (simp add: wrap_predecessor_key_def) (simp add: rp_def tag16_def)
qed

lemma owner_changes_policy:
  assumes ready: "sample_ready w c ps" and room: "length ps < 199" and nd: "next_devices c = Inr devices"
    and admin: "is_active_admin (os_policy c) (sample_id 2)" "policy_device (os_policy c) (sample_id 2) = Some owner"
    and gen: "checked_add (pb_generation (st_body (os_policy c))) 1 = Some g"
    and wf: "wf_policy rp (next_body (os_policy c) g devices)"
    and readers: "active_readers (created 1 2 (next_body (os_policy c) g devices)) = [owner]"
    and succ: "policy_validate_successor rp (created 1 2 (next_body (os_policy c) g devices)) (os_policy c) = Inr ()"
    and size: "length (policy_bytes 1 2 (next_body (os_policy c) g devices)) \<le> 100000"
  obtains i w' s where
    "change_policy rp sample_repo sample_publication next_devices w = (Inr (i, st_id (created 1 2 (next_body (os_policy c) g devices))), w')"
    "w_storage w (object_path sample_dir Manifest i) = None" "sample_ready w' s (c # ps)"
    "os_policy s = created 1 2 (next_body (os_policy c) g devices)"
proof -
  let ?p = "created 1 2 (next_body (os_policy c) g devices)" and ?b = "policy_bytes 1 2 (next_body (os_policy c) g devices)"
  note r = ready [unfolded sample_ready_def]
  have chain: "current_chain rp sample_repo (w_storage w) = Inr (c # ps)" using r by simp
  have auth: "authentic_chain rp sample_root (c # ps)" using current_chain_sound [OF chain] by simp
  note head = owner_head [OF chain]
  have l: "manifest_json_laws rp" "b64_laws rp" "hex_laws rp" "aead_laws rp" "hpke_laws rp" "policy_json_laws rp" "floor_json_laws rp"
    using rp_laws by (simp_all add: library_laws_def)
  have create: "policy_successor rp (os_policy c) devices (sample_key 1 2) = Inr (?p, ?b)"
    using gen policy_created [OF wf, of 1 2] by (simp add: policy_successor_def next_body_def)
  have parse: "policy_parse rp ?b = Inr ?p"
    by (rule policy_successor_parts(3) [OF create l(6,2)])
  have "\<exists>h. checked_add (mf_generation (os_manifest c)) 1 = Some h"
    using head(6) room by (auto simp: checked_add_def)
  then obtain h where h: "checked_add (mf_generation (os_manifest c)) 1 = Some h" by blast
  from sample_link [of "replicate 24 0" "os_generation_key c" h "os_id c"] obtain link where
    link: "wrap_predecessor_key rp (replicate 24 0) sample_gk (os_generation_key c) sample_root h (os_id c) = Inr link"
      "length link = length (os_generation_key c) + 40 + length SYMMETRIC_MAGIC" by auto
  define m where "m = \<lparr>mf_format_version = mf_format_version (os_manifest c), mf_repository_root = mf_repository_root (os_manifest c),
     mf_generation = h, mf_previous = Some (os_id c), mf_policy_id = st_id ?p, mf_policy_generation = g,
     mf_authorization = PolicyTransition, mf_total_pack_count = mf_total_pack_count (os_manifest c),
     mf_refs = mf_refs (os_manifest c), mf_new_packs = [], mf_predecessor_key_wrap = Some link, mf_introduced_policy = Some ?b\<rparr>"
  have tm: "transition_manifest rp (replicate 24 0) c ?p ?b sample_gk = Inr m"
    using h link r head by (simp add: transition_manifest_def m_def next_body_def)
  have fv: "mf_format_version (os_manifest c) = FORMAT_VERSION"
    by (rule authentic_chain_version [OF auth])
  have "checked_add (mf_total_pack_count (os_manifest c)) 0 = Some (mf_total_pack_count (os_manifest c))"
    using unsigned_less [where 'a = nat, of "mf_total_pack_count (os_manifest c)"] by (simp add: checked_add_def)
  then have msucc: "manifest_validate_successor rp m (os_id c) (os_manifest c) ?p = Inr ()"
    using parse authentic_chain_root [OF auth] fv h gen
    by (simp add: manifest_validate_successor_def m_def validate_manifest_policy_def validate_pack_delta_def validate_authorization_def
        validate_introduced_policy_def bail_if_def next_body_def)
  have body: "length (enc_body \<lparr>mb_refs = mf_refs m, mb_new_packs = mf_new_packs m,
       mb_predecessor_key_wrap = mf_predecessor_key_wrap m,
       mb_introduced_policy = map_option string_of_bytes (mf_introduced_policy m)\<rparr>) \<le> 1000000"
    using size link(2) r by (simp add: m_def enc_body_def enc_list_def sample_gk_def SYMMETRIC_MAGIC_def format_version_text_def)
  have auths: "mf_authorization m = PolicyTransition" by (simp add: m_def)
  obtain i w2 where commit: "commit_manifest rp sample_repo sample_random (Some c) ?p (Some (os_policy c)) sample_gk
        PolicyTransition m w = (Inr i, w2)"
      and after: "w_storage w (object_path sample_dir Manifest i) = None" "tidy (w_storage w2)"
        "marked (Suc (Suc (length ps))) (w_storage w2)"
    by (rule owner_commits [OF chain _ _ _ _ msucc _ readers, where parent = "Some (os_policy c)" and link = link])
      (use r wf link head(5) body admin auths in \<open>simp_all add: m_def may_sign_def\<close>)
  have select: "select_policy rp sample_root (c # ps) m = Inr (?p, Some (os_policy c))"
    using parse succ msucc by (simp add: select_policy_def m_def)
  obtain s where s: "current_chain rp sample_repo (w_storage w2) = Inr (s # c # ps)" "os_id s = i" "os_manifest s = m"
      "os_policy s = ?p" "os_generation_key s = sample_gk"
    using directory.commit_extends_chain [OF l(1-5) _ _ _ _ repo_of_fields(1) chain, of sample_random sample_gk ?p
        "Some (os_policy c)" PolicyTransition m i w2 sample_repo owner] commit select wf after(1) readers
    by (auto simp: sample_random_def sample_gk_def sample_binding rp_def m_def)
  have files: "w_files w2 = w_files w"
    using directory.commit_moves_head(4) [OF commit repo_of_fields(1)] .
  have pin: "validate_pinned_head (c # ps) (Some (floor_at (os_id c) (os_manifest c))) = Inr ()"
    by (simp add: validate_pinned_head_def floor_at_def bail_if_def)
  have "mf_policy_generation (os_manifest (hd (c # ps))) \<le> mf_policy_generation m"
    using authentic_chain_root [OF auth] gen by (auto simp: m_def checked_add_1_Some word_le_nat_alt)
  note adv = floor_advance_successor [OF l(7) _ pin _ this, of "lock_floor sample_repo" "w_files w" ?p i]
  let ?fs = "write_json (floor_to_vec rp) (lock_floor sample_repo) (floor_at i m) (w_files w)"
  have "change_policy rp sample_repo sample_publication next_devices w = (Inr (i, st_id ?p), w2\<lparr>w_files := ?fs\<rparr>)"
    using ready_pinned [OF ready] nd admin create tm succ commit adv(1) r pin msucc files
    by (simp add: change_policy_def Let_def act_then_def act_ret_def first_state_def require_admin_def bail_if_def
        sample_publication_def advance_floor_def on_files_def)
  moreover have "sample_ready (w2\<lparr>w_files := ?fs\<rparr>) s (c # ps)"
    using s after adv(2) r pin msucc room by (simp add: sample_ready_def m_def)
  ultimately show thesis using that after(1) s(4) by blast
qed


definition no_roles :: device_roles where
  "no_roles = \<lparr>dr_reader = False, dr_writer = False, dr_administrator = False\<rparr>"

definition observer :: "u64 option \<Rightarrow> device_record" where
  "observer r = \<lparr>dv_public = sample_device 3 4, dv_label = ''guest'', dv_roles = no_roles, dv_revoked_at = r\<rparr>"

lemma observer_fields [simp]: "dv_public (observer r) = sample_device 3 4" "dv_label (observer r) = ''guest''"
  "dv_active (observer r) \<longleftrightarrow> r = None" "dv_revoked_at (observer r) = r" "\<not> dr_reader (dv_roles (observer r))"
  "\<not> dr_writer (dv_roles (observer r))" "\<not> dr_administrator (dv_roles (observer r))"
  by (simp_all add: observer_def no_roles_def dv_active_def)

lemma sample_id_order [simp]: "sample_id 2 \<le> sample_id 4"
  by code_simp

lemma sorted_devices: "sort_key dv_id [owner, observer r] = [owner, observer r]"
  by simp

lemma length_devices: "length (enc_device owner) = 403" "length (enc_device (observer r)) \<le> 411"
  using length_device [of 1 2]
  by (simp_all add: solo_owner observer_def no_roles_def enc_device_def enc_public_def enc_roles_def sample_device_def split: option.split)
    (cases r; simp)

lemma small_policy: "length (policy_bytes s w (next_body p g [owner, observer r])) \<le> 100000"
  if "length (st_id p) = 64" "pb_repository_root (st_body p) = sample_root"
  using that length_devices(2) [of r]
  by (simp add: policy_bytes_def next_body_def enc_policy_object_def enc_policy_signature_def enc_policy_body_def enc_list_def
      length_devices(1))

lemma observed_policy:
  assumes "pb_repository_root (st_body p) = sample_root"
  shows "wf_policy rp (next_body p g [owner, observer r])"
    and "active_readers (created s w (next_body p g [owner, observer r])) = [owner]"
  using assms
  by (auto simp: wf_policy_def wf_devices_def wf_device_def next_body_def rp_def active_readers_def)


lemma rp_signature [simp]: "b64 rp t = Inr (as_bytes t)"
  "verify_domain rp (string_of_bytes (replicate 32 s)) tag m (replicate 32 s) = Inr ()"
  by (simp_all add: rp_def)

lemma observed_successor:
  assumes devices: "pb_devices (st_body p) \<in> {[owner], [owner, observer None]}" and root: "pb_repository_root (st_body p) = sample_root"
    and gen: "checked_add (pb_generation (st_body p)) 1 = Some g" and admin: "pb_admin_threshold (st_body p) = 1"
    and r: "r \<in> {None, Some g}"
  shows "policy_validate_successor rp (created 1 2 (next_body p g [owner, observer r])) p = Inr ()"
proof -
  have nb: "pb_devices (next_body p g [owner, observer r]) = [owner, observer r]" "pb_generation (next_body p g [owner, observer r]) = g"
    by (simp_all add: next_body_def)
  have "verify_against_admins rp (created 1 2 (next_body p g [owner, observer r])) (pb_devices (st_body p)) = Inr ()"
    using devices by (elim insertE) (simp_all add: verify_against_admins_ok)
  moreover have "check_old_devices (next_body p g [owner, observer r]) (pb_devices (st_body p)) = Inr ()"
    unfolding check_old_devices_ok nb using devices r by (elim insertE) simp_all
  moreover have "check_revocation_stamps p g [owner, observer r] = Inr ()"
    using r by (auto simp: check_revocation_stamps_ok)
  moreover have "validate_active_roles (next_body p g [owner, observer r]) = Inr ()"
    by (simp add: validate_active_roles_ok nb)
  ultimately show ?thesis
    using gen admin root nb by (simp add: policy_validate_successor_def bail_if_def) (simp add: next_body_def)
qed

text \<open>The owner adds the device, and revokes it.\<close>

lemma sample_added:
  obtains w c w' i pid s where "sample_ready w c []" "os_policy c = created 1 2 (genesis_body 1 2)"
    "change_policy rp sample_repo sample_publication (with_device (sample_device 3 4) ''guest'' no_roles) w = (Inr (i, pid), w')"
    "w_storage w (object_path sample_dir Manifest i) = None" "sample_ready w' s [c]"
    "os_policy s = created 1 2 (next_body (os_policy c) 1 [owner, observer None])"
proof (rule sample_initialized)
  fix i w c
  assume ready: "sample_ready w c []" and policy: "os_policy c = created 1 2 (genesis_body 1 2)"
  have p: "pb_generation (st_body (os_policy c)) = 0" "pb_admin_threshold (st_body (os_policy c)) = 1"
      "pb_repository_root (st_body (os_policy c)) = sample_root" "length (st_id (os_policy c)) = 64"
      "pb_devices (st_body (os_policy c)) = [owner]"
    by (simp_all add: policy genesis_body_def solo_owner)
  have nd: "with_device (sample_device 3 4) ''guest'' no_roles c = Inr [owner, observer None]"
    using p(5) by (simp add: with_device_def policy_device_def bail_if_def observer_def)
  have gen: "checked_add (pb_generation (st_body (os_policy c))) 1 = Some 1" using p by (simp add: checked_add_def)
  have admin: "is_active_admin (os_policy c) (sample_id 2)" "policy_device (os_policy c) (sample_id 2) = Some owner"
    using p(5) by (simp_all add: is_active_admin_def policy_device_def)
  show thesis
    by (rule owner_changes_policy [where next_devices = "with_device (sample_device 3 4) ''guest'' no_roles",
          OF ready _ nd admin gen observed_policy(1) [OF p(3)] observed_policy(2) [OF p(3)]
          observed_successor [OF _ p(3) gen p(2)] small_policy [OF p(4,3)]])
      (simp_all add: p(5), rule that [OF ready policy], simp_all)
qed


lemma sample_revoked:
  obtains w c ps w' i pid where "sample_ready w c ps"
    "revoke_device rp sample_repo sample_publication (sample_id 4) w = (Inr (i, pid), w')"
    "w_storage w (object_path sample_dir Manifest i) = None"
proof (rule sample_added)
  fix w0 c0 w i0 pid0 c
  assume ready: "sample_ready w c [c0]" and policy0: "os_policy c0 = created 1 2 (genesis_body 1 2)"
    and policy: "os_policy c = created 1 2 (next_body (os_policy c0) 1 [owner, observer None])"
  have p: "pb_generation (st_body (os_policy c)) = 1" "pb_admin_threshold (st_body (os_policy c)) = 1"
      "pb_repository_root (st_body (os_policy c)) = sample_root" "length (st_id (os_policy c)) = 64"
      "pb_devices (st_body (os_policy c)) = [owner, observer None]"
    by (simp_all add: policy policy0 next_body_def genesis_body_def)
  have gen: "checked_add (pb_generation (st_body (os_policy c))) 1 = Some 2" using p by (simp add: checked_add_def)
  have "(observer None)\<lparr>dv_revoked_at := Some 2\<rparr> = observer (Some 2)" by (simp add: observer_def)
  then have nd: "without_device (sample_id 4) c = Inr [owner, observer (Some 2)]"
    using p(5) gen by (simp add: without_device_def Let_def bail_if_def)
  have admin: "is_active_admin (os_policy c) (sample_id 2)" "policy_device (os_policy c) (sample_id 2) = Some owner"
    using p(5) by (simp_all add: is_active_admin_def policy_device_def)
  show thesis
    by (rule owner_changes_policy [where next_devices = "without_device (sample_id 4)",
          OF ready _ nd admin gen observed_policy(1) [OF p(3)] observed_policy(2) [OF p(3)]
          observed_successor [OF _ p(3) gen p(2)] small_policy [OF p(4,3)]])
      (simp_all add: p(5), rule that [OF ready], simp_all add: revoke_device_def)
qed

section \<open>Instances\<close>

theorem initialize_takes_effect_witness:
  "\<exists>i w s. initialize rp sample_repo sample_publication ''owner'' empty_world = (Inr i, w)
     \<and> current_chain rp sample_repo (w_storage w) = Inr [s] \<and> os_id s = i"
proof (rule sample_initializes [of 1 2])
  fix i w
  assume run: "initialize rp sample_repo sample_publication ''owner'' empty_world = (Inr i, w)"
  have kem: "kem_private_ok rp (replicate 32 2)" by (simp add: rp_def sample_def)
  have key: "er_key sample_repo = key_file_generate rp (replicate 32 1) (replicate 32 2)"
    using sample_owner_key by simp
  have "w_storage empty_world p = None" for p by (simp add: empty_world_def)
  from initialize_takes_effect [OF rp_laws sample_publication_sound repo_of_fields(1) key _ kem run this] run
  show ?thesis by auto
qed

theorem member_key_genesis_is_unreadable_witness:
  "\<exists>i w e. initialize rp (repo_of 3 4) sample_publication ''owner'' empty_world = (Inr i, w)
     \<and> current_chain rp (repo_of 3 4) (w_storage w) = Inl e"
proof (rule sample_initializes [of 3 4])
  fix i w
  assume run: "initialize rp (repo_of 3 4) sample_publication ''owner'' empty_world = (Inr i, w)"
  have "repository_root_for_public_keys rp (replicate 32 3) (replicate 32 4) = sample_id 4"
    unfolding rp_def
    by (simp only: repository_root_for_public_keys_def rev_replicate_sample hex_encode_sample sample_id_def)
  then have "repository_root_for_device rp (sample_device 3 4) \<noteq> Inr (kf_repository_root (er_key (repo_of 3 4)))"
    by (simp add: repository_root_for_device_def decode_public_key_def bail_if_def sample_device_def sample_root_def)
  moreover have "w_storage empty_world p = None" for p by (simp add: empty_world_def)
  moreover have "key_public_device rp (er_key (repo_of 3 4)) = Inr (sample_device 3 4)" by simp
  ultimately have "\<forall>R'. er_storage R' = er_storage (repo_of 3 4) \<longrightarrow> (\<exists>e. current_chain rp R' (w_storage w) = Inl e)"
    by (intro member_key_genesis_is_unreadable [OF rp_laws sample_publication_sound repo_of_fields(1) _ _ run])
  with run show ?thesis by blast
qed

theorem policy_change_takes_effect_witness:
  "\<exists>(w :: (tree, unit) world) i pid w' chain s. change_policy rp sample_repo sample_publication (with_device (sample_device 3 4) ''guest'' no_roles) w
       = (Inr (i, pid), w') \<and> current_chain rp sample_repo (w_storage w) = Inr chain
     \<and> current_chain rp sample_repo (w_storage w') = Inr (s # chain) \<and> os_id s = i \<and> st_id (os_policy s) = pid"
proof (rule sample_added)
  fix w c w' i pid s
  assume ready: "sample_ready w c []" and policy: "os_policy c = created 1 2 (genesis_body 1 2)"
    and run: "change_policy rp sample_repo sample_publication (with_device (sample_device 3 4) ''guest'' no_roles) w = (Inr (i, pid), w')"
    and fresh: "w_storage w (object_path sample_dir Manifest i) = None"
  from policy_change_takes_effect [OF rp_laws sample_publication_sound repo_of_fields(1) run fresh]
  obtain chain p devices where chain: "current_chain rp sample_repo (w_storage w) = Inr chain"
    and devices: "with_device (sample_device 3 4) ''guest'' no_roles (hd chain) = Inr devices"
      "pb_devices (st_body p) = sort_key dv_id devices" "st_id p = pid"
    and readers: "\<forall>R' d. er_storage R' = er_storage sample_repo \<and> d \<in> set (active_readers p)
         \<and> key_public_device rp (er_key R') = Inr (dv_public d) \<longrightarrow>
         (\<exists>s. current_chain rp R' (w_storage w') = Inr (s # chain) \<and> os_id s = i \<and> os_policy s = p)"
    by blast
  have "chain = [c]" using chain ready by (simp add: sample_ready_def)
  then have "owner \<in> set (active_readers p)"
    using devices policy by (auto simp: with_device_def bail_if_eq_Inr active_readers_def genesis_body_def solo_owner)
  then obtain s where "current_chain rp sample_repo (w_storage w') = Inr (s # chain)" "os_id s = i" "os_policy s = p"
    using readers [rule_format, of sample_repo owner] by auto
  with run chain devices(3) show ?thesis by blast
qed



section \<open>Pushing a branch\<close>

definition main_push :: ref_push where
  "main_push = \<lparr>rp_destination = ''refs/heads/main'', rp_change = Update ''c'' False\<rparr>"

lemma sample_commit_kind: "objects_kind sample_git () ''c'' = Inr (Some CommitType)"
proof -
  have "from_utf8 (as_bytes (''c commit 10'' @ [CHR 0x0A])) = Some (''c commit 10'' @ [CHR 0x0A])"
    by (rule from_utf8_as_bytes) simp
  moreover have "split_ascii_whitespace (''c commit 10'' @ [CHR 0x0A]) = [''c'', ''commit'', ''10'']"
    by (simp add: split_ascii_whitespace_def is_ascii_whitespace_def)
  moreover have "parse_u64 ''10'' = Some 10"
    by (simp add: parse_u64_def starts_with_def less_eq_char_def)
  moreover have "parse_object_type ''commit'' = Some CommitType" by code_simp
  moreover have "as_bytes (''c commit 10'' @ [CHR 0x0A]) \<noteq> []" by (simp add: as_bytes_def)
  ultimately show ?thesis
    by (simp add: objects_kind_def cat_request_def sample_git_def bail_if_def is_ascii_control_def less_eq_char_def)
qed

lemma sample_resolves: "resolve_ref sample_git () ''c'' = Inr ''c''"
proof -
  have "from_utf8 (as_bytes (''c'' @ [CHR 0x0A])) = Some (''c'' @ [CHR 0x0A])" by (rule from_utf8_as_bytes) simp
  moreover have "trim (''c'' @ [CHR 0x0A]) = ''c''" by (rule trim_ascii_newline) (simp_all add: is_whitespace_def)
  ultimately show ?thesis by (simp add: resolve_ref_def git_text_def sample_git_def bail_if_def)
qed

lemma main_valid: "validate_inner_ref ''refs/heads/main'' = Inr Branch"
  by code_simp

lemma main_preflight: "preflight_ref_change sample_git () [] main_push = Inr (Some ''c'')"
  by (simp add: preflight_ref_change_def Let_def main_push_def main_valid sample_resolves ensure_branch_target_def
      resolve_tag_chain_def tag_chain_loop.simps sample_commit_kind)

lemma main_loop: "push_loop sample_git () [] {} [] [] [] [main_push]
    = ([(''refs/heads/main'', ''c'')], [(''refs/heads/main'', ''c'')], [Accepted])"
  using main_preflight by (simp add: main_push_def Let_def)

lemma main_pack: "start_incremental_pack sample_git () refs old = Inr (True, [1, 2, 3])"
proof -
  have "from_utf8 (as_bytes ''false'') = Some ''false''" by (rule from_utf8_as_bytes) simp
  then show ?thesis by (simp add: start_incremental_pack_def sample_git_def bail_if_def trim_ascii_newline is_whitespace_def)
qed


lemma sample_seals_pack:
  obtains res ct where "seal_pack_stream rp (replicate 19 5) key [1, 2, 3] aad = Inr (res, ct)" "length ct = 50"
    "sr_object_id res = object_id rp ct" "sr_plaintext_size res = 3"
proof -
  have "\<exists>res ct. seal_pack_stream rp (replicate 19 5) key [1, 2, 3] aad = Inr (res, ct) \<and> length ct = 50
      \<and> sr_object_id res = object_id rp ct \<and> sr_plaintext_size res = 3"
    by (simp add: seal_pack_stream_def read_chunk_def PACK_STREAM_CHUNK_SIZE_def seal_segments.simps Let_def
        digest_finish_def checked_add_def U32_MAX_def bail_if_def digest_write_def digest_new_def pack_stream_header_def
        PACK_STREAM_MAGIC_def object_id_def) (simp add: rp_def sample_def tag16_def as_bytes_def format_version_text_def)
  then show thesis using that by blast
qed

lemma publish_refs_runs:
  assumes "checked_add (mf_generation (os_manifest current)) 1 = Some generation" and "pack_refs \<noteq> []"
    and "store_pack P R repo rnd current generation pack_refs w = (Inr d, wp)"
    and "wrap_predecessor_key P (pr_link_nonce rnd) (pr_key rnd) (os_generation_key current)
       (mf_repository_root (os_manifest current)) generation (os_id current) = Inr link"
    and m: "m = \<lparr>mf_format_version = mf_format_version (os_manifest current),
          mf_repository_root = mf_repository_root (os_manifest current),
          mf_generation = generation, mf_previous = Some (os_id current),
          mf_policy_id = st_id (os_policy current),
          mf_policy_generation = pb_generation (st_body (os_policy current)),
          mf_authorization = Writer,
          mf_total_pack_count = mf_total_pack_count (os_manifest current) + of_nat (length [d]),
          mf_refs = next_refs, mf_new_packs = [d],
          mf_predecessor_key_wrap = Some link, mf_introduced_policy = None\<rparr>"
    and "commit_manifest P R (pr_manifest rnd) (Some current) (os_policy current) None (pr_key rnd) Writer m wp = (Inr i, wc)"
    and "advance_floor P floor i m wc = (Inr (), wl)"
    and "checkout_read P (open_checkout R repo) (w_files wl) = Inr progress"
  shows "\<exists>w'. publish_refs P R repo rnd floor current next_refs pack_refs w = (Inr i, w')"
  using assms(1-4,6-8) unfolding publish_refs_def m
  by (simp add: act_then_def act_ret_def act_get_def on_files_def checkout_write_def Let_def)

lemma sample_pushes:
  obtains w c w' out i where "sample_ready w c []" "os_policy c = created 1 2 (genesis_body 1 2)"
    "push rp sample_repo sample_checkout sample_publication [main_push] Publish w = (Inr out, w')"
    "pu_publication out = Inr i" "w_storage w (object_path sample_dir Manifest i) = None"
    "\<And>j. w_storage w (object_path sample_dir Pack j) = None"
proof (rule sample_initialized)
  fix i0 w c
  assume ready: "sample_ready w c []" and policy: "os_policy c = created 1 2 (genesis_body 1 2)"
    and total: "mf_total_pack_count (os_manifest c) = 0" and packless: "\<And>j. w_storage w (object_path sample_dir Pack j) = None"
    and noprogress: "\<And>d. w_files w (progress_path d) = None"
  note r = ready [unfolded sample_ready_def]
  have chain: "current_chain rp sample_repo (w_storage w) = Inr [c]" using r by simp
  have auth: "authentic_chain rp sample_root [c]" using current_chain_sound [OF chain] by simp
  note head = owner_head [OF chain]
  have gen: "mf_generation (os_manifest c) = 0" using head(6) by (simp add: unat_eq_0)
  have p: "wf_policy rp (st_body (os_policy c))" "active_readers (os_policy c) = [owner]" "length (st_id (os_policy c)) = 64"
      "policy_device (os_policy c) (sample_id 2) = Some owner" "is_active_writer (os_policy c) (sample_id 2)"
    using sample_policy_genesis(1) [of 1 2]
    by (simp_all add: policy active_readers_def policy_device_def is_active_writer_def genesis_body_def solo_owner)
  have pol: "mf_policy_id (os_manifest c) = st_id (os_policy c)"
      "mf_policy_generation (os_manifest c) = pb_generation (st_body (os_policy c))"
      "pb_repository_root (st_body (os_policy c)) = sample_root"
    using authentic_chain_root [OF auth] by simp_all
  from sample_subkey [of _ sample_gk 1 PackKey 0] obtain pack_key where
    pk: "derive_subkey rp sample_gk sample_root 1 PackKey 0 = Inr pack_key" unfolding rp_def by metis
  obtain res ct where seal: "seal_pack_stream rp (replicate 19 5) pack_key [1, 2, 3] (pack_aad sample_root 1 0) = Inr (res, ct)"
      and ct: "length ct = 50" "sr_object_id res = object_id rp ct" "sr_plaintext_size res = 3"
    by (rule sample_seals_pack)
  let ?d = "\<lparr>pk_id = object_id rp ct, pk_plaintext_size = sr_plaintext_size res, pk_generation = 1, pk_ordinal = 0\<rparr>"
  let ?w1 = "w\<lparr>w_storage := (w_storage w)(object_path sample_dir Pack (object_id rp ct) \<mapsto> RegularFile ct)\<rparr>"
  have put: "fs_put_object_if_absent rp sample_dir Pack (object_id rp ct) ct (w_storage w) = (Inr (), w_storage ?w1)"
    using quiet_put [of ct Pack "w_storage w"] packless ct(1)
    unfolding rp_def by (simp add: MAX_OBJECT_BYTES_def CARRIER_CHUNK_BYTES_def MAX_CHUNKS_PER_OBJECT_def)
  have store: "store_pack rp sample_repo sample_checkout sample_publication c 1 [(''refs/heads/main'', ''c'')] w = (Inr ?d, ?w1)"
    using pk seal put ct(2) main_pack head(5) r
    by (simp add: store_pack_def Let_def act_then_def act_ret_def act_get_def on_storage_def sample_checkout_def
        sample_publication_def pack_source_finish_def bail_if_def)
  have chain1: "current_chain rp sample_repo (w_storage ?w1) = Inr [c]"
    by (rule current_chain_gains [OF chain])
      (use fs_put_keeps_head [OF put] directory.gains_put [of rp quiet_io "''d''" Pack "object_id rp ct" ct "w_storage w"] put in simp_all)
  from sample_link [of "replicate 24 0" sample_gk 1 "os_id c"] obtain link where
    link: "wrap_predecessor_key rp (replicate 24 0) sample_gk sample_gk sample_root 1 (os_id c) = Inr link"
      "length link = length sample_gk + 40 + length SYMMETRIC_MAGIC" by auto
  define m where "m = \<lparr>mf_format_version = mf_format_version (os_manifest c), mf_repository_root = sample_root,
     mf_generation = 1, mf_previous = Some (os_id c), mf_policy_id = st_id (os_policy c),
     mf_policy_generation = pb_generation (st_body (os_policy c)), mf_authorization = Writer, mf_total_pack_count = 1,
     mf_refs = [(''refs/heads/main'', ''c'')], mf_new_packs = [?d], mf_predecessor_key_wrap = Some link, mf_introduced_policy = None\<rparr>"
  have msucc: "manifest_validate_successor rp m (os_id c) (os_manifest c) (os_policy c) = Inr ()"
    using pol head(5) authentic_chain_version [OF auth] gen total ct
    by (simp add: manifest_validate_successor_def m_def validate_manifest_policy_def validate_pack_delta_def
        validate_authorization_def validate_introduced_policy_def bail_if_def checked_add_def)
  have body: "length (enc_body \<lparr>mb_refs = mf_refs m, mb_new_packs = mf_new_packs m,
       mb_predecessor_key_wrap = mf_predecessor_key_wrap m,
       mb_introduced_policy = map_option string_of_bytes (mf_introduced_policy m)\<rparr>) \<le> 1000000"
    using link(2) by (simp add: m_def enc_body_def enc_list_def enc_ref_def enc_pack_def sample_gk_def SYMMETRIC_MAGIC_def
        format_version_text_def)
  have "marked (Suc 0) (w_storage ?w1)" using r by (simp add: marked_def)
  moreover have "tidy (w_storage w)" using r by blast
  from tidy_object [OF this, of Pack "object_id rp ct" "RegularFile ct"] have "tidy (w_storage ?w1)" by simp
  ultimately obtain i w2 where commit: "commit_manifest rp sample_repo sample_random (Some c) (os_policy c) None sample_gk
        Writer m ?w1 = (Inr i, w2)" and fresh: "w_storage ?w1 (object_path sample_dir Manifest i) = None"
    by (rule_tac owner_commits [OF chain1 _ _ _ _ msucc p(1-3), where parent = None and link = link])
      (use r link body p in \<open>simp_all add: m_def may_sign_def\<close>)
  have files: "w_files w2 = w_files w" "w_git w2 = w_git w"
    using directory.commit_moves_head(4,5) [OF commit repo_of_fields(1)] by simp_all
  have pin: "validate_pinned_head [c] (Some (floor_at (os_id c) (os_manifest c))) = Inr ()"
    by (simp add: validate_pinned_head_def floor_at_def bail_if_def)
  have "mf_policy_generation (os_manifest (hd [c])) \<le> mf_policy_generation m" using pol by (simp add: m_def)
  note adv = floor_advance_successor(1) [OF _ _ pin _ this, of rp "lock_floor sample_repo" "w_files w" "os_policy c" i]
  have l: "floor_json_laws rp" using rp_laws by (simp add: library_laws_def)
  have read: "checkout_read rp d (write_json (floor_to_vec rp) (lock_floor sample_repo) f (w_files w)) = Inr default_progress" for d f
    using noprogress [of d] lock_floor_not_progress [of d sample_repo]
    by (simp add: checkout_read_def read_json_def write_json_def)
  have floor: "advance_floor rp (lock_floor sample_repo) i m w2
      = (Inr (), w2\<lparr>w_files := write_json (floor_to_vec rp) (lock_floor sample_repo) (floor_at i m) (w_files w)\<rparr>)"
    using adv [OF l] r msucc files by (simp add: advance_floor_def on_files_def)
  have "\<exists>w3. publish_refs rp sample_repo sample_checkout sample_publication (lock_floor sample_repo) c
      [(''refs/heads/main'', ''c'')] [(''refs/heads/main'', ''c'')] w = (Inr i, w3)"
    by (rule publish_refs_runs [where generation = 1 and link = link and m = m and d = ?d and wp = ?w1 and wc = w2
        and progress = default_progress])
      (use gen store link(1) commit total head(5) pol r in
         \<open>simp_all only: floor, simp_all add: read sample_publication_def m_def checked_add_def\<close>)
  then obtain w3 where publish: "publish_refs rp sample_repo sample_checkout sample_publication (lock_floor sample_repo) c
      [(''refs/heads/main'', ''c'')] [(''refs/heads/main'', ''c'')] w = (Inr i, w3)" by blast
  have dest: "rp_destination main_push = ''refs/heads/main''" by (simp add: main_push_def)
  have "push rp sample_repo sample_checkout sample_publication [main_push] Publish w
      = (Inr \<lparr>pu_refs = [Accepted], pu_publication = Inr i\<rparr>, w3)"
    using ready_pinned [OF ready] p(5) r main_preflight dest publish
    by (simp add: push_def Let_def act_then_def act_ret_def act_get_def first_state_def sample_checkout_def validate_inner_refs_def)
  then show thesis using that [OF ready policy] fresh packless by simp
qed

theorem push_batch_is_exact_witness:
  "bt_wf ([] :: (string, string) btree_map) \<and> bt_get [(''refs/heads/main'', ''c'')] ''refs/heads/main''
     = batch_ref sample_git () [] [main_push] ''refs/heads/main''"
proof -
  have "bt_wf ([] :: (string, string) btree_map)" by simp
  with push_batch_is_exact [OF this main_loop] show ?thesis by blast
qed

theorem preflight_protects_refs_witness:
  "preflight_ref_change sample_git () [] main_push = Inr (Some ''c'')
     \<and> (\<exists>t. resolve_tag_chain sample_git () ''refs/heads/main'' ''c'' ''pushed'' = Inr (t, CommitType))"
  using preflight_protects_refs [OF main_preflight] main_preflight main_valid
  by (auto simp: main_push_def)

theorem push_without_right_publishes_nothing_witness:
  "\<exists>w' r. push rp sample_repo sample_checkout sample_publication [main_push] DryRun empty_world = (r, w')
     \<and> w_storage w' = w_storage empty_world"
proof -
  obtain r w' where run: "push rp sample_repo sample_checkout sample_publication [main_push] DryRun empty_world = (r, w')"
    by (cases "push rp sample_repo sample_checkout sample_publication [main_push] DryRun empty_world")
  from push_without_right_publishes_nothing [OF repo_of_fields(1) run] run show ?thesis by blast
qed

theorem push_takes_effect_witness:
  "\<exists>(w :: (tree, unit) world) w' out i current ps s. push rp sample_repo sample_checkout sample_publication [main_push] Publish w
       = (Inr out, w') \<and> pu_publication out = Inr i \<and> current_chain rp sample_repo (w_storage w) = Inr (current # ps)
     \<and> current_chain rp sample_repo (w_storage w') = Inr (s # current # ps) \<and> os_id s = i
     \<and> mf_refs (os_manifest s) = [(''refs/heads/main'', ''c'')]"
proof (rule sample_pushes)
  fix w :: "(tree, unit) world" and c w' out i
  assume ready: "sample_ready w c []" and policy: "os_policy c = created 1 2 (genesis_body 1 2)"
    and run: "push rp sample_repo sample_checkout sample_publication [main_push] Publish w = (Inr out, w')"
      "pu_publication out = Inr i"
    and fresh: "w_storage w (object_path sample_dir Manifest i) = None" "\<And>j. w_storage w (object_path sample_dir Pack j) = None"
  have chain: "current_chain rp sample_repo (w_storage w) = Inr [c]" "mf_refs (os_manifest c) = []"
    using ready by (simp_all add: sample_ready_def)
  have "authentic_chain rp sample_root [c]" using current_chain_sound [OF chain(1)] by simp
  then have packs: "chain_pack_ids [c] = []"
    by (cases rule: authentic_chain.cases) (simp_all add: manifest_validate_genesis_ok)
  have reader: "owner \<in> set (active_readers (os_policy c))" "key_public_device rp (er_key sample_repo) = Inr (dv_public owner)"
    by (simp_all add: policy active_readers_def genesis_body_def solo_owner)
  have loop: "push_loop (gr_ops sample_checkout) (w_git w) (mf_refs (os_manifest c)) {} (mf_refs (os_manifest c)) [] [] [main_push]
      = ([(''refs/heads/main'', ''c'')], [(''refs/heads/main'', ''c'')], [Accepted])"
    using main_loop chain(2) by (simp add: sample_checkout_def)
  from push_takes_effect [OF rp_laws sample_publication_sound repo_of_fields(1) run]
  obtain current ps refs outs where now: "current_chain rp sample_repo (w_storage w) = Inr (current # ps)"
    and loop': "push_loop (gr_ops sample_checkout) (w_git w) (mf_refs (os_manifest current)) {} (mf_refs (os_manifest current)) [] [] [main_push]
        = (refs, outs, pu_refs out)"
    and effect: "if refs = mf_refs (os_manifest current) then i = os_id current \<and> w_storage w' = w_storage w
      else w_storage w (object_path sample_dir Manifest i) = None \<longrightarrow> (\<exists>m. mf_refs m = refs \<and> (mf_new_packs m = [] \<longleftrightarrow> outs = [])
        \<and> floor_read rp (lock_floor sample_repo) (w_files w') = Inr (Some (floor_at i m))
        \<and> (\<forall>R' v. er_storage R' = er_storage sample_repo \<and> v \<in> set (active_readers (os_policy current))
             \<and> key_public_device rp (er_key R') = Inr (dv_public v)
             \<and> (\<forall>d \<in> set (mf_new_packs m). pk_id d \<notin> set (chain_pack_ids (current # ps))
                  \<and> w_storage w (object_path sample_dir Pack (pk_id d)) = None) \<longrightarrow>
             (\<exists>s. current_chain rp R' (w_storage w') = Inr (s # current # ps) \<and> os_id s = i \<and> os_manifest s = m
                \<and> os_policy s = os_policy current
                \<and> (\<forall>d \<in> set (mf_new_packs m). \<exists>exclusions plain.
                     local_exclusions (gr_ops sample_checkout) (w_git w) [] (mf_refs (os_manifest current)) = Inr exclusions
                     \<and> start_incremental_pack (gr_ops sample_checkout) (w_git w) outs exclusions = Inr (True, plain)
                     \<and> open_chain_pack rp R' s d (w_storage w') = Inr plain))))"
    by blast
  have same: "current = c" "ps = []" using now chain(1) by simp_all
  have "refs = [(''refs/heads/main'', ''c'')]" using loop loop' same by simp
  then have refs: "refs = [(''refs/heads/main'', ''c'')]" "refs \<noteq> mf_refs (os_manifest current)"
    using same chain(2) by simp_all
  from mp [OF effect [unfolded if_not_P [OF refs(2)]] fresh(1)]
  have "\<exists>m s. mf_refs m = refs \<and> current_chain rp sample_repo (w_storage w') = Inr (s # current # ps) \<and> os_id s = i
      \<and> os_manifest s = m"
    by (elim exE conjE, drule_tac x = sample_repo in spec, drule_tac x = owner in spec)
      (use reader packs fresh(2) same in auto)
  with run now refs(1) show ?thesis by blast
qed

end
