(* ===== verification/Recovery.thy ===== *)
theory Recovery
  imports Repository
begin

text \<open>
  \<^verbatim>\<open>EncryptedRepository::recover\<close> of \<^verbatim>\<open>src/repository.rs\<close>, with the functions only it calls. Recovery
  replaces a head that is proven invalid by a successor of a manifest this machine has
  authenticated. Each definition is one stage of the function, in its order: the head is
  assessed, the pinned floor is authenticated from the storage and its history, the heads of
  the history are authenticated and compared, a base is chosen, and a successor of the base is
  committed against the observed head. A stage that may return early yields \<open>Return report\<close>.
  \<open>show_error\<close> stands for \<^verbatim>\<open>format!("{error:#}")\<close> of the anyhow crate, and \<open>scratch\<close> for the
  repository that \<^verbatim>\<open>git init --bare\<close> makes in a temporary directory.
\<close>

section \<open>Data\<close>

fun class_name :: "recovery_class \<Rightarrow> string" where
  "class_name Valid = ''valid''"
| "class_name Invalid = ''invalid''"
| "class_name Unverifiable = ''unverifiable''"
| "class_name UnsupportedFormat = ''unsupported''"
| "class_name Unavailable = ''unavailable''"
| "class_name Discontinuous = ''discontinuous''"

record recovery_candidate =
  ra_manifest_id :: string
  ra_generation :: u64
  ra_outer_commit :: "string option"
  ra_verified_signer :: string

record recovery_report =
  rr_classification :: recovery_class
  rr_reason :: string
  rr_head_id :: "string option"
  rr_claimed_signer :: "string option"
  rr_floor_id :: "string option"
  rr_floor_generation :: "u64 option"
  rr_candidates :: "recovery_candidate list"
  rr_default_base :: "string option"
  rr_replays :: "string list"
  rr_conflict :: bool
  rr_freshness_unverified :: bool
  rr_warning :: "string option"
  rr_blocked_reason :: "string option"
  rr_published_manifest :: "string option"

record recovery_options =
  ro_publish :: bool
  ro_base :: "string option"
  ro_discard_newer :: bool
  ro_accept_stale_floor :: bool

type_synonym recovery_offer = "recovery_candidate \<times> opened_state list"

text \<open>A \<^verbatim>\<open>BTreeSet<String>\<close>.\<close>

type_synonym id_set = "(string, unit) btree_map"

datatype 'a stage = Return recovery_report | Go 'a

definition stage_then :: "('a stage, 'w) act \<Rightarrow> ('a \<Rightarrow> (recovery_report, 'w) act) \<Rightarrow> (recovery_report, 'w) act" where
  "stage_then m f = act_then m (\<lambda>x. case x of Return report \<Rightarrow> act_ret (Inr report) | Go a \<Rightarrow> f a)"

definition MAX_RECOVERY_OUTER_COMMITS :: nat where
  "MAX_RECOVERY_OUTER_COMMITS = 2048"

definition MAX_RECOVERY_CANDIDATES :: nat where
  "MAX_RECOVERY_CANDIDATES = 256"

definition MAX_RECOVERY_MANIFEST_BYTES :: u64 where
  "MAX_RECOVERY_MANIFEST_BYTES = 64 * 1024 * 1024"

definition MAX_REJECTED_HEADS :: nat where
  "MAX_REJECTED_HEADS = 16"

definition STALE_FLOOR_WARNING :: string where
  "STALE_FLOOR_WARNING = ''Updates after this floor may be omitted. This may also omit revocations and disclose subsequently published content to devices excluded by a newer policy.''"

section \<open>Evidence of rejected heads\<close>

definition default_log :: rejected_head_log where
  "default_log = \<lparr>rl_format_version = 0, rl_entries = []\<rparr>"

definition rejected_heads_path :: "string \<Rightarrow> string" where
  "rejected_heads_path directory = directory @ ''/rejected-heads.json''"

definition read_rejected_heads :: "'a repository_prims_scheme \<Rightarrow> string \<Rightarrow> files \<Rightarrow> rejected_head_log" where
  "read_rejected_heads P directory fs = (case fs (rejected_heads_path directory) of
     None \<Rightarrow> default_log
   | Some b \<Rightarrow> (case rejected_log_of_slice P b of None \<Rightarrow> default_log | Some log \<Rightarrow> log))"

definition record_rejected_head ::
    "'a repository_prims_scheme \<Rightarrow> string \<Rightarrow> string \<Rightarrow> recovery_class \<Rightarrow> string \<Rightarrow> files \<Rightarrow> files result" where
  "record_rejected_head P directory head_id classification reason fs =
     (let log = read_rejected_heads P directory fs;
          entries = filter (\<lambda>entry. re_head_id entry \<noteq> head_id) (rl_entries log)
            @ [\<lparr>re_head_id = head_id, re_classification = classification,
                re_reason = concat (take 512 (utf8_slices reason))\<rparr>];
          kept = (if length entries > MAX_REJECTED_HEADS then drop (length entries - MAX_REJECTED_HEADS) entries else entries)
      in Inr (write_json (rejected_log_to_vec P) (rejected_heads_path directory)
           \<lparr>rl_format_version = 1, rl_entries = kept\<rparr> fs))"

section \<open>Assessing the head\<close>

definition blank_report :: "continuity_floor option \<Rightarrow> recovery_report" where
  "blank_report local_floor =
     \<lparr>rr_classification = Unavailable, rr_reason = ''could not read the storage head'',
      rr_head_id = None, rr_claimed_signer = None,
      rr_floor_id = map_option cf_head_id local_floor, rr_floor_generation = map_option cf_generation local_floor,
      rr_candidates = [], rr_default_base = None, rr_replays = [], rr_conflict = False,
      rr_freshness_unverified = (local_floor = None), rr_warning = None, rr_blocked_reason = None,
      rr_published_manifest = None\<rparr>"

definition claimed_signer_for_head ::
    "'a manifest_prims_scheme \<Rightarrow> 's encrypted_repository \<Rightarrow> 's \<Rightarrow> string \<Rightarrow> string result" where
  "claimed_signer_for_head P R s head =
     and_then (read_material P R s head) (\<lambda>(_, encrypted, header).
     and_then (unwrap_generation_key P header (er_key R)) (\<lambda>key.
     and_then (open_manifest P encrypted key) (\<lambda>opened.
     Inr (om_claimed_signer_id opened))))"

text \<open>The two nested loops of \<^verbatim>\<open>check_chain_ciphertext_presence\<close>.\<close>

fun packs_present :: "'s encrypted_repository \<Rightarrow> 's \<Rightarrow> pack_descriptor list \<Rightarrow> unit result" where
  "packs_present R s [] = Inr ()"
| "packs_present R s (d # ds) =
     and_then (with_context (''required pack '' @ pk_id d @ '' is unavailable'')
       (so_open_object (er_storage R) Pack (pk_id d) s)) (\<lambda>_.
     packs_present R s ds)"

definition check_chain_ciphertext_presence ::
    "'s encrypted_repository \<Rightarrow> 's \<Rightarrow> opened_state list \<Rightarrow> unit result" where
  "check_chain_ciphertext_presence R s chain =
     packs_present R s (concat (map (\<lambda>e. mf_new_packs (os_manifest e)) chain))"

definition no_budget_used :: recovery_budget where
  "no_budget_used = \<lparr>rb_crypto_operations = 0, rb_bytes_read = 0\<rparr>"

definition observed_chain ::
    "'a manifest_prims_scheme \<Rightarrow> 's encrypted_repository \<Rightarrow> 's \<Rightarrow> head_observation
       \<Rightarrow> opened_state list result \<times> recovery_budget option" where
  "observed_chain P R s observation =
     (case ho_head_id observation of
        Some head \<Rightarrow> chain_from P (er_key R) head (read_material P R s) (Some no_budget_used)
      | None \<Rightarrow>
          (Inl (case ho_head observation of
             Some head \<Rightarrow> proven_invalid (case stored_head_parse head of
                 Inl e \<Rightarrow> e | Inr _ \<Rightarrow> err (Msg ''storage HEAD is not a valid head''))
           | None \<Rightarrow> err MissingStorageHead), Some no_budget_used))"

definition assess_chain ::
    "(error \<Rightarrow> string) \<Rightarrow> 's encrypted_repository \<Rightarrow> 's \<Rightarrow> continuity_floor option \<Rightarrow> opened_state list
       \<Rightarrow> recovery_report \<Rightarrow> recovery_report" where
  "assess_chain show_error R s local_floor chain report =
     (let unavailable = (\<lambda>e. report\<lparr>rr_classification := Unavailable,
            rr_reason := ''authenticated storage head has unavailable ciphertext: '' @ show_error e\<rparr>)
      in if local_floor \<noteq> None then
           (case validate_pinned_head chain local_floor of
              Inl e \<Rightarrow> report\<lparr>rr_classification := Discontinuous,
                rr_reason := ''authenticated storage head is discontinuous: '' @ show_error e\<rparr>
            | Inr _ \<Rightarrow>
           (case check_chain_ciphertext_presence R s chain of
              Inl e \<Rightarrow> unavailable e
            | Inr _ \<Rightarrow> report\<lparr>rr_classification := Valid,
                rr_reason := ''storage head is authenticated and continuous with the local floor''\<rparr>))
         else
           (case check_chain_ciphertext_presence R s chain of
              Inl e \<Rightarrow> unavailable e
            | Inr _ \<Rightarrow> report\<lparr>rr_classification := Valid,
                rr_reason := ''storage head is authenticated, but this client has no continuity floor''\<rparr>)
           \<lparr>rr_freshness_unverified := True\<rparr>)"

definition discovery_failed :: "error \<Rightarrow> error" where
  "discovery_failed e = context_of (Msg ''bounded recovery discovery failed'') e"

definition assess_head ::
    "'a manifest_prims_scheme \<Rightarrow> (error \<Rightarrow> string) \<Rightarrow> 's encrypted_repository \<Rightarrow> 's \<Rightarrow> continuity_floor option
       \<Rightarrow> head_observation \<Rightarrow> opened_state list result \<Rightarrow> recovery_report \<Rightarrow> recovery_report result" where
  "assess_head P show_error R s local_floor observation chain report =
     (case chain of
        Inr chain \<Rightarrow> Inr (assess_chain show_error R s local_floor chain
          (report\<lparr>rr_claimed_signer := (case chain of [] \<Rightarrow> None | e # _ \<Rightarrow> Some (os_verified_signer e))\<rparr>))
      | Inl e \<Rightarrow>
          if downcast is_BudgetExhausted e then Inl (discovery_failed e)
          else
            let classified = classify_recovery_error e;
                report = report\<lparr>rr_classification := classified, rr_reason := show_error e\<rparr>
            in Inr (case ho_head_id observation of
                 Some head \<Rightarrow> if classified = Invalid
                   then report\<lparr>rr_claimed_signer := (case claimed_signer_for_head P R s head of Inl _ \<Rightarrow> None | Inr i \<Rightarrow> Some i)\<rparr>
                   else report
               | None \<Rightarrow> report))"

fun forbidden_reason :: "recovery_class \<Rightarrow> string option" where
  "forbidden_reason Valid = Some ''the storage head is already valid; recovery is not needed''"
| "forbidden_reason Unverifiable = Some ''the storage head cannot be opened by this device; recovery is forbidden''"
| "forbidden_reason UnsupportedFormat = Some ''the storage head uses an unsupported format; recovery is forbidden''"
| "forbidden_reason Unavailable = Some ''required storage data is unavailable; recovery is forbidden''"
| "forbidden_reason Discontinuous = Some ''the storage head is discontinuous with the local floor; recovery is forbidden''"
| "forbidden_reason Invalid = None"

definition evidence_id :: "'a prims_scheme \<Rightarrow> head_observation \<Rightarrow> string" where
  "evidence_id P observation = (case ho_head_id observation of
     Some i \<Rightarrow> i
   | None \<Rightarrow> object_id P (case ho_head observation of None \<Rightarrow> [] | Some h \<Rightarrow> stored_head_evidence h))"

text \<open>The first stage: it ends with the report of a head that is proven invalid, the observation the
  commit will be made against, the machine's floor and the budget left.\<close>

definition recovery_assessment ::
    "'a repository_prims_scheme \<Rightarrow> (error \<Rightarrow> string) \<Rightarrow> 's encrypted_repository \<Rightarrow> string \<Rightarrow> string \<Rightarrow> bool
       \<Rightarrow> ((recovery_report \<times> head_observation \<times> continuity_floor \<times> recovery_budget option) stage, ('s, 'g) world) act" where
  "recovery_assessment P show_error R floor checkout publish =
     act_then (act_get (\<lambda>w. floor_read P floor (w_files w))) (\<lambda>local_floor.
     let report = blank_report local_floor in
     act_then (act_get (\<lambda>w. Inr (so_observe_head (er_storage R) (w_storage w)))) (\<lambda>observed.
     case observed of
       Inl e \<Rightarrow>
         if downcast is_BudgetExhausted e then act_ret (Inl (discovery_failed e))
         else
           let report = report\<lparr>rr_reason := ''storage head is unavailable: '' @ show_error e\<rparr>
           in act_ret (Inr (Return (if publish then report\<lparr>rr_blocked_reason := Some (rr_reason report)\<rparr> else report)))
     | Inr observation \<Rightarrow>
     act_then (act_get (\<lambda>w. Inr (observed_chain P R (w_storage w) observation))) (\<lambda>(chain, budget).
     act_then (act_get (\<lambda>w. assess_head P show_error R (w_storage w) local_floor observation chain
       (report\<lparr>rr_head_id := ho_head_id observation\<rparr>))) (\<lambda>report.
     if rr_classification report \<noteq> Invalid
     then act_ret (Inr (Return (report\<lparr>rr_blocked_reason := forbidden_reason (rr_classification report)\<rparr>)))
     else
       act_then (on_files (record_rejected_head P checkout (evidence_id P observation) (rr_classification report) (rr_reason report))) (\<lambda>_.
       case local_floor of
         None \<Rightarrow> act_ret (Inr (Return (report\<lparr>rr_freshness_unverified := True, rr_blocked_reason :=
           Some ''this repository has no authenticated continuity floor; freshness and fork identity are unverified''\<rparr>)))
       | Some pinned \<Rightarrow> act_ret (Inr (Go (report, observation, pinned, budget))))))))"

section \<open>The pinned floor\<close>

fun history_bytes :: "u64 \<Rightarrow> bytes list \<Rightarrow> u64 result" where
  "history_bytes n [] = Inr n"
| "history_bytes n (b # bs) =
     and_then (ok_or (checked_add n (of_nat (length b))) (Msg ''recovery manifest byte budget overflow'')) (\<lambda>n.
     history_bytes n bs)"

definition charge_history :: "recovery_history \<Rightarrow> recovery_budget \<Rightarrow> recovery_budget result" where
  "charge_history history budget =
     bail_if (length (rh_commits history) > MAX_RECOVERY_OUTER_COMMITS)
       (BudgetExhausted ''recovery outer-commit budget exhausted'') (
     and_then (history_bytes 0 (map snd (rh_manifests history))) (\<lambda>historical_bytes.
     bail_if (historical_bytes > MAX_RECOVERY_MANIFEST_BYTES)
       (BudgetExhausted ''recovery manifest byte budget exhausted'') (
     and_then (ok_or (checked_add (rb_bytes_read budget) historical_bytes)
       (Msg ''recovery manifest byte budget overflow'')) (\<lambda>bytes_read.
     bail_if (bytes_read > MAX_RECOVERY_BYTES) (BudgetExhausted ''recovery manifest byte budget exhausted'') (
     Inr (budget\<lparr>rb_bytes_read := bytes_read\<rparr>))))))"

definition read_history_material ::
    "'a manifest_prims_scheme \<Rightarrow> 's encrypted_repository \<Rightarrow> 's \<Rightarrow> recovery_history \<Rightarrow> string \<Rightarrow> material result" where
  "read_history_material P R s history i =
     (case read_material P R s i of
        Inr material \<Rightarrow> Inr material
      | Inl current_error \<Rightarrow>
     (case bt_get (rh_manifests history) i of
        None \<Rightarrow> Inl (context_of (Msg (''historical manifest '' @ i @ '' is not in carrier history'')) current_error)
      | Some b \<Rightarrow>
          if object_id P b \<noteq> i
          then Inl (proven_invalid (err (Msg (''historical manifest '' @ i @ '' content ID mismatch''))))
          else and_then (map_err proven_invalid (peek_manifest_header P b)) (\<lambda>header.
            Inr (i, b, header))))"

definition names_head :: "string \<Rightarrow> recovery_commit \<Rightarrow> bool" where
  "names_head i commit = (rc_head_id commit = Some i)"

definition at_floor :: "continuity_floor \<Rightarrow> opened_state \<Rightarrow> bool" where
  "at_floor pinned entry = (os_id entry = cf_head_id pinned \<and> mf_generation (os_manifest entry) = cf_generation pinned)"

text \<open>The second stage: the history, whether there is one, and the floor's chain and offer.\<close>

definition recovery_floor ::
    "'a manifest_prims_scheme \<Rightarrow> (error \<Rightarrow> string) \<Rightarrow> 's encrypted_repository \<Rightarrow> 's \<Rightarrow> continuity_floor \<Rightarrow> recovery_budget option
       \<Rightarrow> recovery_report \<Rightarrow> (recovery_history \<times> bool \<times> recovery_offer \<times> recovery_budget option) stage result" where
  "recovery_floor P show_error R s pinned budget report =
     and_then (so_recovery_history (er_storage R) MAX_RECOVERY_OUTER_COMMITS (unat MAX_RECOVERY_MANIFEST_BYTES) s) (\<lambda>found.
     let history = (case found of None \<Rightarrow> \<lparr>rh_commits = [], rh_manifests = []\<rparr> | Some h \<Rightarrow> h);
         floor_id = cf_head_id pinned
     in
     and_then (case budget of
         None \<Rightarrow> Inr None
       | Some b \<Rightarrow> and_then (charge_history history b) (\<lambda>b. Inr (Some b))) (\<lambda>budget.
     if found \<noteq> None \<and> \<not> list_ex (names_head floor_id) (rh_commits history)
     then Inr (Return (report\<lparr>rr_classification := Discontinuous,
       rr_blocked_reason := Some (''carrier history does not contain the pinned floor manifest '' @ floor_id
         @ ''; refusing discontinuous recovery'')\<rparr>))
     else
     (case chain_from P (er_key R) floor_id (read_history_material P R s history) budget of
        (Inl e, _) \<Rightarrow>
          if downcast is_BudgetExhausted e then Inl (discovery_failed e)
          else Inr (Return (report\<lparr>rr_blocked_reason :=
            Some (''pinned floor is unavailable or cannot be authenticated: '' @ show_error e)\<rparr>))
      | (Inr floor_chain, budget) \<Rightarrow>
     (case List.find (at_floor pinned) floor_chain of
        None \<Rightarrow> Inr (Return (report\<lparr>rr_blocked_reason :=
          Some ''continuity floor does not match its authenticated manifest generation''\<rparr>))
      | Some floor \<Rightarrow>
          if cf_repository_root pinned \<noteq> mf_repository_root (os_manifest floor)
            \<or> cf_policy_generation pinned > mf_policy_generation (os_manifest floor)
          then Inr (Return (report\<lparr>rr_blocked_reason :=
            Some ''continuity floor metadata does not match the authenticated floor''\<rparr>))
          else Inr (Go (history, found \<noteq> None,
            (\<lparr>ra_manifest_id = os_id floor, ra_generation = mf_generation (os_manifest floor),
              ra_outer_commit = map_option rc_commit_id (List.find (names_head floor_id) (rh_commits history)),
              ra_verified_signer = os_verified_signer floor\<rparr>, floor_chain), budget))))))"

section \<open>The heads of the history\<close>

fun unique_heads ::
    "string set \<Rightarrow> id_set \<Rightarrow> (string \<times> recovery_commit) list \<Rightarrow> recovery_commit list
       \<Rightarrow> (string \<times> recovery_commit) list \<times> id_set" where
  "unique_heads seen replays heads [] = (heads, replays)"
| "unique_heads seen replays heads (commit # commits) =
     (case rc_head_id commit of
        None \<Rightarrow> unique_heads seen replays heads commits
      | Some head \<Rightarrow>
          if head \<in> seen then unique_heads seen (bt_insert head () replays) heads commits
          else unique_heads (insert head seen) replays (heads @ [(head, commit)]) commits)"

fun find_descendants ::
    "'a manifest_prims_scheme \<Rightarrow> (error \<Rightarrow> string) \<Rightarrow> key_file \<Rightarrow> (string \<Rightarrow> material result) \<Rightarrow> continuity_floor
       \<Rightarrow> opened_state list \<Rightarrow> recovery_report \<Rightarrow> recovery_budget option \<Rightarrow> id_set \<Rightarrow> recovery_offer list
       \<Rightarrow> (string \<times> recovery_commit) list \<Rightarrow> (id_set \<times> recovery_offer list) stage result" where
  "find_descendants P show_error key reader pinned floor_chain report budget replays descendants [] =
     Inr (Go (replays, descendants))"
| "find_descendants P show_error key reader pinned floor_chain report budget replays descendants ((candidate_id, commit) # heads) =
     (if candidate_id = cf_head_id pinned
      then find_descendants P show_error key reader pinned floor_chain report budget replays descendants heads
      else if list_ex (\<lambda>entry. os_id entry = candidate_id) floor_chain
      then find_descendants P show_error key reader pinned floor_chain report budget (bt_insert candidate_id () replays) descendants heads
      else case chain_from P key candidate_id reader budget of
        (Inl e, budget') \<Rightarrow>
          if downcast is_BudgetExhausted e then Inl (discovery_failed e)
          else if classify_recovery_error e = Invalid
          then find_descendants P show_error key reader pinned floor_chain report budget' replays descendants heads
          else Inr (Return (report\<lparr>rr_blocked_reason := Some (''historical carrier head '' @ candidate_id @ '' is ''
            @ class_name (classify_recovery_error e) @ '': '' @ show_error e)\<rparr>))
      | (Inr candidate_chain, budget') \<Rightarrow>
     (case candidate_chain of
        [] \<Rightarrow> Inl (err (Msg ''validated candidate chain is empty''))
      | candidate # _ \<Rightarrow>
          if \<not> list_ex (at_floor pinned) candidate_chain
          then Inr (Return (report\<lparr>rr_blocked_reason := Some (''authenticated historical head '' @ candidate_id
            @ '' does not descend from the pinned floor'')\<rparr>))
          else find_descendants P show_error key reader pinned floor_chain report budget' replays
            (descendants @ [(\<lparr>ra_manifest_id = os_id candidate, ra_generation = mf_generation (os_manifest candidate),
               ra_outer_commit = Some (rc_commit_id commit), ra_verified_signer = os_verified_signer candidate\<rparr>,
               candidate_chain)]) heads))"

definition related :: "recovery_offer \<Rightarrow> recovery_offer \<Rightarrow> bool" where
  "related left right = (list_ex (\<lambda>entry. os_id entry = ra_manifest_id (fst left)) (snd right)
     \<or> list_ex (\<lambda>entry. os_id entry = ra_manifest_id (fst right)) (snd left))"

fun has_conflict :: "recovery_offer list \<Rightarrow> bool" where
  "has_conflict [] = False"
| "has_conflict (left # rights) = (list_ex (\<lambda>right. \<not> related left right) rights \<or> has_conflict rights)"

definition history_offers ::
    "'a manifest_prims_scheme \<Rightarrow> (error \<Rightarrow> string) \<Rightarrow> 's encrypted_repository \<Rightarrow> 's \<Rightarrow> continuity_floor \<Rightarrow> recovery_history
       \<Rightarrow> bool \<Rightarrow> opened_state list \<Rightarrow> recovery_budget option \<Rightarrow> recovery_report \<Rightarrow> (id_set \<times> recovery_offer list) stage result" where
  "history_offers P show_error R s pinned history carrier_history floor_chain budget report =
     (if \<not> carrier_history then Inr (Go ([], []))
      else
        let (heads, replays) = unique_heads {} [] [] (rh_commits history) in
        bail_if (length heads > MAX_RECOVERY_CANDIDATES) (BudgetExhausted ''recovery candidate budget exhausted'') (
        find_descendants P show_error (er_key R) (read_history_material P R s history) pinned floor_chain
          report budget replays [] heads))"

text \<open>The third stage: the offers, oldest first, and the report that lists them.\<close>

definition recovery_offers ::
    "'a manifest_prims_scheme \<Rightarrow> (error \<Rightarrow> string) \<Rightarrow> 's encrypted_repository \<Rightarrow> 's \<Rightarrow> continuity_floor \<Rightarrow> recovery_history
       \<Rightarrow> bool \<Rightarrow> recovery_offer \<Rightarrow> recovery_budget option \<Rightarrow> recovery_report \<Rightarrow> (recovery_report \<times> recovery_offer list) stage result" where
  "recovery_offers P show_error R s pinned history carrier_history floor_offer budget report =
     and_then (history_offers P show_error R s pinned history carrier_history (snd floor_offer) budget report) (\<lambda>found.
     case found of
       Return r \<Rightarrow> Inr (Return r)
     | Go (replays, descendants) \<Rightarrow>
         if has_conflict descendants
         then Inr (Return (report\<lparr>rr_conflict := True,
           rr_blocked_reason := Some ''authenticated descendants conflict; refusing to choose between forks'',
           rr_candidates := map fst (floor_offer # descendants), rr_replays := map fst replays\<rparr>))
         else
           let offers = sort_key (\<lambda>offer. ra_generation (fst offer)) (floor_offer # descendants) in
           Inr (Go (report\<lparr>rr_candidates := map fst offers, rr_replays := map fst replays,
             rr_default_base := Some (ra_manifest_id (fst (last offers))),
             rr_warning := (if carrier_history then rr_warning report else Some STALE_FLOOR_WARNING)\<rparr>, offers)))"

section \<open>Choosing a base\<close>

definition choose_base ::
    "'a prims_scheme \<Rightarrow> 's encrypted_repository \<Rightarrow> recovery_options \<Rightarrow> bool \<Rightarrow> recovery_report \<Rightarrow> recovery_offer list
       \<Rightarrow> (opened_state \<times> opened_state list) stage result" where
  "choose_base P R options carrier_history report offers =
     (if offers = [] then Inl (err (Msg ''recovery floor offer is missing''))
      else if \<not> ro_publish options then Inr (Return report)
      else
        let default_offer = last offers;
            selected_id = (case ro_base options of None \<Rightarrow> ra_manifest_id (fst default_offer) | Some i \<Rightarrow> i)
        in case List.find (\<lambda>offer. ra_manifest_id (fst offer) = selected_id) offers of
          None \<Rightarrow> Inr (Return (report\<lparr>rr_blocked_reason := Some (''selected base '' @ selected_id
            @ '' is not an authenticated recovery offer'')\<rparr>))
        | Some selected \<Rightarrow>
            if ra_generation (fst selected) < ra_generation (fst default_offer) \<and> \<not> ro_discard_newer options
            then Inr (Return (report\<lparr>rr_blocked_reason := Some (''choosing older base ''
              @ ra_manifest_id (fst selected) @ '' requires --discard-newer'')\<rparr>))
            else if \<not> carrier_history \<and> \<not> ro_accept_stale_floor options
            then Inr (Return (report\<lparr>rr_blocked_reason := Some (''directory recovery requires --accept-stale-floor. ''
              @ STALE_FLOOR_WARNING)\<rparr>))
            else (case snd selected of
                [] \<Rightarrow> Inl (err (Msg ''selected recovery base is missing from its validated chain''))
              | base_state # _ \<Rightarrow>
                  bail_if (os_id base_state \<noteq> ra_manifest_id (fst selected))
                    (Msg ''selected recovery base is missing from its validated chain'') (
                  and_then (key_device_id P (er_key R)) (\<lambda>device_id.
                  if \<not> is_active_writer (os_policy base_state) device_id
                  then Inr (Return (report\<lparr>rr_blocked_reason :=
                    Some ''device is not an active writer under the selected base policy''\<rparr>))
                  else Inr (Go (base_state, snd selected))))))"

section \<open>Restoring and checking the base\<close>

definition storage_object_matches ::
    "'a prims_scheme \<Rightarrow> 's encrypted_repository \<Rightarrow> object_kind \<Rightarrow> string \<Rightarrow> 's \<Rightarrow> bool" where
  "storage_object_matches P R kind i s = (case so_open_object (er_storage R) kind i s of
     Inl _ \<Rightarrow> False
   | Inr b \<Rightarrow> object_id P b = i)"

definition ensure_object_available ::
    "'a prims_scheme \<Rightarrow> 's encrypted_repository \<Rightarrow> object_kind \<Rightarrow> string \<Rightarrow> (unit, ('s, 'g) world) act" where
  "ensure_object_available P R kind i =
     act_then (act_get (\<lambda>w. Inr (storage_object_matches P R kind i (w_storage w)))) (\<lambda>present.
     if present then act_ret (Inr ())
     else
       act_then (on_storage (so_restore_historical_object (er_storage R) kind i
         (min (2 * kind_max_bytes kind) (2 ^ 64 - 1)))) (\<lambda>restored.
       act_then (act_get (\<lambda>w. Inr (restored \<and> storage_object_matches P R kind i (w_storage w)))) (\<lambda>present.
       if present then act_ret (Inr ())
       else act_ret (Inl (err (Msg (''required object '' @ i @ '' is missing or corrupt'')))))))"

text \<open>What \<^verbatim>\<open>restore_base_objects\<close> needs, in the order of its nested loops.\<close>

definition required_objects :: "opened_state list \<Rightarrow> (object_kind \<times> string) list" where
  "required_objects chain = concat (map (\<lambda>state. (Manifest, os_id state)
     # map (\<lambda>d. (Pack, pk_id d)) (mf_new_packs (os_manifest state))) chain)"

fun ensure_objects :: "'a prims_scheme \<Rightarrow> 's encrypted_repository \<Rightarrow> (object_kind \<times> string) list \<Rightarrow> (unit, ('s, 'g) world) act" where
  "ensure_objects P R [] = act_ret (Inr ())"
| "ensure_objects P R ((kind, i) # objects) =
     act_then (ensure_object_available P R kind i) (\<lambda>_. ensure_objects P R objects)"

definition restore_base_objects ::
    "'a prims_scheme \<Rightarrow> 's encrypted_repository \<Rightarrow> opened_state list \<Rightarrow> (unit, ('s, 'g) world) act" where
  "restore_base_objects P R chain = ensure_objects P R (required_objects chain)"

fun import_scratch ::
    "'a prims_scheme \<Rightarrow> 's encrypted_repository \<Rightarrow> 'g git_ops \<Rightarrow> 's \<Rightarrow> (opened_state \<times> pack_descriptor) list \<Rightarrow> 'g \<Rightarrow> 'g result" where
  "import_scratch P R G s [] g = Inr g"
| "import_scratch P R G s ((entry, d) # packs) g =
     and_then (open_chain_pack P R entry d s) (\<lambda>plaintext.
     case import_pack G plaintext g of
       (Inl e, _) \<Rightarrow> Inl e
     | (Inr _, g') \<Rightarrow> import_scratch P R G s packs g')"

definition verify_base_graph ::
    "'a prims_scheme \<Rightarrow> 's encrypted_repository \<Rightarrow> 'g git_ops \<Rightarrow> 'g result \<Rightarrow> 's \<Rightarrow> opened_state list \<Rightarrow> unit result" where
  "verify_base_graph P R G scratch s chain =
     and_then scratch (\<lambda>g.
     and_then (import_scratch P R G s (chain_packs chain) g) (\<lambda>g.
     case chain of
       [] \<Rightarrow> Inl (err (Msg ''selected recovery chain is empty''))
     | head # _ \<Rightarrow>
         and_then (validate_inner_refs (mf_refs (os_manifest head))) (\<lambda>_.
         ensure_refs_connected_since G g (mf_refs (os_manifest head)) [])))"

section \<open>Publishing the recovery\<close>

text \<open>The successor carries the base's refs and no pack. Its generation is not a checked addition.\<close>

definition recovery_manifest :: "'a prims_scheme \<Rightarrow> publication_random \<Rightarrow> opened_state \<Rightarrow> manifest result" where
  "recovery_manifest P rnd base_state =
     (let generation = mf_generation (os_manifest base_state) + 1 in
      and_then (wrap_predecessor_key P (pr_link_nonce rnd) (pr_key rnd) (os_generation_key base_state)
        (mf_repository_root (os_manifest base_state)) generation (os_id base_state)) (\<lambda>link.
      Inr \<lparr>mf_format_version = mf_format_version (os_manifest base_state),
           mf_repository_root = mf_repository_root (os_manifest base_state),
           mf_generation = generation, mf_previous = Some (os_id base_state),
           mf_policy_id = st_id (os_policy base_state),
           mf_policy_generation = pb_generation (st_body (os_policy base_state)),
           mf_authorization = Writer,
           mf_total_pack_count = mf_total_pack_count (os_manifest base_state),
           mf_refs = mf_refs (os_manifest base_state), mf_new_packs = [],
           mf_predecessor_key_wrap = Some link, mf_introduced_policy = None\<rparr>))"

definition publish_recovery ::
    "'a repository_prims_scheme \<Rightarrow> (error \<Rightarrow> string) \<Rightarrow> 's encrypted_repository \<Rightarrow> 'g git_repository \<Rightarrow> publication_random
       \<Rightarrow> 'g result \<Rightarrow> string \<Rightarrow> head_observation \<Rightarrow> recovery_report \<Rightarrow> opened_state \<Rightarrow> opened_state list
       \<Rightarrow> (recovery_report, ('s, 'g) world) act" where
  "publish_recovery P show_error R repo rnd scratch floor observation report base_state chain w =
     (case restore_base_objects P R chain w of
        (Inl e, w1) \<Rightarrow> (Inr (report\<lparr>rr_blocked_reason :=
          Some (''required ciphertext is unavailable: '' @ show_error e)\<rparr>), w1)
      | (Inr _, w1) \<Rightarrow>
     (case verify_base_graph P R (gr_ops repo) scratch (w_storage w1) chain of
        Inl e \<Rightarrow> (Inr (report\<lparr>rr_blocked_reason :=
          Some (''selected base does not resolve to a complete local object graph: '' @ show_error e)\<rparr>), w1)
      | Inr _ \<Rightarrow>
          act_then (on_storage (so_prepare_recovery (er_storage R) (map os_id chain)
            (concat (map (\<lambda>e. map pk_id (mf_new_packs (os_manifest e))) chain)))) (\<lambda>_.
          act_then (act_ret (recovery_manifest P rnd base_state)) (\<lambda>next.
          act_then (commit_manifest_with_observation P R (pr_manifest rnd) (Some base_state) (Some observation)
            (os_policy base_state) None (pr_key rnd) Writer next) (\<lambda>recovered_id.
          act_then (advance_floor P floor recovered_id next) (\<lambda>_.
          act_ret (Inr (report\<lparr>rr_published_manifest := Some recovered_id, rr_blocked_reason := None\<rparr>)))))) w1))"

definition recover ::
    "'a repository_prims_scheme \<Rightarrow> (error \<Rightarrow> string) \<Rightarrow> 's encrypted_repository \<Rightarrow> 'g git_repository \<Rightarrow> publication_random
       \<Rightarrow> 'g result \<Rightarrow> recovery_options \<Rightarrow> (recovery_report, ('s, 'g) world) act" where
  "recover P show_error R repo rnd scratch options =
     (let floor = lock_floor R; checkout = open_checkout R repo in
      stage_then (recovery_assessment P show_error R floor checkout (ro_publish options)) (\<lambda>(report, observation, pinned, budget).
      stage_then (act_get (\<lambda>w. recovery_floor P show_error R (w_storage w) pinned budget report))
        (\<lambda>(history, carrier_history, floor_offer, budget).
      stage_then (act_get (\<lambda>w. recovery_offers P show_error R (w_storage w) pinned history carrier_history floor_offer budget report))
        (\<lambda>(report, offers).
      stage_then (act_ret (choose_base P R options carrier_history report offers)) (\<lambda>(base_state, chain).
      publish_recovery P show_error R repo rnd scratch floor observation report base_state chain)))))"

end
