(* ===== verification/Recovery_Facts.thy ===== *)
theory Recovery_Facts
  imports Recovery Repository_Facts
begin

text \<open>
  What recovery may and may not do. The log of rejected heads is bounded. A head is replaced
  only when it is proven invalid; the base is authenticated, contains the machine's floor and
  no authenticated head of the history forks from it.
\<close>

section \<open>The log of rejected heads\<close>

definition rejection_of :: "string \<times> recovery_class \<times> string \<Rightarrow> rejected_head_evidence" where
  "rejection_of = (\<lambda>(i, c, reason). \<lparr>re_head_id = i, re_classification = c,
     re_reason = concat (take 512 (utf8_slices reason))\<rparr>)"

fun record_rejections ::
    "'a repository_prims_scheme \<Rightarrow> string \<Rightarrow> (string \<times> recovery_class \<times> string) list \<Rightarrow> files \<Rightarrow> files result" where
  "record_rejections P directory [] fs = Inr fs"
| "record_rejections P directory ((i, c, reason) # xs) fs =
     and_then (record_rejected_head P directory i c reason fs) (record_rejections P directory xs)"

text \<open>The abstract log: the newest evidence of each head, newest first.\<close>

fun newest_of_each :: "rejected_head_evidence list \<Rightarrow> rejected_head_evidence list" where
  "newest_of_each [] = []"
| "newest_of_each (x # xs) = x # filter (\<lambda>y. re_head_id y \<noteq> re_head_id x) (newest_of_each xs)"

definition rejected_log_laws :: "'a repository_prims_scheme \<Rightarrow> bool" where
  "rejected_log_laws P \<longleftrightarrow> (\<forall>log. rejected_log_of_slice P (rejected_log_to_vec P log) = Some log)"

lemma distinct_newest: "distinct (map re_head_id (newest_of_each xs))"
  by (induction xs) (auto simp: distinct_map_filter)

lemma take_filter_one:
  "distinct (map f xs) \<Longrightarrow> take n (filter (\<lambda>y. f y \<noteq> i) (take (Suc n) xs)) = take n (filter (\<lambda>y. f y \<noteq> i) xs)"
proof (induction xs arbitrary: n)
  case (Cons x xs)
  show ?case
  proof (cases "f x = i")
    case True
    then have "\<forall>y \<in> set xs. f y \<noteq> i" using Cons.prems by (auto simp: image_iff)
    then have "filter (\<lambda>y. f y \<noteq> i) xs = xs" "filter (\<lambda>y. f y \<noteq> i) (take n xs) = take n xs"
      by (simp_all add: filter_id_conv) (meson in_set_takeD)
    then show ?thesis using True by simp
  next
    case False
    then show ?thesis using Cons by (cases n) auto
  qed
qed simp

lemma record_rejected_head_newest:
  assumes "rejected_log_laws P" and "rl_entries (read_rejected_heads P dir fs) = rev (take MAX_REJECTED_HEADS (newest_of_each h))"
  obtains fs' where "record_rejected_head P dir i c reason fs = Inr fs'"
    "rl_entries (read_rejected_heads P dir fs') = rev (take MAX_REJECTED_HEADS (newest_of_each (rejection_of (i, c, reason) # h)))"
proof -
  let ?x = "rejection_of (i, c, reason)"
  let ?old = "filter (\<lambda>e. re_head_id e \<noteq> i) (rev (take MAX_REJECTED_HEADS (newest_of_each h)))"
  have x: "re_head_id ?x = i" by (simp add: rejection_of_def)
  have keep: "(if length xs > n then drop (length xs - n) xs else xs) = rev (take n (rev xs))" for n and xs :: "rejected_head_evidence list"
    by (simp add: take_rev)
  have "rev (take MAX_REJECTED_HEADS (rev (?old @ [?x]))) = rev (take MAX_REJECTED_HEADS (newest_of_each (?x # h)))"
    using take_filter_one [OF distinct_newest, of 15 i h] by (simp add: MAX_REJECTED_HEADS_def x rev_filter)
  then show thesis
    using that assms
    by (simp add: record_rejected_head_def Let_def keep rejection_of_def write_json_def read_rejected_heads_def rejected_log_laws_def)
qed

lemma record_rejections_newest:
  assumes "rejected_log_laws P" and "rl_entries (read_rejected_heads P dir fs) = rev (take MAX_REJECTED_HEADS (newest_of_each h))"
  shows "\<exists>fs'. record_rejections P dir xs fs = Inr fs' \<and>
    rl_entries (read_rejected_heads P dir fs') = rev (take MAX_REJECTED_HEADS (newest_of_each (rev (map rejection_of xs) @ h)))"
  using assms(2)
proof (induction xs arbitrary: fs h)
  case (Cons x xs)
  obtain i c reason where x: "x = (i, c, reason)" by (rule prod_cases3)
  from record_rejected_head_newest [OF assms(1) Cons.prems, of i c reason] obtain fs' where
    step: "record_rejected_head P dir i c reason fs = Inr fs'"
      "rl_entries (read_rejected_heads P dir fs') = rev (take MAX_REJECTED_HEADS (newest_of_each (rejection_of x # h)))"
    unfolding x by blast
  from Cons.IH [OF step(2)] step(1) show ?case by (simp add: x)
qed simp

text \<open>C37. The log of rejected heads keeps what its reader needs in bounded space: after any sequence of
  rejections it holds the newest evidence of the sixteen heads rejected last, oldest first, one
  entry for each head, whatever was rejected before.\<close>

theorem rejected_heads_are_the_newest:
  assumes "rejected_log_laws P" and "fs (rejected_heads_path dir) = None"
  shows "\<exists>fs'. record_rejections P dir xs fs = Inr fs'
    \<and> rl_entries (read_rejected_heads P dir fs') = rev (take MAX_REJECTED_HEADS (newest_of_each (rev (map rejection_of xs))))
    \<and> length (rl_entries (read_rejected_heads P dir fs')) \<le> 16
    \<and> distinct (map re_head_id (rl_entries (read_rejected_heads P dir fs')))"
proof -
  have "rl_entries (read_rejected_heads P dir fs) = rev (take MAX_REJECTED_HEADS (newest_of_each []))"
    using assms(2) by (simp add: read_rejected_heads_def default_log_def)
  from record_rejections_newest [OF assms(1) this, of xs] distinct_newest [of "rev (map rejection_of xs)"]
  show ?thesis by (auto simp: MAX_REJECTED_HEADS_def rev_map [symmetric] take_map [symmetric] simp del: newest_of_each.simps)
qed

section \<open>The budget does not change what is authenticated\<close>

lemma charge_error: "charge b h n = (Inl e, b') \<Longrightarrow> classify_recovery_error e \<noteq> Invalid"
  by (auto simp: charge_def charge_manifest_def Let_def classify_recovery_error_def split: option.splits prod.splits if_splits)

lemma charge_None: "charge None h n = (Inr (), None)"
  by (simp add: charge_def)

lemma chain_loop_budget:
  "fst (chain_loop P reader seen i opened gk us b) = fst (chain_loop P reader seen i opened gk us None)
   \<or> (\<exists>e. fst (chain_loop P reader seen i opened gk us b) = Inl e \<and> classify_recovery_error e \<noteq> Invalid)"
proof (induction P reader seen i opened gk us b rule: chain_loop.induct)
  case (1 P reader seen i opened gk us b)
  show ?case
    apply (subst (1 2 3) chain_loop.simps)
    using "1.IH"
    by (auto simp: charge_None split: if_splits option.splits sum.splits prod.splits dest: charge_error)
qed

lemma chain_from_budget:
  "fst (chain_from P key head reader b) = fst (chain_from P key head reader None)
   \<or> (\<exists>e. fst (chain_from P key head reader b) = Inl e \<and> classify_recovery_error e \<noteq> Invalid)"
  using chain_loop_budget [of P reader]
  by (auto simp: chain_from_def charge_None split: sum.splits prod.splits dest: charge_error)
    (metis fst_conv sum.inject sum.distinct)+

section \<open>The stages\<close>

lemma stage_then_Inr:
  "stage_then m f w = (Inr r, w'') \<longleftrightarrow>
     m w = (Inr (Return r), w'') \<or> (\<exists>a w'. m w = (Inr (Go a), w') \<and> f a w' = (Inr r, w''))"
  by (auto simp: stage_then_def act_then_Inr act_ret_eq split: stage.splits) (metis stage.exhaust)+

lemma stage_then_published:
  assumes "stage_then m f w = (Inr r, w'')" and "rr_published_manifest r = Some i"
    and "\<And>r w'. m w = (Inr (Return r), w') \<Longrightarrow> rr_published_manifest r = None"
  obtains a w' where "m w = (Inr (Go a), w')" "f a w' = (Inr r, w'')"
  using assms by (auto simp: stage_then_Inr)

text \<open>The head is proven invalid when no budget is needed to say so.\<close>

definition head_invalid :: "'a manifest_prims_scheme \<Rightarrow> 's encrypted_repository \<Rightarrow> 's \<Rightarrow> head_observation \<Rightarrow> bool" where
  "head_invalid P R s observation \<longleftrightarrow> (case ho_head_id observation of
     Some head \<Rightarrow> (\<exists>e. fst (chain_from P (er_key R) head (read_material P R s) None) = Inl e \<and> classify_recovery_error e = Invalid)
   | None \<Rightarrow> ho_head observation \<noteq> None)"

lemma assess_chain_not_invalid: "rr_classification (assess_chain sh R s f chain report) \<noteq> Invalid"
  by (auto simp: assess_chain_def Let_def split: sum.splits)

lemma assess_head_ok:
  assumes "assess_head P sh R s f ob chain report = Inr r"
  shows "rr_published_manifest r = rr_published_manifest report
    \<and> (rr_classification r = Invalid \<longrightarrow> (\<exists>e. chain = Inl e \<and> classify_recovery_error e = Invalid))"
proof (cases chain)
  case (Inl e)
  then show ?thesis using assms by (auto simp: assess_head_def Let_def split: if_splits option.splits)
next
  case (Inr c)
  have "rr_published_manifest (assess_chain sh R s f c x) = rr_published_manifest x" for x
    by (simp add: assess_chain_def Let_def split: sum.splits)
  then show ?thesis using assms Inr by (auto simp: assess_head_def assess_chain_not_invalid)
qed

lemma observed_chain_invalid:
  assumes "fst (observed_chain P R s ob) = Inl e" and "classify_recovery_error e = Invalid"
  shows "head_invalid P R s ob"
proof (cases "ho_head_id ob")
  case None
  then show ?thesis
    using assms by (auto simp: observed_chain_def head_invalid_def classify_recovery_error_def has_cause_def split: option.splits if_splits)
next
  case (Some head)
  then have "fst (chain_from P (er_key R) head (read_material P R s) None) = Inl e"
    using assms chain_from_budget [of P "er_key R" head "read_material P R s" "Some no_budget_used"]
    by (auto simp: observed_chain_def)
  then show ?thesis using Some assms(2) by (simp add: head_invalid_def)
qed

lemma assessment_effect:
  assumes "recovery_assessment P sh R floor checkout publish w = (r, w')"
  shows "w_storage w' = w_storage w \<and> w_git w' = w_git w \<and> (\<forall>p. p \<noteq> rejected_heads_path checkout \<longrightarrow> w_files w' p = w_files w p)"
  using assms
  by (auto simp: recovery_assessment_def act_then_def act_get_def act_ret_def Let_def on_files_def record_rejected_head_def
      write_json_def split: sum.splits prod.splits if_splits option.splits)

lemma assessment_returns:
  assumes "recovery_assessment P sh R floor checkout publish w = (Inr (Return r), w')"
  shows "rr_published_manifest r = None"
  using assms
  by (auto simp: recovery_assessment_def act_then_def act_get_def act_ret_def Let_def blank_report_def
      split: sum.splits prod.splits if_splits option.splits dest: assess_head_ok)

lemma assessment_goes:
  assumes "recovery_assessment P sh R floor checkout publish w = (Inr (Go (report, ob, pinned, budget)), w')"
  shows "floor_read P floor (w_files w) = Inr (Some pinned) \<and> so_observe_head (er_storage R) (w_storage w) = Inr ob
    \<and> rr_published_manifest report = None \<and> rr_classification report = Invalid \<and> head_invalid P R (w_storage w) ob"
proof -
  from assms obtain chain where
    parts: "floor_read P floor (w_files w) = Inr (Some pinned)" "so_observe_head (er_storage R) (w_storage w) = Inr ob"
      "observed_chain P R (w_storage w) ob = (chain, budget)"
      "assess_head P sh R (w_storage w) (Some pinned) ob chain ((blank_report (Some pinned))\<lparr>rr_head_id := ho_head_id ob\<rparr>) = Inr report"
      "rr_classification report = Invalid"
    by (auto simp: recovery_assessment_def act_then_def act_get_def act_ret_def Let_def
        split: sum.splits prod.splits if_splits option.splits)
  then show ?thesis
    using assess_head_ok [OF parts(4)] observed_chain_invalid [of P R "w_storage w" ob] by (auto simp: blank_report_def)
qed

abbreviation authenticated ::
    "'a manifest_prims_scheme \<Rightarrow> 's encrypted_repository \<Rightarrow> 's \<Rightarrow> recovery_history \<Rightarrow> string \<Rightarrow> opened_state list result" where
  "authenticated P R s history i \<equiv> fst (chain_from P (er_key R) i (read_history_material P R s history) None)"

text \<open>An offer is an authenticated chain through the floor, named after its head.\<close>

definition sound_offer ::
    "(string \<Rightarrow> opened_state list result) \<Rightarrow> continuity_floor \<Rightarrow> recovery_offer \<Rightarrow> bool" where
  "sound_offer auth pinned offer \<longleftrightarrow> (\<exists>i base ps. auth i = Inr (base # ps) \<and> snd offer = base # ps \<and> os_id base = i
     \<and> ra_manifest_id (fst offer) = i \<and> ra_generation (fst offer) = mf_generation (os_manifest base)
     \<and> list_ex (at_floor pinned) (base # ps))"

lemma read_history_material_id: "read_history_material P R s h i = Inr (j, b, header) \<Longrightarrow> j = i"
  by (auto simp: read_history_material_def read_material_def read_manifest_material_def and_then_eq_Inr
      split: sum.splits option.splits if_splits)

lemma history_chain:
  assumes "fst (chain_from P (er_key R) i (read_history_material P R s h) b) = Inr chain"
  shows "authenticated P R s h i = Inr chain" and "authentic_chain P (kf_repository_root (er_key R)) chain"
    and "\<exists>base ps. chain = base # ps \<and> os_id base = i"
proof -
  show "authenticated P R s h i = Inr chain"
    using chain_from_budget [of P "er_key R" i "read_history_material P R s h" b] assms by auto
  from assms obtain b' where c: "chain_from P (er_key R) i (read_history_material P R s h) b = (Inr chain, b')"
    by (metis prod.collapse)
  from chain_from_authentic [OF this] show auth: "authentic_chain P (kf_repository_root (er_key R)) chain"
    and "\<exists>base ps. chain = base # ps \<and> os_id base = i"
    using read_history_material_id authentic_chain_not_Nil by (fastforce simp: neq_Nil_conv)+
qed

lemma history_chain_run:
  "chain_from P (er_key R) i (read_history_material P R s h) b = (Inr chain, b') \<Longrightarrow> authenticated P R s h i = Inr chain"
  by (rule history_chain(1) [where b = b]) simp

lemma history_chain_error:
  assumes "chain_from P (er_key R) i (read_history_material P R s h) b = (Inl e, b')" and "classify_recovery_error e = Invalid"
  shows "authenticated P R s h i = Inl e"
  using chain_from_budget [of P "er_key R" i "read_history_material P R s h" b] assms by auto

lemma chain_loop_distinct:
  "chain_loop P rd seen i om gk us b = (Inr out, b') \<Longrightarrow>
     \<exists>vs. out = us @ vs \<and> distinct (map fst vs) \<and> fst ` set vs \<inter> seen = {}"
proof (induction P rd seen i om gk us b arbitrary: out b' rule: chain_loop.induct)
  case (1 P rd seen i om gk us b)
  have "i \<notin> seen \<and> (out = us @ [(i, om, gk)] \<or>
      (\<exists>vs. out = us @ (i, om, gk) # vs \<and> distinct (map fst vs) \<and> fst ` set vs \<inter> insert i seen = {}))"
    using 1(2) by (subst (asm) chain_loop.simps)
      (auto split: if_splits option.splits sum.splits prod.splits dest!: 1(1))
  then show ?case by (elim conjE disjE exE) auto
qed

lemma chain_from_distinct:
  assumes "chain_from P key head rd budget = (Inr chain, budget')"
  shows "distinct (map os_id chain)"
proof -
  from assms obtain us where "distinct (map fst us)" "verify_opened_chain P (kf_repository_root key) us = Inr chain"
    by (auto simp: chain_from_def map_err_eq_Inr split: sum.splits prod.splits dest!: chain_loop_distinct)
  moreover from this(2) have "map os_id chain = map fst us"
    using verify_chain_loop_authentic [of P "kf_repository_root key" "{}" "[]" "rev us" chain]
    by (simp add: verify_opened_chain_def)
  ultimately show ?thesis by simp
qed

lemma recovery_floor_returns:
  "recovery_floor P sh R s pinned b report = Inr (Return r) \<Longrightarrow> rr_published_manifest r = rr_published_manifest report"
  by (auto simp: recovery_floor_def and_then_eq_Inr Let_def split: if_splits sum.splits prod.splits option.splits)

lemma recovery_floor_goes:
  assumes "recovery_floor P sh R s pinned b report = Inr (Go (history, carrier, offer, b'))"
  shows "\<exists>found. so_recovery_history (er_storage R) MAX_RECOVERY_OUTER_COMMITS (unat MAX_RECOVERY_MANIFEST_BYTES) s = Inr found
      \<and> carrier = (found \<noteq> None) \<and> history = (case found of None \<Rightarrow> \<lparr>rh_commits = [], rh_manifests = []\<rparr> | Some h \<Rightarrow> h)"
    and "authenticated P R s history (cf_head_id pinned) = Inr (snd offer)"
    and "\<exists>floor. List.find (at_floor pinned) (snd offer) = Some floor \<and> ra_manifest_id (fst offer) = os_id floor
      \<and> ra_generation (fst offer) = mf_generation (os_manifest floor)
      \<and> cf_repository_root pinned = mf_repository_root (os_manifest floor)
      \<and> cf_policy_generation pinned \<le> mf_policy_generation (os_manifest floor)"
  using assms
  by (auto simp: recovery_floor_def and_then_eq_Inr Let_def split: if_splits sum.splits prod.splits option.splits
      intro: history_chain_run)

lemma recovery_floor_offer:
  assumes "recovery_floor P sh R s pinned b report = Inr (Go (history, carrier, offer, b'))"
  shows "sound_offer (authenticated P R s history) pinned offer" and "ra_manifest_id (fst offer) = cf_head_id pinned"
    and "validate_pinned_head (snd offer) (Some pinned) = Inr ()" and "at_floor pinned (hd (snd offer))"
proof -
  note goes = recovery_floor_goes [OF assms]
  from goes(3) obtain floor where find: "List.find (at_floor pinned) (snd offer) = Some floor"
    and offer: "ra_manifest_id (fst offer) = os_id floor" "ra_generation (fst offer) = mf_generation (os_manifest floor)"
      "cf_repository_root pinned = mf_repository_root (os_manifest floor)"
      "cf_policy_generation pinned \<le> mf_policy_generation (os_manifest floor)" by auto
  then have floor: "floor \<in> set (snd offer)" "at_floor pinned floor" by (auto simp: find_Some_iff)
  from history_chain(3) [OF goes(2)] obtain base ps where chain: "snd offer = base # ps" "os_id base = cf_head_id pinned" by auto
  have "distinct (map os_id (snd offer))"
    using chain_from_distinct goes(2) by (metis prod.collapse)
  then have "floor = base" using floor chain by (auto simp: at_floor_def image_iff)
  moreover have "list_ex (at_floor pinned) (snd offer)" using floor by (auto simp: list_ex_iff)
  ultimately show "sound_offer (authenticated P R s history) pinned offer" "ra_manifest_id (fst offer) = cf_head_id pinned"
      and "validate_pinned_head (snd offer) (Some pinned) = Inr ()" "at_floor pinned (hd (snd offer))"
    using goes(2) chain offer floor
    by (auto simp: sound_offer_def validate_pinned_head_def at_floor_def bail_if_def not_less)
qed

lemma find_descendants_returns:
  "find_descendants P sh key reader pinned fc report b rs ds heads = Inr (Return r) \<Longrightarrow>
     rr_published_manifest r = rr_published_manifest report"
  by (induction P sh key reader pinned fc report b rs ds heads rule: find_descendants.induct)
    (auto split: if_splits prod.splits sum.splits list.splits)

lemma find_descendants_offers:
  assumes "find_descendants P sh (er_key R) (read_history_material P R s h) pinned fc report b rs ds heads = Inr (Go (rs', ds'))"
    and "\<forall>offer \<in> set ds. sound_offer (authenticated P R s h) pinned offer"
  shows "(\<forall>offer \<in> set ds'. sound_offer (authenticated P R s h) pinned offer) \<and> set ds \<subseteq> set ds'
    \<and> (\<forall>(i, c) \<in> set heads. i = cf_head_id pinned \<or> i \<in> os_id ` set fc
       \<or> (\<exists>e. authenticated P R s h i = Inl e \<and> classify_recovery_error e = Invalid)
       \<or> (\<exists>offer \<in> set ds'. ra_manifest_id (fst offer) = i \<and> authenticated P R s h i = Inr (snd offer)))"
  using assms
proof (induction heads arbitrary: b rs ds)
  case (Cons head heads)
  obtain i c where head: "head = (i, c)" by fastforce
  show ?case
  proof (cases "i = cf_head_id pinned \<or> list_ex (\<lambda>entry. os_id entry = i) fc")
    case True
    then show ?thesis using Cons.prems Cons.IH by (auto simp: head list_ex_iff split: if_splits)
  next
    case False
    obtain r b' where chain: "chain_from P (er_key R) i (read_history_material P R s h) b = (r, b')" by fastforce
    show ?thesis
    proof (cases r)
      case (Inl e)
      then have "classify_recovery_error e = Invalid" "authenticated P R s h i = Inl e"
        using Cons.prems(1) False chain history_chain_error by (auto simp: head split: if_splits)
      then show ?thesis using Cons.prems Cons.IH [of b' rs ds] Inl False chain by (auto simp: head split: if_splits)
    next
      case (Inr cs)
      from history_chain [of P R i s h b cs] chain Inr obtain base ps where
        cs: "cs = base # ps" "os_id base = i" and auth: "authenticated P R s h i = Inr cs" by auto
      let ?offer = "(\<lparr>ra_manifest_id = os_id base, ra_generation = mf_generation (os_manifest base),
        ra_outer_commit = Some (rc_commit_id c), ra_verified_signer = os_verified_signer base\<rparr>, cs)"
      have at: "list_ex (at_floor pinned) cs"
        and rest: "find_descendants P sh (er_key R) (read_history_material P R s h) pinned fc report b' rs (ds @ [?offer]) heads = Inr (Go (rs', ds'))"
        using Cons.prems(1) False chain Inr cs by (auto simp: head split: if_splits)
      have "sound_offer (authenticated P R s h) pinned ?offer" using auth cs at by (auto simp: sound_offer_def)
      then show ?thesis using Cons.IH [OF rest] Cons.prems(2) auth cs by (fastforce simp: head)
    qed
  qed
qed simp

section \<open>No fork\<close>

lemma related_sym: "related x y \<longleftrightarrow> related y x"
  by (auto simp: related_def)

lemma no_conflict: "\<not> has_conflict ds \<Longrightarrow> x \<in> set ds \<Longrightarrow> y \<in> set ds \<Longrightarrow> x = y \<or> related x y"
  by (induction ds) (auto simp: list_ex_iff related_sym)

lemma unique_heads_cover:
  assumes "unique_heads seen rs hs cs = (hs', rs')" and "seen \<subseteq> fst ` set hs"
  shows "set hs \<subseteq> set hs' \<and> (\<forall>c \<in> set cs. \<forall>i. rc_head_id c = Some i \<longrightarrow> i \<in> fst ` set hs')"
  using assms
proof (induction seen rs hs cs rule: unique_heads.induct)
  case (2 seen rs hs c cs)
  show ?case
  proof (cases "rc_head_id c")
    case None
    then show ?thesis using 2 by simp
  next
    case (Some i)
    show ?thesis
    proof (cases "i \<in> seen")
      case True
      with "2.IH"(2) [OF Some True] "2.prems" Some show ?thesis by auto
    next
      case False
      have "insert i seen \<subseteq> fst ` set (hs @ [(i, c)])" using "2.prems"(2) by auto
      with "2.IH"(3) [OF Some False] "2.prems"(1) Some False
      have "set (hs @ [(i, c)]) \<subseteq> set hs'" "\<forall>c \<in> set cs. \<forall>i. rc_head_id c = Some i \<longrightarrow> i \<in> fst ` set hs'" by simp_all
      then show ?thesis using Some by force
    qed
  qed
qed simp

lemma history_offers_carrier:
  assumes "history_offers P sh R s pinned h carrier fc b report = Inr x" and "carrier"
  obtains heads replays where "unique_heads {} [] [] (rh_commits h) = (heads, replays)"
    "find_descendants P sh (er_key R) (read_history_material P R s h) pinned fc report b replays [] heads = Inr x"
  using assms by (cases "unique_heads {} [] [] (rh_commits h)") (auto simp: history_offers_def bail_if_eq_Inr)

lemma recovery_offers_cases:
  assumes "recovery_offers P sh R s pinned h carrier fo b report = Inr x"
  obtains (stopped) r where "history_offers P sh R s pinned h carrier (snd fo) b report = Inr (Return r)" "x = Return r"
    | (found) rs ds where "history_offers P sh R s pinned h carrier (snd fo) b report = Inr (Go (rs, ds))"
proof -
  from assms obtain f where f: "history_offers P sh R s pinned h carrier (snd fo) b report = Inr f"
    by (auto simp: recovery_offers_def and_then_eq_Inr)
  show thesis
  proof (cases f)
    case (Return r)
    then show thesis using assms f stopped by (simp add: recovery_offers_def)
  next
    case (Go y)
    then show thesis using f found by (cases y) simp
  qed
qed

lemma recovery_offers_found:
  assumes "history_offers P sh R s pinned h carrier (snd fo) b report = Inr (Go (rs, ds))"
  shows "recovery_offers P sh R s pinned h carrier fo b report = Inr (Return r) \<Longrightarrow> rr_published_manifest r = rr_published_manifest report"
    and "recovery_offers P sh R s pinned h carrier fo b report = Inr (Go (report', offers)) \<Longrightarrow>
      \<not> has_conflict ds \<and> offers = sort_key (\<lambda>offer. ra_generation (fst offer)) (fo # ds)
      \<and> rr_published_manifest report' = rr_published_manifest report"
  using assms by (auto simp: recovery_offers_def Let_def split: if_splits)

lemma recovery_offers_returns:
  assumes "recovery_offers P sh R s pinned h carrier fo b report = Inr (Return r)"
  shows "rr_published_manifest r = rr_published_manifest report"
  using assms
proof (cases rule: recovery_offers_cases)
  case (stopped r')
  then show ?thesis
    by (cases carrier) (auto simp: history_offers_def bail_if_eq_Inr split: prod.splits dest: find_descendants_returns)
qed (rule recovery_offers_found(1) [OF _ assms])

text \<open>What every head a history names is for an offer that was chosen.\<close>

definition head_accounted ::
    "(string \<Rightarrow> opened_state list result) \<Rightarrow> continuity_floor \<Rightarrow> opened_state list \<Rightarrow> recovery_offer list \<Rightarrow> string \<Rightarrow> bool" where
  "head_accounted auth pinned fc offers i \<longleftrightarrow> i \<in> os_id ` set fc
     \<or> (\<exists>e. auth i = Inl e \<and> classify_recovery_error e = Invalid)
     \<or> (\<exists>offer \<in> set offers. ra_manifest_id (fst offer) = i \<and> auth i = Inr (snd offer))"

lemma sorted_le_last: "sorted (map f xs) \<Longrightarrow> x \<in> set xs \<Longrightarrow> f x \<le> f (last xs)"
  by (induction xs) auto

lemma recovery_offers_goes:
  assumes run: "recovery_offers P sh R s pinned h carrier fo b report = Inr (Go (report', offers))"
    and fo: "sound_offer (authenticated P R s h) pinned fo" "ra_manifest_id (fst fo) = cf_head_id pinned"
  shows "rr_published_manifest report' = rr_published_manifest report" and "offers \<noteq> []"
    and "\<forall>offer \<in> set offers. sound_offer (authenticated P R s h) pinned offer
        \<and> ra_generation (fst offer) \<le> ra_generation (fst (last offers))"
    and "\<forall>x \<in> set offers. \<forall>y \<in> set offers. related x y"
    and "carrier \<Longrightarrow> c \<in> set (rh_commits h) \<Longrightarrow> rc_head_id c = Some i \<Longrightarrow>
      head_accounted (authenticated P R s h) pinned (snd fo) offers i"
    and "\<not> carrier \<Longrightarrow> offers = [fo]"
proof -
  from run obtain rs ds where found: "history_offers P sh R s pinned h carrier (snd fo) b report = Inr (Go (rs, ds))"
    by (cases rule: recovery_offers_cases) auto
  from recovery_offers_found(2) [OF found run] have ds: "\<not> has_conflict ds"
      "offers = sort_key (\<lambda>offer. ra_generation (fst offer)) (fo # ds)"
    and r: "rr_published_manifest report' = rr_published_manifest report" by simp_all
  show "rr_published_manifest report' = rr_published_manifest report" by (rule r)
  show ne: "offers \<noteq> []" using ds(2) by (metis length_0_conv length_sort list.distinct(1))
  have set: "set offers = insert fo (set ds)" unfolding ds(2) set_sort by simp
  have covered: "(\<forall>offer \<in> set ds. sound_offer (authenticated P R s h) pinned offer) \<and> (carrier \<longrightarrow> c \<in> set (rh_commits h)
      \<longrightarrow> rc_head_id c = Some i \<longrightarrow> i = cf_head_id pinned \<or> head_accounted (authenticated P R s h) pinned (snd fo) ds i) \<and> (\<not> carrier \<longrightarrow> ds = [])"
    for c i
  proof (cases carrier)
    case True
    from history_offers_carrier [OF found True] obtain heads replays where
      u: "unique_heads {} [] [] (rh_commits h) = (heads, replays)" and
      d: "find_descendants P sh (er_key R) (read_history_material P R s h) pinned (snd fo) report b replays [] heads = Inr (Go (rs, ds))" .
    from find_descendants_offers [OF d] unique_heads_cover [OF u] show ?thesis
      by (fastforce simp: head_accounted_def True)
  next
    case False
    then show ?thesis using found by (simp add: history_offers_def)
  qed
  have sound: "sound_offer (authenticated P R s h) pinned offer" if "offer \<in> set offers" for offer
    using that set covered fo(1) by auto
  have "sorted (map (\<lambda>offer. ra_generation (fst offer)) offers)" unfolding ds(2) by (rule sorted_sort_key)
  from sorted_le_last [OF this]
  have "ra_generation (fst offer) \<le> ra_generation (fst (last offers))" if "offer \<in> set offers" for offer
    using that by blast
  with sound show "\<forall>offer \<in> set offers. sound_offer (authenticated P R s h) pinned offer
      \<and> ra_generation (fst offer) \<le> ra_generation (fst (last offers))" by blast
  have self: "related x x" if "sound_offer (authenticated P R s h) pinned x" for x
    using that by (auto simp: sound_offer_def related_def)
  have floor: "related fo x" if "sound_offer (authenticated P R s h) pinned x" for x
    using that fo(2) by (auto simp: sound_offer_def related_def list_ex_iff at_floor_def)
  show "\<forall>x \<in> set offers. \<forall>y \<in> set offers. related x y"
    using set sound no_conflict [OF ds(1)] self floor related_sym by (metis insertE)
  show "head_accounted (authenticated P R s h) pinned (snd fo) offers i"
    if "carrier" "c \<in> set (rh_commits h)" "rc_head_id c = Some i"
  proof -
    from fo obtain base ps where "snd fo = base # ps" "os_id base = cf_head_id pinned" by (auto simp: sound_offer_def)
    then show ?thesis using covered [of c i] that set by (auto simp: head_accounted_def)
  qed
  show "\<not> carrier \<Longrightarrow> offers = [fo]" using covered ds(2) by simp
qed

lemma choose_base_returns:
  "choose_base P R options carrier report offers = Inr (Return r) \<Longrightarrow> rr_published_manifest r = rr_published_manifest report"
  by (auto simp: choose_base_def and_then_eq_Inr bail_if_eq_Inr Let_def split: if_splits option.splits list.splits)

lemma find_SomeD: "List.find Q xs = Some x \<Longrightarrow> x \<in> set xs \<and> Q x"
  by (auto simp: find_Some_iff)

lemma choose_base_goes:
  assumes "choose_base P R options carrier report offers = Inr (Go (base, chain))"
  shows "ro_publish options" and "\<not> carrier \<Longrightarrow> ro_accept_stale_floor options"
    and "\<exists>offer \<in> set offers. snd offer = chain \<and> (\<exists>ps. chain = base # ps) \<and> os_id base = ra_manifest_id (fst offer)
      \<and> (\<not> ro_discard_newer options \<longrightarrow> ra_generation (fst (last offers)) \<le> ra_generation (fst offer))"
    and "\<exists>device. key_device_id P (er_key R) = Inr device \<and> is_active_writer (os_policy base) device"
proof -
  from assms obtain offer where offer: "offer \<in> set offers" "snd offer = chain" "\<exists>ps. chain = base # ps"
      "os_id base = ra_manifest_id (fst offer)"
      "\<not> ro_discard_newer options \<longrightarrow> \<not> ra_generation (fst offer) < ra_generation (fst (last offers))"
    and "ro_publish options" "\<not> carrier \<longrightarrow> ro_accept_stale_floor options"
      "\<exists>device. key_device_id P (er_key R) = Inr device \<and> is_active_writer (os_policy base) device"
    by (auto simp: choose_base_def and_then_eq_Inr bail_if_eq_Inr Let_def split: if_splits option.splits list.splits
        dest!: find_SomeD)
  then show "ro_publish options" and "\<not> carrier \<Longrightarrow> ro_accept_stale_floor options"
    and "\<exists>device. key_device_id P (er_key R) = Inr device \<and> is_active_writer (os_policy base) device" by simp_all
  show "\<exists>offer \<in> set offers. snd offer = chain \<and> (\<exists>ps. chain = base # ps) \<and> os_id base = ra_manifest_id (fst offer)
      \<and> (\<not> ro_discard_newer options \<longrightarrow> ra_generation (fst (last offers)) \<le> ra_generation (fst offer))"
    using offer by (auto simp: not_less)
qed

section \<open>Publishing\<close>

lemma ensure_objects_keeps:
  assumes "ensure_objects P R xs w = (r, w')"
  shows "w_files w' = w_files w \<and> w_git w' = w_git w"
  using assms
proof (induction xs arbitrary: w)
  case Nil
  then show ?case by (simp add: act_ret_def)
next
  case (Cons x xs)
  obtain k i where x: "x = (k, i)" by fastforce
  obtain r1 w1 where e: "ensure_object_available P R k i w = (r1, w1)" by fastforce
  then have "w_files w1 = w_files w \<and> w_git w1 = w_git w"
    by (auto simp: ensure_object_available_def act_then_def act_get_def act_ret_def on_storage_def
        split: if_splits prod.splits sum.splits)
  with e Cons x show ?case by (cases r1) (auto simp: act_then_def)
qed

lemma publish_recovery_ok:
  assumes run: "publish_recovery P sh R repo rnd scratch floor ob report base chain w = (Inr r, w')"
    and "rr_published_manifest report = None" and "rr_published_manifest r = Some i"
  obtains w1 s1 m w2 s2 fs where "restore_base_objects P R chain w = (Inr (), w1)"
    "verify_base_graph P R (gr_ops repo) scratch (w_storage w1) chain = Inr ()"
    "so_prepare_recovery (er_storage R) (map os_id chain)
       (concat (map (\<lambda>e. map pk_id (mf_new_packs (os_manifest e))) chain)) (w_storage w1) = (Inr (), s1)"
    "recovery_manifest P rnd base = Inr m"
    "seal_and_store_manifest P R (pr_manifest rnd) (Some base) (os_policy base) None (pr_key rnd) Writer m
       (w1\<lparr>w_storage := s1\<rparr>) = (Inr i, w2)"
    "so_compare_and_swap_observed_head (er_storage R) ob i (w_storage w2) = (Inr (), s2)"
    "floor_advance P floor (floor_at i m) (w_files w2) = Inr fs" "w' = w2\<lparr>w_storage := s2, w_files := fs\<rparr>"
    "w_files w1 = w_files w" "w_git w1 = w_git w"
proof -
  obtain r1 w1 where r1: "restore_base_objects P R chain w = (r1, w1)" by fastforce
  note keep = ensure_objects_keeps [OF r1 [unfolded restore_base_objects_def]]
  have ok: "r1 = Inr ()" "verify_base_graph P R (gr_ops repo) scratch (w_storage w1) chain = Inr ()"
    using run r1 assms(2,3) by (auto simp: publish_recovery_def split: sum.splits)
  with run r1 have tail: "act_then (on_storage (so_prepare_recovery (er_storage R) (map os_id chain)
            (concat (map (\<lambda>e. map pk_id (mf_new_packs (os_manifest e))) chain)))) (\<lambda>_.
          act_then (act_ret (recovery_manifest P rnd base)) (\<lambda>next.
          act_then (commit_manifest_with_observation P R (pr_manifest rnd) (Some base) (Some ob)
            (os_policy base) None (pr_key rnd) Writer next) (\<lambda>recovered_id.
          act_then (advance_floor P floor recovered_id next) (\<lambda>_.
          act_ret (Inr (report\<lparr>rr_published_manifest := Some recovered_id, rr_blocked_reason := None\<rparr>)))))) w1 = (Inr r, w')"
    by (simp add: publish_recovery_def)
  then obtain s1 m j w2 s2 fs where "so_prepare_recovery (er_storage R) (map os_id chain)
       (concat (map (\<lambda>e. map pk_id (mf_new_packs (os_manifest e))) chain)) (w_storage w1) = (Inr (), s1)"
    "recovery_manifest P rnd base = Inr m"
    "seal_and_store_manifest P R (pr_manifest rnd) (Some base) (os_policy base) None (pr_key rnd) Writer m
       (w1\<lparr>w_storage := s1\<rparr>) = (Inr j, w2)"
    "so_compare_and_swap_observed_head (er_storage R) ob j (w_storage w2) = (Inr (), s2)"
    "floor_advance P floor (floor_at j m) (w_files w2) = Inr fs" "w' = w2\<lparr>w_storage := s2, w_files := fs\<rparr>"
    "r = report\<lparr>rr_published_manifest := Some j, rr_blocked_reason := None\<rparr>"
    by (auto simp: commit_manifest_with_observation_def advance_floor_def world_simps on_files_Inr)
  with that [OF r1 [unfolded ok(1)] ok(2)] keep assms(3) show thesis by simp
qed

lemma recover_published:
  assumes run: "recover P sh R repo rnd scratch options w = (Inr report, w')" and pub: "rr_published_manifest report = Some i"
  obtains pinned ob report1 b w1 history carrier fo b' report2 offers base chain where
    "recovery_assessment P sh R (lock_floor R) (open_checkout R repo) (ro_publish options) w = (Inr (Go (report1, ob, pinned, b)), w1)"
    "recovery_floor P sh R (w_storage w1) pinned b report1 = Inr (Go (history, carrier, fo, b'))"
    "recovery_offers P sh R (w_storage w1) pinned history carrier fo b' report1 = Inr (Go (report2, offers))"
    "choose_base P R options carrier report2 offers = Inr (Go (base, chain))"
    "publish_recovery P sh R repo rnd scratch (lock_floor R) ob report2 base chain w1 = (Inr report, w')"
    "rr_published_manifest report2 = None"
proof -
  obtain x1 w1 where a: "recovery_assessment P sh R (lock_floor R) (open_checkout R repo) (ro_publish options) w = (Inr (Go x1), w1)"
    and run1: "(case x1 of (report, ob, pinned, b) \<Rightarrow> stage_then (act_get (\<lambda>w. recovery_floor P sh R (w_storage w) pinned b report))
        (\<lambda>(history, carrier_history, floor_offer, budget).
      stage_then (act_get (\<lambda>w. recovery_offers P sh R (w_storage w) pinned history carrier_history floor_offer budget report))
        (\<lambda>(report, offers).
      stage_then (act_ret (choose_base P R options carrier_history report offers)) (\<lambda>(base_state, chain).
      publish_recovery P sh R repo rnd scratch (lock_floor R) ob report base_state chain)))) w1 = (Inr report, w')"
    using run [unfolded recover_def Let_def] by (rule stage_then_published [OF _ pub assessment_returns])
  obtain report1 ob pinned b where x1: "x1 = (report1, ob, pinned, b)" by (rule prod_cases4)
  note none = assessment_goes [OF a [unfolded x1]]
  obtain x2 w2 where f: "act_get (\<lambda>w. recovery_floor P sh R (w_storage w) pinned b report1) w1 = (Inr (Go x2), w2)"
    and run2: "(case x2 of (history, carrier, fo, b') \<Rightarrow>
      stage_then (act_get (\<lambda>w. recovery_offers P sh R (w_storage w) pinned history carrier fo b' report1))
        (\<lambda>(report, offers).
      stage_then (act_ret (choose_base P R options carrier report offers)) (\<lambda>(base_state, chain).
      publish_recovery P sh R repo rnd scratch (lock_floor R) ob report base_state chain))) w2 = (Inr report, w')"
    using run1 [unfolded x1 prod.case]
    by (rule stage_then_published [OF _ pub]) (use none in \<open>auto simp: act_get_eq dest: recovery_floor_returns\<close>)
  obtain history carrier fo b' where x2: "x2 = (history, carrier, fo, b')" by (rule prod_cases4)
  have w2: "w2 = w1" and f: "recovery_floor P sh R (w_storage w1) pinned b report1 = Inr (Go (history, carrier, fo, b'))"
    using f x2 by (auto simp: act_get_eq)
  obtain x3 w3 where o: "act_get (\<lambda>w. recovery_offers P sh R (w_storage w) pinned history carrier fo b' report1) w1 = (Inr (Go x3), w3)"
    and run3: "(case x3 of (report, offers) \<Rightarrow>
      stage_then (act_ret (choose_base P R options carrier report offers)) (\<lambda>(base_state, chain).
      publish_recovery P sh R repo rnd scratch (lock_floor R) ob report base_state chain)) w3 = (Inr report, w')"
    using run2 [unfolded x2 prod.case w2]
    by (rule stage_then_published [OF _ pub]) (use none in \<open>auto simp: act_get_eq dest: recovery_offers_returns\<close>)
  obtain report2 offers where x3: "x3 = (report2, offers)" by fastforce
  have w3: "w3 = w1" and o: "recovery_offers P sh R (w_storage w1) pinned history carrier fo b' report1 = Inr (Go (report2, offers))"
    using o x3 by (auto simp: act_get_eq)
  have r2: "rr_published_manifest report2 = None"
    using recovery_offers_goes(1) [OF o recovery_floor_offer(1,2) [OF f]] none by simp
  obtain x4 w4 where c: "act_ret (choose_base P R options carrier report2 offers) w1 = (Inr (Go x4), w4)"
    and run4: "(case x4 of (base_state, chain) \<Rightarrow>
      publish_recovery P sh R repo rnd scratch (lock_floor R) ob report2 base_state chain) w4 = (Inr report, w')"
    using run3 [unfolded x3 prod.case w3]
    by (rule stage_then_published [OF _ pub]) (use r2 in \<open>auto simp: act_ret_eq dest: choose_base_returns\<close>)
  obtain base chain where x4: "x4 = (base, chain)" by fastforce
  have c: "choose_base P R options carrier report2 offers = Inr (Go (base, chain))"
    and p: "publish_recovery P sh R repo rnd scratch (lock_floor R) ob report2 base chain w1 = (Inr report, w')"
    using c run4 x4 by (auto simp: act_ret_eq)
  from that [OF a [unfolded x1] f o c p r2] show thesis .
qed

section \<open>The base is safe\<close>

abbreviation found_history :: "recovery_history option \<Rightarrow> recovery_history" where
  "found_history found \<equiv> (case found of None \<Rightarrow> \<lparr>rh_commits = [], rh_manifests = []\<rparr> | Some h \<Rightarrow> h)"

text \<open>Every head of the carrier's history is accounted for by the base that was chosen among the offers.\<close>

lemma chosen_base_heads:
  assumes f: "recovery_floor P sh R s pinned b report1 = Inr (Go (history, carrier, fo, b'))"
    and o: "recovery_offers P sh R s pinned history carrier fo b' report1 = Inr (Go (report2, offers))" and carrier
    and offer: "offer \<in> set offers" "snd offer = base # ps" "os_id base = ra_manifest_id (fst offer)"
      "\<not> ro_discard_newer options \<longrightarrow> ra_generation (fst (last offers)) \<le> ra_generation (fst offer)"
    and c: "c \<in> set (rh_commits history)" "rc_head_id c = Some j"
  shows "j \<in> os_id ` set (snd fo) \<or> (\<exists>e. authenticated P R s history j = Inl e \<and> classify_recovery_error e = Invalid)
      \<or> (\<exists>t ts. authenticated P R s history j = Inr (t # ts) \<and> os_id t = j \<and> list_ex (at_floor pinned) (t # ts)
            \<and> (j \<in> os_id ` set (base # ps) \<or> os_id base \<in> os_id ` set (t # ts))
            \<and> (\<not> ro_discard_newer options \<longrightarrow> mf_generation (os_manifest t) \<le> mf_generation (os_manifest base)))"
proof -
  note offers = recovery_offers_goes [OF o recovery_floor_offer(1,2) [OF f]]
  have gen: "ra_generation (fst offer) = mf_generation (os_manifest base)" using offers(3) offer(1,2) by (auto simp: sound_offer_def)
  from offers(5) [OF \<open>carrier\<close> c] consider "j \<in> os_id ` set (snd fo)"
    | "\<exists>e. authenticated P R s history j = Inl e \<and> classify_recovery_error e = Invalid"
    | y where "y \<in> set offers" "ra_manifest_id (fst y) = j" "authenticated P R s history j = Inr (snd y)"
    by (auto simp: head_accounted_def)
  then show ?thesis
  proof cases
    case 3
    with offers(3) obtain t ts where y: "snd y = t # ts" "os_id t = j" "ra_generation (fst y) = mf_generation (os_manifest t)"
      "list_ex (at_floor pinned) (t # ts)" "ra_generation (fst y) \<le> ra_generation (fst (last offers))"
      by (auto simp: sound_offer_def)
    have "related y offer" using offers(4) 3 offer by blast
    then have "j \<in> os_id ` set (base # ps) \<or> os_id base \<in> os_id ` set (t # ts)"
      unfolding related_def list_ex_iff y(1) offer(2) offer(3) [symmetric] 3(2) by (metis image_eqI)
    moreover have "mf_generation (os_manifest t) \<le> mf_generation (os_manifest base)" if "\<not> ro_discard_newer options"
      using that y(3,5) offer(4) gen by simp
    ultimately show ?thesis using y(2,4) 3(3) [unfolded y(1)] by blast
  qed simp_all
qed


section \<open>Without proof nothing is replaced\<close>

lemma stage_then_cases:
  assumes "stage_then m f w = (r, w'')"
  obtains (stops) r1 where "m w = (r1, w'')" "\<And>a. r1 \<noteq> Inr (Go a)"
    | (goes) a w' where "m w = (Inr (Go a), w')" "f a w' = (r, w'')"
proof -
  obtain r1 w' where m: "m w = (r1, w')" by fastforce
  show thesis
  proof (cases "\<exists>a. r1 = Inr (Go a)")
    case True
    then show thesis using m assms goes by (auto simp: stage_then_def act_then_def)
  next
    case False
    then have "w' = w''"
      using m assms by (auto simp: stage_then_def act_then_def act_ret_def split: sum.splits stage.splits)
    then show thesis using m False stops by simp
  qed
qed

lemma act_get_state: "act_get f w = (r, w') \<Longrightarrow> w' = w" and act_ret_state: "act_ret r0 w = (r, w') \<Longrightarrow> w' = w"
  by (simp_all add: act_get_def act_ret_def)

lemma recover_cases:
  assumes run: "recover P sh R repo rnd scratch options w = (r, w')"
  obtains (kept) r1 where "recovery_assessment P sh R (lock_floor R) (open_checkout R repo) (ro_publish options) w = (r1, w')"
    | (publishes) report1 ob pinned b w1 where
      "recovery_assessment P sh R (lock_floor R) (open_checkout R repo) (ro_publish options) w = (Inr (Go (report1, ob, pinned, b)), w1)"
      "ro_publish options"
  using run [unfolded recover_def Let_def]
proof (cases rule: stage_then_cases)
  case a: (goes x1 w1)
  obtain report1 ob pinned b where x1: "x1 = (report1, ob, pinned, b)" by (rule prod_cases4)
  show thesis
    using a(2) [unfolded x1 prod.case]
  proof (cases rule: stage_then_cases)
    case f: (goes x2 w2)
    obtain history carrier fo b' where x2: "x2 = (history, carrier, fo, b')" by (rule prod_cases4)
    show thesis
      using f(2) [unfolded x2 prod.case]
    proof (cases rule: stage_then_cases)
      case o: (goes x3 w3)
      obtain report2 offers where x3: "x3 = (report2, offers)" by fastforce
      show thesis
        using o(2) [unfolded x3 prod.case]
      proof (cases rule: stage_then_cases)
        case (stops r1)
        have "w' = w1" using act_get_state [OF f(1)] act_get_state [OF o(1)] act_ret_state [OF stops(1)] by simp
        then show thesis using kept a(1) by blast
      next
        case (goes x4 w4)
        obtain base chain where "x4 = (base, chain)" by fastforce
        then have "choose_base P R options carrier report2 offers = Inr (Go (base, chain))" using goes(1) by (simp add: act_ret_eq)
        then have "ro_publish options" by (rule choose_base_goes(1))
        then show thesis using publishes a(1) x1 by blast
      qed
    next
      case (stops r1)
      have "w' = w1" using act_get_state [OF f(1)] act_get_state [OF stops(1)] by simp
      then show thesis using kept a(1) by blast
    qed
  next
    case (stops r1)
    have "w' = w1" using act_get_state [OF stops(1)] by simp
    then show thesis using kept a(1) by blast
  qed
qed (rule kept)

text \<open>C9. Recovery without proof replaces nothing: unless publication was requested, this machine has a
  floor and the observed head is proven invalid, recovery leaves the storage and the checkout
  as they are and writes no local file but its log of rejected heads. In particular a storage
  that is unreachable, of a newer format, unreadable for this device or simply valid is never
  overwritten.\<close>

theorem unproven_head_is_kept:
  assumes run: "recover P sh R repo rnd scratch options w = (r, w')"
    and "\<not> ro_publish options \<or> floor_read P (lock_floor R) (w_files w) = Inr None
      \<or> (\<forall>ob. so_observe_head (er_storage R) (w_storage w) = Inr ob \<longrightarrow> \<not> head_invalid P R (w_storage w) ob)"
  shows "w_storage w' = w_storage w \<and> w_git w' = w_git w
    \<and> (\<forall>p. p \<noteq> rejected_heads_path (open_checkout R repo) \<longrightarrow> w_files w' p = w_files w p)"
  using run
proof (cases rule: recover_cases)
  case (kept r1)
  then show ?thesis by (rule assessment_effect)
next
  case (publishes report1 ob pinned b w1)
  then show ?thesis using assessment_goes [OF publishes(1)] assms(2) by auto
qed

end
