(* ===== verification/Recovery_Effect.thy ===== *)
theory Recovery_Effect
  imports Recovery_Facts Publication
begin

text \<open>
  Recovery of a directory storage, which keeps no history: what it publishes is read back by
  every active reader as one step on top of the pinned floor.
\<close>

section \<open>Recovering a directory\<close>

lemma chain_loop_reads:
  assumes "\<And>j x. rd j = Inr x \<Longrightarrow> rd' j = Inr x"
  shows "chain_loop P rd seen i om gk us b = (Inr out, b') \<Longrightarrow> chain_loop P rd' seen i om gk us b = (Inr out, b')"
  using assms
proof (induction P rd seen i om gk us b arbitrary: out b' rule: chain_loop.induct)
  case (1 P rd seen i om gk us b)
  show ?case
    using 1(2) by (subst (asm) chain_loop.simps, subst chain_loop.simps)
      (auto split: if_splits option.splits sum.splits prod.splits dest!: 1(1) simp: 1(3))
qed

lemma chain_from_reads:
  assumes "\<And>j x. rd j = Inr x \<Longrightarrow> rd' j = Inr x" and "chain_from P key head rd b = (Inr chain, b')"
  shows "chain_from P key head rd' b = (Inr chain, b')"
  using assms chain_loop_reads [of rd rd' P]
  by (auto simp: chain_from_def split: sum.splits prod.splits)

lemma directory_history_reads:
  "read_history_material P R s \<lparr>rh_commits = [], rh_manifests = []\<rparr> j = Inr x \<Longrightarrow> read_material P R s j = Inr x"
  by (auto simp: read_history_material_def split: sum.splits)

lemma directory_recovery_ops [simp]:
  "so_observe_head (directory_storage P io dir) = fs_observe_head dir"
  "so_compare_and_swap_observed_head (directory_storage P io dir) = fs_compare_and_swap_observed_head io dir"
  "so_recovery_history (directory_storage P io dir) = default_recovery_history"
  "so_restore_historical_object (directory_storage P io dir) = default_restore_historical_object"
  "so_prepare_recovery (directory_storage P io dir) = default_prepare_recovery"
  by (simp_all add: directory_storage_def)

lemma ensure_objects_directory:
  assumes "er_storage R = directory_storage P' io dir" and "ensure_objects P R xs w = (r, w')"
  shows "w' = w"
  using assms(2)
proof (induction xs arbitrary: w)
  case Nil
  then show ?case by (simp add: act_ret_def)
next
  case (Cons x xs)
  obtain k i where x: "x = (k, i)" by fastforce
  obtain r1 w1 where e: "ensure_object_available P R k i w = (r1, w1)" by fastforce
  then have "w1 = w"
    using assms(1) by (auto simp: ensure_object_available_def act_then_def act_get_def act_ret_def on_storage_def
        default_restore_historical_object_def split: if_splits prod.splits sum.splits)
  with e Cons x show ?case by (cases r1) (auto simp: act_then_def)
qed

text \<open>Replacing an observed head that is present leaves the format file and every object alone.\<close>

lemma fs_cas_observed_ok:
  assumes "fs_compare_and_swap_observed_head io (storage_dir dir) ob i fs = (Inr (), fs')"
    and "fs_check_format (storage_dir dir) fs = Inr ()" and "ho_head ob \<noteq> None"
  shows "fs_read_head (storage_dir dir) fs' = Inr (Some i)"
    and "fs' (object_path (storage_dir dir) k j) = fs (object_path (storage_dir dir) k j)"
proof -
  from assms(1,3) have i: "validate_id i = Inr ()" and head: "read_stored_head (head_path (storage_dir dir)) fs = ho_head ob"
    and pub: "fs_publish_head io (storage_dir dir) False i fs = (Inr (), fs')"
    by (auto simp: fs_compare_and_swap_observed_head_def Let_def split: sum.splits if_splits)
  have "fs (format_path (storage_dir dir)) = Some (RegularFile STORAGE_FORMAT)"
    using assms(2,3) head
    by (auto simp: fs_check_format_def and_then_eq_Inr check_storage_format_def read_root_file_def
        read_stored_head_def read_regular_bounded_def open_regular_def Let_def
        split: if_splits option.splits entry.splits bounded.splits)
  then show "fs_read_head (storage_dir dir) fs' = Inr (Some i)"
    using pub replace_root_file_cases [of "io_head io" "storage_dir dir" "''HEAD''" "as_bytes (i @ [CHR 0x0A])" fs "Inr ()" fs'] i
    by (intro fs_read_head_written) (auto simp: fs_publish_head_def)
  show "fs' (object_path (storage_dir dir) k j) = fs (object_path (storage_dir dir) k j)"
    by (rule fs_publish_keeps_objects [OF pub storage_dir_not_Nil])
qed

lemma lock_floor_not_rejected: "rejected_heads_path d \<noteq> lock_floor R"
proof
  assume "rejected_heads_path d = lock_floor R"
  then have "rev (rejected_heads_path d) = rev (lock_floor R)" by simp
  then show False by (simp add: rejected_heads_path_def lock_floor_def floor_acquire_def)
qed

lemma recovery_manifest_ok:
  assumes "recovery_manifest P rnd base = Inr m"
  shows "mf_refs m = mf_refs (os_manifest base)" "mf_new_packs m = []" "mf_authorization m = Writer"
    "mf_introduced_policy m = None" "mf_policy_generation m = pb_generation (st_body (os_policy base))"
  using assms by (auto simp: recovery_manifest_def Let_def and_then_eq_Inr)

lemma directory_commit_observed:
  assumes laws: "library_laws P" and rnd: "sound_random P rnd"
    and R: "er_storage R = directory_storage P io (storage_dir dir)"
    and cf: "chain_from P (er_key R) head (read_material P R (w_storage w)) None = (Inr (base # ps), b)"
    and m: "mf_new_packs m = []" "mf_authorization m = Writer" "mf_introduced_policy m = None"
    and store: "seal_and_store_manifest P R (pr_manifest rnd) (Some base) (os_policy base) None (pr_key rnd) Writer m w = (Inr i, w1)"
    and cas: "fs_compare_and_swap_observed_head io (storage_dir dir) ob i (w_storage w1) = (Inr (), s2)"
    and format: "fs_check_format (storage_dir dir) (w_storage w) = Inr ()" and head: "ho_head ob \<noteq> None"
    and fresh: "w_storage w (object_path (storage_dir dir) Manifest i) = None"
  shows "manifest_validate_successor P m (os_id base) (os_manifest base) (os_policy base) = Inr ()"
    and "w_files w1 = w_files w" and "w_git w1 = w_git w"
    and "er_storage R' = er_storage R \<Longrightarrow> v \<in> set (active_readers (os_policy base)) \<Longrightarrow>
      key_public_device P (er_key R') = Inr (dv_public v) \<Longrightarrow>
      \<exists>s. current_chain P R' s2 = Inr (s # base # ps) \<and> os_id s = i \<and> os_manifest s = m \<and> os_policy s = os_policy base"
proof -
  from store obtain enc s1 where seal: "seal_manifest P (pr_manifest rnd) (er_key R) (os_policy base) (pr_key rnd) Writer m = Inr enc"
    and succ: "manifest_validate_successor P m (os_id base) (os_manifest base) (os_policy base) = Inr ()"
    and put: "fs_put_object_if_absent P (storage_dir dir) Manifest i enc (w_storage w) = (Inr (), s1)" and w1: "w1 = w\<lparr>w_storage := s1\<rparr>"
    using R by (auto elim: seal_and_store_ok)
  show "manifest_validate_successor P m (os_id base) (os_manifest base) (os_policy base) = Inr ()" by (rule succ)
  show "w_files w1 = w_files w" "w_git w1 = w_git w" using w1 by simp_all
  have kept: "s1 (head_path (storage_dir dir)) = w_storage w (head_path (storage_dir dir))"
      "s1 (format_path (storage_dir dir)) = w_storage w (format_path (storage_dir dir))"
    using fs_put_cases(1) [OF put] object_path_not_root [of "storage_dir dir" Manifest i] by auto
  have "fs_check_format (storage_dir dir) s1 = Inr ()"
    using format kept by (simp add: fs_check_format_def read_root_file_def read_regular_bounded_def open_regular_def)
  note swap = fs_cas_observed_ok [OF cas [unfolded w1, simplified] this head]
  let ?get = "\<lambda>s j. so_get_object (directory_storage P io (storage_dir dir)) Manifest j s"
  have kept: "fs_open_object (storage_dir dir) k j s2 = Inr c" if "fs_open_object (storage_dir dir) k j s1 = Inr c" for k j c
    using that swap(2) [of k j] unfolding fs_open_object_ok by metis
  have "gains (?get s1) (?get s2)" using kept by (simp add: gains_def directory.get_object_open)
  moreover have "gains (?get (w_storage w)) (?get s1)"
    using directory.gains_put [of P io dir Manifest i enc "w_storage w" "Inr ()" s1] put by simp
  ultimately have gains: "gains (?get (w_storage w)) (?get s2)" by (simp add: gains_def)
  have "fs_open_object (storage_dir dir) Manifest i s1 = Inr enc"
    using directory.put_stores [of P io dir Manifest i enc "w_storage w" s1] put fresh by simp
  then have stored: "?get s2 i = Inr enc"
    using kept fs_put_cases(2) [OF put refl] by (simp add: directory.get_object_open)
  note auth = chain_from_authentic(1) [OF cf]
  have select: "select_policy P (kf_repository_root (er_key R)) (base # ps) m = Inr (os_policy base, None)"
    using m succ by (simp add: select_policy_def)
  have l: "manifest_json_laws P" "b64_laws P" "hex_laws P" "aead_laws P" "hpke_laws P"
    using laws by (simp_all add: library_laws_def)
  have r: "length (mr_body_nonce (pr_manifest rnd)) = 24" "length (mr_header_nonce (pr_manifest rnd)) = 24"
    "length (pr_key rnd) = 32" "binding_commitment P (pr_key rnd)" using rnd by (simp_all add: sound_random_def)
  show "\<exists>s. current_chain P R' s2 = Inr (s # base # ps) \<and> os_id s = i \<and> os_manifest s = m \<and> os_policy s = os_policy base"
    if "er_storage R' = er_storage R" "v \<in> set (active_readers (os_policy base))" "key_public_device P (er_key R') = Inr (dv_public v)"
  proof -
    have "\<exists>s. chain_from P (er_key R') i (read_manifest_material P (?get s2)) None = (Inr (s # base # ps), None)
      \<and> os_id s = i \<and> os_manifest s = m \<and> os_policy s = os_policy base \<and> os_generation_key s = pr_key rnd"
      by (rule sealed_successor_chain [OF l r cf [unfolded read_material_def R] _ gains _ select _ _ that(2,3)])
        (use store seal stored authentic_chain_wf [OF auth] m(1) in auto)
    then show ?thesis using swap(1) that(1) R by (auto simp: current_chain_def read_material_def)
  qed
qed

text \<open>A directory has no history, so that the base is the floor's own chain, as the storage holds it.\<close>

lemma directory_base:
  assumes R: "er_storage R = directory_storage P io (storage_dir dir)"
    and f: "recovery_floor P sh R s pinned b report1 = Inr (Go (history, carrier, fo, b'))"
    and o: "recovery_offers P sh R s pinned history carrier fo b' report1 = Inr (Go (report2, offers))"
    and c: "choose_base P R options carrier report2 offers = Inr (Go (base, chain))"
  shows "\<exists>ps b2. snd fo = chain \<and> chain = base # ps \<and> at_floor pinned base
    \<and> chain_from P (er_key R) (cf_head_id pinned) (read_material P R s) None = (Inr chain, b2)"
proof -
  have none: "\<not> carrier" "history = \<lparr>rh_commits = [], rh_manifests = []\<rparr>"
    using recovery_floor_goes(1) [OF f] R by (auto simp: default_recovery_history_def)
  note fo = recovery_floor_offer [OF f]
  have "offers = [fo]" by (rule recovery_offers_goes(6) [OF o fo(1,2) none(1)])
  with choose_base_goes(3) [OF c] obtain ps where chain: "snd fo = chain" "chain = base # ps" "os_id base = cf_head_id pinned"
    using fo(2) by auto
  from recovery_floor_goes(2) [OF f] chain none(2) obtain b2 where
    "chain_from P (er_key R) (cf_head_id pinned) (read_history_material P R s \<lparr>rh_commits = [], rh_manifests = []\<rparr>) None = (Inr chain, b2)"
    by (metis prod.collapse)
  from chain_from_reads [OF directory_history_reads this]
  have "chain_from P (er_key R) (cf_head_id pinned) (read_material P R s) None = (Inr chain, b2)" .
  then show ?thesis using chain fo(4) by auto
qed

text \<open>C8. Recovery of a directory takes effect: when it published, the successor of the pinned floor is the
  head, with the floor's refs; every active reader of the floor's policy authenticates the
  floor's chain extended by that one manifest, and this machine is pinned to it.\<close>

theorem recovery_takes_effect:
  assumes laws: "library_laws P" and rnd: "sound_random P rnd"
    and R: "er_storage R = directory_storage P io (storage_dir dir)"
    and run: "recover P sh R repo rnd scratch options w = (Inr report, w')" and pub: "rr_published_manifest report = Some i"
    and fresh: "w_storage w (object_path (storage_dir dir) Manifest i) = None"
  shows "\<exists>pinned base ps m. floor_read P (lock_floor R) (w_files w) = Inr (Some pinned) \<and> at_floor pinned base
    \<and> mf_refs m = mf_refs (os_manifest base) \<and> mf_new_packs m = []
    \<and> floor_read P (lock_floor R) (w_files w') = Inr (Some (floor_at i m)) \<and> w_git w' = w_git w
    \<and> (\<forall>R' v. er_storage R' = er_storage R \<and> v \<in> set (active_readers (os_policy base))
         \<and> key_public_device P (er_key R') = Inr (dv_public v) \<longrightarrow>
         (\<exists>s. current_chain P R' (w_storage w') = Inr (s # base # ps) \<and> os_id s = i \<and> os_manifest s = m
            \<and> os_policy s = os_policy base))"
proof (rule recover_published [OF run pub])
  fix pinned ob report1 b w1 history carrier fo b' report2 offers base chain
  assume a: "recovery_assessment P sh R (lock_floor R) (open_checkout R repo) (ro_publish options) w = (Inr (Go (report1, ob, pinned, b)), w1)"
    and f: "recovery_floor P sh R (w_storage w1) pinned b report1 = Inr (Go (history, carrier, fo, b'))"
    and o: "recovery_offers P sh R (w_storage w1) pinned history carrier fo b' report1 = Inr (Go (report2, offers))"
    and c: "choose_base P R options carrier report2 offers = Inr (Go (base, chain))"
    and p: "publish_recovery P sh R repo rnd scratch (lock_floor R) ob report2 base chain w1 = (Inr report, w')"
    and r2: "rr_published_manifest report2 = None"
  have w1: "w_storage w1 = w_storage w" "w_git w1 = w_git w"
      "floor_read P (lock_floor R) (w_files w1) = floor_read P (lock_floor R) (w_files w)"
    using assessment_effect [OF a] lock_floor_not_rejected [of "open_checkout R repo" R]
    by (auto simp: floor_read_def read_json_def)
  note goes = assessment_goes [OF a] and fo = recovery_floor_offer [OF f]
  from directory_base [OF R f o c] obtain ps b2 where chain: "snd fo = chain" "chain = base # ps" "at_floor pinned base"
    and cf: "chain_from P (er_key R) (cf_head_id pinned) (read_material P R (w_storage w)) None = (Inr chain, b2)"
    using w1(1) by auto
  show ?thesis
  proof (rule publish_recovery_ok [OF p r2 pub])
    fix w2 s1 m w3 s2 fs
    assume restore: "restore_base_objects P R chain w1 = (Inr (), w2)"
      and prepare: "so_prepare_recovery (er_storage R) (map os_id chain)
       (concat (map (\<lambda>e. map pk_id (mf_new_packs (os_manifest e))) chain)) (w_storage w2) = (Inr (), s1)"
      and m: "recovery_manifest P rnd base = Inr m"
      and store: "seal_and_store_manifest P R (pr_manifest rnd) (Some base) (os_policy base) None (pr_key rnd) Writer m
       (w2\<lparr>w_storage := s1\<rparr>) = (Inr i, w3)"
      and cas: "so_compare_and_swap_observed_head (er_storage R) ob i (w_storage w3) = (Inr (), s2)"
      and adv: "floor_advance P (lock_floor R) (floor_at i m) (w_files w3) = Inr fs" and w': "w' = w3\<lparr>w_storage := s2, w_files := fs\<rparr>"
    have "w2 = w1" using ensure_objects_directory [OF R restore [unfolded restore_base_objects_def]] .
    moreover from this prepare w1 R have "s1 = w_storage w" by (simp add: default_prepare_recovery_def)
    ultimately have same: "w2\<lparr>w_storage := s1\<rparr> = w1" using w1 by simp
    have ob: "fs_check_format (storage_dir dir) (w_storage w1) = Inr ()" "ho_head ob \<noteq> None"
      using goes R w1 by (auto simp: fs_observe_head_def and_then_eq_Inr Let_def head_invalid_def split: option.splits)
    note mf = recovery_manifest_ok [OF m]
    note took = directory_commit_observed [OF laws rnd R cf [folded w1(1), unfolded chain(2)] mf(2-4) store [unfolded same]
        cas [unfolded R directory_recovery_ops] ob fresh [folded w1(1)]]
    have l: "floor_json_laws P" using laws by (simp add: library_laws_def)
    have "mf_policy_generation (os_manifest (hd (base # ps))) \<le> mf_policy_generation m"
      using mf(5) authentic_chain_root [OF chain_from_authentic(1) [OF cf]] chain by simp
    from floor_advance_successor [OF l _ fo(3) [unfolded chain(1,2)] _ this, of "lock_floor R" "w_files w3" "os_policy base" i]
    have "floor_read P (lock_floor R) (w_files w') = Inr (Some (floor_at i m))"
      using took(1,2) goes w1(3) adv w' by simp
    then show ?thesis
      using goes chain(3) mf(1,2) took(3,4) w' w1(2)
      by (intro exI [of _ pinned] exI [of _ base] exI [of _ ps] exI [of _ m]) auto
  qed
qed

end
