(* ===== verification/Sample_Recovery.thy ===== *)
theory Sample_Recovery
  imports Sample_Run Recovery_Effect
begin

text \<open>
  The run of the sample repository continued: after initialization the \<^verbatim>\<open>HEAD\<close> file of the storage is
  overwritten with a byte that names no manifest, and the owner recovers from the pinned floor.
  The closed instances of the properties of recovery are taken from this run.
\<close>

section \<open>A damaged head\<close>

definition damaged :: "(tree, unit) world \<Rightarrow> (tree, unit) world" where
  "damaged w = w\<lparr>w_storage := (w_storage w)(head_path sample_dir \<mapsto> RegularFile [120])\<rparr>"

definition no_history :: recovery_history where
  "no_history = \<lparr>rh_commits = [], rh_manifests = []\<rparr>"

lemma damaged_fields: "w_files (damaged w) = w_files w" "w_git (damaged w) = w_git w"
  "w_storage (damaged w) (object_path sample_dir k i) = w_storage w (object_path sample_dir k i)"
  "w_storage (damaged w) (format_path sample_dir) = w_storage w (format_path sample_dir)"
  using object_path_not_root [of sample_dir k i] by (simp_all add: damaged_def)

lemma damaged_id: "stored_head_id (HeadBytes [120]) = None"
proof -
  have "from_utf8 [120] = Some ''x''" using from_utf8_as_bytes [of "''x''"] by (simp add: as_bytes_def)
  moreover have "trim ''x'' = ''x''" by code_simp
  moreover have "\<not> is_ok (validate_id ''x'')" by code_simp
  ultimately show ?thesis by (simp add: Let_def)
qed

lemma damaged_head:
  assumes "fs_read_head sample_dir (w_storage w) = Inr (Some i)"
  shows "fs_observe_head sample_dir (w_storage (damaged w))
      = Inr \<lparr>ho_head_id = None, ho_token = [120], ho_head = Some (HeadBytes [120])\<rparr>"
proof -
  have format: "w_storage (damaged w) (format_path sample_dir) = Some (RegularFile STORAGE_FORMAT)"
    using fs_read_head_Some_format [OF assms] damaged_fields(4) by metis
  have "read_stored_head (head_path sample_dir) (w_storage (damaged w)) = Some (HeadBytes [120])"
    by (simp add: read_stored_head_def read_regular_bounded_def open_regular_def damaged_def MAX_HEAD_BYTES_def)
  moreover have "fs_check_format sample_dir (w_storage (damaged w)) = Inr ()"
    using format by (simp add: fs_check_format_def read_root_file_def read_regular_bounded_def open_regular_def
        check_storage_format_def STORAGE_FORMAT_def STORAGE_FORMAT_PREFIX_def format_version_text_def MAX_STORAGE_FORMAT_BYTES_def)
  ultimately show ?thesis using damaged_id by (simp add: fs_observe_head_def Let_def)
qed

lemma damaged_material: "read_material rp sample_repo (w_storage w) i = Inr x \<Longrightarrow>
    read_history_material rp sample_repo (w_storage (damaged w)) h i = Inr x"
proof -
  assume r: "read_material rp sample_repo (w_storage w) i = Inr x"
  have "fs_open_object sample_dir k j (w_storage (damaged w)) = Inr c" if "fs_open_object sample_dir k j (w_storage w) = Inr c" for k j c
    using that damaged_fields(3) [of w k j] unfolding fs_open_object_ok by metis
  then have "so_get_object (er_storage sample_repo) Manifest j (w_storage (damaged w)) = Inr c"
    if "so_get_object (er_storage sample_repo) Manifest j (w_storage w) = Inr c" for j c
    using that by (simp add: directory.get_object_open)
  then have "read_material rp sample_repo (w_storage (damaged w)) i = Inr x"
    using r by (auto simp: read_material_def read_manifest_material_def and_then_eq_Inr split: if_splits)
  then show ?thesis by (simp add: read_history_material_def)
qed

text \<open>One manifest is far below the budget.\<close>

lemma charge_one:
  assumes "read_material P R s i = Inr (j, enc, header)" and "length enc \<le> MAX_MANIFEST_BYTES"
  shows "\<exists>b. charge (Some no_budget_used) header (length enc) = (Inr (), Some b)"
proof -
  let ?n = "of_nat (length enc) :: u64" and ?k = "of_nat (length (mh_generation_key_envelopes header)) :: u64"
  have "length (mh_generation_key_envelopes header) \<le> 4096"
    using assms(1) by (auto simp: read_material_def read_manifest_material_def peek_manifest_header_def read_header_def and_then_eq_Inr
        map_err_eq_Inr bail_if_eq_Inr Let_def MAX_GENERATION_ENVELOPES_def validate_public_header_def split: if_splits)
  then have k: "unat ?k \<le> 4096" by (simp add: unat_of_nat)
  have n: "unat ?n \<le> 16 * 1024 * 1024" using assms(2) by (simp add: unat_of_nat MAX_MANIFEST_BYTES_def)
  have "unat (?k * 2) = unat ?k * 2" using k by (simp add: unat_word_ariths)
  then have "unat (?k * 2 + 1) = unat ?k * 2 + 1" using k by (simp add: unat_word_ariths)
  then have "checked_mul ?k 2 = Some (?k * 2)" "checked_add (?k * 2) 1 = Some (?k * 2 + 1)"
      "checked_add 0 (?k * 2 + 1) = Some (?k * 2 + 1)" "\<not> MAX_RECOVERY_CRYPTO_OPERATIONS < ?k * 2 + 1"
    using k \<open>unat (?k * 2) = unat ?k * 2\<close>
    by (simp_all add: checked_mul_def checked_add_def MAX_RECOVERY_CRYPTO_OPERATIONS_def word_less_nat_alt)
  moreover have "checked_add 0 ?n = Some ?n" "\<not> MAX_RECOVERY_BYTES < ?n"
    using n by (simp_all add: checked_add_def MAX_RECOVERY_BYTES_def word_less_nat_alt)
  ultimately show ?thesis by (simp add: charge_def charge_manifest_def no_budget_used_def Let_def)
qed

text \<open>A chain of one manifest reads nothing but that manifest, whatever the budget.\<close>

lemma chain_loop_single:
  assumes "chain_loop P rd {} i om gk [] b = (Inr [u], b')"
  shows "u = (i, om, gk)" and "chain_loop P rd {} i om gk [] b2 = (Inr [u], b2)"
proof -
  from chain_loop_shape [OF assms] show u: "u = (i, om, gk)" by simp
  have "mf_previous (om_manifest om) = None"
  proof (rule ccontr)
    assume "mf_previous (om_manifest om) \<noteq> None"
    with assms show False
      by (subst (asm) chain_loop.simps) (auto split: if_splits option.splits sum.splits prod.splits dest!: chain_loop_shape)
  qed
  then show "chain_loop P rd {} i om gk [] b2 = (Inr [u], b2)"
    using assms u by (subst (asm) chain_loop.simps, subst chain_loop.simps) (auto split: if_splits)
qed

lemma verify_opened_chain_ids: "verify_opened_chain P r us = Inr chain \<Longrightarrow> map os_id chain = map fst us"
  using verify_chain_loop_authentic [of P r "{}" "[]" "rev us" chain] by (simp add: verify_opened_chain_def)

lemma genesis_within_budget:
  assumes "current_chain rp sample_repo (w_storage w) = Inr [c]"
  shows "\<exists>b. chain_from rp (sample_key 1 2) (os_id c) (read_history_material rp sample_repo (w_storage (damaged w)) h)
    (Some no_budget_used) = (Inr [c], b)" and "fs_read_head sample_dir (w_storage w) = Inr (Some (os_id c))"
proof -
  from assms obtain head b where head: "fs_read_head sample_dir (w_storage w) = Inr (Some head)"
    and cf: "chain_from rp (sample_key 1 2) head (read_material rp sample_repo (w_storage w)) None = (Inr [c], b)"
    by (auto simp: current_chain_ok read_material_def)
  from chain_from_authentic(3) [OF cf] have "os_id c = head"
    by (auto simp: read_material_def read_manifest_material_ok)
  with head show "fs_read_head sample_dir (w_storage w) = Inr (Some (os_id c))" by simp
  let ?rd = "read_material rp sample_repo (w_storage w)"
  from cf obtain j enc header gk om us b1 where rd: "?rd head = Inr (j, enc, header)"
    and gk: "unwrap_generation_key rp header (sample_key 1 2) = Inr gk" and om: "open_manifest rp enc gk = Inr om"
    and loop: "chain_loop rp ?rd {} j om gk [] None = (Inr us, b1)"
    and ver: "verify_opened_chain rp sample_root us = Inr [c]"
    by (auto simp: chain_from_def charge_None map_err_eq_Inr split: sum.splits prod.splits)
  obtain u where us: "us = [u]" using verify_opened_chain_ids [OF ver] by (auto simp: Cons_eq_map_conv)
  have "so_get_object (er_storage sample_repo) Manifest head (w_storage w) = Inr enc"
    using rd by (auto simp: read_material_def read_manifest_material_ok)
  then have "length enc \<le> MAX_MANIFEST_BYTES" by (simp add: directory.get_object_open)
  from charge_one [OF rd this] obtain b2 where "charge (Some no_budget_used) header (length enc) = (Inr (), Some b2)" by blast
  then have "chain_from rp (sample_key 1 2) (os_id c) ?rd (Some no_budget_used) = (Inr [c], Some b2)"
    using rd gk om ver us chain_loop_single(2) [OF loop [unfolded us], of "Some b2"] \<open>os_id c = head\<close>
    by (simp add: chain_from_def)
  from chain_from_reads [OF _ this, of "read_history_material rp sample_repo (w_storage (damaged w)) h"] damaged_material show
    "\<exists>b. chain_from rp (sample_key 1 2) (os_id c) (read_history_material rp sample_repo (w_storage (damaged w)) h)
      (Some no_budget_used) = (Inr [c], b)" by blast
qed

section \<open>The recovery\<close>

definition recover_now :: recovery_options where
  "recover_now = \<lparr>ro_publish = True, ro_base = None, ro_discard_newer = False, ro_accept_stale_floor = True\<rparr>"

abbreviation no_text :: "error \<Rightarrow> string" where
  "no_text \<equiv> \<lambda>_. []"

abbreviation damaged_observation :: head_observation where
  "damaged_observation \<equiv> \<lparr>ho_head_id = None, ho_token = [120], ho_head = Some (HeadBytes [120])\<rparr>"

abbreviation damaged_report :: "continuity_floor \<Rightarrow> recovery_report" where
  "damaged_report pinned \<equiv> (blank_report (Some pinned))\<lparr>rr_classification := Invalid, rr_reason := []\<rparr>"

lemma damaged_assessment:
  assumes "fs_read_head sample_dir (w_storage w) = Inr (Some i)"
    and "floor_read rp (lock_floor sample_repo) (w_files w) = Inr (Some pinned)"
  shows "\<exists>v. recovery_assessment rp no_text sample_repo (lock_floor sample_repo) checkout True (damaged w)
      = (Inr (Go (damaged_report pinned, damaged_observation, pinned, Some no_budget_used)), v)
    \<and> w_storage v = w_storage (damaged w) \<and> w_git v = w_git w
    \<and> floor_read rp (lock_floor sample_repo) (w_files v) = Inr (Some pinned)"
proof -
  have parse: "observed_chain rp sample_repo s damaged_observation
      = (Inl (proven_invalid (err (Msg ''storage HEAD is not a valid head: it does not name a manifest object ID''))), Some no_budget_used)" for s
    using damaged_id by (simp add: observed_chain_def ok_or_def del: stored_head_id.simps)
  have kind: "classify_recovery_error (proven_invalid (err (Msg m))) = Invalid" "\<not> downcast is_BudgetExhausted (proven_invalid (err (Msg m)))" for m
    by (simp_all add: classify_recovery_error_def proven_invalid_def has_cause_def downcast_def context_of_def)
  let ?files = "write_json (rejected_log_to_vec rp) (rejected_heads_path checkout)"
  obtain log where "record_rejected_head rp checkout (evidence_id rp damaged_observation) Invalid [] (w_files w) = Inr (?files log (w_files w))"
    by (simp add: record_rejected_head_def Let_def)
  moreover have "floor_read rp (lock_floor sample_repo) (?files log (w_files w)) = Inr (Some pinned)"
    using assms(2) lock_floor_not_rejected [of checkout sample_repo] by (auto simp: floor_read_def read_json_def write_json_def)
  ultimately show ?thesis
    using assms(2) damaged_head [OF assms(1)] parse kind
    by (intro exI [of _ "(damaged w)\<lparr>w_files := ?files log (w_files w)\<rparr>"])
      (simp add: recovery_assessment_def act_then_def act_get_def act_ret_def Let_def damaged_fields(1,2) assess_head_def on_files_def
        blank_report_def)
qed

lemma damaged_swap:
  assumes "validate_id i = Inr ()" and "tidy fs" and "fs (head_path sample_dir) = Some (RegularFile [120])"
  obtains fs' where "fs_compare_and_swap_observed_head quiet_io sample_dir damaged_observation i fs = (Inr (), fs')"
proof -
  have "read_stored_head (head_path sample_dir) fs = Some (HeadBytes [120])"
    using assms(3) by (simp add: read_stored_head_def read_regular_bounded_def open_regular_def MAX_HEAD_BYTES_def)
  moreover have "fs_publish_head quiet_io sample_dir False i fs
      = (Inr (), fs(join_path sample_dir ''HEAD'' \<mapsto> RegularFile (as_bytes (i @ [CHR 0x0A]))))"
    using assms(2) unfolding fs_publish_head_def quiet_io_def cas_io.simps by (simp add: quiet_replace tidy_def)
  ultimately show thesis using that assms(1) by (simp add: fs_compare_and_swap_observed_head_def)
qed

lemma publish_recovery_runs:
  assumes "restore_base_objects P R chain w = (Inr (), w)"
    and "verify_base_graph P R (gr_ops repo) scratch (w_storage w) chain = Inr ()"
    and "so_prepare_recovery (er_storage R) = default_prepare_recovery" and "recovery_manifest P rnd base = Inr m"
    and "seal_and_store_manifest P R (pr_manifest rnd) (Some base) (os_policy base) None (pr_key rnd) Writer m w = (Inr i, w1)"
    and "so_compare_and_swap_observed_head (er_storage R) ob i (w_storage w1) = (Inr (), s2)"
    and "floor_advance P floor (floor_at i m) (w_files w1) = Inr fs"
  shows "\<exists>report' w'. publish_recovery P sh R repo rnd scratch floor ob report base chain w = (Inr report', w')
    \<and> rr_published_manifest report' = Some i"
  using assms
  by (simp add: publish_recovery_def act_then_def act_ret_def on_storage_def default_prepare_recovery_def
      commit_manifest_with_observation_def advance_floor_def on_files_def)

lemma damaged_base:
  assumes "current_chain rp sample_repo (w_storage w) = Inr (c # ps)"
  shows "storage_object_matches rp sample_repo Manifest (os_id c) (w_storage (damaged w))"
proof -
  from assms obtain head b where
    cf: "chain_from rp (sample_key 1 2) head (read_manifest_material rp (\<lambda>i. so_get_object (er_storage sample_repo) Manifest i (w_storage w))) None
       = (Inr (c # ps), b)" by (auto simp: current_chain_ok)
  from chain_entries_stored [OF cf, of c] obtain enc where
    "so_get_object (er_storage sample_repo) Manifest (os_id c) (w_storage w) = Inr enc" "object_id rp enc = os_id c" by auto
  then have "fs_open_object sample_dir Manifest (os_id c) (w_storage w) = Inr enc" by (simp add: directory.get_object_open)
  then have "fs_open_object sample_dir Manifest (os_id c) (w_storage (damaged w)) = Inr enc"
    using damaged_fields(3) [of w Manifest "os_id c"] unfolding fs_open_object_ok by metis
  then show ?thesis using \<open>object_id rp enc = os_id c\<close> by (simp add: storage_object_matches_def)
qed

lemma recover_runs:
  assumes "recovery_assessment P sh R (lock_floor R) (open_checkout R repo) (ro_publish options) w = (Inr (Go (report1, ob, pinned, b)), v)"
    and "recovery_floor P sh R (w_storage v) pinned b report1 = Inr (Go (history, carrier, fo, b'))"
    and "recovery_offers P sh R (w_storage v) pinned history carrier fo b' report1 = Inr (Go (report2, offers))"
    and "choose_base P R options carrier report2 offers = Inr (Go (base, chain))"
  shows "recover P sh R repo rnd scratch options w = publish_recovery P sh R repo rnd scratch (lock_floor R) ob report2 base chain v"
  using assms by (simp add: recover_def Let_def stage_then_def act_then_def act_get_def act_ret_def)

lemma sample_recovers:
  obtains w c report w' i where "sample_ready w c []" "os_policy c = created 1 2 (genesis_body 1 2)"
    "recover rp no_text sample_repo sample_checkout sample_publication (Inr ()) recover_now (damaged w) = (Inr report, w')"
    "rr_published_manifest report = Some i" "w_storage (damaged w) (object_path sample_dir Manifest i) = None"
proof (rule sample_initialized)
  fix i0 w c
  assume ready: "sample_ready w c []" and policy: "os_policy c = created 1 2 (genesis_body 1 2)"
    and total: "mf_total_pack_count (os_manifest c) = 0"
  note r = ready [unfolded sample_ready_def]
  have chain: "current_chain rp sample_repo (w_storage w) = Inr [c]" using r by simp
  have auth: "authentic_chain rp sample_root [c]" using current_chain_sound [OF chain] by simp
  note head = owner_head [OF chain] and inside = genesis_within_budget [OF chain]
  let ?f = "floor_at (os_id c) (os_manifest c)" and ?fs = "w_storage (damaged w)"
  have floor: "floor_read rp (lock_floor sample_repo) (w_files w) = Inr (Some ?f)" using r by simp
  from damaged_assessment [OF inside(2) floor, of "open_checkout sample_repo sample_checkout"] obtain v where
    a: "recovery_assessment rp no_text sample_repo (lock_floor sample_repo) (open_checkout sample_repo sample_checkout) True (damaged w)
      = (Inr (Go (damaged_report ?f, damaged_observation, ?f, Some no_budget_used)), v)"
    and v: "w_storage v = ?fs" "w_git v = w_git w" "floor_read rp (lock_floor sample_repo) (w_files v) = Inr (Some ?f)" by blast
  let ?fo = "(\<lparr>ra_manifest_id = os_id c, ra_generation = mf_generation (os_manifest c), ra_outer_commit = None,
    ra_verified_signer = os_verified_signer c\<rparr>, [c])"
  obtain b where f: "recovery_floor rp no_text sample_repo ?fs ?f (Some no_budget_used) (damaged_report ?f)
      = Inr (Go (no_history, False, ?fo, b))"
  proof -
    from inside(1) obtain b where b: "chain_from rp (sample_key 1 2) (os_id c) (read_history_material rp sample_repo ?fs no_history)
      (Some no_budget_used) = (Inr [c], b)" by blast
    have "charge_history no_history no_budget_used = Inr no_budget_used"
      by (simp add: charge_history_def no_history_def no_budget_used_def checked_add_def)
    with b have "recovery_floor rp no_text sample_repo ?fs ?f (Some no_budget_used) (damaged_report ?f) = Inr (Go (no_history, False, ?fo, b))"
      by (simp add: recovery_floor_def default_recovery_history_def no_history_def [symmetric] at_floor_def floor_at_def)
        (simp add: no_history_def)
    then show thesis by (rule that)
  qed
  have o: "recovery_offers rp no_text sample_repo ?fs ?f no_history False ?fo b (damaged_report ?f)
      = Inr (Go ((damaged_report ?f)\<lparr>rr_candidates := [fst ?fo], rr_default_base := Some (os_id c), rr_warning := Some STALE_FLOOR_WARNING\<rparr>, [?fo]))"
    by (simp add: recovery_offers_def history_offers_def blank_report_def)
  let ?report = "(damaged_report ?f)\<lparr>rr_candidates := [fst ?fo], rr_default_base := Some (os_id c), rr_warning := Some STALE_FLOOR_WARNING\<rparr>"
  have p: "wf_policy rp (st_body (os_policy c))" "active_readers (os_policy c) = [owner]" "length (st_id (os_policy c)) = 64"
      "policy_device (os_policy c) (sample_id 2) = Some owner" "is_active_writer (os_policy c) (sample_id 2)"
    using sample_policy_genesis(1) [of 1 2]
    by (simp_all add: policy active_readers_def policy_device_def is_active_writer_def genesis_body_def solo_owner)
  have c: "choose_base rp sample_repo recover_now False ?report [?fo] = Inr (Go (c, [c]))"
    using p(5) by (simp add: choose_base_def recover_now_def)
  from sample_link [of "replicate 24 0" sample_gk 1 "os_id c"] obtain link where
    link: "wrap_predecessor_key rp (replicate 24 0) sample_gk sample_gk sample_root 1 (os_id c) = Inr link"
      "length link = length sample_gk + 40 + length SYMMETRIC_MAGIC" by auto
  have gen: "mf_generation (os_manifest c) = 0" using head(6) by (simp add: unat_eq_0)
  define m where "m = \<lparr>mf_format_version = mf_format_version (os_manifest c), mf_repository_root = sample_root,
     mf_generation = 1, mf_previous = Some (os_id c), mf_policy_id = st_id (os_policy c),
     mf_policy_generation = pb_generation (st_body (os_policy c)), mf_authorization = Writer, mf_total_pack_count = 0,
     mf_refs = [], mf_new_packs = [], mf_predecessor_key_wrap = Some link, mf_introduced_policy = None\<rparr>"
  have m: "recovery_manifest rp sample_publication c = Inr m"
    using link(1) gen total r head(5) by (simp add: recovery_manifest_def Let_def sample_publication_def m_def)
  have pol: "mf_policy_id (os_manifest c) = st_id (os_policy c)"
      "mf_policy_generation (os_manifest c) = pb_generation (st_body (os_policy c))"
      "pb_repository_root (st_body (os_policy c)) = sample_root"
    using authentic_chain_root [OF auth] by simp_all
  have succ: "manifest_validate_successor rp m (os_id c) (os_manifest c) (os_policy c) = Inr ()"
    using pol head(5) authentic_chain_version [OF auth] gen total r
    by (simp add: manifest_validate_successor_def m_def validate_manifest_policy_def validate_pack_delta_def
        validate_authorization_def validate_introduced_policy_def bail_if_def checked_add_def)
  have body: "length (enc_body \<lparr>mb_refs = mf_refs m, mb_new_packs = mf_new_packs m,
       mb_predecessor_key_wrap = mf_predecessor_key_wrap m,
       mb_introduced_policy = map_option string_of_bytes (mf_introduced_policy m)\<rparr>) \<le> 1000000"
    using link(2) by (simp add: m_def enc_body_def enc_list_def sample_gk_def SYMMETRIC_MAGIC_def format_version_text_def)
  have asked: "ro_publish recover_now" by (simp add: recover_now_def)
  have sign: "may_sign (os_policy c) None Writer (sample_id 2)" using p by (simp add: may_sign_def)
  obtain w' i report where p: "publish_recovery rp no_text sample_repo sample_checkout sample_publication (Inr ()) (lock_floor sample_repo)
      damaged_observation ?report c [c] v = (Inr report, w')" "rr_published_manifest report = Some i"
    "w_storage (damaged w) (object_path sample_dir Manifest i) = None"
  proof (rule owner_stores [OF chain, of m "os_policy c" link None])
    fix i enc
    assume i: "validate_id i = Inr ()" and fresh: "w_storage w (object_path sample_dir Manifest i) = None"
      and stores: "\<And>u :: (tree, unit) world. w_storage u (object_path sample_dir Manifest i) = None \<Longrightarrow>
      fs_put_object_if_absent rp sample_dir Manifest i enc (w_storage u)
        = (Inr (), (w_storage u)(object_path sample_dir Manifest i \<mapsto> RegularFile enc))
      \<and> seal_and_store_manifest rp sample_repo sample_random (Some c) (os_policy c) None sample_gk (mf_authorization m) m u
        = (Inr i, u\<lparr>w_storage := (w_storage u)(object_path sample_dir Manifest i \<mapsto> RegularFile enc)\<rparr>)"
    have free: "?fs (object_path sample_dir Manifest i) = None" using fresh damaged_fields(3) [of w Manifest i] by metis
    let ?fs1 = "?fs(object_path sample_dir Manifest i \<mapsto> RegularFile enc)"
    have store: "seal_and_store_manifest rp sample_repo sample_random (Some c) (os_policy c) None sample_gk Writer m v
        = (Inr i, v\<lparr>w_storage := ?fs1\<rparr>)"
      using stores [of v] free v(1) by (simp add: m_def)
    have "tidy (w_storage w)" using r by simp
    from tidy_root_file [OF this, of "''HEAD''" "RegularFile [120]"] have "tidy ?fs" by (simp add: damaged_def)
    then have "tidy ?fs1" by (rule tidy_object)
    moreover have "?fs1 (head_path sample_dir) = Some (RegularFile [120])"
      using object_path_not_root [of sample_dir Manifest i] unfolding damaged_def by simp
    ultimately obtain fs2 where
      swap: "fs_compare_and_swap_observed_head quiet_io sample_dir damaged_observation i ?fs1 = (Inr (), fs2)"
      using damaged_swap [OF i] by metis
    have l: "floor_json_laws rp" using rp_laws by (simp add: library_laws_def)
    have pin: "validate_pinned_head [c] (Some ?f) = Inr ()" by (simp add: validate_pinned_head_def floor_at_def bail_if_def)
    have "mf_policy_generation (os_manifest (hd [c])) \<le> mf_policy_generation m" using pol by (simp add: m_def)
    note adv = floor_advance_successor(1) [OF l v(3) pin _ this, of "os_policy c" i]
    have "mf_new_packs (os_manifest c) = []"
      using auth by (cases rule: authentic_chain.cases) (simp_all add: manifest_validate_genesis_ok)
    then have restore: "restore_base_objects rp sample_repo [c] v = (Inr (), v)"
      and graph: "verify_base_graph rp sample_repo (gr_ops sample_checkout) (Inr ()) (w_storage v) [c] = Inr ()"
      using damaged_base [OF chain] r v(1)
      by (simp_all add: restore_base_objects_def required_objects_def ensure_object_available_def act_then_def act_get_def act_ret_def
          verify_base_graph_def chain_packs_def validate_inner_refs_def ensure_refs_connected_since_def)
    have "\<exists>report' w'. publish_recovery rp no_text sample_repo sample_checkout sample_publication (Inr ()) (lock_floor sample_repo)
        damaged_observation ?report c [c] v = (Inr report', w') \<and> rr_published_manifest report' = Some i"
      by (rule publish_recovery_runs [OF restore graph _ m, where ?w1.0 = "v\<lparr>w_storage := ?fs1\<rparr>" and ?s2.0 = fs2])
        (use store swap adv [OF _] succ in \<open>simp_all add: sample_publication_def\<close>)
    then show thesis using that free by blast
  qed (use r p sign link succ body in \<open>simp_all add: m_def\<close>)
  have "recover rp no_text sample_repo sample_checkout sample_publication (Inr ()) recover_now (damaged w) = (Inr report, w')"
    by (rule trans [OF recover_runs [OF _ f [folded v(1)] o [folded v(1)] c] p(1)]) (use a asked in simp)
  then show thesis using that [OF ready policy] p(2,3) by blast
qed

section \<open>Closed instances\<close>


theorem recovery_takes_effect_witness:
  "\<exists>(w :: (tree, unit) world) w' report i pinned base m. recover rp no_text sample_repo sample_checkout sample_publication (Inr ()) recover_now w
       = (Inr report, w') \<and> rr_published_manifest report = Some i
     \<and> floor_read rp (lock_floor sample_repo) (w_files w) = Inr (Some pinned) \<and> at_floor pinned base
     \<and> mf_refs m = mf_refs (os_manifest base) \<and> floor_read rp (lock_floor sample_repo) (w_files w') = Inr (Some (floor_at i m))"
proof (rule sample_recovers)
  fix w c report w' i
  assume run: "recover rp no_text sample_repo sample_checkout sample_publication (Inr ()) recover_now (damaged w) = (Inr report, w')"
    and pub: "rr_published_manifest report = Some i" and fresh: "w_storage (damaged w) (object_path sample_dir Manifest i) = None"
  from recovery_takes_effect [OF rp_laws sample_publication_sound repo_of_fields(1) run pub fresh] run pub
  show ?thesis by blast
qed

theorem unproven_head_is_kept_witness:
  "\<exists>w' r. recover rp no_text sample_repo sample_checkout sample_publication (Inr ()) (recover_now\<lparr>ro_publish := False\<rparr>) empty_world = (r, w')
     \<and> w_storage w' = w_storage empty_world"
proof -
  obtain r w' where run: "recover rp no_text sample_repo sample_checkout sample_publication (Inr ()) (recover_now\<lparr>ro_publish := False\<rparr>) empty_world = (r, w')"
    by fastforce
  moreover have "\<not> ro_publish (recover_now\<lparr>ro_publish := False\<rparr>)" by simp
  ultimately show ?thesis using unproven_head_is_kept [OF run] by blast
qed

theorem rejected_heads_are_the_newest_witness:
  "\<exists>fs'. record_rejections rp ''d'' [(''a'', Invalid, ''x''), (''b'', Invalid, ''y''), (''a'', Invalid, ''z'')] Map.empty = Inr fs'
     \<and> map re_head_id (rl_entries (read_rejected_heads rp ''d'' fs')) = [''b'', ''a'']"
proof -
  have laws: "rejected_log_laws rp" by (simp add: rejected_log_laws_def rp_def sample_def codec_log)
  from rejected_heads_are_the_newest [OF laws, of Map.empty "''d''" "[(''a'', Invalid, ''x''), (''b'', Invalid, ''y''), (''a'', Invalid, ''z'')]"]
  show ?thesis by (auto simp: rejection_of_def MAX_REJECTED_HEADS_def)
qed

end
