(* ===== verification/Url.thy ===== *)
theory Url
  imports Rust_Strings
begin

text \<open>
  \<^verbatim>\<open>src/url.rs\<close>: storage URLs, and the functions of \<^verbatim>\<open>std::path\<close> they rest on (Unix paths, as
  UTF-8 strings). The current directory and what exists in the file system are a \<open>path_env\<close>.
  Of an error message that formats the URL only the literal part is kept.
\<close>

section \<open>Paths\<close>

record path_env =
  pe_current_dir :: "string result"
  pe_exists :: "string \<Rightarrow> bool"

definition is_absolute :: "string \<Rightarrow> bool" where
  "is_absolute path = starts_with path ''/''"

text \<open>\<^verbatim>\<open>Path::components\<close> without the root and without the dots it skips.\<close>

definition path_components :: "string \<Rightarrow> string list" where
  "path_components path = filter (\<lambda>c. c \<noteq> [] \<and> c \<noteq> ''.'') (split_on (CHR ''/'') path)"

text \<open>\<^verbatim>\<open>PathBuf::push\<close> of a relative path.\<close>

definition path_push :: "string \<Rightarrow> string \<Rightarrow> string" where
  "path_push buf c = (if buf = [] \<or> last buf = CHR ''/'' then buf @ c else buf @ ''/'' @ c)"

text \<open>\<^verbatim>\<open>std::path::absolute\<close>: two leading slashes are kept, a trailing slash too, dots are not.\<close>

definition path_absolute :: "path_env \<Rightarrow> string \<Rightarrow> string result" where
  "path_absolute E path =
     bail_if (path = []) (Io InvalidInput) (
     and_then (if is_absolute path
       then Inr (if starts_with path ''//'' \<and> \<not> starts_with path ''///'' then ''//'' else ''/'')
       else pe_current_dir E) (\<lambda>start.
     let normalized = foldl path_push start (path_components path) in
     Inr (if ends_with path ''/'' then path_push normalized [] else normalized)))"

text \<open>The files of the model are named by absolute paths; a relative path names the file it leads to from
  the current directory.\<close>

definition file_at :: "path_env \<Rightarrow> string \<Rightarrow> string" where
  "file_at E path = (case path_absolute E path of Inr p \<Rightarrow> p | Inl _ \<Rightarrow> path)"

section \<open>Storage URLs\<close>

datatype storage_url = Directory string | GitRemote string

definition unwrap_prefix :: "string \<Rightarrow> string" where
  "unwrap_prefix url = (case strip_prefix url ''e2ee::'' of Some address \<Rightarrow> address | None \<Rightarrow> url)"

definition storage_url_parse :: "path_env \<Rightarrow> string \<Rightarrow> storage_url result" where
  "storage_url_parse E url =
     (let address = unwrap_prefix url in
      case strip_prefix address ''dir:'' of
        Some path \<Rightarrow>
          bail_if (path = []) (Msg ''empty directory path in storage URL'') (
          and_then (path_absolute E path) (\<lambda>absolute.
          Inr (Directory absolute)))
      | None \<Rightarrow>
          bail_if (address = []) (Msg ''empty storage URL'') (
          let (path, fragment) = (case rsplit_once (CHR ''#'') address of
                Some (path, branch) \<Rightarrow> (path, Some branch)
              | None \<Rightarrow> (address, None)) in
          if \<not> is_absolute path \<and> pe_exists E path then
            and_then (path_absolute E path) (\<lambda>absolute.
            Inr (GitRemote (case fragment of
                Some branch \<Rightarrow> absolute @ ''#'' @ branch
              | None \<Rightarrow> absolute)))
          else Inr (GitRemote address)))"

fun storage_url_display :: "storage_url \<Rightarrow> string" where
  "storage_url_display (Directory path) = ''e2ee::dir:'' @ path"
| "storage_url_display (GitRemote remote) = ''e2ee::'' @ remote"

section \<open>Absolute paths are fixed points\<close>

text \<open>A path in the form \<^verbatim>\<open>std::path::absolute\<close> gives: a root, its components and perhaps a slash.\<close>

definition normal_component :: "string \<Rightarrow> bool" where
  "normal_component c \<longleftrightarrow> c \<noteq> [] \<and> c \<noteq> ''.'' \<and> CHR ''/'' \<notin> set c"

lemma path_components_normal: "c \<in> set (path_components path) \<Longrightarrow> normal_component c"
  by (auto simp: path_components_def normal_component_def dest: split_on_no_sep)

lemma last_push: "normal_component c \<Longrightarrow> path_push buf c \<noteq> [] \<and> last (path_push buf c) \<noteq> CHR ''/''"
  by (auto simp: path_push_def normal_component_def dest: last_in_set)

lemma split_on_append_sep: "split_on c (xs @ c # ys) = split_on c xs @ split_on c ys"
proof (induction xs)
  case (Cons x xs)
  then show ?case by (cases "split_on c xs") auto
qed simp

lemma path_components_append_slash: "path_components (p @ CHR ''/'' # q) = path_components p @ path_components q"
  by (simp add: path_components_def split_on_append_sep)

lemma path_components_normal_one: "normal_component c \<Longrightarrow> path_components c = [c]"
  by (simp add: path_components_def normal_component_def split_on_absent)

lemma path_components_trailing: "path_components (b @ ''/'') = path_components b"
  using path_components_append_slash [of b "[]"] by (simp add: path_components_def)

lemma path_components_push:
  assumes "normal_component c" and "buf \<noteq> []"
  shows "path_components (path_push buf c) = path_components buf @ [c]"
proof (cases "last buf = CHR ''/''")
  case True
  then obtain b where "buf = b @ ''/''" using assms(2) by (metis append_butlast_last_id)
  then show ?thesis
    using path_components_append_slash [of b c] path_components_trailing [of b] assms(1)
    by (simp add: path_push_def path_components_normal_one)
next
  case False
  then show ?thesis
    using path_components_append_slash [of buf c] assms by (simp add: path_push_def path_components_normal_one)
qed

definition root_of :: "string \<Rightarrow> string" where
  "root_of path = (if starts_with path ''//'' \<and> \<not> starts_with path ''///'' then ''//'' else ''/'')"

lemma push_keeps_root:
  assumes "is_absolute p" and "CHR ''/'' \<notin> set c" and "c = [] \<longrightarrow> last p \<noteq> CHR ''/''"
  shows "is_absolute (path_push p c) \<and> root_of (path_push p c) = root_of p"
proof -
  from assms(1) obtain q where p: "p = CHR ''/'' # q" by (auto simp: is_absolute_def starts_with_iff)
  show ?thesis
  proof (cases q)
    case Nil
    with assms p show ?thesis
      by (cases c) (auto simp: path_push_def is_absolute_def root_of_def starts_with_def)
  next
    case (Cons x q')
    with assms p show ?thesis
      by (cases c; cases q') (auto simp: path_push_def is_absolute_def root_of_def starts_with_def)
  qed
qed

text \<open>What the operating system reports as the current directory: an absolute path in normal form.\<close>

definition canonical_dir :: "string \<Rightarrow> bool" where
  "canonical_dir d \<longleftrightarrow> is_absolute d \<and> d = foldl path_push (root_of d) (path_components d)"

lemma canonical_push:
  assumes "canonical_dir d" and "normal_component c"
  shows "canonical_dir (path_push d c)"
proof -
  have "d \<noteq> []" using assms(1) by (auto simp: canonical_dir_def is_absolute_def starts_with_def)
  with push_keeps_root [of d c] path_components_push [OF assms(2)] assms
  show ?thesis by (auto simp: canonical_dir_def normal_component_def)
qed

lemma canonical_pushes: "canonical_dir d \<Longrightarrow> \<forall>c \<in> set cs. normal_component c \<Longrightarrow> canonical_dir (foldl path_push d cs)"
  by (induction cs arbitrary: d) (auto intro: canonical_push)

lemma canonical_roots: "canonical_dir ''/''" "canonical_dir ''//''"
  by (simp_all add: canonical_dir_def is_absolute_def root_of_def starts_with_def path_components_def)

definition settled_env :: "path_env \<Rightarrow> bool" where
  "settled_env E \<longleftrightarrow> (case pe_current_dir E of Inl _ \<Rightarrow> True | Inr d \<Rightarrow> canonical_dir d)"

lemma canonical_absolute: "canonical_dir d \<Longrightarrow> path_absolute E d = Inr d"
proof -
  assume c: "canonical_dir d"
  then have "ends_with d ''/'' \<Longrightarrow> path_push d [] = d"
    by (auto simp: path_push_def ends_with_iff)
  with c show ?thesis
    by (auto simp: path_absolute_def canonical_dir_def root_of_def is_absolute_def starts_with_def bail_if_def Let_def)
qed

lemma canonical_trailing: "canonical_dir d \<Longrightarrow> path_absolute E (path_push d []) = Inr (path_push d [])"
proof (cases "last d = CHR ''/''")
  case True
  assume "canonical_dir d"
  with True show ?thesis using canonical_absolute by (simp add: path_push_def)
next
  case False
  assume c: "canonical_dir d"
  then have d: "d \<noteq> []" "is_absolute d" "foldl path_push (root_of d) (path_components d) = d"
    by (auto simp: canonical_dir_def is_absolute_def starts_with_def)
  have "is_absolute (d @ ''/'')" "root_of (d @ ''/'') = root_of d"
    using push_keeps_root [of d "[]"] d(1,2) False by (simp_all add: path_push_def)
  then show ?thesis
    using d False path_components_trailing [of d]
    by (simp add: path_absolute_def path_push_def ends_with_iff Let_def bail_if_def root_of_def split: if_splits)
qed

lemma path_absolute_fixed:
  assumes "settled_env E" and "path_absolute E p = Inr q"
  shows "path_absolute E' q = Inr q" and "is_absolute q"
proof -
  from assms(2) obtain start where
    base: "(if is_absolute p then Inr (if starts_with p ''//'' \<and> \<not> starts_with p ''///'' then ''//'' else ''/'')
       else pe_current_dir E) = Inr start"
    and q: "q = (let n = foldl path_push start (path_components p) in if ends_with p ''/'' then path_push n [] else n)"
    by (auto simp only: path_absolute_def and_then_eq_Inr bail_if_eq_Inr Let_def sum.inject)
  have start: "canonical_dir start"
    using base assms(1) by (auto simp: settled_env_def canonical_roots split: if_splits)
  define n where "n = foldl path_push start (path_components p)"
  have n: "canonical_dir n"
    using canonical_pushes [OF start] path_components_normal unfolding n_def by blast
  then show "path_absolute E' q = Inr q"
    using q canonical_absolute canonical_trailing by (simp add: n_def Let_def)
  show "is_absolute q"
    using q n push_keeps_root [of n "[]"] by (auto simp: n_def [symmetric] Let_def canonical_dir_def path_push_def)
qed

section \<open>Stored URLs mean the same from everywhere\<close>

text \<open>\<^verbatim>\<open>Display\<close> after \<^verbatim>\<open>parse\<close> is stable: the text of a parsed URL parses back to the same URL in any
  directory, except that a remote which is no local path must not become one there.\<close>

lemma unwrap_display:
  "unwrap_prefix (storage_url_display (Directory p)) = ''dir:'' @ p" "unwrap_prefix (storage_url_display (GitRemote r)) = r"
  by (simp_all add: unwrap_prefix_def strip_prefix_def starts_with_def)

lemma strip_dir_directory: "strip_prefix (unwrap_prefix (storage_url_display (Directory p))) ''dir:'' = Some p"
  unfolding unwrap_display by (rule strip_prefix_append)

definition no_local_path :: "path_env \<Rightarrow> string \<Rightarrow> bool" where
  "no_local_path E remote \<longleftrightarrow>
     (let path = (case rsplit_once (CHR ''#'') remote of Some (path, _) \<Rightarrow> path | None \<Rightarrow> remote)
      in is_absolute path \<or> \<not> pe_exists E path)"

lemma absolute_no_local_path: "is_absolute r \<Longrightarrow> no_local_path E r"
proof -
  assume r: "is_absolute r"
  have "is_absolute p" if "rsplit_once (CHR ''#'') r = Some (p, b)" for p b
    using r that by (cases p) (auto simp: is_absolute_def starts_with_iff rsplit_once_Some)
  with r show ?thesis by (auto simp: no_local_path_def Let_def split: option.splits)
qed

lemma parse_git_remote:
  assumes "strip_prefix r ''dir:'' = None" and "r \<noteq> []" and "no_local_path E r"
  shows "storage_url_parse E (storage_url_display (GitRemote r)) = Inr (GitRemote r)"
proof (cases "rsplit_once (CHR ''#'') r")
  case None
  then show ?thesis using assms by (auto simp add: storage_url_parse_def unwrap_display no_local_path_def Let_def bail_if_def
      simp del: storage_url_display.simps)
next
  case (Some x)
  then show ?thesis using assms by (cases x) (auto simp add: storage_url_parse_def unwrap_display no_local_path_def Let_def bail_if_def
      simp del: storage_url_display.simps)
qed

lemma parsed_git_remote:
  assumes E: "settled_env E" and parse: "storage_url_parse E url = Inr (GitRemote r)"
  shows "is_absolute r \<or> strip_prefix r ''dir:'' = None \<and> r \<noteq> []"
proof -
  have abs: "is_absolute (q @ s)" if "path_absolute E p = Inr q" for p q s
    using path_absolute_fixed(2) [OF E that] by (auto simp: is_absolute_def starts_with_iff)
  from parse have none: "strip_prefix (unwrap_prefix url) ''dir:'' = None" "unwrap_prefix url \<noteq> []"
    by (auto simp: storage_url_parse_def Let_def bail_if_eq_Inr and_then_eq_Inr split: option.splits)
  obtain p f where pf: "(case rsplit_once (CHR ''#'') (unwrap_prefix url) of
       Some (path, branch) \<Rightarrow> (path, Some branch) | None \<Rightarrow> (unwrap_prefix url, None)) = (p, f)" by (rule prod.exhaust)
  show ?thesis
  proof (cases "\<not> is_absolute p \<and> pe_exists E p")
    case True
    with parse none pf obtain q where "path_absolute E p = Inr q" "r = (case f of Some branch \<Rightarrow> q @ ''#'' @ branch | None \<Rightarrow> q)"
      by (auto simp: storage_url_parse_def Let_def bail_if_eq_Inr and_then_eq_Inr)
    then show ?thesis using abs [of p q "[]"] abs [of p q] by (cases f) simp_all
  next
    case False
    with parse none pf have "r = unwrap_prefix url"
      by (auto simp: storage_url_parse_def Let_def bail_if_eq_Inr and_then_eq_Inr)
    then show ?thesis using none by simp
  qed
qed

lemma absolute_not_dir: "is_absolute r \<Longrightarrow> strip_prefix r ''dir:'' = None \<and> r \<noteq> []"
  by (auto simp: is_absolute_def strip_prefix_def starts_with_iff)

lemma stored_url_stable:
  assumes E: "settled_env E" and parse: "storage_url_parse E url = Inr u"
    and same: "\<And>r. u = GitRemote r \<Longrightarrow> no_local_path E' r"
  shows "storage_url_parse E' (storage_url_display u) = Inr u"
proof (cases u)
  case (Directory p)
  with parse obtain q where q: "path_absolute E q = Inr p"
    by (auto simp: storage_url_parse_def Let_def bail_if_eq_Inr and_then_eq_Inr split: option.splits if_splits)
  have "p \<noteq> []" using path_absolute_fixed(2) [OF E q] absolute_not_dir by blast
  then show ?thesis
    unfolding Directory storage_url_parse_def Let_def strip_dir_directory
    by (simp add: bail_if_def path_absolute_fixed(1) [OF E q])
next
  case (GitRemote r)
  then show ?thesis
    using parsed_git_remote [OF E] absolute_not_dir [of r] parse same parse_git_remote by auto
qed



end
