(* ===== verification/Gitcmd.thy ===== *)
theory Gitcmd
  imports Url Repository
begin

text \<open>
  \<^verbatim>\<open>src/gitcmd.rs\<close>: which repository a git command addresses and under which environment, how the
  user's repository is found, and the configuration queries of the two programs. A command is
  what is handed to the operating system: the variables removed from the inherited environment
  and the arguments. Running git is a record of functions, like \<open>git_ops\<close>: the exit status and
  the standard output, or an error when it could not be run.
\<close>

section \<open>Commands\<close>

record git_command =
  gc_removed :: "string list"
  gc_args :: "string list"

definition REPOSITORY_SELECTION :: "string list" where
  "REPOSITORY_SELECTION = [''GIT_DIR'', ''GIT_WORK_TREE'', ''GIT_COMMON_DIR'', ''GIT_INDEX_FILE'',
     ''GIT_OBJECT_DIRECTORY'', ''GIT_ALTERNATE_OBJECT_DIRECTORIES'', ''GIT_QUARANTINE_PATH'', ''GIT_NAMESPACE'',
     ''GIT_CEILING_DIRECTORIES'', ''GIT_DISCOVERY_ACROSS_FILESYSTEM'', ''GIT_PREFIX'', ''GIT_SHALLOW_FILE'',
     ''GIT_GRAFT_FILE'', ''GIT_REPLACE_REF_BASE'', ''GIT_NO_REPLACE_OBJECTS'']"

definition INJECTED_CONFIG :: "string list" where
  "INJECTED_CONFIG = [''GIT_CONFIG_PARAMETERS'', ''GIT_CONFIG_COUNT'', ''GIT_CONFIG'']"

definition COMMIT_IDENTITY :: "string list" where
  "COMMIT_IDENTITY = [''GIT_AUTHOR_NAME'', ''GIT_AUTHOR_EMAIL'', ''GIT_AUTHOR_DATE'',
     ''GIT_COMMITTER_NAME'', ''GIT_COMMITTER_EMAIL'', ''GIT_COMMITTER_DATE'']"

definition OWNED_REPOSITORY_CONFIG :: "string list" where
  "OWNED_REPOSITORY_CONFIG = [''core.hooksPath=/dev/null'', ''commit.gpgSign=false'', ''tag.gpgSign=false'',
     ''push.gpgSign=false'', ''core.fsmonitor=false'']"

datatype location = GitDir string | WorkTree string

datatype owner = User | Program

record git_handle =
  gh_location :: location
  gh_owner :: owner

definition new_command :: git_command where
  "new_command = \<lparr>gc_removed = [], gc_args = []\<rparr>"

definition remove_all :: "string list \<Rightarrow> git_command \<Rightarrow> git_command" where
  "remove_all variables c = c\<lparr>gc_removed := gc_removed c @ variables\<rparr>"

definition add_args :: "string list \<Rightarrow> git_command \<Rightarrow> git_command" where
  "add_args args c = c\<lparr>gc_args := gc_args c @ args\<rparr>"

definition add_settings :: "string list \<Rightarrow> git_command \<Rightarrow> git_command" where
  "add_settings settings c = foldl (\<lambda>c setting. add_args [''-c'', setting] c) c settings"

fun location_args :: "location \<Rightarrow> string list" where
  "location_args (GitDir path) = [''--git-dir'', path]"
| "location_args (WorkTree path) = [''-C'', path]"

definition without_repository :: git_command where
  "without_repository = add_settings OWNED_REPOSITORY_CONFIG (remove_all COMMIT_IDENTITY (
     remove_all INJECTED_CONFIG (remove_all REPOSITORY_SELECTION new_command)))"

definition git :: "git_handle \<Rightarrow> git_command" where
  "git repo = add_args (location_args (gh_location repo)) (case gh_owner repo of
     User \<Rightarrow> remove_all REPOSITORY_SELECTION new_command
   | Program \<Rightarrow> without_repository)"

definition transport :: "git_handle \<Rightarrow> git_command" where
  "transport repo = add_args (location_args (gh_location repo)) (add_settings OWNED_REPOSITORY_CONFIG (
     remove_all COMMIT_IDENTITY (remove_all REPOSITORY_SELECTION new_command)))"

definition git_dir :: "git_handle \<Rightarrow> string" where
  "git_dir repo = (case gh_location repo of GitDir path \<Rightarrow> path | WorkTree path \<Rightarrow> path_push path ''.git'')"

definition owned_git_dir :: "string \<Rightarrow> git_handle" where
  "owned_git_dir path = \<lparr>gh_location = GitDir path, gh_owner = Program\<rparr>"

definition owned_work_tree :: "string \<Rightarrow> git_handle" where
  "owned_work_tree path = \<lparr>gh_location = WorkTree path, gh_owner = Program\<rparr>"

section \<open>The user's repository\<close>

text \<open>\<open>po_discover\<close> is \<^verbatim>\<open>git rev-parse --absolute-git-dir\<close>, in the current directory or with \<^verbatim>\<open>-C\<close>;
  \<open>po_config\<close> is \<^verbatim>\<open>git config [--path] --get\<close> and \<open>po_run\<close> any other command, on the repository a
  handle names.\<close>

record 'g process_ops =
  po_discover :: "string option \<Rightarrow> (bool \<times> bytes) result"
  po_config :: "git_handle \<Rightarrow> bool \<Rightarrow> string \<Rightarrow> 'g \<Rightarrow> (bool \<times> bytes) result"
  po_run :: "git_handle \<Rightarrow> string list \<Rightarrow> 'g \<Rightarrow> bool result \<times> 'g"
  po_ops :: "git_handle \<Rightarrow> 'g git_ops"

definition trim_end_newlines :: "string \<Rightarrow> string" where
  "trim_end_newlines s = rev (dropWhile (\<lambda>c. c = CHR 0x0A) (rev s))"

definition parse_discovery :: "bool \<times> bytes \<Rightarrow> git_handle option result" where
  "parse_discovery output = (case output of (success, stdout) \<Rightarrow>
     if \<not> success then Inr None
     else
     and_then (ok_or (from_utf8 stdout) (Msg ''invalid utf-8'')) (\<lambda>text.
     let dir = trim_end_newlines text in
     bail_if (\<not> is_absolute dir) (Msg ''git rev-parse returned a relative Git directory'') (
     Inr (Some \<lparr>gh_location = GitDir dir, gh_owner = User\<rparr>))))"

definition from_environment :: "'g process_ops \<Rightarrow> git_handle option result" where
  "from_environment X = and_then (po_discover X None) parse_discovery"

definition open_repository :: "'g process_ops \<Rightarrow> string \<Rightarrow> git_handle result" where
  "open_repository X path =
     and_then (po_discover X (Some path)) (\<lambda>output.
     and_then (parse_discovery output) (\<lambda>found.
     ok_or found (Msg (path @ '' is not a Git repository''))))"

definition resolve_repository :: "'g process_ops \<Rightarrow> string option \<Rightarrow> git_handle option result" where
  "resolve_repository X path = (case path of
     Some path \<Rightarrow> and_then (open_repository X path) (\<lambda>repo. Inr (Some repo))
   | None \<Rightarrow> from_environment X)"

text \<open>The repository a handle gives to the operations of \<^verbatim>\<open>src/repository.rs\<close>.\<close>

definition repository_of :: "'g process_ops \<Rightarrow> git_handle \<Rightarrow> 'g git_repository" where
  "repository_of X repo = \<lparr>gr_git_dir = git_dir repo, gr_ops = po_ops X repo\<rparr>"

section \<open>Configuration\<close>

definition config_text :: "(bool \<times> bytes) result \<Rightarrow> string option result" where
  "config_text output =
     and_then output (\<lambda>(success, stdout).
     if success then
       and_then (ok_or (from_utf8 stdout) (Msg ''invalid utf-8'')) (\<lambda>text.
       Inr (Some (trim text)))
     else Inr None)"

definition configured_value :: "'g process_ops \<Rightarrow> git_handle \<Rightarrow> string \<Rightarrow> 'g \<Rightarrow> string option result" where
  "configured_value X repo key g = config_text (po_config X repo False key g)"

definition configured_path :: "'g process_ops \<Rightarrow> git_handle \<Rightarrow> string \<Rightarrow> 'g \<Rightarrow> string option result" where
  "configured_path X repo key g = config_text (po_config X repo True key g)"

definition git_config :: "'g process_ops \<Rightarrow> git_handle \<Rightarrow> string \<Rightarrow> bool \<Rightarrow> 'g \<Rightarrow> string option result" where
  "git_config X repo key path g = config_text (po_config X repo path key g)"

definition run_git :: "'g process_ops \<Rightarrow> git_handle \<Rightarrow> string list \<Rightarrow> 'g \<Rightarrow> unit result \<times> 'g" where
  "run_git X repo args g = (case po_run X repo args g of (r, g') \<Rightarrow>
     (and_then r (\<lambda>success. bail_if (\<not> success) (Msg ''git failed'') (Inr ())), g'))"

definition set_local_config :: "'g process_ops \<Rightarrow> git_handle \<Rightarrow> string \<Rightarrow> string \<Rightarrow> 'g \<Rightarrow> unit result \<times> 'g" where
  "set_local_config X repo key value g = (case po_run X repo [''config'', ''--local'', key, value] g of (r, g') \<Rightarrow>
     (and_then r (\<lambda>success. bail_if (\<not> success) (Msg ''git config failed'') (Inr ())), g'))"

section \<open>What a command inherits\<close>

definition child_env :: "git_command \<Rightarrow> (string \<rightharpoonup> string) \<Rightarrow> string \<rightharpoonup> string" where
  "child_env c env = env |` (- set (gc_removed c))"

lemma add_settings_removed [simp]: "gc_removed (add_settings settings c) = gc_removed c"
  unfolding add_settings_def by (induction settings arbitrary: c) (simp_all add: add_args_def)

lemma add_settings_args [simp]:
  "gc_args (add_settings settings c) = gc_args c @ concat (map (\<lambda>s. [''-c'', s]) settings)"
  unfolding add_settings_def by (induction settings arbitrary: c) (simp_all add: add_args_def)

lemmas command_defs = git_def transport_def without_repository_def add_args_def remove_all_def new_command_def

text \<open>Every command addresses its repository by its arguments and inherits no variable that could select
  another one; on a repository the program owns it runs no hook and signs nothing, and only a
  transport command keeps the caller's injected configuration.\<close>

lemma command_is_bound:
  assumes "c \<in> {git repo, transport repo}"
  shows "\<exists>settings. gc_args c = concat (map (\<lambda>s. [''-c'', s]) settings) @ location_args (gh_location repo)
    \<and> (gh_owner repo = Program \<longrightarrow> settings = OWNED_REPOSITORY_CONFIG)"
    and "v \<in> set REPOSITORY_SELECTION \<Longrightarrow> child_env c env v = None"
    and "v \<notin> set (REPOSITORY_SELECTION @ INJECTED_CONFIG @ COMMIT_IDENTITY) \<Longrightarrow> child_env c env v = env v"
  using assms by (cases "gh_owner repo"; auto simp: command_defs child_env_def restrict_map_def
    intro: exI [of _ OWNED_REPOSITORY_CONFIG] exI [of _ "[]"])+

end
