(* ===== verification/Remote_Helper.thy ===== *)
theory Remote_Helper
  imports Gitcmd
begin

text \<open>
  \<^verbatim>\<open>src/bin/git-remote-e2ee.rs\<close>: the remote helper Git starts for an \<^verbatim>\<open>e2ee::\<close> URL. Git writes
  commands to its standard input and reads replies from its standard output. A session is the
  world of the repository operations with the output so far and the number of pushes made; what
  the k-th push draws from the random generator is \<open>draws k\<close>. The input is the lines still to be
  read, each a string or a read error. Writing to the output does not fail in the model, and the
  diagnostics on the error stream are not modelled. \<open>show_error\<close> is the one-line rendering
  \<^verbatim>\<open>{error:#}\<close> of the error library.
\<close>

section \<open>Sessions\<close>

record ('s, 'g) session =
  se_world :: "('s, 'g) world"
  se_output :: string
  se_pushes :: nat

definition on_world :: "('b, ('s, 'g) world) act \<Rightarrow> ('b, ('s, 'g) session) act" where
  "on_world m S = (case m (se_world S) of (r, w) \<Rightarrow> (r, S\<lparr>se_world := w\<rparr>))"

definition line_feed :: char where
  "line_feed = CHR 0x0A"

definition writeln :: "string \<Rightarrow> (unit, ('s, 'g) session) act" where
  "writeln line S = (Inr (), S\<lparr>se_output := se_output S @ line @ [line_feed]\<rparr>)"

text \<open>\<^verbatim>\<open>BufRead::lines\<close>: each line is checked to be UTF-8 and loses its line feed and a carriage return
  before it.\<close>

definition input_lines :: "bytes \<Rightarrow> string result list" where
  "input_lines input = (let ls = split_on 10 input; text = (\<lambda>l. ok_or (from_utf8 l) (Io InvalidData)) in
     map (\<lambda>l. and_then (text l) (\<lambda>t. Inr (strip_cr t))) (butlast ls)
       @ (if last ls = [] then [] else [text (last ls)]))"

section \<open>Parsing\<close>

definition parse_push :: "string \<Rightarrow> ref_push result" where
  "parse_push command =
     and_then (ok_or (strip_prefix command ''push '') (Msg ''validated push command'')) (\<lambda>spec.
     let (force, spec) = (case strip_prefix spec ''+'' of Some spec \<Rightarrow> (True, spec) | None \<Rightarrow> (False, spec)) in
     and_then (ok_or (split_once (CHR '':'') spec) (Msg (''push refspec must contain '' @ [CHR 0x27, CHR '':'', CHR 0x27]))) (\<lambda>(source, destination).
     Inr \<lparr>rp_destination = destination, rp_change = (if source = [] then Delete else Update source force)\<rparr>))"

fun parse_pushes :: "string list \<Rightarrow> ref_push list result" where
  "parse_pushes [] = Inr []"
| "parse_pushes (c # cs) =
     and_then (parse_push c) (\<lambda>p.
     and_then (parse_pushes cs) (\<lambda>ps.
     Inr (p # ps)))"

text \<open>The lines of a push batch after the first, up to a blank line or the end of the input.\<close>

fun gather_batch :: "string list \<Rightarrow> string result list \<Rightarrow> (string list \<times> string result list) result" where
  "gather_batch commands [] = Inr (commands, [])"
| "gather_batch commands (Inl e # lines) = Inl e"
| "gather_batch commands (Inr line # lines) =
     (if line = [] then Inr (commands, lines)
      else bail_if (\<not> starts_with line ''push '') (Msg (''unexpected command in push batch: '' @ line)) (
        gather_batch (commands @ [line]) lines))"

fun consume_batch :: "string \<Rightarrow> string result list \<Rightarrow> string result list result" where
  "consume_batch expected_prefix [] = Inr []"
| "consume_batch expected_prefix (Inl e # lines) = Inl e"
| "consume_batch expected_prefix (Inr line # lines) =
     (if line = [] then Inr lines
      else bail_if (\<not> starts_with line expected_prefix) (Msg (''unexpected command in batch: '' @ line)) (
        consume_batch expected_prefix lines))"

section \<open>Reporting\<close>

text \<open>\<^verbatim>\<open>str::split_whitespace\<close> on the characters of a string.\<close>

fun split_slices :: "string \<Rightarrow> string list \<Rightarrow> string list" where
  "split_slices field [] = (if field = [] then [] else [field])"
| "split_slices field (x # xs) =
     (if is_whitespace (code_point x) then (if field = [] then [] else [field]) @ split_slices [] xs
      else split_slices (field @ x) xs)"

definition split_whitespace :: "string \<Rightarrow> string list" where
  "split_whitespace s = split_slices [] (utf8_slices s)"

fun join_with :: "string \<Rightarrow> string list \<Rightarrow> string" where
  "join_with sep [] = []"
| "join_with sep [x] = x"
| "join_with sep (x # xs) = x @ sep @ join_with sep xs"

definition single_line :: "(error \<Rightarrow> string) \<Rightarrow> error \<Rightarrow> string" where
  "single_line show_error e = join_with '' '' (split_whitespace (show_error e))"

text \<open>\<^verbatim>\<open>downcast_ref::<PushRejection>\<close>: the outermost layer that is a push rejection.\<close>

definition push_rejection :: "error \<Rightarrow> string option" where
  "push_rejection e = (case filter (\<lambda>c. git_status c \<noteq> None) (contexts e @ [root e]) of
     [] \<Rightarrow> None
   | c # _ \<Rightarrow> git_status c)"

definition push_status :: "(error \<Rightarrow> string) \<Rightarrow> error \<Rightarrow> string" where
  "push_status show_error e = (case push_rejection e of
     Some status \<Rightarrow> status
   | None \<Rightarrow> if downcast is_CasConflict e then ''fetch first'' else single_line show_error e)"

definition report_push_error ::
    "(error \<Rightarrow> string) \<Rightarrow> string \<Rightarrow> string \<Rightarrow> error \<Rightarrow> (unit, ('s, 'g) session) act" where
  "report_push_error show_error remote_name destination e =
     (if downcast (\<lambda>c. c = ReadOnlyDevice) e
      then writeln (''error '' @ destination @ '' '' @ ''this device is read-only for '' @ remote_name
        @ ''; ask an administrator for the write role'')
      else writeln (''error '' @ destination @ '' '' @ push_status show_error e))"

fun report_failure ::
    "(error \<Rightarrow> string) \<Rightarrow> string \<Rightarrow> error \<Rightarrow> ref_push list \<Rightarrow> (unit, ('s, 'g) session) act" where
  "report_failure show_error remote_name e [] = act_ret (Inr ())"
| "report_failure show_error remote_name e (p # ps) =
     act_then (report_push_error show_error remote_name (rp_destination p) e) (\<lambda>_.
     report_failure show_error remote_name e ps)"

fun report_outcomes ::
    "(error \<Rightarrow> string) \<Rightarrow> string \<Rightarrow> string result \<Rightarrow> ref_push list \<Rightarrow> ref_outcome list \<Rightarrow> (unit, ('s, 'g) session) act" where
  "report_outcomes show_error remote_name publication (p # ps) (result # results) =
     act_then (case result of
         Accepted \<Rightarrow> (case publication of
             Inr _ \<Rightarrow> writeln (''ok '' @ rp_destination p)
           | Inl e \<Rightarrow> report_push_error show_error remote_name (rp_destination p) e)
       | Rejected e \<Rightarrow> report_push_error show_error remote_name (rp_destination p) e) (\<lambda>_.
     report_outcomes show_error remote_name publication ps results)"
| "report_outcomes show_error remote_name publication _ _ = act_ret (Inr ())"

section \<open>The protocol\<close>

text \<open>The push of the k-th batch, with its result kept as a value.\<close>

definition session_push ::
    "'a repository_prims_scheme \<Rightarrow> (nat \<Rightarrow> publication_random) \<Rightarrow> 's encrypted_repository \<Rightarrow> 'g git_repository
       \<Rightarrow> ref_push list \<Rightarrow> push_mode \<Rightarrow> (push_outcome result, ('s, 'g) session) act" where
  "session_push P draws R repo pushes mode S =
     (case push P R repo (draws (se_pushes S)) pushes mode (se_world S) of (r, w) \<Rightarrow>
       (Inr r, S\<lparr>se_world := w, se_pushes := Suc (se_pushes S)\<rparr>))"

definition process_push_batch ::
    "'a repository_prims_scheme \<Rightarrow> (error \<Rightarrow> string) \<Rightarrow> (nat \<Rightarrow> publication_random) \<Rightarrow> 's encrypted_repository
       \<Rightarrow> 'g git_repository \<Rightarrow> string \<Rightarrow> string \<Rightarrow> string result list \<Rightarrow> bool
       \<Rightarrow> (string result list, ('s, 'g) session) act" where
  "process_push_batch P show_error draws R repo remote_name first lines dry_run =
     act_then (act_ret (gather_batch [first] lines)) (\<lambda>(commands, rest).
     act_then (act_ret (parse_pushes commands)) (\<lambda>pushes.
     let mode = (if dry_run then DryRun else Publish) in
     act_then (session_push P draws R repo pushes mode) (\<lambda>r.
     act_then (case r of
         Inl e \<Rightarrow> report_failure show_error remote_name e pushes
       | Inr outcome \<Rightarrow> report_outcomes show_error remote_name (pu_publication outcome) pushes (pu_refs outcome)) (\<lambda>_.
     act_then (writeln []) (\<lambda>_.
     act_ret (Inr rest))))))"

definition write_capabilities :: "string \<Rightarrow> (unit, ('s, 'g) session) act" where
  "write_capabilities remote_name =
     act_then (writeln ''fetch'') (\<lambda>_.
     act_then (writeln ''push'') (\<lambda>_.
     act_then (writeln ''option'') (\<lambda>_.
     act_then (writeln (''refspec refs/heads/*:refs/remotes/'' @ remote_name @ ''/*'')) (\<lambda>_.
     act_then (writeln ''refspec refs/tags/*:refs/tags/*'') (\<lambda>_.
     writeln [])))))"

fun write_refs :: "(string \<times> string) list \<Rightarrow> (unit, ('s, 'g) session) act" where
  "write_refs [] = act_ret (Inr ())"
| "write_refs ((reference, object) # refs) =
     act_then (writeln (object @ '' '' @ reference)) (\<lambda>_.
     write_refs refs)"

definition write_listing :: "(string, string) btree_map \<Rightarrow> (unit, ('s, 'g) session) act" where
  "write_listing refs =
     act_then (if bt_get refs ''refs/heads/main'' \<noteq> None then writeln ''@refs/heads/main HEAD'' else act_ret (Inr ())) (\<lambda>_.
     act_then (write_refs refs) (\<lambda>_.
     writeln []))"

text \<open>The reply to an option and the new value of \<^verbatim>\<open>dry_run\<close>.\<close>

definition set_option :: "string \<Rightarrow> bool \<Rightarrow> (bool, ('s, 'g) session) act" where
  "set_option name dry_run =
     (if name = ''dry-run true'' then act_then (writeln ''ok'') (\<lambda>_. act_ret (Inr True))
      else if name = ''dry-run false'' then act_then (writeln ''ok'') (\<lambda>_. act_ret (Inr False))
      else if starts_with name ''verbosity '' \<or> starts_with name ''progress ''
        then act_then (writeln ''ok'') (\<lambda>_. act_ret (Inr dry_run))
      else act_then (writeln ''unsupported'') (\<lambda>_. act_ret (Inr dry_run)))"

lemma gather_batch_shorter: "gather_batch commands lines = Inr (commands', rest) \<Longrightarrow> length rest \<le> length lines"
  by (induction commands lines rule: gather_batch.induct) (auto simp: bail_if_eq_Inr split: if_splits)

lemma consume_batch_shorter: "consume_batch start lines = Inr rest \<Longrightarrow> length rest \<le> length lines"
  by (induction start lines rule: consume_batch.induct) (auto simp: bail_if_eq_Inr split: if_splits)

lemma process_push_batch_shorter:
  assumes "process_push_batch P show_error draws R repo remote_name first lines dry_run S = (Inr rest, S')"
  shows "length rest \<le> length lines"
proof -
  from assms obtain commands where "gather_batch [first] lines = Inr (commands, rest)"
    by (auto simp: process_push_batch_def Let_def act_simps split: prod.splits)
  then show ?thesis by (rule gather_batch_shorter)
qed

lemma act_then_cong [fundef_cong]:
  assumes "m w = m' w'" and "\<And>a v. m' w' = (Inr a, v) \<Longrightarrow> f a v = g a v" and "w = w'"
  shows "act_then m f w = act_then m' g w'"
  using assms by (auto simp: act_then_def split: sum.splits prod.splits)

function run_protocol ::
    "'a repository_prims_scheme \<Rightarrow> (error \<Rightarrow> string) \<Rightarrow> (nat \<Rightarrow> publication_random) \<Rightarrow> 's encrypted_repository
       \<Rightarrow> 'g git_repository \<Rightarrow> string \<Rightarrow> bool \<Rightarrow> string result list \<Rightarrow> (unit, ('s, 'g) session) act" where
  "run_protocol P show_error draws R repo remote_name dry_run [] S = (Inr (), S)"
| "run_protocol P show_error draws R repo remote_name dry_run (Inl e # lines) S = (Inl e, S)"
| "run_protocol P show_error draws R repo remote_name dry_run (Inr line # lines) S =
     (if line = [] then run_protocol P show_error draws R repo remote_name dry_run lines S
      else if line = ''capabilities'' then
        act_then (write_capabilities remote_name) (\<lambda>_ S.
        run_protocol P show_error draws R repo remote_name dry_run lines S) S
      else if line = ''list'' \<or> line = ''list for-push'' then
        act_then (on_world (observe_manifest P R repo)) (\<lambda>m.
        act_then (write_listing (mf_refs m)) (\<lambda>_ S.
        run_protocol P show_error draws R repo remote_name dry_run lines S)) S
      else if starts_with line ''option '' then
        act_then (set_option (drop (length ''option '') line) dry_run) (\<lambda>dry_run S.
        run_protocol P show_error draws R repo remote_name dry_run lines S) S
      else if starts_with line ''fetch '' then
        act_then (act_ret (consume_batch ''fetch '' lines)) (\<lambda>rest.
        act_then (on_world (import_packs P R repo)) (\<lambda>_.
        act_then (writeln []) (\<lambda>_ S.
        run_protocol P show_error draws R repo remote_name dry_run rest S))) S
      else if starts_with line ''push '' then
        act_then (process_push_batch P show_error draws R repo remote_name line lines dry_run) (\<lambda>rest S.
        run_protocol P show_error draws R repo remote_name dry_run rest S) S
      else (Inl (err (Msg (''unsupported remote-helper command: '' @ line))), S))"
  by pat_completeness auto

termination
  by (relation "measure (\<lambda>(P, show_error, draws, R, repo, remote_name, dry_run, lines, S). length lines)")
    (auto simp: act_ret_def dest: consume_batch_shorter process_push_batch_shorter)

section \<open>Starting the helper\<close>

text \<open>\<^verbatim>\<open>default_state_dir\<close> of \<^verbatim>\<open>src/continuity.rs\<close>; \<open>env\<close> is the process environment.\<close>

definition state_home :: "(string \<rightharpoonup> string) \<Rightarrow> string result" where
  "state_home env =
     (let home = and_then (ok_or (env ''HOME'') (Msg ''HOME is unset and XDG_STATE_HOME is unset'')) (\<lambda>home.
            Inr (path_push home ''.local/state''))
      in case env ''XDG_STATE_HOME'' of
        Some path \<Rightarrow> if path \<noteq> [] then Inr path else home
      | None \<Rightarrow> home)"

definition default_state_dir :: "(string \<rightharpoonup> string) \<Rightarrow> string result" where
  "default_state_dir env =
     and_then (state_home env) (\<lambda>home.
     Inr (path_push home ''git-e2ee''))"

definition configured_key_path ::
    "'g process_ops \<Rightarrow> path_env \<Rightarrow> git_handle \<Rightarrow> string \<Rightarrow> (string, ('s, 'g) world) act" where
  "configured_key_path X E repo remote_name =
     (let key = ''remote.'' @ remote_name @ ''.e2ee-key'' in
      act_then (act_get (\<lambda>w. configured_path X repo key (w_git w))) (\<lambda>path.
      case path of
        Some path \<Rightarrow> act_ret (Inr path)
      | None \<Rightarrow>
          act_then (act_get (\<lambda>w. configured_path X repo ''e2ee.key'' (w_git w))) (\<lambda>path.
          case path of
            Some path \<Rightarrow>
              act_then (act_ret (with_context (''resolve key path '' @ path) (path_absolute E path))) (\<lambda>path.
              act_then (on_git (\<lambda>g. apfst (with_context ''persist clone-time key config'') (set_local_config X repo key path g))) (\<lambda>_.
              act_ret (Inr path)))
          | None \<Rightarrow> act_ret (Inl (err (Msg (''missing Git config '' @ key @ '' (or clone-time e2ee.key)'')))))))"

definition persist_absolute_url ::
    "'g process_ops \<Rightarrow> git_handle \<Rightarrow> string \<Rightarrow> string \<Rightarrow> storage_url \<Rightarrow> (unit, ('s, 'g) world) act" where
  "persist_absolute_url X repo remote_name url storage =
     (let absolute = storage_url_display storage; key = ''remote.'' @ remote_name @ ''.url'' in
      act_then (act_get (\<lambda>w. configured_value X repo key (w_git w))) (\<lambda>configured.
      case configured of
        None \<Rightarrow> act_ret (Inr ())
      | Some configured \<Rightarrow>
          let as_given = ''e2ee::'' @ unwrap_prefix url in
          if configured \<noteq> as_given \<or> configured = absolute then act_ret (Inr ())
          else on_git (\<lambda>g. apfst (with_context ''persist absolute remote URL'') (set_local_config X repo key absolute g))))"

text \<open>\<^verbatim>\<open>run\<close>: \<open>open_storage\<close> is \<^verbatim>\<open>FilesystemStorage::new\<close> or \<^verbatim>\<open>GitStorage::open\<close>, by the kind of URL.\<close>

definition run_helper ::
    "'a repository_prims_scheme \<Rightarrow> (error \<Rightarrow> string) \<Rightarrow> (nat \<Rightarrow> publication_random) \<Rightarrow> 'g process_ops \<Rightarrow> path_env
       \<Rightarrow> (string \<rightharpoonup> string) \<Rightarrow> (storage_url \<Rightarrow> 's \<Rightarrow> 's storage_ops result \<times> 's) \<Rightarrow> string list \<Rightarrow> bytes
       \<Rightarrow> (unit, ('s, 'g) session) act" where
  "run_helper P show_error draws X E env open_storage arguments input =
     act_then (act_ret (case arguments of
         [] \<Rightarrow> Inl (err (Msg ''missing remote name''))
       | [_] \<Rightarrow> Inl (err (Msg ''missing remote URL''))
       | [remote_name, url] \<Rightarrow> Inr (remote_name, url)
       | _ \<Rightarrow> Inl (err (Msg ''unexpected extra argument'')))) (\<lambda>(remote_name, url).
     act_then (act_ret (and_then (from_environment X) (\<lambda>found.
       ok_or found (Msg ''the e2ee remote helper must run inside a Git repository'')))) (\<lambda>handle.
     act_then (on_world (configured_key_path X E handle remote_name)) (\<lambda>key_path.
     act_then (on_world (act_get (\<lambda>w. key_file_read P (file_at E key_path) (w_files w)))) (\<lambda>key.
     act_then (act_ret (storage_url_parse E url)) (\<lambda>storage.
     act_then (on_world (persist_absolute_url X handle remote_name url storage)) (\<lambda>_.
     act_then (act_ret (default_state_dir env)) (\<lambda>state_dir.
     act_then (on_world (on_storage (open_storage storage))) (\<lambda>ops.
     run_protocol P show_error draws \<lparr>er_storage = ops, er_key = key, er_state_dir = state_dir\<rparr>
       (repository_of X handle) remote_name False (input_lines input)))))))))"

end
