(* ===== verification/Remote_Helper_Facts.thy ===== *)
theory Remote_Helper_Facts
  imports Remote_Helper Push_Facts
begin

text \<open>
  What Git can conclude from the helper's replies: a push batch is answered by one status line
  per requested ref, in order and then a blank line, whatever the errors look like; and a ref
  reported \<^verbatim>\<open>ok\<close> is published.
\<close>

section \<open>Text without line feeds\<close>

definition valid_utf8 :: "string \<Rightarrow> bool" where
  "valid_utf8 s = utf8_bytes_ok (map of_char s)"

lemma unat_byte_less: "unat (x :: byte) < 256"
  by (rule order.strict_trans2 [OF unsigned_less]) simp

lemma unat_byte_mod: "unat (x :: byte) mod 256 = unat x"
  using unat_byte_less [of x] by simp

lemma from_utf8_valid: "from_utf8 b = Some s \<Longrightarrow> valid_utf8 s"
  by (auto simp: from_utf8_def valid_utf8_def comp_def unat_byte_mod split: if_splits)

lemma from_utf8_line_feed: "from_utf8 b = Some s \<Longrightarrow> 10 \<notin> set b \<Longrightarrow> line_feed \<notin> set s"
proof
  assume s: "from_utf8 b = Some s" and b: "10 \<notin> set b" and "line_feed \<in> set s"
  then obtain x where x: "x \<in> set b" "char_of (unat x) = line_feed" by (auto simp: from_utf8_def split: if_splits)
  have "unat x = (of_char line_feed :: nat)" using x(2) unat_byte_less [of x] by (metis of_char_of mod_less)
  then have "x = 10" by (simp add: line_feed_def word_unat_eq_iff)
  with b x(1) show False by simp
qed

lemma strip_cr_set: "set (strip_cr s) \<subseteq> set s"
  by (auto simp: strip_cr_def dest: in_set_butlastD)

lemma input_line_no_line_feed: "Inr l \<in> set (input_lines input) \<Longrightarrow> line_feed \<notin> set l"
proof -
  have piece: "10 \<notin> set p" if "p \<in> set (split_on 10 input)" for p using that by (rule split_on_no_sep)
  assume "Inr l \<in> set (input_lines input)"
  then consider (inner) p where "p \<in> set (butlast (split_on 10 input))"
      "and_then (ok_or (from_utf8 p) (Io InvalidData)) (\<lambda>t. Inr (strip_cr t)) = Inr l"
    | (rest) "ok_or (from_utf8 (last (split_on 10 input))) (Io InvalidData) = Inr l"
    unfolding input_lines_def Let_def set_append set_map by (auto split: if_splits)
  then show ?thesis
  proof cases
    case inner
    then obtain t where "from_utf8 p = Some t" "l = strip_cr t" by (auto simp: and_then_eq_Inr ok_or_eq_Inr)
    then show ?thesis using inner(1) from_utf8_line_feed piece strip_cr_set by (metis in_set_butlastD subsetD)
  next
    case rest
    then show ?thesis using from_utf8_line_feed piece by (metis last_in_set ok_or_eq_Inr split_on_not_Nil)
  qed
qed

text \<open>In a valid string every character other than the line feed itself is encoded without its byte.\<close>

lemma utf8_bytes_two:
  assumes "\<not> a < 128" and "a < 224" and "utf8_bytes_ok (a # r)"
  shows "\<exists>b r'. r = b # r' \<and> 128 \<le> b \<and> utf8_bytes_ok r'"
proof -
  obtain b r2 where r: "r = b # r2" using assms(1,3) by (cases r) simp_all
  show ?thesis
  proof (cases "194 \<le> a")
    case True
    then have n: "194 \<le> a \<and> a \<le> 223" using assms(2) by simp
    have "is_continuation b \<and> utf8_bytes_ok r2"
      using assms(3) unfolding r utf8_bytes_ok.simps(2) [of a] list.case if_not_P [OF assms(1)] if_P [OF n] .
    then show ?thesis using r by (simp add: is_continuation_def)
  next
    case False
    then have n: "\<not> (194 \<le> a \<and> a \<le> 223)" "\<not> (224 \<le> a \<and> a \<le> 239)" "\<not> 240 \<le> a" by auto
    show ?thesis
      using assms(3) n(3) unfolding r utf8_bytes_ok.simps(2) [of a] list.case if_not_P [OF assms(1)] if_not_P [OF n(1)] if_not_P [OF n(2)]
      by (simp del: utf8_bytes_ok.simps split: list.splits)
  qed
qed

lemma utf8_bytes_three:
  assumes "\<not> a < 224" and "a < 240" and "utf8_bytes_ok (a # r)"
  shows "\<exists>b c r'. r = b # c # r' \<and> 128 \<le> b \<and> 128 \<le> c \<and> utf8_bytes_ok r'"
proof -
  have n: "\<not> a < 128" "\<not> (194 \<le> a \<and> a \<le> 223)" "224 \<le> a \<and> a \<le> 239" using assms(1,2) by auto
  obtain b r2 where r: "r = b # r2" using assms(3) n(1) by (cases r) simp_all
  obtain c r3 where r2: "r2 = c # r3" using assms(3) n r by (cases r2) simp_all
  have "(if a = 224 then 160 \<le> b \<and> b \<le> 191 else if a = 237 then 128 \<le> b \<and> b \<le> 159 else is_continuation b)
      \<and> is_continuation c \<and> utf8_bytes_ok r3"
    using assms(3) unfolding r r2 utf8_bytes_ok.simps(2) [of a] list.case if_not_P [OF n(1)] if_not_P [OF n(2)] if_P [OF n(3)] .
  then show ?thesis using r r2 by (auto simp: is_continuation_def split: if_splits)
qed

lemma utf8_bytes_four:
  assumes "\<not> a < 240" and "utf8_bytes_ok (a # r)"
  shows "\<exists>b c d r'. r = b # c # d # r' \<and> 128 \<le> b \<and> 128 \<le> c \<and> 128 \<le> d \<and> utf8_bytes_ok r'"
proof -
  have n: "\<not> a < 128" "\<not> (194 \<le> a \<and> a \<le> 223)" "\<not> (224 \<le> a \<and> a \<le> 239)" using assms(1) by auto
  obtain b r2 where r: "r = b # r2" using assms(2) n(1) by (cases r) simp_all
  obtain c r3 where r2: "r2 = c # r3" using assms(2) n r by (cases r2) simp_all
  obtain d r4 where r3: "r3 = d # r4" using assms(2) n r r2 by (cases r3) simp_all
  have "240 \<le> a \<and> a \<le> 244 \<and> (if a = 240 then 144 \<le> b \<and> b \<le> 191 else if a = 244 then 128 \<le> b \<and> b \<le> 143 else is_continuation b)
      \<and> is_continuation c \<and> is_continuation d \<and> utf8_bytes_ok r4"
    using assms(2) unfolding r r2 r3 utf8_bytes_ok.simps(2) [of a] list.case if_not_P [OF n(1)] if_not_P [OF n(2)] if_not_P [OF n(3)] .
  then show ?thesis using r r2 r3 by (auto simp: is_continuation_def split: if_splits)
qed

lemma valid_utf8_Cons:
  assumes "valid_utf8 (c # cs)"
  shows "valid_utf8 (drop (char_width c - 1) cs)" and "\<forall>y \<in> set (take (char_width c - 1) cs). (of_char y :: nat) \<ge> 128"
proof -
  have v: "utf8_bytes_ok (of_char c # map of_char cs)" using assms by (simp add: valid_utf8_def)
  consider (1) "of_char c < (128 :: nat)" | (2) "\<not> of_char c < (128 :: nat)" "of_char c < (224 :: nat)"
    | (3) "\<not> of_char c < (224 :: nat)" "of_char c < (240 :: nat)" | (4) "\<not> of_char c < (240 :: nat)" by linarith
  then have "valid_utf8 (drop (char_width c - 1) cs) \<and> (\<forall>y \<in> set (take (char_width c - 1) cs). (of_char y :: nat) \<ge> 128)"
  proof cases
    case 1
    then show ?thesis using v by (simp add: valid_utf8_def char_width_def)
  next
    case 2
    then have "char_width c = 2" by (simp add: char_width_def)
    then show ?thesis using utf8_bytes_two [OF 2 v] by (auto simp: valid_utf8_def map_eq_Cons_conv)
  next
    case 3
    then have "char_width c = 3" by (simp add: char_width_def)
    then show ?thesis using utf8_bytes_three [OF 3 v] by (auto simp: valid_utf8_def map_eq_Cons_conv numeral_2_eq_2)
  next
    case 4
    then have "char_width c = 4" by (simp add: char_width_def)
    then show ?thesis using utf8_bytes_four [OF 4 v] by (auto simp: valid_utf8_def map_eq_Cons_conv numeral_3_eq_3)
  qed
  then show "valid_utf8 (drop (char_width c - 1) cs)" and "\<forall>y \<in> set (take (char_width c - 1) cs). (of_char y :: nat) \<ge> 128"
    by simp_all
qed

lemma slices_line_feed:
  assumes "valid_utf8 s" and "x \<in> set (utf8_slices s)" and "line_feed \<in> set x"
  shows "x = [line_feed]"
  using assms
proof (induction s rule: utf8_slices.induct)
  case (2 c cs)
  note parts = valid_utf8_Cons [OF "2.prems"(1)]
  have small: "(of_char line_feed :: nat) < 128" by (simp add: line_feed_def)
  show ?case
  proof (cases "x \<in> set (utf8_slices (drop (char_width c - 1) cs))")
    case True
    then show ?thesis using "2.IH" parts(1) "2.prems"(3) by blast
  next
    case False
    then have x: "x = c # take (char_width c - 1) cs" using "2.prems"(2) by simp
    have "line_feed \<notin> set (take (char_width c - 1) cs)" using parts(2) small by fastforce
    then have "c = line_feed" using x "2.prems"(3) by simp
    then show ?thesis using x small by (simp add: char_width_def)
  qed
qed simp

lemma split_slices_line_feed:
  assumes "\<forall>x \<in> set xs. line_feed \<in> set x \<longrightarrow> x = [line_feed]" and "line_feed \<notin> set field"
  shows "\<forall>w \<in> set (split_slices field xs). line_feed \<notin> set w"
  using assms
proof (induction xs arbitrary: field)
  case (Cons x xs)
  have ws: "is_whitespace (code_point [line_feed])" by (simp add: line_feed_def code_point_def is_whitespace_def)
  show ?case
  proof (cases "is_whitespace (code_point x)")
    case True
    have "\<forall>w \<in> set (split_slices [] xs). line_feed \<notin> set w"
      by (rule Cons.IH) (use Cons.prems(1) in \<open>metis list.set_intros(2)\<close>, simp)
    then show ?thesis using Cons.prems(2) True by simp
  next
    case False
    have "line_feed \<notin> set x" using Cons.prems(1) ws False list.set_intros(1) [of x xs] by blast
    then have "line_feed \<notin> set (field @ x)" using Cons.prems(2) by simp
    moreover have "\<forall>y \<in> set xs. line_feed \<in> set y \<longrightarrow> y = [line_feed]" using Cons.prems(1) by (metis list.set_intros(2))
    ultimately have "\<forall>w \<in> set (split_slices (field @ x) xs). line_feed \<notin> set w" by (rule Cons.IH [rotated])
    then show ?thesis by (simp add: False)
  qed
qed simp

lemma join_with_line_feed: "\<forall>w \<in> set ws. line_feed \<notin> set w \<Longrightarrow> line_feed \<notin> set sep \<Longrightarrow> line_feed \<notin> set (join_with sep ws)"
  by (induction sep ws rule: join_with.induct) auto

lemma single_line_line_feed:
  assumes "valid_utf8 (show_error e)"
  shows "line_feed \<notin> set (single_line show_error e)"
  unfolding single_line_def
proof (rule join_with_line_feed)
  show "\<forall>w \<in> set (split_whitespace (show_error e)). line_feed \<notin> set w"
    unfolding split_whitespace_def
    by (rule split_slices_line_feed) (use slices_line_feed [OF assms] in auto)
qed (simp add: line_feed_def)

lemma git_status_line_feed: "git_status c = Some t \<Longrightarrow> line_feed \<notin> set t"
  by (cases c) (auto simp: line_feed_def)

lemma push_status_line_feed:
  assumes "valid_utf8 (show_error e)"
  shows "line_feed \<notin> set (push_status show_error e)"
proof (cases "push_rejection e")
  case None
  then show ?thesis using single_line_line_feed [of show_error e] assms by (simp add: push_status_def line_feed_def)
next
  case (Some t)
  then have "\<exists>c. git_status c = Some t" by (auto simp: push_rejection_def split: list.splits)
  then show ?thesis using Some git_status_line_feed by (auto simp: push_status_def)
qed

section \<open>The reply to a push batch\<close>

definition error_line :: "(error \<Rightarrow> string) \<Rightarrow> string \<Rightarrow> ref_push \<Rightarrow> error \<Rightarrow> string" where
  "error_line show_error remote_name p e = ''error '' @ rp_destination p @ '' '' @
     (if downcast (\<lambda>c. c = ReadOnlyDevice) e
      then ''this device is read-only for '' @ remote_name @ ''; ask an administrator for the write role''
      else push_status show_error e)"

definition status_line :: "(error \<Rightarrow> string) \<Rightarrow> string \<Rightarrow> string result \<Rightarrow> ref_push \<Rightarrow> ref_outcome \<Rightarrow> string" where
  "status_line show_error remote_name publication p result = (case result of
     Accepted \<Rightarrow> (case publication of Inr _ \<Rightarrow> ''ok '' @ rp_destination p | Inl e \<Rightarrow> error_line show_error remote_name p e)
   | Rejected e \<Rightarrow> error_line show_error remote_name p e)"

definition status_lines :: "(error \<Rightarrow> string) \<Rightarrow> string \<Rightarrow> push_outcome result \<Rightarrow> ref_push list \<Rightarrow> string list" where
  "status_lines show_error remote_name r pushes = (case r of
     Inl e \<Rightarrow> map (\<lambda>p. error_line show_error remote_name p e) pushes
   | Inr out \<Rightarrow> map2 (status_line show_error remote_name (pu_publication out)) pushes (pu_refs out))"

definition unlines :: "string list \<Rightarrow> string" where
  "unlines ls = concat (map (\<lambda>l. l @ [line_feed]) ls)"

lemma unlines_simps [simp]: "unlines [] = []" "unlines (l # ls) = l @ line_feed # unlines ls" "unlines (xs @ ys) = unlines xs @ unlines ys"
  by (simp_all add: unlines_def)

lemma split_unlines: "\<forall>l \<in> set ls. line_feed \<notin> set l \<Longrightarrow> split_on line_feed (unlines ls) = ls @ [[]]"
  by (induction ls) (simp_all add: split_on_append)

lemma report_push_error_run:
  "report_push_error show_error remote_name (rp_destination p) e S
     = (Inr (), S\<lparr>se_output := se_output S @ error_line show_error remote_name p e @ [line_feed]\<rparr>)"
  by (simp add: report_push_error_def error_line_def writeln_def)

lemma report_failure_run:
  "report_failure show_error remote_name e ps S
     = (Inr (), S\<lparr>se_output := se_output S @ unlines (map (\<lambda>p. error_line show_error remote_name p e) ps)\<rparr>)"
  by (induction ps arbitrary: S) (simp_all add: act_ret_def act_then_run [OF report_push_error_run])

lemma report_outcomes_run:
  "report_outcomes show_error remote_name publication ps rs S
     = (Inr (), S\<lparr>se_output := se_output S @ unlines (map2 (status_line show_error remote_name publication) ps rs)\<rparr>)"
proof (induction show_error remote_name publication ps rs arbitrary: S rule: report_outcomes.induct)
  case (1 show_error remote_name publication p ps r rs)
  have head: "(case r of
         Accepted \<Rightarrow> (case publication of
             Inr _ \<Rightarrow> writeln (''ok '' @ rp_destination p)
           | Inl e \<Rightarrow> report_push_error show_error remote_name (rp_destination p) e)
       | Rejected e \<Rightarrow> report_push_error show_error remote_name (rp_destination p) e) S
     = (Inr (), S\<lparr>se_output := se_output S @ status_line show_error remote_name publication p r @ [line_feed]\<rparr>)"
    by (simp add: status_line_def report_push_error_run writeln_def split: ref_outcome.split sum.split)
  show ?case
    by (simp only: report_outcomes.simps act_then_def head prod.case sum.case 1) simp
qed (simp_all add: act_ret_def)

lemma process_push_batch_ok:
  assumes "process_push_batch P show_error draws R repo remote_name first lines dry_run S = (Inr rest, S')"
  obtains commands pushes r w where
    "gather_batch [first] lines = Inr (commands, rest)" "parse_pushes commands = Inr pushes"
    "push P R repo (draws (se_pushes S)) pushes (if dry_run then DryRun else Publish) (se_world S) = (r, w)"
    "S' = S\<lparr>se_world := w, se_pushes := Suc (se_pushes S),
       se_output := se_output S @ unlines (status_lines show_error remote_name r pushes @ [[]])\<rparr>"
proof -
  from assms obtain commands pushes where a: "gather_batch [first] lines = Inr (commands, rest)" "parse_pushes commands = Inr pushes"
    by (auto simp: process_push_batch_def Let_def act_simps split: prod.splits)
  obtain r w where p: "push P R repo (draws (se_pushes S)) pushes (if dry_run then DryRun else Publish) (se_world S) = (r, w)"
    by (rule prod.exhaust)
  have "S' = S\<lparr>se_world := w, se_pushes := Suc (se_pushes S),
       se_output := se_output S @ unlines (status_lines show_error remote_name r pushes @ [[]])\<rparr>"
    using assms a p by (cases r)
      (auto simp: process_push_batch_def Let_def act_simps session_push_def report_failure_run report_outcomes_run writeln_def
        status_lines_def)
  with a p that show thesis by blast
qed

lemma push_outcome_count:
  assumes "push P R repo rnd pushes mode w = (Inr out, w')"
  shows "length (pu_refs out) = length pushes"
proof -
  have "\<exists>g parent refs packs. push_loop (gr_ops repo) g parent {} parent [] [] pushes = (refs, packs, pu_refs out)"
    using assms unfolding push_def Let_def
    by (fastforce simp: act_simps split: if_splits prod.splits)
  then show ?thesis using push_loop_outcomes by fastforce
qed

lemma gather_batch_commands:
  "gather_batch commands lines = Inr (commands', rest) \<Longrightarrow> Inr ` set commands' \<subseteq> Inr ` set commands \<union> set lines"
  by (induction commands lines arbitrary: commands' rule: gather_batch.induct)
    (fastforce simp: bail_if_eq_Inr split: if_splits)+

lemma parse_push_destination: "parse_push c = Inr p \<Longrightarrow> set (rp_destination p) \<subseteq> set c"
  by (auto simp: parse_push_def and_then_eq_Inr ok_or_eq_Inr strip_prefix_Some split_once_Some split: option.splits)

lemma parse_pushes_destination:
  "parse_pushes cs = Inr ps \<Longrightarrow> p \<in> set ps \<Longrightarrow> \<exists>c \<in> set cs. set (rp_destination p) \<subseteq> set c"
  by (induction cs arbitrary: ps) (auto simp: and_then_eq_Inr dest!: parse_push_destination)

lemma error_line_line_feed:
  "line_feed \<notin> set (rp_destination p) \<Longrightarrow> line_feed \<notin> set remote_name \<Longrightarrow> valid_utf8 (show_error e) \<Longrightarrow>
     line_feed \<notin> set (error_line show_error remote_name p e)"
  using push_status_line_feed [of show_error e] by (simp add: error_line_def line_feed_def)

lemma status_lines_line_feed:
  assumes "\<forall>p \<in> set pushes. line_feed \<notin> set (rp_destination p)" and "line_feed \<notin> set remote_name" and "\<forall>e. valid_utf8 (show_error e)"
  shows "\<forall>l \<in> set (status_lines show_error remote_name r pushes). line_feed \<notin> set l"
proof -
  have "line_feed \<notin> set (error_line show_error remote_name p e)" if "p \<in> set pushes" for p e
    using assms that by (intro error_line_line_feed) auto
  moreover from this have "line_feed \<notin> set (status_line show_error remote_name publication p x)" if "p \<in> set pushes" for publication p x
    using assms(1) that by (cases x; cases publication) (simp_all add: status_line_def line_feed_def)
  ultimately show ?thesis
    by (auto simp: status_lines_def dest: set_zip_leftD split: sum.splits)
qed

lemma status_lines_nth:
  assumes count: "\<forall>out. r = Inr out \<longrightarrow> length (pu_refs out) = length pushes" and k: "k < length pushes"
  shows "if \<exists>out i. r = Inr out \<and> pu_refs out ! k = Accepted \<and> pu_publication out = Inr i
     then status_lines show_error remote_name r pushes ! k = ''ok '' @ rp_destination (pushes ! k)
     else \<exists>m. status_lines show_error remote_name r pushes ! k = ''error '' @ rp_destination (pushes ! k) @ '' '' @ m"
proof (cases r)
  case (Inl e)
  then show ?thesis using k by (simp add: status_lines_def error_line_def)
next
  case (Inr out)
  then have "status_lines show_error remote_name r pushes ! k
      = status_line show_error remote_name (pu_publication out) (pushes ! k) (pu_refs out ! k)"
    using k count by (simp add: status_lines_def)
  then show ?thesis
    using Inr by (cases "pu_refs out ! k"; cases "pu_publication out") (simp_all add: status_line_def error_line_def)
qed

lemma reply_lines:
  assumes a: "gather_batch [first] lines = Inr (commands, rest)" "parse_pushes commands = Inr pushes"
    and input: "set (Inr first # lines) \<subseteq> set (input_lines input)"
    and name: "line_feed \<notin> set remote_name" and utf8: "\<forall>e. valid_utf8 (show_error e)"
  shows "split_on line_feed (unlines (status_lines show_error remote_name r pushes @ [[]]))
     = status_lines show_error remote_name r pushes @ [[], []]"
proof -
  have "line_feed \<notin> set c" if "c \<in> set commands" for c
  proof -
    from that have "Inr c \<in> Inr ` set [first] \<union> set lines" using gather_batch_commands [OF a(1)] by (meson imageI subsetD)
    then have "Inr c \<in> set (input_lines input)" using input by auto
    then show ?thesis by (rule input_line_no_line_feed)
  qed
  then have "\<forall>p \<in> set pushes. line_feed \<notin> set (rp_destination p)" using parse_pushes_destination [OF a(2)] by blast
  from status_lines_line_feed [OF this name utf8]
  show ?thesis using split_unlines [of "status_lines show_error remote_name r pushes @ [[]]"] by simp
qed

text \<open>C38. A push batch is answered in the form Git parses: when the helper has processed a batch, what it
  wrote is one line for each requested ref, in the order of the requests, and a blank line. A
  line is \<^verbatim>\<open>ok\<close> and the ref exactly when that change was accepted and the publication
  succeeded, and otherwise \<^verbatim>\<open>error\<close>, the ref and a status. No ref name, remote name or error
  text can break a line: the input lines come from the helper's standard input, and errors are
  rendered as UTF-8.\<close>

theorem push_reply_is_framed:
  assumes run: "process_push_batch P show_error draws R repo remote_name first lines dry_run S = (Inr rest, S')"
    and input: "set (Inr first # lines) \<subseteq> set (input_lines input)"
    and name: "line_feed \<notin> set remote_name" and utf8: "\<forall>e. valid_utf8 (show_error e)"
  shows "\<exists>commands pushes r statuses. gather_batch [first] lines = Inr (commands, rest) \<and> parse_pushes commands = Inr pushes
    \<and> push P R repo (draws (se_pushes S)) pushes (if dry_run then DryRun else Publish) (se_world S) = (r, se_world S')
    \<and> split_on line_feed (drop (length (se_output S)) (se_output S')) = statuses @ [[], []]
    \<and> length statuses = length pushes
    \<and> (\<forall>k < length pushes. if \<exists>out i. r = Inr out \<and> pu_refs out ! k = Accepted \<and> pu_publication out = Inr i
         then statuses ! k = ''ok '' @ rp_destination (pushes ! k)
         else \<exists>m. statuses ! k = ''error '' @ rp_destination (pushes ! k) @ '' '' @ m)"
proof (rule process_push_batch_ok [OF run])
  fix commands pushes r w
  assume a: "gather_batch [first] lines = Inr (commands, rest)" "parse_pushes commands = Inr pushes"
    and p: "push P R repo (draws (se_pushes S)) pushes (if dry_run then DryRun else Publish) (se_world S) = (r, w)"
    and S': "S' = S\<lparr>se_world := w, se_pushes := Suc (se_pushes S),
       se_output := se_output S @ unlines (status_lines show_error remote_name r pushes @ [[]])\<rparr>"
  let ?st = "status_lines show_error remote_name r pushes"
  have "split_on line_feed (unlines (?st @ [[]])) = ?st @ [[], []]" by (rule reply_lines [OF a input name utf8])
  then have split: "split_on line_feed (drop (length (se_output S)) (se_output S')) = ?st @ [[], []]" using S' by simp
  have count: "\<forall>out. r = Inr out \<longrightarrow> length (pu_refs out) = length pushes" using p push_outcome_count by blast
  then have len: "length ?st = length pushes" by (auto simp: status_lines_def split: sum.splits)
  have each: "if \<exists>out i. r = Inr out \<and> pu_refs out ! k = Accepted \<and> pu_publication out = Inr i
         then ?st ! k = ''ok '' @ rp_destination (pushes ! k)
         else \<exists>m. ?st ! k = ''error '' @ rp_destination (pushes ! k) @ '' '' @ m" if "k < length pushes" for k
    using status_lines_nth [OF count that] .
  have "push P R repo (draws (se_pushes S)) pushes (if dry_run then DryRun else Publish) (se_world S) = (r, se_world S')"
    using p S' by simp
  note push = this
  show ?thesis
    by (rule exI [of _ commands], rule exI [of _ pushes], rule exI [of _ r], rule exI [of _ ?st])
      (intro conjI allI impI a push split len each)
qed

section \<open>What \<^verbatim>\<open>ok\<close> means\<close>

lemma find_nth:
  assumes "k < length xs" and "P (xs ! k)" and "\<forall>x \<in> set (take k xs). \<not> P x"
  shows "find P xs = Some (xs ! k)"
  using assms
proof (induction xs arbitrary: k)
  case (Cons x xs)
  then show ?case by (cases k) auto
qed simp

lemma accepted_push:
  assumes loop: "push_loop G g parent {} parent [] [] pushes = (refs, packs, outs)" and wf: "bt_wf parent"
    and k: "k < length pushes" "outs ! k = Accepted"
  obtains x where "first_push pushes (rp_destination (pushes ! k)) = Some (pushes ! k)"
    "preflight_ref_change G g parent (pushes ! k) = Inr x" "bt_get refs (rp_destination (pushes ! k)) = x"
proof -
  let ?d = "rp_destination (pushes ! k)"
  from push_loop_outcomes [OF loop] k have new: "?d \<notin> set (map rp_destination (take k pushes))"
    and ok: "\<exists>x. preflight_ref_change G g parent (pushes ! k) = Inr x"
    by (auto split: if_splits sum.splits)
  from new k have first: "first_push pushes ?d = Some (pushes ! k)" unfolding first_push_def by (intro find_nth) (auto simp: image_iff)
  from ok obtain x where x: "preflight_ref_change G g parent (pushes ! k) = Inr x" ..
  have "bt_get refs ?d = x" using push_batch(2) [OF wf loop] first x by (simp add: batch_ref_def)
  from that [OF first x this] show thesis .
qed

lemma ok_line_accepted:
  assumes line: "''ok '' @ d \<in> set (status_lines show_error remote_name r pushes)"
    and count: "\<forall>out. r = Inr out \<longrightarrow> length (pu_refs out) = length pushes"
  obtains out i k where "r = Inr out" "pu_publication out = Inr i" "k < length pushes" "pu_refs out ! k = Accepted"
    "d = rp_destination (pushes ! k)"
proof -
  have "length (status_lines show_error remote_name r pushes) = length pushes"
    using count by (auto simp: status_lines_def split: sum.splits)
  with line obtain k where k: "k < length pushes" "status_lines show_error remote_name r pushes ! k = ''ok '' @ d"
    by (auto simp: in_set_conv_nth)
  from status_lines_nth [OF count k(1), where show_error = show_error and remote_name = remote_name] k(2)
  have "(\<exists>out i. r = Inr out \<and> pu_refs out ! k = Accepted \<and> pu_publication out = Inr i) \<and> d = rp_destination (pushes ! k)"
    by (auto split: if_splits)
  with k(1) that show thesis by blast
qed

lemma published_batch:
  assumes laws: "library_laws P" and rnd: "sound_random P rnd"
    and R: "er_storage R = directory_storage P io (storage_dir dir)"
    and run: "push P R repo rnd pushes Publish w = (Inr out, w')" and pub: "pu_publication out = Inr i"
    and wf: "\<forall>chain. current_chain P R (w_storage w) = Inr chain \<longrightarrow> bt_wf (mf_refs (os_manifest (hd chain)))"
    and k: "k < length pushes" "pu_refs out ! k = Accepted"
  shows "\<exists>x current ps. first_push pushes (rp_destination (pushes ! k)) = Some (pushes ! k)
    \<and> current_chain P R (w_storage w) = Inr (current # ps)
    \<and> preflight_ref_change (gr_ops repo) (w_git w) (mf_refs (os_manifest current)) (pushes ! k) = Inr x
    \<and> (w_storage w' = w_storage w \<and> bt_get (mf_refs (os_manifest current)) (rp_destination (pushes ! k)) = x
       \<or> (w_storage w (object_path (storage_dir dir) Manifest i) = None \<longrightarrow>
          (\<exists>m. bt_get (mf_refs m) (rp_destination (pushes ! k)) = x
            \<and> floor_read P (lock_floor R) (w_files w') = Inr (Some (floor_at i m))
            \<and> (\<forall>R' v. er_storage R' = er_storage R \<and> v \<in> set (active_readers (os_policy current))
                 \<and> key_public_device P (er_key R') = Inr (dv_public v)
                 \<and> (\<forall>d \<in> set (mf_new_packs m). pk_id d \<notin> set (chain_pack_ids (current # ps))
                      \<and> w_storage w (object_path (storage_dir dir) Pack (pk_id d)) = None) \<longrightarrow>
                 (\<exists>s. current_chain P R' (w_storage w') = Inr (s # current # ps) \<and> os_manifest s = m)))))"
proof (rule push_ok [OF run R])
  fix current ps f device refs packs
  assume chain: "current_chain P R (w_storage w) = Inr (current # ps)"
    and f: "floor_read P (lock_floor R) (w_files w) = Inr f" "validate_pinned_head (current # ps) f = Inr ()"
    and loop: "push_loop (gr_ops repo) (w_git w) (mf_refs (os_manifest current)) {} (mf_refs (os_manifest current)) [] [] pushes
       = (refs, packs, pu_refs out)"
    and ends: "if Publish = DryRun \<or> refs = mf_refs (os_manifest current)
     then pu_publication out = Inr (os_id current) \<and>
       (\<exists>fs. floor_advance P (lock_floor R) (floor_at (os_id current) (os_manifest current)) (w_files w) = Inr fs
         \<and> w' = w\<lparr>w_files := fs\<rparr>)
     else publish_refs P R repo rnd (lock_floor R) current refs packs w = (pu_publication out, w')"
  have "bt_wf (mf_refs (os_manifest current))" using wf chain by fastforce
  from accepted_push [OF loop this k] obtain x where
    x: "first_push pushes (rp_destination (pushes ! k)) = Some (pushes ! k)"
      "preflight_ref_change (gr_ops repo) (w_git w) (mf_refs (os_manifest current)) (pushes ! k) = Inr x"
      "bt_get refs (rp_destination (pushes ! k)) = x" .
  show ?thesis
  proof (rule exI [of _ x], rule exI [of _ current], rule exI [of _ ps], intro conjI x(1,2) chain,
      cases "refs = mf_refs (os_manifest current)", goal_cases)
    case 1
    then have "w_storage w' = w_storage w" using ends by auto
    with x(3) 1 show ?case by simp
  next
    case 2
    then have publish: "publish_refs P R repo rnd (lock_floor R) current refs packs w = (Inr i, w')" using ends pub by simp
    show ?case
    proof (rule disjI2, rule impI)
      assume "w_storage w (object_path (storage_dir dir) Manifest i) = None"
      from publication_effect [OF laws rnd R chain f publish this] x(3)
      show "\<exists>m. bt_get (mf_refs m) (rp_destination (pushes ! k)) = x
            \<and> floor_read P (lock_floor R) (w_files w') = Inr (Some (floor_at i m))
            \<and> (\<forall>R' v. er_storage R' = er_storage R \<and> v \<in> set (active_readers (os_policy current))
                 \<and> key_public_device P (er_key R') = Inr (dv_public v)
                 \<and> (\<forall>d \<in> set (mf_new_packs m). pk_id d \<notin> set (chain_pack_ids (current # ps))
                      \<and> w_storage w (object_path (storage_dir dir) Pack (pk_id d)) = None) \<longrightarrow>
                 (\<exists>s. current_chain P R' (w_storage w') = Inr (s # current # ps) \<and> os_manifest s = m))"
        by blast
    qed
  qed
qed

text \<open>C6. A ref reported \<^verbatim>\<open>ok\<close> is published: on a directory storage, when the reply to a push batch (outside a
  dry run) has the line \<^verbatim>\<open>ok d\<close>, then \<^verbatim>\<open>d\<close> was requested, its first request passed the preflight
  against the head this machine had pinned with the value \<open>x\<close> (an object, or nothing for a
  deletion), and either that head already had this value and the storage is unchanged, or the
  machine is pinned to a new head whose refs give \<^verbatim>\<open>d\<close> the value \<open>x\<close>, which every active reader
  obtains from the storage in front of the old chain.\<close>

theorem ok_report_means_published:
  assumes laws: "library_laws P" and rnd: "\<forall>k. sound_random P (draws k)"
    and R: "er_storage R = directory_storage P io (storage_dir dir)"
    and run: "process_push_batch P show_error draws R repo remote_name first lines False S = (Inr rest, S')"
    and input: "set (Inr first # lines) \<subseteq> set (input_lines input)"
    and name: "line_feed \<notin> set remote_name" and utf8: "\<forall>e. valid_utf8 (show_error e)"
    and maps: "\<forall>chain. current_chain P R (w_storage (se_world S)) = Inr chain \<longrightarrow> bt_wf (mf_refs (os_manifest (hd chain)))"
    and ok: "''ok '' @ d \<in> set (split_on line_feed (drop (length (se_output S)) (se_output S')))"
  shows "\<exists>commands pushes p x out i current ps. gather_batch [first] lines = Inr (commands, rest)
    \<and> parse_pushes commands = Inr pushes \<and> first_push pushes d = Some p
    \<and> push P R repo (draws (se_pushes S)) pushes Publish (se_world S) = (Inr out, se_world S') \<and> pu_publication out = Inr i
    \<and> current_chain P R (w_storage (se_world S)) = Inr (current # ps)
    \<and> preflight_ref_change (gr_ops repo) (w_git (se_world S)) (mf_refs (os_manifest current)) p = Inr x
    \<and> (w_storage (se_world S') = w_storage (se_world S) \<and> bt_get (mf_refs (os_manifest current)) d = x
       \<or> (w_storage (se_world S) (object_path (storage_dir dir) Manifest i) = None \<longrightarrow>
          (\<exists>m. bt_get (mf_refs m) d = x \<and> floor_read P (lock_floor R) (w_files (se_world S')) = Inr (Some (floor_at i m))
            \<and> (\<forall>R' v. er_storage R' = er_storage R \<and> v \<in> set (active_readers (os_policy current))
                 \<and> key_public_device P (er_key R') = Inr (dv_public v)
                 \<and> (\<forall>d \<in> set (mf_new_packs m). pk_id d \<notin> set (chain_pack_ids (current # ps))
                      \<and> w_storage (se_world S) (object_path (storage_dir dir) Pack (pk_id d)) = None) \<longrightarrow>
                 (\<exists>s. current_chain P R' (w_storage (se_world S')) = Inr (s # current # ps) \<and> os_manifest s = m)))))"
proof (rule process_push_batch_ok [OF run])
  fix commands pushes r w
  assume a: "gather_batch [first] lines = Inr (commands, rest)" "parse_pushes commands = Inr pushes"
    and p: "push P R repo (draws (se_pushes S)) pushes (if False then DryRun else Publish) (se_world S) = (r, w)"
    and S': "S' = S\<lparr>se_world := w, se_pushes := Suc (se_pushes S),
       se_output := se_output S @ unlines (status_lines show_error remote_name r pushes @ [[]])\<rparr>"
  have "split_on line_feed (drop (length (se_output S)) (se_output S')) = status_lines show_error remote_name r pushes @ [[], []]"
    using reply_lines [OF a input name utf8] S' by simp
  with ok have line: "''ok '' @ d \<in> set (status_lines show_error remote_name r pushes)" by simp
  have count: "\<forall>out. r = Inr out \<longrightarrow> length (pu_refs out) = length pushes" using p push_outcome_count by blast
  from ok_line_accepted [OF line count] obtain out i k where
    r: "r = Inr out" and i: "pu_publication out = Inr i" and k: "k < length pushes" "pu_refs out ! k = Accepted"
    and d: "d = rp_destination (pushes ! k)" by metis
  have push: "push P R repo (draws (se_pushes S)) pushes Publish (se_world S) = (Inr out, se_world S')" using p r S' by simp
  have rnd': "sound_random P (draws (se_pushes S))" using rnd by blast
  from published_batch [OF laws rnd' R push i maps k, folded d] show ?thesis
  proof (elim exE, goal_cases)
    case (1 x current ps)
    then show ?case
      by (intro exI [of _ commands] exI [of _ pushes] exI [of _ "pushes ! k"] exI [of _ x] exI [of _ out] exI [of _ i] exI [of _ current] exI [of _ ps])
        (simp only: a push i simp_thms)
  qed
qed

end
