(* ===== verification/Command_Line.thy ===== *)
theory Command_Line
  imports Remote_Helper Recovery
begin

text \<open>
  \<^verbatim>\<open>src/main.rs\<close>: the administration tool. Its commands are those \<^verbatim>\<open>clap\<close> hands to \<^verbatim>\<open>main\<close> after parsing
  the arguments; \<^verbatim>\<open>println!\<close> is \<open>writeln\<close>. The secrets a new key is made of, what a publication
  draws and the scratch repository of recovery are arguments, the environment (variables, paths,
  the host name, directory creation) a record. Key files live among the files of the world.
\<close>

section \<open>Data\<close>

datatype device_role = ReadRole | WriteRole | AdminRole

fun roles_of_role :: "device_role \<Rightarrow> device_roles" where
  "roles_of_role ReadRole = roles_reader"
| "roles_of_role WriteRole = roles_collaborator"
| "roles_of_role AdminRole = roles_owner"

datatype command =
    Keygen "string option" "string option"
  | DeviceExport string string
  | Init string "string option" string "string option"
  | Verify string "string option"
  | DeviceAdd string string string device_role "string option"
  | DeviceRevoke string string "string option"
  | DeviceList string "string option"
  | Recover string "string option" "string option" recovery_options

record target =
  tg_storage :: storage_url
  tg_key :: string

record cli_env =
  ce_variables :: "string \<rightharpoonup> string"
  ce_paths :: path_env
  ce_hostname :: "(bool \<times> bytes) result"
  ce_create_dir_all :: "string \<Rightarrow> unit result"

record cli_random =
  cr_signing :: bytes
  cr_wrapping :: bytes
  cr_publication :: publication_random

text \<open>What the tool is built from: the primitives, git, the environment, the storage opener and what is
  drawn.\<close>

record ('s, 'g) cli =
  cl_process :: "'g process_ops"
  cl_env :: cli_env
  cl_open_storage :: "storage_url \<Rightarrow> 's \<Rightarrow> 's storage_ops result \<times> 's"
  cl_random :: cli_random
  cl_scratch :: "'g result"
  cl_show_error :: "error \<Rightarrow> string"

section \<open>Targets\<close>

definition target_resolve ::
    "'g process_ops \<Rightarrow> path_env \<Rightarrow> string \<Rightarrow> string option \<Rightarrow> git_handle option \<Rightarrow> 'g \<Rightarrow> target result" where
  "target_resolve X E target key repository g =
     and_then (case repository of
         Some repo \<Rightarrow> if \<not> starts_with target ''e2ee::'' then git_config X repo (''remote.'' @ target @ ''.url'') False g else Inr None
       | None \<Rightarrow> Inr None) (\<lambda>configured.
     and_then (case (configured, repository) of
         (Some url, Some repo) \<Rightarrow>
           if starts_with url ''e2ee::'' then
             and_then (git_config X repo (''remote.'' @ target @ ''.e2ee-key'') True g) (\<lambda>key.
             Inr (url, key))
           else Inl (err (Msg (''Git remote '' @ target @ '' is not an e2ee:: remote ('' @ url @ '')'')))
       | (Some url, None) \<Rightarrow> Inl (err (Msg (''Git remote '' @ target @ '' is not an e2ee:: remote ('' @ url @ '')'')))
       | (None, _) \<Rightarrow>
           if starts_with target ''e2ee::'' \<or> CHR ''/'' \<in> set target \<or> CHR '':'' \<in> set target then Inr (target, None)
           else Inl (err (Msg (''no Git remote named '' @ target @ ''; give a storage URL such as e2ee::https://host/you/repo.git'')))) (\<lambda>(url, configured_key).
     and_then (ok_or (case key of Some k \<Rightarrow> Some k | None \<Rightarrow> configured_key)
       (Msg (''no key configured for '' @ target @ ''; pass --key <path>''))) (\<lambda>key.
     and_then (storage_url_parse E url) (\<lambda>storage.
     Inr \<lparr>tg_storage = storage, tg_key = key\<rparr>))))"

text \<open>The macro \<^verbatim>\<open>with_repository!\<close>.\<close>

definition with_repository ::
    "'a prims_scheme \<Rightarrow> ('s, 'g) cli \<Rightarrow> target \<Rightarrow> ('s encrypted_repository \<Rightarrow> ('b, ('s, 'g) world) act) \<Rightarrow> ('b, ('s, 'g) world) act" where
  "with_repository P C target body =
     act_then (act_get (\<lambda>w. key_file_read P (file_at (ce_paths (cl_env C)) (tg_key target)) (w_files w))) (\<lambda>key.
     act_then (act_ret (default_state_dir (ce_variables (cl_env C)))) (\<lambda>state_dir.
     act_then (on_storage (cl_open_storage C (tg_storage target))) (\<lambda>ops.
     body \<lparr>er_storage = ops, er_key = key, er_state_dir = state_dir\<rparr>)))"

definition resolve_in_environment :: "('s, 'g) cli \<Rightarrow> string \<Rightarrow> string option \<Rightarrow> (target, ('s, 'g) world) act" where
  "resolve_in_environment C target key =
     act_then (act_ret (from_environment (cl_process C))) (\<lambda>repository.
     act_get (\<lambda>w. target_resolve (cl_process C) (ce_paths (cl_env C)) target key repository (w_git w)))"

section \<open>Helpers\<close>

definition default_key_path :: "cli_env \<Rightarrow> string \<Rightarrow> string result" where
  "default_key_path V repository_root =
     (let home = and_then (ok_or (ce_variables V ''HOME'') (Msg ''HOME is unset and XDG_CONFIG_HOME is unset'')) (\<lambda>home.
            Inr (path_push home ''.config'')) in
      and_then (case ce_variables V ''XDG_CONFIG_HOME'' of
          Some path \<Rightarrow> if path \<noteq> [] then Inr path else home
        | None \<Rightarrow> home) (\<lambda>config_home.
      let directory = path_push config_home ''git-e2ee/keys'' in
      and_then (with_context (''create '' @ directory) (ce_create_dir_all V directory)) (\<lambda>_.
      Inr (path_push directory (repository_root @ ''.json'')))))"

definition default_owner_label :: "cli_env \<Rightarrow> string" where
  "default_owner_label V = (case ce_hostname V of
     Inl _ \<Rightarrow> ''owner''
   | Inr (success, stdout) \<Rightarrow>
       if \<not> success then ''owner''
       else (case from_utf8 stdout of
           None \<Rightarrow> ''owner''
         | Some hostname \<Rightarrow> if is_ok (validate_device_label (trim hostname)) then trim hostname else ''owner''))"

definition role_name :: "device_roles \<Rightarrow> string" where
  "role_name roles =
     (if dr_administrator roles then ''admin'' else if dr_writer roles then ''write''
      else if dr_reader roles then ''read'' else ''none'')"

definition option_line :: "string \<Rightarrow> string option \<Rightarrow> string list" where
  "option_line label x = (case x of Some t \<Rightarrow> [label @ t] | None \<Rightarrow> [])"

definition format_recovery_report :: "recovery_report \<Rightarrow> string" where
  "format_recovery_report report = join_with [line_feed] (
     [''storage head: '' @ class_name (rr_classification report) @ '' ('' @ rr_reason report @ '')'']
     @ option_line ''head manifest: '' (rr_head_id report)
     @ option_line (if class_name (rr_classification report) = ''invalid'' then ''claimed signer (signature not verified): ''
         else ''verified signer: '') (rr_claimed_signer report)
     @ (case (rr_floor_id report, rr_floor_generation report) of
          (Some floor, Some generation) \<Rightarrow> [''continuity floor: '' @ floor @ '' (generation '' @ show_nat (unat generation) @ '')'']
        | _ \<Rightarrow> [''continuity floor: unavailable; freshness and fork identity are unverified''])
     @ map (\<lambda>c. ''candidate: '' @ ra_manifest_id c @ '' generation='' @ show_nat (unat (ra_generation c)) @ '' outer=''
         @ (case ra_outer_commit c of Some commit \<Rightarrow> commit | None \<Rightarrow> ''directory backend'')
         @ '' verified-signer='' @ ra_verified_signer c) (rr_candidates report)
     @ map (\<lambda>replay. ''replay: '' @ replay) (rr_replays report)
     @ (if rr_conflict report then [''conflict: authenticated descendants form a fork''] else [])
     @ option_line ''default base: '' (rr_default_base report)
     @ option_line ''warning: '' (rr_warning report)
     @ option_line ''recovery refused: '' (rr_blocked_reason report)
     @ option_line ''published recovery manifest: '' (rr_published_manifest report))"

definition device_line :: "string \<Rightarrow> device_record \<Rightarrow> string" where
  "device_line own_id device = (if dv_id device = own_id then ''* '' else ''  '') @ dv_id device @ ''  '' @ dv_label device
     @ ''  role='' @ role_name (dv_roles device) @ ''  status='' @ (if dv_active device then ''active'' else ''revoked'')"

fun write_devices :: "string \<Rightarrow> device_record list \<Rightarrow> (unit, ('s, 'g) session) act" where
  "write_devices own_id [] = act_ret (Inr ())"
| "write_devices own_id (device # devices) =
     act_then (writeln (device_line own_id device)) (\<lambda>_.
     write_devices own_id devices)"

section \<open>Commands\<close>

definition command_keygen ::
    "'a prims_scheme \<Rightarrow> ('s, 'g) cli \<Rightarrow> string option \<Rightarrow> string option \<Rightarrow> (unit, ('s, 'g) session) act" where
  "command_keygen P C output repository_root =
     (let signing = cr_signing (cl_random C); wrapping = cr_wrapping (cl_random C) in
      act_then (act_ret (case repository_root of
          Some r \<Rightarrow> generate_for_repository P r signing wrapping
        | None \<Rightarrow> Inr (key_file_generate P signing wrapping))) (\<lambda>key.
      act_then (act_ret (case output of
          Some path \<Rightarrow> Inr path
        | None \<Rightarrow> default_key_path (cl_env C) (kf_repository_root key))) (\<lambda>output.
      act_then (on_world (on_files (key_file_write_new P key (file_at (ce_paths (cl_env C)) output)))) (\<lambda>_.
      writeln (''created '' @ output @ '' for repository root '' @ kf_repository_root key)))))"

definition command_device_export ::
    "'a prims_scheme \<Rightarrow> ('s, 'g) cli \<Rightarrow> string \<Rightarrow> string \<Rightarrow> (unit, ('s, 'g) session) act" where
  "command_device_export P C key output =
     act_then (on_world (act_get (\<lambda>w. and_then (key_file_read P (file_at (ce_paths (cl_env C)) key) (w_files w)) (key_public_device P)))) (\<lambda>public.
     act_then (on_world (on_files (public_device_write_new P public (file_at (ce_paths (cl_env C)) output)))) (\<lambda>_.
     writeln (''exported device '' @ pd_device_id public @ '' to '' @ output)))"

text \<open>The key \<^verbatim>\<open>init\<close> uses, and its path again when the key was just created.\<close>

definition init_key ::
    "'a prims_scheme \<Rightarrow> ('s, 'g) cli \<Rightarrow> string option \<Rightarrow> (string \<times> string option, ('s, 'g) session) act" where
  "init_key P C key S =
     (if (case key of Some path \<Rightarrow> w_files (se_world S) (file_at (ce_paths (cl_env C)) path) \<noteq> None | None \<Rightarrow> False)
      then (Inr (the key, None), S)
      else (let generated = key_file_generate P (cr_signing (cl_random C)) (cr_wrapping (cl_random C)) in
        act_then (act_ret (case key of
            Some path \<Rightarrow> Inr path
          | None \<Rightarrow> default_key_path (cl_env C) (kf_repository_root generated))) (\<lambda>path.
        act_then (on_world (on_files (key_file_write_new P generated (file_at (ce_paths (cl_env C)) path)))) (\<lambda>_.
        act_then (writeln (''created key '' @ path @ '' (administrator)'')) (\<lambda>_.
        act_ret (Inr (path, Some path))))) S))"

definition init_attempt ::
    "'a continuity_prims_scheme \<Rightarrow> ('s, 'g) cli \<Rightarrow> storage_url \<Rightarrow> string \<Rightarrow> string
       \<Rightarrow> (target \<times> (initialize_error + string), ('s, 'g) world) act" where
  "init_attempt P C storage key label =
     act_then (act_ret (path_absolute (ce_paths (cl_env C)) key)) (\<lambda>key.
     let target = \<lparr>tg_storage = storage, tg_key = key\<rparr> in
     with_repository P C target (\<lambda>R w. case initialize P R (cr_publication (cl_random C)) label w of
       (outcome, w') \<Rightarrow> (Inr (target, outcome), w')))"

definition discard_key :: "path_env \<Rightarrow> string option \<Rightarrow> error \<Rightarrow> ('b, ('s, 'g) session) act" where
  "discard_key E created e S = (Inl e, case created of
     Some path \<Rightarrow> S\<lparr>se_world := (se_world S)\<lparr>w_files := (w_files (se_world S))(file_at E path := None)\<rparr>\<rparr>
   | None \<Rightarrow> S)"

fun initialize_failure :: "initialize_error \<Rightarrow> error" where
  "initialize_failure (BeforePublication e) = e"
| "initialize_failure (PublicationUncertain e) =
     err (Msg ''storage may already be initialized: genesis publication reported an error'')"
| "initialize_failure (AfterPublication i e) =
     err (Msg (''storage is initialized with genesis '' @ i @ '', but pinning it on this machine failed''))"

definition init_outcome ::
    "path_env \<Rightarrow> string option \<Rightarrow> (target \<times> (initialize_error + string)) result \<Rightarrow> (target, ('s, 'g) session) act" where
  "init_outcome E created attempt = (case attempt of
     Inr (target, Inr _) \<Rightarrow> act_ret (Inr target)
   | Inr (target, Inl failure) \<Rightarrow> (case failure of
         BeforePublication e \<Rightarrow> discard_key E created e
       | _ \<Rightarrow> act_ret (Inl (context_of (Msg (''kept key '' @ tg_key target @ ''; it may be the only owner key for ''
           @ storage_url_display (tg_storage target))) (initialize_failure failure))))
   | Inl e \<Rightarrow> discard_key E created e)"

definition add_remote :: "'g process_ops \<Rightarrow> git_handle \<Rightarrow> string \<Rightarrow> target \<Rightarrow> (unit, ('s, 'g) session) act" where
  "add_remote X repo name target =
     act_then (on_world (on_git (run_git X repo [''remote'', ''add'', name, storage_url_display (tg_storage target)]))) (\<lambda>_.
     act_then (on_world (on_git (run_git X repo [''config'', ''remote.'' @ name @ ''.e2ee-key'', tg_key target]))) (\<lambda>_.
     writeln (''added remote '' @ name)))"

definition command_init ::
    "'a continuity_prims_scheme \<Rightarrow> ('s, 'g) cli \<Rightarrow> string \<Rightarrow> string option \<Rightarrow> string \<Rightarrow> string option \<Rightarrow> (unit, ('s, 'g) session) act" where
  "command_init P C url key name label =
     act_then (act_ret (storage_url_parse (ce_paths (cl_env C)) url)) (\<lambda>storage.
     let label = (case label of Some label \<Rightarrow> label | None \<Rightarrow> default_owner_label (cl_env C)) in
     act_then (act_ret (validate_device_label label)) (\<lambda>_.
     act_then (act_ret (from_environment (cl_process C))) (\<lambda>repository.
     act_then (case repository of
         Some repo \<Rightarrow>
           act_then (on_world (act_get (\<lambda>w. git_config (cl_process C) repo (''remote.'' @ name @ ''.url'') False (w_git w)))) (\<lambda>configured.
           act_ret (bail_if (configured \<noteq> None)
             (Msg (''Git remote '' @ name @ '' already exists; choose another name with --name'')) (Inr ())))
       | None \<Rightarrow> act_ret (Inr ())) (\<lambda>_.
     act_then (init_key P C key) (\<lambda>(key, created).
     act_then (\<lambda>S. case init_attempt P C storage key label (se_world S) of (attempt, w) \<Rightarrow> (Inr attempt, S\<lparr>se_world := w\<rparr>)) (\<lambda>attempt.
     act_then (init_outcome (ce_paths (cl_env C)) created attempt) (\<lambda>target.
     act_then (writeln (''initialized '' @ storage_url_display (tg_storage target))) (\<lambda>_.
     case repository of
       Some repo \<Rightarrow> add_remote (cl_process C) repo name target
     | None \<Rightarrow> act_ret (Inr ())))))))))"

definition command_verify ::
    "'a continuity_prims_scheme \<Rightarrow> ('s, 'g) cli \<Rightarrow> string \<Rightarrow> string option \<Rightarrow> (unit, ('s, 'g) session) act" where
  "command_verify P C target key =
     act_then (on_world (resolve_in_environment C target key)) (\<lambda>target.
     act_then (on_world (with_repository P C target (verify_ciphertext P))) (\<lambda>m.
     writeln (''verified generation '' @ show_nat (unat (mf_generation m)) @ '' ('' @ show_nat (length (mf_refs m)) @ '' refs, ''
       @ show_nat (unat (mf_total_pack_count m)) @ '' packs)'')))"

definition command_device_add ::
    "'a continuity_prims_scheme \<Rightarrow> ('s, 'g) cli \<Rightarrow> string \<Rightarrow> string \<Rightarrow> string \<Rightarrow> device_role \<Rightarrow> string option
       \<Rightarrow> (unit, ('s, 'g) session) act" where
  "command_device_add P C target device label role key =
     act_then (on_world (resolve_in_environment C target key)) (\<lambda>target.
     act_then (on_world (act_get (\<lambda>w. public_device_read P (file_at (ce_paths (cl_env C)) device) (w_files w)))) (\<lambda>public.
     act_then (on_world (with_repository P C target (\<lambda>R.
       add_device P R (cr_publication (cl_random C)) public label (roles_of_role role)))) (\<lambda>(m, policy).
     writeln (''added '' @ pd_device_id public @ '' ('' @ label @ ''); manifest '' @ m @ ''; policy '' @ policy))))"

definition command_device_revoke ::
    "'a continuity_prims_scheme \<Rightarrow> ('s, 'g) cli \<Rightarrow> string \<Rightarrow> string \<Rightarrow> string option \<Rightarrow> (unit, ('s, 'g) session) act" where
  "command_device_revoke P C target device_id key =
     act_then (on_world (resolve_in_environment C target key)) (\<lambda>target.
     act_then (on_world (with_repository P C target (\<lambda>R.
       revoke_device P R (cr_publication (cl_random C)) device_id))) (\<lambda>(m, policy).
     writeln (''revoked '' @ device_id @ ''; manifest '' @ m @ ''; policy '' @ policy)))"

definition command_device_list ::
    "'a continuity_prims_scheme \<Rightarrow> ('s, 'g) cli \<Rightarrow> string \<Rightarrow> string option \<Rightarrow> (unit, ('s, 'g) session) act" where
  "command_device_list P C target key =
     act_then (on_world (resolve_in_environment C target key)) (\<lambda>target.
     act_then (on_world (act_get (\<lambda>w. and_then (key_file_read P (file_at (ce_paths (cl_env C)) (tg_key target)) (w_files w)) (key_device_id P)))) (\<lambda>own_id.
     act_then (on_world (with_repository P C target (list_devices P))) (\<lambda>devices.
     write_devices own_id devices)))"

definition command_recover ::
    "'a repository_prims_scheme \<Rightarrow> ('s, 'g) cli \<Rightarrow> string \<Rightarrow> string option \<Rightarrow> string option \<Rightarrow> recovery_options
       \<Rightarrow> (unit, ('s, 'g) session) act" where
  "command_recover P C target key repo options =
     act_then (act_ret (and_then (resolve_repository (cl_process C) repo) (\<lambda>found.
       ok_or found (Msg ''recover needs a Git repository; run it inside one or pass --repo'')))) (\<lambda>handle.
     act_then (on_world (act_get (\<lambda>w.
       target_resolve (cl_process C) (ce_paths (cl_env C)) target key (Some handle) (w_git w)))) (\<lambda>target.
     act_then (on_world (with_repository P C target (\<lambda>R. recover P (cl_show_error C) R (repository_of (cl_process C) handle)
       (cr_publication (cl_random C)) (cl_scratch C) options))) (\<lambda>report.
     writeln (format_recovery_report report))))"

fun run_command :: "'a repository_prims_scheme \<Rightarrow> ('s, 'g) cli \<Rightarrow> command \<Rightarrow> (unit, ('s, 'g) session) act" where
  "run_command P C (Keygen output repository_root) = command_keygen P C output repository_root"
| "run_command P C (DeviceExport key output) = command_device_export P C key output"
| "run_command P C (Init url key name label) = command_init P C url key name label"
| "run_command P C (Verify target key) = command_verify P C target key"
| "run_command P C (DeviceAdd target device label role key) = command_device_add P C target device label role key"
| "run_command P C (DeviceRevoke target device_id key) = command_device_revoke P C target device_id key"
| "run_command P C (DeviceList target key) = command_device_list P C target key"
| "run_command P C (Recover target key repo options) = command_recover P C target key repo options"

end
