(* ===== verification/Command_Line_Facts.thy ===== *)
theory Command_Line_Facts
  imports Command_Line Initialization
begin

text \<open>
  \<^verbatim>\<open>git-e2ee init\<close> makes a key, publishes a genesis under it and cleans up after a failure. Here: the
  cleaning up never costs the key of a repository that may exist.
\<close>

definition generated_key :: "'a prims_scheme \<Rightarrow> ('s, 'g) cli \<Rightarrow> key_file" where
  "generated_key P C = key_file_generate P (cr_signing (cl_random C)) (cr_wrapping (cl_random C))"

definition opens_directory :: "('s, 'g) cli \<Rightarrow> 's storage_ops \<Rightarrow> bool" where
  "opens_directory C ops \<longleftrightarrow> (\<forall>url s. cl_open_storage C url s = (Inr ops, s))"

lemma on_world_run: "on_world m S = (fst (m (se_world S)), S\<lparr>se_world := snd (m (se_world S))\<rparr>)"
  by (simp add: on_world_def split: prod.splits)

lemma init_key_cases:
  assumes "init_key P C key S = (r, S')"
  obtains (failed) e where "r = Inl e" "S' = S"
  | (existing) path where "key = Some path" "r = Inr (path, None)" "S' = S" "w_files (se_world S) (file_at (ce_paths (cl_env C)) path) \<noteq> None"
  | (created) path where "r = Inr (path, Some path)" "w_files (se_world S) (file_at (ce_paths (cl_env C)) path) = None"
      "se_world S' = (se_world S)\<lparr>w_files := (w_files (se_world S))(file_at (ce_paths (cl_env C)) path
         \<mapsto> key_file_to_vec P (generated_key P C))\<rparr>"
proof (cases "case key of Some path \<Rightarrow> w_files (se_world S) (file_at (ce_paths (cl_env C)) path) \<noteq> None | None \<Rightarrow> False")
  case True
  then show thesis using assms existing by (auto simp: init_key_def split: option.splits)
next
  case False
  let ?path = "case key of Some path \<Rightarrow> Inr path | None \<Rightarrow> default_key_path (cl_env C) (kf_repository_root (generated_key P C))"
  note def = init_key_def [of P C key S, unfolded if_not_P [OF False] Let_def generated_key_def [symmetric]]
  show thesis
  proof (cases ?path)
    case (Inl e)
    then show thesis using assms failed by (auto simp: def act_then_def act_ret_def)
  next
    case (Inr path)
    let ?file = "file_at (ce_paths (cl_env C)) path"
    show thesis
    proof (cases "w_files (se_world S) ?file")
      case None
      then show thesis using assms Inr created
        by (auto simp: def act_then_def act_ret_def on_world_def on_files_def key_file_write_new_def writeln_def)
    next
      case (Some b)
      then show thesis using assms Inr failed
        by (auto simp: def act_then_def act_ret_def on_world_def on_files_def key_file_write_new_def)
    qed
  qed
qed

lemma init_attempt_cases:
  assumes "init_attempt P C storage key label w = (attempt, w')" and opens: "opens_directory C ops"
  obtains (failed) e where "attempt = Inl e" "w' = w"
  | (ran) k target R outcome where "attempt = Inr (target, outcome)" "path_absolute (ce_paths (cl_env C)) key = Inr k"
      "er_storage R = ops" "key_file_read P (file_at (ce_paths (cl_env C)) k) (w_files w) = Inr (er_key R)"
      "initialize P R (cr_publication (cl_random C)) label w = (outcome, w')"
proof (cases "path_absolute (ce_paths (cl_env C)) key")
  case (Inl e)
  then show thesis using assms(1) failed by (auto simp: init_attempt_def act_then_def act_ret_def)
next
  case k: (Inr k)
  show thesis
  proof (cases "key_file_read P (file_at (ce_paths (cl_env C)) k) (w_files w)")
    case (Inl e)
    then show thesis using assms(1) k failed
      by (auto simp: init_attempt_def with_repository_def Let_def act_then_def act_ret_def act_get_def)
  next
    case kf: (Inr kf)
    show thesis
    proof (cases "default_state_dir (ce_variables (cl_env C))")
      case (Inl e)
      then show thesis using assms(1) k kf failed
        by (auto simp: init_attempt_def with_repository_def Let_def act_then_def act_ret_def act_get_def)
    next
      case sd: (Inr sd)
      obtain outcome w2 where i: "initialize P \<lparr>er_storage = ops, er_key = kf, er_state_dir = sd\<rparr> (cr_publication (cl_random C)) label w
          = (outcome, w2)" by (rule prod.exhaust)
      from assms(1) k kf sd i opens have "attempt = Inr (\<lparr>tg_storage = storage, tg_key = k\<rparr>, outcome)" "w' = w2"
        by (simp_all add: init_attempt_def with_repository_def Let_def act_then_def act_ret_def act_get_def on_storage_def opens_directory_def)
      with k kf i show thesis
        by (intro ran [of "\<lparr>tg_storage = storage, tg_key = k\<rparr>" outcome k "\<lparr>er_storage = ops, er_key = kf, er_state_dir = sd\<rparr>"]) simp_all
    qed
  qed
qed

definition keeps_disk :: "('s, 'g) session \<Rightarrow> ('s, 'g) session \<Rightarrow> bool" where
  "keeps_disk S S' \<longleftrightarrow> w_files (se_world S') = w_files (se_world S) \<and> w_storage (se_world S') = w_storage (se_world S)"

lemma keeps_disk_order: "reflp keeps_disk" "transp keeps_disk"
  by (auto simp: keeps_disk_def intro: reflpI transpI)

lemma keeps_disk_git: "act_keeps keeps_disk (on_world (on_git f))"
  by (simp add: act_keeps_def keeps_disk_def on_world_def on_git_def split: prod.splits)

lemma keeps_disk_writeln: "act_keeps keeps_disk (writeln l)"
  by (simp add: act_keeps_def keeps_disk_def writeln_def)

lemma add_remote_keeps: "act_keeps keeps_disk (add_remote X repo name target)"
  unfolding add_remote_def by (intro act_keeps_then keeps_disk_order keeps_disk_git keeps_disk_writeln)

lemma on_world_get: "on_world (act_get f) S = (f (se_world S), S)"
  by (simp add: on_world_def act_get_def)

lemma act_then_ret: "act_then (act_ret (Inr x)) f S = f x S"
  by (simp add: act_then_def act_ret_def)

lemma finish_keeps:
  "act_keeps keeps_disk (act_then (writeln l) (\<lambda>_. case repository of
     Some repo \<Rightarrow> add_remote X repo name target | None \<Rightarrow> act_ret (Inr ())))"
  by (cases repository) (auto intro!: act_keeps_then keeps_disk_order keeps_disk_writeln add_remote_keeps act_keeps_ret)

lemma command_init_cases:
  assumes run: "command_init P C url key name label S = (r, S')"
  obtains (stopped) "S' = S"
  | (no_key) e where "init_key P C key S = (Inl e, S')"
  | (attempted) path made S1 storage label' attempt w r2 S3 where
      "init_key P C key S = (Inr (path, made), S1)" "init_attempt P C storage path label' (se_world S1) = (attempt, w)"
      "init_outcome (ce_paths (cl_env C)) made attempt (S1\<lparr>se_world := w\<rparr>) = (r2, S3)" "keeps_disk S3 S'"
proof -
  let ?label = "case label of Some label \<Rightarrow> label | None \<Rightarrow> default_owner_label (cl_env C)"
  let ?free = "\<lambda>repository. case repository of
         Some repo \<Rightarrow>
           act_then (on_world (act_get (\<lambda>w. git_config (cl_process C) repo (''remote.'' @ name @ ''.url'') False (w_git w)))) (\<lambda>configured.
           act_ret (bail_if (configured \<noteq> None)
             (Msg (''Git remote '' @ name @ '' already exists; choose another name with --name'')) (Inr ())))
       | None \<Rightarrow> act_ret (Inr ())"
  have free: "snd (?free repository S) = S" for repository
    by (auto simp: act_then_def act_ret_def on_world_get split: option.splits sum.splits)
  show thesis
  proof (cases "storage_url_parse (ce_paths (cl_env C)) url")
    case (Inl e)
    then show thesis using run stopped by (auto simp: command_init_def act_then_def act_ret_def)
  next
    case st: (Inr storage)
    show thesis
    proof (cases "validate_device_label ?label")
      case (Inl e)
      then show thesis using run st stopped by (auto simp: command_init_def act_then_def act_ret_def Let_def)
    next
      case lb: (Inr u)
      show thesis
      proof (cases "from_environment (cl_process C)")
        case (Inl e)
        then show thesis using run st lb stopped by (auto simp: command_init_def act_then_def act_ret_def Let_def)
      next
        case repo: (Inr repository)
        let ?attempt = "\<lambda>k S. case init_attempt P C storage k ?label (se_world S) of (attempt, w) \<Rightarrow> (Inr attempt, S\<lparr>se_world := w\<rparr>)"
        let ?finish = "\<lambda>target. act_then (writeln (''initialized '' @ storage_url_display (tg_storage target))) (\<lambda>_. case repository of
          Some repo \<Rightarrow> add_remote (cl_process C) repo name target | None \<Rightarrow> act_ret (Inr ()))"
        have run': "act_then (?free repository) (\<lambda>_. act_then (init_key P C key) (\<lambda>(k, made). act_then (?attempt k) (\<lambda>attempt.
            act_then (init_outcome (ce_paths (cl_env C)) made attempt) ?finish))) S = (r, S')"
          using run unfolding command_init_def st lb repo Let_def act_then_ret .
        show thesis
        proof (cases "fst (?free repository S)")
          case (Inl e)
          then show thesis using run' free [of repository] stopped by (auto simp: act_then_def split: prod.splits sum.splits)
        next
          case (Inr u)
          then have "?free repository S = (Inr u, S)" using free [of repository] by (metis prod.collapse)
          note run' = run' [unfolded act_then_run [where m = "?free repository", OF this]]
          obtain rk S1 where ik: "init_key P C key S = (rk, S1)" by (rule prod.exhaust)
          show thesis
          proof (cases rk)
            case (Inl e)
            then show thesis using run' ik no_key by (auto simp: act_then_def)
          next
            case (Inr km)
            obtain k made where km: "km = (k, made)" by (rule prod.exhaust)
            obtain attempt w where at: "init_attempt P C storage k ?label (se_world S1) = (attempt, w)" by (rule prod.exhaust)
            obtain r2 S3 where oc: "init_outcome (ce_paths (cl_env C)) made attempt (S1\<lparr>se_world := w\<rparr>) = (r2, S3)" by (rule prod.exhaust)
            from run' ik Inr km at have "act_then (init_outcome (ce_paths (cl_env C)) made attempt) ?finish (S1\<lparr>se_world := w\<rparr>) = (r, S')"
              by (simp add: act_then_def)
            then have "S' = S3 \<or> (\<exists>target. ?finish target S3 = (r, S'))"
              using oc by (cases r2) (auto simp: act_then_def [of "init_outcome (ce_paths (cl_env C)) made attempt"])
            then have "keeps_disk S3 S'"
              using finish_keeps keeps_disk_order(1) unfolding act_keeps_def reflp_def by (metis snd_conv)
            with ik Inr km at oc attempted show thesis by blast
          qed
        qed
      qed
    qed
  qed
qed

lemma floor_advance_grows: "floor_advance P path f fs = Inr fs' \<Longrightarrow> fs p \<noteq> None \<Longrightarrow> fs' p \<noteq> None"
  by (auto simp: floor_advance_def and_then_eq_Inr bail_if_eq_Inr write_json_def split: option.splits if_splits)

lemma key_file_read_bytes:
  "key_file_read P path fs = Inr k \<Longrightarrow> \<exists>contents. fs path = Some contents \<and> key_file_of_slice P contents = Some k"
  by (auto simp: key_file_read_def and_then_eq_Inr bail_if_eq_Inr map_err_eq_Inr ok_or_eq_Inr)

text \<open>What \<^verbatim>\<open>initialize\<close> does to the files, on a directory storage: only the floor is written, nothing is
  removed.\<close>

lemma initialize_keeps_files:
  assumes st: "er_storage R = directory_storage P' io (storage_dir dir)" and run: "initialize P R rnd label w = (outcome, w')"
  shows "w_files w p \<noteq> None \<Longrightarrow> w_files w' p \<noteq> None" and "p \<noteq> lock_floor R \<Longrightarrow> w_files w' p = w_files w p"
proof -
  note outs = initialize_outcomes [where P = P and rnd = rnd and label = label and w = w, OF st, unfolded run prod.case]
  have same: "w_files w' = w_files w" if "outcome = Inl e" for e
    using outs that by (cases e) auto
  show "p \<noteq> lock_floor R \<Longrightarrow> w_files w' p = w_files w p"
    using same initialize_files [OF st] run by (cases outcome) auto
  show "w_files w p \<noteq> None \<Longrightarrow> w_files w' p \<noteq> None"
  proof (cases outcome)
    case (Inr i)
    assume p: "w_files w p \<noteq> None"
    show ?thesis
    proof (rule initialize_ok [OF run [unfolded Inr]])
      fix floor genesis w1 s fs
      assume prep: "prepare_genesis P R rnd label w = (Inr (floor, genesis, i), w1)"
        and adv: "floor_advance P floor (floor_at i genesis) (w_files w1) = Inr fs" and w': "w' = w1\<lparr>w_storage := s, w_files := fs\<rparr>"
      then show ?thesis using floor_advance_grows [OF adv] p prepare_genesis_keeps_head [OF st prep] by simp
    qed
  qed (use same in auto)
qed

lemma init_outcome_world:
  assumes "init_outcome E made attempt S = (r, S')"
  shows "w_storage (se_world S') = w_storage (se_world S)"
    and "w_files (se_world S') = w_files (se_world S) \<or> (\<exists>path. made = Some path \<and> w_files (se_world S') = (w_files (se_world S))(file_at E path := None)
       \<and> ((\<exists>e. attempt = Inl e) \<or> (\<exists>target e. attempt = Inr (target, Inl (BeforePublication e)))))"
  using assms
  by (auto simp: init_outcome_def discard_key_def act_ret_def split: sum.splits prod.splits initialize_error.splits option.splits)

text \<open>An attempt that moved the head has not failed before publication, so that its clean-up removes nothing.\<close>

lemma moved_head_keeps_files:
  assumes clean: "init_outcome E made (Inr (target, outcome)) S = (r, S')" and st: "er_storage R = directory_storage P' io (storage_dir dir)"
    and run: "initialize P R rnd label w = (outcome, se_world S)"
    and moved: "fs_read_head (storage_dir dir) (w_storage (se_world S)) \<noteq> fs_read_head (storage_dir dir) (w_storage w)"
  shows "w_files (se_world S') = w_files (se_world S)"
proof -
  have "outcome \<noteq> Inl (BeforePublication e)" for e
    using initialize_outcomes [OF st, where P = P and rnd = rnd and label = label and w = w] run moved by auto
  then show ?thesis using init_outcome_world(2) [OF clean] by auto
qed


end
