(* ===== verification/Sample_Helper.thy ===== *)
theory Sample_Helper
  imports Sample_Run Remote_Helper_Facts Command_Line_Facts
begin

text \<open>
  A session of the remote helper on the sample repository, in which Git asks for one branch to be
  pushed, and a run of \<^verbatim>\<open>git-e2ee init\<close> that fails after making a key.
\<close>

definition sample_input :: string where
  "sample_input = ''push c:refs/heads/main'' @ [CHR 0x0A, CHR 0x0A]"

definition sample_failure :: "error \<Rightarrow> string" where
  "sample_failure _ = ''failed''"

definition session_at :: "('s, 'g) world \<Rightarrow> ('s, 'g) session" where
  "session_at w = \<lparr>se_world = w, se_output = [], se_pushes = 0\<rparr>"

lemma sample_input_lines: "input_lines (as_bytes sample_input) = [Inr ''push c:refs/heads/main'', Inr []]"
  by code_simp

lemma sample_parse_push: "parse_pushes [''push c:refs/heads/main''] = Inr [main_push]"
  unfolding main_push_def by code_simp

lemma sample_failure_utf8: "\<forall>e. valid_utf8 (sample_failure e)"
  by (simp add: sample_failure_def valid_utf8_def)

lemma origin_line_feed: "line_feed \<notin> set ''origin''"
  by (simp add: line_feed_def)

lemma session_batch:
  fixes w :: "(tree, unit) world"
  assumes "push rp sample_repo sample_checkout sample_publication [main_push] Publish w = (Inr out, w')"
    and "pu_publication out = Inr i" and "pu_refs out = [Accepted]"
  shows "process_push_batch rp sample_failure (\<lambda>_. sample_publication) sample_repo sample_checkout ''origin''
      ''push c:refs/heads/main'' [Inr []] False (session_at w)
    = (Inr [], \<lparr>se_world = w', se_output = ''ok refs/heads/main'' @ [line_feed, line_feed], se_pushes = 1\<rparr>)"
proof -
  have "rp_destination main_push = ''refs/heads/main''" by (simp add: main_push_def)
  then show ?thesis
    using assms sample_parse_push
    by (simp add: process_push_batch_def session_at_def session_push_def writeln_def act_then_def act_ret_def)
qed

lemma session_pushes:
  obtains w :: "(tree, unit) world" and c w' out i where "sample_ready w c []" "os_policy c = created 1 2 (genesis_body 1 2)"
    "push rp sample_repo sample_checkout sample_publication [main_push] Publish w = (Inr out, w')"
    "pu_publication out = Inr i" "pu_refs out = [Accepted]" "w_storage w (object_path sample_dir Manifest i) = None"
    "\<And>j. w_storage w (object_path sample_dir Pack j) = None"
proof (rule sample_pushes)
  fix w :: "(tree, unit) world" and c w' out i
  assume ready: "sample_ready w c []" and policy: "os_policy c = created 1 2 (genesis_body 1 2)"
    and run: "push rp sample_repo sample_checkout sample_publication [main_push] Publish w = (Inr out, w')"
      "pu_publication out = Inr i"
    and fresh: "w_storage w (object_path sample_dir Manifest i) = None" "\<And>j. w_storage w (object_path sample_dir Pack j) = None"
  have chain: "current_chain rp sample_repo (w_storage w) = Inr [c]" "mf_refs (os_manifest c) = []"
    using ready by (simp_all add: sample_ready_def)
  have "pu_refs out = [Accepted]"
  proof (rule push_ok [OF run(1) repo_of_fields(1)])
    fix current ps f d refs packs
    assume "current_chain rp sample_repo (w_storage w) = Inr (current # ps)"
      "push_loop (gr_ops sample_checkout) (w_git w) (mf_refs (os_manifest current)) {} (mf_refs (os_manifest current)) [] [] [main_push]
         = (refs, packs, pu_refs out)"
    then show ?thesis using chain by (simp add: sample_checkout_def main_preflight Let_def)
  qed
  with that ready policy run fresh show thesis by blast
qed

theorem push_reply_is_framed_witness:
  "\<exists>w :: (tree, unit) world. \<exists>w'. \<exists>r statuses. push rp sample_repo sample_checkout sample_publication [main_push] Publish w = (r, w')
     \<and> split_on line_feed (''ok refs/heads/main'' @ [line_feed, line_feed]) = statuses @ [[], []] \<and> length statuses = 1"
proof (rule session_pushes)
  fix w :: "(tree, unit) world" and c w' out i
  assume run: "push rp sample_repo sample_checkout sample_publication [main_push] Publish w = (Inr out, w')"
    "pu_publication out = Inr i" "pu_refs out = [Accepted]"
  have "set (Inr ''push c:refs/heads/main'' # [Inr []]) \<subseteq> set (input_lines (as_bytes sample_input))"
    unfolding sample_input_lines by simp
  from push_reply_is_framed [OF session_batch [OF run] this origin_line_feed sample_failure_utf8]
  obtain commands pushes r statuses where
    batch: "gather_batch [''push c:refs/heads/main''] [Inr []] = Inr (commands, [])" "parse_pushes commands = Inr pushes"
    and reply: "push rp sample_repo sample_checkout sample_publication pushes Publish w = (r, w')"
      "split_on line_feed (''ok refs/heads/main'' @ [line_feed, line_feed]) = statuses @ [[], []]"
      "length statuses = length pushes"
    by (auto simp only: session_at_def session.simps if_False list.size(3) drop0)
  have "commands = [''push c:refs/heads/main'']" using batch(1) by simp
  then have "pushes = [main_push]" using batch(2) sample_parse_push by simp
  then show ?thesis using reply by auto
qed

theorem ok_report_means_published_witness:
  "\<exists>(w :: (tree, unit) world) (w' :: (tree, unit) world) current ps s. ''ok refs/heads/main'' \<in> set (split_on line_feed (''ok refs/heads/main'' @ [line_feed, line_feed]))
     \<and> current_chain rp sample_repo (w_storage w) = Inr (current # ps) \<and> bt_get (mf_refs (os_manifest current)) ''refs/heads/main'' = None
     \<and> current_chain rp sample_repo (w_storage w') = Inr (s # current # ps)
     \<and> bt_get (mf_refs (os_manifest s)) ''refs/heads/main'' = Some ''c''"
proof (rule session_pushes)
  fix w :: "(tree, unit) world" and c w' out i
  assume ready: "sample_ready w c []" and policy: "os_policy c = created 1 2 (genesis_body 1 2)"
    and run: "push rp sample_repo sample_checkout sample_publication [main_push] Publish w = (Inr out, w')"
      "pu_publication out = Inr i" "pu_refs out = [Accepted]"
    and fresh: "w_storage w (object_path sample_dir Manifest i) = None" "\<And>j. w_storage w (object_path sample_dir Pack j) = None"
  have chain: "current_chain rp sample_repo (w_storage w) = Inr [c]" "mf_refs (os_manifest c) = []"
    using ready by (simp_all add: sample_ready_def)
  have "authentic_chain rp sample_root [c]" using current_chain_sound [OF chain(1)] by simp
  then have packs: "chain_pack_ids [c] = []"
    by (cases rule: authentic_chain.cases) (simp_all add: manifest_validate_genesis_ok)
  have reader: "owner \<in> set (active_readers (os_policy c))" "key_public_device rp (er_key sample_repo) = Inr (dv_public owner)"
    by (simp_all add: policy active_readers_def genesis_body_def solo_owner)
  have inputs: "set (Inr ''push c:refs/heads/main'' # [Inr []]) \<subseteq> set (input_lines (as_bytes sample_input))"
    unfolding sample_input_lines by simp
  have sound: "\<forall>k. sound_random rp ((\<lambda>_ :: nat. sample_publication) k)" using sample_publication_sound by simp
  have maps: "\<forall>chain. current_chain rp sample_repo (w_storage (se_world (session_at w))) = Inr chain
      \<longrightarrow> bt_wf (mf_refs (os_manifest (hd chain)))"
    using chain by (simp add: session_at_def)
  have okline: "''ok '' @ ''refs/heads/main'' \<in> set (split_on line_feed (''ok refs/heads/main'' @ [line_feed, line_feed]))"
    by code_simp
  let ?S = "\<lparr>se_world = w', se_output = ''ok refs/heads/main'' @ [line_feed, line_feed], se_pushes = 1\<rparr> :: (tree, unit) session"
  have "''ok '' @ ''refs/heads/main'' \<in> set (split_on line_feed (drop (length (se_output (session_at w))) (se_output ?S)))"
    unfolding session_at_def session.simps list.size(3) drop0 by (rule okline)
  from ok_report_means_published [OF rp_laws sound repo_of_fields(1) session_batch [OF run] inputs origin_line_feed
      sample_failure_utf8 maps this, unfolded session_at_def session.simps]
  obtain commands pushes p x out' i' current ps where
    batch: "gather_batch [''push c:refs/heads/main''] [Inr []] = Inr (commands, [])" "parse_pushes commands = Inr pushes"
      "first_push pushes ''refs/heads/main'' = Some p"
    and again: "push rp sample_repo sample_checkout sample_publication pushes Publish w = (Inr out', w')" "pu_publication out' = Inr i'"
    and now: "current_chain rp sample_repo (w_storage w) = Inr (current # ps)"
      "preflight_ref_change (gr_ops sample_checkout) (w_git w) (mf_refs (os_manifest current)) p = Inr x"
    and effect: "w_storage w' = w_storage w \<and> bt_get (mf_refs (os_manifest current)) ''refs/heads/main'' = x
       \<or> (w_storage w (object_path sample_dir Manifest i') = None \<longrightarrow>
          (\<exists>m. bt_get (mf_refs m) ''refs/heads/main'' = x \<and> floor_read rp (lock_floor sample_repo) (w_files w') = Inr (Some (floor_at i' m))
            \<and> (\<forall>R' v. er_storage R' = er_storage sample_repo \<and> v \<in> set (active_readers (os_policy current))
                 \<and> key_public_device rp (er_key R') = Inr (dv_public v)
                 \<and> (\<forall>d \<in> set (mf_new_packs m). pk_id d \<notin> set (chain_pack_ids (current # ps))
                      \<and> w_storage w (object_path sample_dir Pack (pk_id d)) = None) \<longrightarrow>
                 (\<exists>s. current_chain rp R' (w_storage w') = Inr (s # current # ps) \<and> os_manifest s = m))))"
    by (elim exE conjE) (rule that; assumption)
  have same: "current = c" "ps = []" using now(1) chain(1) by simp_all
  have "commands = [''push c:refs/heads/main'']" using batch(1) by simp
  then have pushes: "pushes = [main_push]" using batch(2) sample_parse_push by simp
  then have i: "i' = i" using again run by simp
  have "p = main_push" using batch(3) pushes by (simp add: first_push_def main_push_def)
  then have x: "x = Some ''c''" using now(2) same chain(2) main_preflight by (simp add: sample_checkout_def)
  then have "\<not> (w_storage w' = w_storage w \<and> bt_get (mf_refs (os_manifest current)) ''refs/heads/main'' = x)"
    using same chain(2) by simp
  with effect [unfolded i] fresh(1) obtain m where m: "bt_get (mf_refs m) ''refs/heads/main'' = x"
    and readers: "\<forall>R' v. er_storage R' = er_storage sample_repo \<and> v \<in> set (active_readers (os_policy current))
                 \<and> key_public_device rp (er_key R') = Inr (dv_public v)
                 \<and> (\<forall>d \<in> set (mf_new_packs m). pk_id d \<notin> set (chain_pack_ids (current # ps))
                      \<and> w_storage w (object_path sample_dir Pack (pk_id d)) = None) \<longrightarrow>
                 (\<exists>s. current_chain rp R' (w_storage w') = Inr (s # current # ps) \<and> os_manifest s = m)" by blast
  from readers [rule_format, of sample_repo owner] reader packs fresh(2) same obtain s where
    "current_chain rp sample_repo (w_storage w') = Inr (s # current # ps)" "os_manifest s = m" by auto
  then have "current_chain rp sample_repo (w_storage w') = Inr (s # current # ps)
      \<and> bt_get (mf_refs (os_manifest s)) ''refs/heads/main'' = Some ''c''" using m x by simp
  moreover have "bt_get (mf_refs (os_manifest current)) ''refs/heads/main'' = None" using same chain(2) by simp
  moreover have "''ok refs/heads/main'' \<in> set (split_on line_feed (''ok refs/heads/main'' @ [line_feed, line_feed]))"
    using okline by (simp only: append.simps)
  ultimately show ?thesis using now(1) by blast
qed

section \<open>A failed initialization\<close>

text \<open>Outside a Git repository, without a home directory: the key is written to the named file, the state
  directory cannot be found, and the key is discarded again.\<close>

definition sample_cli :: "(tree, unit) cli" where
  "sample_cli = \<lparr>
     cl_process = \<lparr>po_discover = (\<lambda>_. Inr (False, [])), po_config = (\<lambda>_ _ _ _. Inr (False, [])), po_run = (\<lambda>_ _ g. (Inr True, g)),
       po_ops = (\<lambda>_. sample_git)\<rparr>,
     cl_env = \<lparr>ce_variables = (\<lambda>_. None), ce_paths = \<lparr>pe_current_dir = Inr ''/'', pe_exists = (\<lambda>_. False)\<rparr>,
       ce_hostname = Inr (False, []), ce_create_dir_all = (\<lambda>_. Inr ())\<rparr>,
     cl_open_storage = (\<lambda>_ s. (Inr (directory_storage rp quiet_io sample_dir), s)),
     cl_random = \<lparr>cr_signing = replicate 32 1, cr_wrapping = replicate 32 2, cr_publication = sample_publication\<rparr>,
     cl_scratch = Inr (), cl_show_error = sample_failure\<rparr>"

definition sample_files :: "(tree, unit) session" where
  "sample_files = session_at \<lparr>w_storage = Map.empty, w_files = [''/note'' \<mapsto> [1]], w_git = ()\<rparr>"

lemma sample_cli_opens: "opens_directory sample_cli (directory_storage rp quiet_io sample_dir)"
  by (simp add: opens_directory_def sample_cli_def)

lemma sample_cli_settled: "settled_env (ce_paths (cl_env sample_cli))"
  by (simp add: sample_cli_def settled_env_def canonical_roots)


end
