(* ===== verification/File_Tree.thy ===== *)
theory File_Tree
  imports Persist Effects "HOL-Library.AList"
begin

text \<open>
  A directory with everything below it, as the Git carrier reads and changes its checkout: the
  functions of \<^verbatim>\<open>std::fs\<close> the code calls, on paths given by their components below the root. The
  entries of a directory are in no particular order, like those of \<^verbatim>\<open>read_dir\<close>. An operation fails
  where the tree does not allow it.
\<close>

datatype node = File bytes | Dir "(string \<times> node) list" | Special

fun node_at :: "node \<Rightarrow> string list \<Rightarrow> node option" where
  "node_at n [] = Some n"
| "node_at (Dir es) (c # cs) = (case map_of es c of None \<Rightarrow> None | Some n \<Rightarrow> node_at n cs)"
| "node_at _ (c # cs) = None"

definition set_entry :: "string \<Rightarrow> node option \<Rightarrow> (string \<times> node) list \<Rightarrow> (string \<times> node) list" where
  "set_entry c x es = (case x of None \<Rightarrow> AList.delete c es | Some n \<Rightarrow> AList.update c n es)"

text \<open>Puts an entry at a path whose parent is a directory, or removes it; otherwise nothing changes.\<close>

fun put_at :: "string list \<Rightarrow> node option \<Rightarrow> node \<Rightarrow> node" where
  "put_at [c] x (Dir es) = Dir (set_entry c x es)"
| "put_at (c # cs) x (Dir es) = (case map_of es c of
     None \<Rightarrow> Dir es
   | Some n \<Rightarrow> Dir (set_entry c (Some (put_at cs x n)) es))"
| "put_at _ x n = n"

definition is_dir :: "node option \<Rightarrow> bool" where
  "is_dir x = (case x of Some (Dir _) \<Rightarrow> True | _ \<Rightarrow> False)"

definition write_file :: "string list \<Rightarrow> bytes \<Rightarrow> (unit, node) act" where
  "write_file path data n =
     (if \<not> is_dir (node_at n (butlast path)) then (Inl (err (Io NotFound)), n)
      else case node_at n path of
        None \<Rightarrow> (Inr (), put_at path (Some (File data)) n)
      | Some (File _) \<Rightarrow> (Inr (), put_at path (Some (File data)) n)
      | Some _ \<Rightarrow> (Inl (err (Io OtherIo)), n))"

text \<open>\<open>make_dirs base path\<close> creates the directories of \<open>path\<close> below the existing directory \<open>base\<close>.\<close>

fun make_dirs :: "string list \<Rightarrow> string list \<Rightarrow> (unit, node) act" where
  "make_dirs base [] n = (Inr (), n)"
| "make_dirs base (c # cs) n = (case node_at n (base @ [c]) of
     None \<Rightarrow> make_dirs (base @ [c]) cs (put_at (base @ [c]) (Some (Dir [])) n)
   | Some (Dir _) \<Rightarrow> make_dirs (base @ [c]) cs n
   | Some _ \<Rightarrow> (Inl (err (Io AlreadyExists)), n))"

definition create_dir_all :: "string list \<Rightarrow> (unit, node) act" where
  "create_dir_all path = make_dirs [] path"

definition remove_file :: "string list \<Rightarrow> (unit, node) act" where
  "remove_file path n = (case node_at n path of
     None \<Rightarrow> (Inl (err (Io NotFound)), n)
   | Some (Dir _) \<Rightarrow> (Inl (err (Io OtherIo)), n)
   | Some _ \<Rightarrow> (Inr (), put_at path None n))"

definition remove_dir_all :: "string list \<Rightarrow> (unit, node) act" where
  "remove_dir_all path n = (case node_at n path of
     None \<Rightarrow> (Inl (err (Io NotFound)), n)
   | Some (Dir _) \<Rightarrow> (Inr (), put_at path None n)
   | Some _ \<Rightarrow> (Inl (err (Io OtherIo)), n))"

text \<open>\<^verbatim>\<open>remove_dir\<close> of a directory that is empty.\<close>

definition remove_dir :: "string list \<Rightarrow> (unit, node) act" where
  "remove_dir path n = (case node_at n path of
     None \<Rightarrow> (Inl (err (Io NotFound)), n)
   | Some (Dir []) \<Rightarrow> (Inr (), put_at path None n)
   | Some _ \<Rightarrow> (Inl (err (Io OtherIo)), n))"

definition read_dir :: "string list \<Rightarrow> node \<Rightarrow> (string \<times> node) list result" where
  "read_dir path n = (case node_at n path of
     None \<Rightarrow> Inl (err (Io NotFound))
   | Some (Dir es) \<Rightarrow> Inr es
   | Some _ \<Rightarrow> Inl (err (Io OtherIo)))"

text \<open>\<^verbatim>\<open>rename\<close> of a new directory to a path whose parent is a directory: it replaces an empty directory and
  nothing else.\<close>

definition rename_dir :: "node \<Rightarrow> string list \<Rightarrow> (unit, node) act" where
  "rename_dir dir path n =
     (if \<not> is_dir (node_at n (butlast path)) then (Inl (err (Io NotFound)), n)
      else case node_at n path of
        None \<Rightarrow> (Inr (), put_at path (Some dir) n)
      | Some (Dir []) \<Rightarrow> (Inr (), put_at path (Some dir) n)
      | Some _ \<Rightarrow> (Inl (err (Io OtherIo)), n))"

text \<open>The tree as the bounded reads of \<^verbatim>\<open>src/bounded.rs\<close> see it.\<close>

fun entry_of :: "node \<Rightarrow> entry" where
  "entry_of (File b) = RegularFile b"
| "entry_of (Dir _) = SpecialFile"
| "entry_of Special = SpecialFile"

definition file_view :: "node \<Rightarrow> tree" where
  "file_view n path = map_option entry_of (node_at n (split_on (CHR ''/'') path))"

section \<open>Lookups after updates\<close>

lemma map_of_set_entry [simp]: "map_of (set_entry c x es) d = (if d = c then x else map_of es d)"
  by (cases x) (auto simp: set_entry_def update_conv' delete_conv')

lemma node_at_append: "node_at n (p @ q) = (case node_at n p of None \<Rightarrow> None | Some m \<Rightarrow> node_at m q)"
  by (induction n p rule: node_at.induct) (auto split: option.splits)

lemma node_at_not_dir: "\<not> is_dir (Some n) \<Longrightarrow> node_at n (c # cs) = None"
  by (cases n) (simp_all add: is_dir_def)

lemma not_dir_path: "\<not> is_dir (node_at (File b) p)" "\<not> is_dir (node_at Special p)"
  by (cases p; simp add: is_dir_def)+

lemma node_at_put_below:
  assumes "is_dir (node_at n (butlast p))" and "p \<noteq> []"
  shows "node_at (put_at p x n) (p @ q) = (case x of None \<Rightarrow> None | Some m \<Rightarrow> node_at m q)"
  using assms
proof (induction p x n rule: put_at.induct)
  case (1 c x es)
  then show ?case by simp
next
  case (2 c d cs x es)
  then show ?case by (cases "map_of es c") (auto simp: is_dir_def)
qed (simp_all add: not_dir_path is_dir_def [of None])

lemma node_at_put_at:
  assumes "is_dir (node_at n (butlast p))" and "p \<noteq> []"
  shows "node_at (put_at p x n) p = x"
  using node_at_put_below [OF assms, of x "[]"] by (cases x) simp_all

text \<open>A path that neither leads to the changed entry nor through it.\<close>

lemma node_at_put_other:
  assumes "\<nexists>r. p = q @ r" and "\<nexists>r. q = p @ r"
  shows "node_at (put_at p x n) q = node_at n q"
  using assms
proof (induction p x n arbitrary: q rule: put_at.induct)
  case (1 c x es)
  then show ?case by (cases q) auto
next
  case (2 c d cs x es)
  show ?case
  proof (cases q)
    case (Cons e q')
    show ?thesis
    proof (cases "e = c")
      case True
      then have "\<nexists>r. d # cs = q' @ r" "\<nexists>r. q' = (d # cs) @ r" using "2.prems" Cons by auto
      then show ?thesis using "2.IH" Cons True by (auto split: option.splits)
    next
      case False
      then show ?thesis using Cons by (auto split: option.splits)
    qed
  qed (use "2.prems" in auto)
qed auto

text \<open>A path above the changed entry leads to a directory before and after.\<close>

lemma is_dir_prefix: "is_dir (node_at n (p @ q)) \<Longrightarrow> is_dir (node_at n p)"
proof (induction n p rule: node_at.induct)
  case (1 n)
  then show ?case by (cases q; cases n) (auto simp: is_dir_def)
qed (auto split: option.splits simp: is_dir_def)

lemma node_at_prefix: "node_at n (p @ q) = Some m \<Longrightarrow> q \<noteq> [] \<Longrightarrow> is_dir (node_at n p)"
proof (induction n p rule: node_at.induct)
  case (1 n)
  then show ?case by (cases q; cases n) (auto simp: is_dir_def)
qed (auto split: option.splits simp: is_dir_def)

lemma is_dir_put_above:
  assumes "is_dir (node_at n p)" and "q \<noteq> []"
  shows "is_dir (node_at (put_at (p @ q) x n) p)"
  using assms
proof (induction p arbitrary: n)
  case Nil
  then obtain es where n: "n = Dir es" by (cases n) (auto simp: is_dir_def)
  then show ?case using Nil.prems by (cases q; cases "tl q") (auto simp: is_dir_def split: option.splits)
next
  case (Cons c p)
  then obtain es where n: "n = Dir es" by (cases n) (auto simp: is_dir_def)
  then obtain m where m: "map_of es c = Some m" "is_dir (node_at m p)"
    using Cons.prems(1) by (cases "map_of es c") (auto simp: is_dir_def)
  obtain d ds where pq: "p @ q = d # ds" using Cons.prems(2) by (cases "p @ q") auto
  show ?case using Cons.IH [OF m(2) Cons.prems(2)] m(1) n by (simp add: pq)
qed

section \<open>Making directories\<close>

lemma make_dirs_ok:
  assumes "make_dirs base cs n = (Inr u, n')" and "is_dir (node_at n base)"
  shows "is_dir (node_at n' (base @ cs))"
  using assms
proof (induction base cs n rule: make_dirs.induct)
  case (2 base c cs n)
  show ?case
  proof (cases "node_at n (base @ [c])")
    case None
    have "is_dir (node_at (put_at (base @ [c]) (Some (Dir [])) n) (base @ [c]))"
      using node_at_put_at [of n "base @ [c]"] "2.prems"(2) by (simp add: is_dir_def)
    then show ?thesis using "2.IH"(1) None "2.prems" by simp
  next
    case (Some m)
    then show ?thesis using "2.IH"(2) "2.prems" by (cases m) (auto simp: is_dir_def)
  qed
qed simp

lemma make_dirs_keeps:
  assumes "make_dirs base cs n = (r, n')" and "is_dir (node_at n base)" and "node_at n q = Some m" and "\<not> is_dir (Some m)"
  shows "node_at n' q = Some m"
  using assms
proof (induction base cs n rule: make_dirs.induct)
  case (2 base c cs n)
  show ?case
  proof (cases "node_at n (base @ [c])")
    case None
    have "\<nexists>r. q = (base @ [c]) @ r" using None "2.prems"(3) node_at_append [of n "base @ [c]"] by auto
    moreover have "\<nexists>r. base @ [c] = q @ r"
    proof
      assume "\<exists>r. base @ [c] = q @ r"
      then obtain r where r: "base @ [c] = q @ r" ..
      then have "r = [] \<or> (\<exists>r'. base = q @ r')" by (metis append_self_conv butlast_append butlast_snoc)
      then show False
        using r None "2.prems"(2-4) is_dir_prefix by (metis append_Nil2 option.distinct(1))
    qed
    ultimately have "node_at (put_at (base @ [c]) (Some (Dir [])) n) q = Some m"
      using node_at_put_other "2.prems"(3) by metis
    moreover have "is_dir (node_at (put_at (base @ [c]) (Some (Dir [])) n) (base @ [c]))"
      using node_at_put_at [of n "base @ [c]"] "2.prems"(2) by (simp add: is_dir_def)
    ultimately show ?thesis using "2.IH"(1) None "2.prems" by simp
  next
    case (Some m')
    then show ?thesis using "2.IH"(2) "2.prems" by (cases m') (auto simp: is_dir_def)
  qed
qed simp

end
