(* ===== verification/Carrier_Chunks.thy ===== *)
theory Carrier_Chunks
  imports File_Tree Storage_Trait Git Url
begin

text \<open>
  \<^verbatim>\<open>src/storage.rs\<close>, how the Git carrier stores one object: a directory of numbered chunks. The stage
  that cuts the written bytes into chunk files, the check of a chunk directory, the readers of
  chunk files and of chunk blobs, the parser of a tree listing, and the names of carriers and of
  their caches. Everything read from a carrier is controlled by the storage.
\<close>

section \<open>Constants\<close>

definition CARRIER_DEFAULT_BRANCH :: string where
  "CARRIER_DEFAULT_BRANCH = ''main''"

definition CARRIER_CHUNK_SIZE :: nat where
  "CARRIER_CHUNK_SIZE = CARRIER_CHUNK_BYTES"

definition MAX_CARRIER_LISTING_BYTES :: nat where
  "MAX_CARRIER_LISTING_BYTES = 8 * 1024 * 1024"

definition CARRIER_ATTRIBUTES :: bytes where
  "CARRIER_ATTRIBUTES = as_bytes (''* -delta'' @ [CHR 0x0A])"

definition CARRIER_CACHE_ENV :: string where
  "CARRIER_CACHE_ENV = ''GIT_REMOTE_E2EE_CACHE_DIR''"

definition CARRIER_CACHE_FETCH_REF :: string where
  "CARRIER_CACHE_FETCH_REF = ''refs/heads/carrier''"

definition CARRIER_ROOT_ENTRIES :: "string list" where
  "CARRIER_ROOT_ENTRIES = [''.gitattributes'', ''README.md'', ''FORMAT'', ''HEAD'', ''manifests'', ''packs'']"

definition MAX_RECOVERY_OUTER_COMMITS :: nat where
  "MAX_RECOVERY_OUTER_COMMITS = 2048"

definition CARRIER_COMMIT_MESSAGE :: string where
  "CARRIER_COMMIT_MESSAGE = ''git-remote-e2ee storage update''"

definition CARRIER_IDENTITY :: "string \<times> string" where
  "CARRIER_IDENTITY = (''git-remote-e2ee'', ''git-remote-e2ee@invalid'')"

definition FORMAT_4_BRANCH :: string where
  "FORMAT_4_BRANCH = ''git-remote-e2ee''"

text \<open>The directory of an object below the root, and its name in a listing.\<close>

definition object_components :: "object_kind \<Rightarrow> string \<Rightarrow> string list" where
  "object_components kind i = [kind_directory kind, take 2 i, i]"

definition object_directory :: "object_kind \<Rightarrow> string \<Rightarrow> string list result" where
  "object_directory kind i = and_then (validate_id i) (\<lambda>_. Inr (object_components kind i))"

definition object_listing_name :: "object_kind \<Rightarrow> string \<Rightarrow> string" where
  "object_listing_name kind i = kind_directory kind @ ''/'' @ take 2 i @ ''/'' @ i"

section \<open>Reading chunk files\<close>

text \<open>\<^verbatim>\<open>validated_chunk_paths\<close>: the loop over the sorted entries, with the number of all of them.\<close>

fun check_chunk_entries :: "nat \<Rightarrow> nat \<Rightarrow> (string \<times> node) list \<Rightarrow> unit result" where
  "check_chunk_entries entries_len index [] = Inr ()"
| "check_chunk_entries entries_len index ((name, n) # es) = (case n of
     File data \<Rightarrow>
       bail_if (name \<noteq> pad8 index) (Msg ''carrier object chunks are not a dense canonical sequence'') (
       bail_if (index + 1 < entries_len \<and> length data \<noteq> CARRIER_CHUNK_SIZE
           \<or> index + 1 = entries_len \<and> (length data = 0 \<or> length data > CARRIER_CHUNK_SIZE))
         (Msg ''carrier object chunk has invalid size'') (
       check_chunk_entries entries_len (index + 1) es))
   | _ \<Rightarrow> Inl (err (Msg ''carrier object chunks are not a dense canonical sequence'')))"

definition validated_chunk_paths :: "string list \<Rightarrow> node \<Rightarrow> string list list result" where
  "validated_chunk_paths directory n =
     and_then (with_context ''read carrier object'' (read_dir directory n)) (\<lambda>entries.
     let entries = sort_key fst entries in
     bail_if (entries = []) (Msg ''carrier object has no chunks'') (
     and_then (check_chunk_entries (length entries) 0 entries) (\<lambda>_.
     Inr (map (\<lambda>e. directory @ [fst e]) entries))))"

text \<open>\<^verbatim>\<open>ChunkReader\<close>: the paths from \<^verbatim>\<open>next\<close> on, and what is left of the open file.\<close>

record chunk_reader =
  ck_paths :: "string list list"
  ck_current :: "bytes option"

definition chunk_reader_of :: "string list list \<Rightarrow> chunk_reader" where
  "chunk_reader_of paths = \<lparr>ck_paths = paths, ck_current = None\<rparr>"

text \<open>One \<^verbatim>\<open>read\<close> into a buffer of the given size.\<close>

function chunk_read :: "node \<Rightarrow> nat \<Rightarrow> chunk_reader \<Rightarrow> (bytes \<times> chunk_reader) result" where
  "chunk_read n sz r = (case ck_current r of
     Some data \<Rightarrow>
       (if take sz data \<noteq> [] then Inr (take sz data, r\<lparr>ck_current := Some (drop sz data)\<rparr>)
        else chunk_read n sz (r\<lparr>ck_current := None\<rparr>))
   | None \<Rightarrow> (case ck_paths r of
       [] \<Rightarrow> Inr ([], r)
     | path # paths \<Rightarrow> (case node_at n path of
         Some (File data) \<Rightarrow> chunk_read n sz (r\<lparr>ck_current := Some data, ck_paths := paths\<rparr>)
       | _ \<Rightarrow> Inl (err (Io InvalidData)))))"
  by pat_completeness auto

termination
  by (relation "measure (\<lambda>(n, sz, r). 2 * length (ck_paths r) + (case ck_current r of None \<Rightarrow> 0 | Some _ \<Rightarrow> 1))") auto

declare chunk_read.simps [simp del]

text \<open>The bytes a reader has still to give, and the loop of \<^verbatim>\<open>reader_id\<close> up to the digest.\<close>

definition file_bytes :: "node \<Rightarrow> string list \<Rightarrow> bytes" where
  "file_bytes n path = (case node_at n path of Some (File data) \<Rightarrow> data | _ \<Rightarrow> [])"

definition pending_bytes :: "node \<Rightarrow> chunk_reader \<Rightarrow> bytes" where
  "pending_bytes n r = (case ck_current r of None \<Rightarrow> [] | Some data \<Rightarrow> data) @ concat (map (file_bytes n) (ck_paths r))"

lemma chunk_read_pending:
  "chunk_read n sz r = Inr (piece, r') \<Longrightarrow> 0 < sz \<Longrightarrow> pending_bytes n r = piece @ pending_bytes n r'
     \<and> (piece = [] \<longrightarrow> pending_bytes n r = [])"
proof (induction n sz r arbitrary: piece r' rule: chunk_read.induct)
  case (1 n sz r)
  show ?case
  proof (cases "ck_current r")
    case None
    show ?thesis
    proof (cases "ck_paths r")
      case Nil
      then show ?thesis using "1.prems" None by (simp add: chunk_read.simps [of n sz r] pending_bytes_def)
    next
      case (Cons p ps)
      obtain data where data: "node_at n p = Some (File data)"
        using "1.prems" None Cons by (auto simp: chunk_read.simps [of n sz r] split: option.splits node.splits)
      have "chunk_read n sz (r\<lparr>ck_current := Some data, ck_paths := ps\<rparr>) = Inr (piece, r')"
        using "1.prems"(1) None Cons data by (simp add: chunk_read.simps [of n sz r])
      moreover have "pending_bytes n r = pending_bytes n (r\<lparr>ck_current := Some data, ck_paths := ps\<rparr>)"
        using data None Cons by (simp add: pending_bytes_def file_bytes_def)
      ultimately show ?thesis using "1.IH"(1) [OF None Cons data refl _ "1.prems"(2)] by metis
    qed
  next
    case (Some data)
    show ?thesis
    proof (cases "take sz data = []")
      case True
      then have "data = []" using "1.prems"(2) by simp
      then have "pending_bytes n r = pending_bytes n (r\<lparr>ck_current := None\<rparr>)"
        using Some by (simp add: pending_bytes_def)
      moreover have "chunk_read n sz (r\<lparr>ck_current := None\<rparr>) = Inr (piece, r')"
        using "1.prems"(1) Some True by (simp add: chunk_read.simps [of n sz r])
      ultimately show ?thesis using "1.IH"(2) [OF Some _ _ "1.prems"(2)] True by metis
    next
      case False
      then show ?thesis using "1.prems" Some
        by (auto simp: chunk_read.simps [of n sz r] pending_bytes_def)
    qed
  qed
qed

function reader_bytes :: "node \<Rightarrow> chunk_reader \<Rightarrow> bytes \<Rightarrow> bytes result" where
  "reader_bytes n r hashed =
     and_then (chunk_read n (64 * 1024) r) (\<lambda>(piece, r').
     if piece = [] then Inr hashed else reader_bytes n r' (hashed @ piece))"
  by pat_completeness auto

termination
  by (relation "measure (\<lambda>(n, r, hashed). length (pending_bytes n r))") (auto dest!: chunk_read_pending)

declare reader_bytes.simps [simp del]

definition reader_id :: "'a prims_scheme \<Rightarrow> node \<Rightarrow> string list list \<Rightarrow> string result" where
  "reader_id P n paths =
     and_then (reader_bytes n (chunk_reader_of paths) []) (\<lambda>hashed. Inr (hex_encode P (sha256 P hashed)))"

section \<open>Staging an object\<close>

text \<open>\<^verbatim>\<open>CarrierObjectStage\<close>: the files of its staging directory, in the order of their creation, and the
  name of the open one.\<close>

record chunk_stage =
  ct_files :: "(string \<times> bytes) list"
  ct_current :: "string option"
  ct_chunk_index :: nat
  ct_chunk_len :: nat

definition new_chunk_stage :: chunk_stage where
  "new_chunk_stage = \<lparr>ct_files = [], ct_current = None, ct_chunk_index = 0, ct_chunk_len = 0\<rparr>"

definition open_chunk :: "chunk_stage \<Rightarrow> chunk_stage result" where
  "open_chunk st = (case ct_current st of
     Some _ \<Rightarrow> Inr st
   | None \<Rightarrow>
       let name = pad8 (ct_chunk_index st) in
       bail_if (map_of (ct_files st) name \<noteq> None) (Io AlreadyExists) (
       Inr (st\<lparr>ct_files := ct_files st @ [(name, [])], ct_current := Some name, ct_chunk_len := 0\<rparr>)))"

definition finish_chunk :: "chunk_stage \<Rightarrow> chunk_stage" where
  "finish_chunk st = (case ct_current st of
     None \<Rightarrow> st
   | Some _ \<Rightarrow> st\<lparr>ct_current := None, ct_chunk_index := ct_chunk_index st + 1, ct_chunk_len := 0\<rparr>)"

definition write_current :: "bytes \<Rightarrow> chunk_stage \<Rightarrow> chunk_stage" where
  "write_current data st = st\<lparr>ct_files :=
     map (\<lambda>(name, b). (name, if ct_current st = Some name then b @ data else b)) (ct_files st)\<rparr>"

text \<open>One turn of the loop of \<^verbatim>\<open>write\<close>: what is left to write, and the stage.\<close>

definition write_turn :: "bytes \<Rightarrow> chunk_stage \<Rightarrow> (bytes \<times> chunk_stage) result" where
  "write_turn data st =
     and_then (open_chunk st) (\<lambda>st1.
     let available = CARRIER_CHUNK_SIZE - ct_chunk_len st1;
         taken = min available (length data);
         st2 = (write_current (take taken data) st1)\<lparr>ct_chunk_len := ct_chunk_len st1 + taken\<rparr> in
     Inr (drop taken data, if ct_chunk_len st2 = CARRIER_CHUNK_SIZE then finish_chunk st2 else st2))"

partial_function (option) carrier_write :: "bytes \<Rightarrow> chunk_stage \<Rightarrow> chunk_stage result option" where
  "carrier_write data st =
     (if data = [] then Some (Inr st)
      else case write_turn data st of
        Inl e \<Rightarrow> Some (Inl e)
      | Inr next \<Rightarrow> carrier_write (fst next) (snd next))"

definition carrier_publish ::
    "'a prims_scheme \<Rightarrow> object_kind \<Rightarrow> string \<Rightarrow> chunk_stage \<Rightarrow> (unit, node) act" where
  "carrier_publish P kind i st n =
     (let st = finish_chunk st;
          target = object_components kind i in
      if ct_chunk_index st = 0 then (Inl (err (Msg ''cannot store an empty carrier object'')), n)
      else if node_at n target \<noteq> None then
        (and_then (validated_chunk_paths target n) (\<lambda>paths.
         and_then (reader_id P n paths) (\<lambda>found.
         bail_if (found \<noteq> i) (Msg (''object id collision for '' @ i)) (Inr ()))), n)
      else
        act_then (create_dir_all (butlast target)) (\<lambda>_.
        rename_dir (Dir (map (\<lambda>(name, b). (name, File b)) (ct_files st))) target) n)"

section \<open>Reading chunk blobs\<close>

text \<open>The \<^verbatim>\<open>cat-file --batch\<close> process of a repository: what it answers to a name (the header line, and
  what it writes after it), its exit status, and how many bytes of the pending output one read of
  the pipe yields when so many are asked for.\<close>

record cat_process =
  cp_answer :: "string \<Rightarrow> (bytes \<times> bytes) result"
  cp_exit :: "bool result"
  cp_read :: "bytes \<Rightarrow> nat \<Rightarrow> nat"

definition cat_header :: "cat_process \<Rightarrow> string \<Rightarrow> batch_header result" where
  "cat_header cat object = cat_request (\<lambda>name. and_then (cp_answer cat name) (\<lambda>a. Inr (fst a))) object"

definition cat_output :: "cat_process \<Rightarrow> string \<Rightarrow> bytes result" where
  "cat_output cat object = and_then (cp_answer cat object) (\<lambda>a. Inr (snd a))"

definition cat_end_body :: "bytes \<Rightarrow> bytes result" where
  "cat_end_body output =
     bail_if (output = []) (Io UnexpectedEof) (
     bail_if (hd output \<noteq> 0x0A) (Io InvalidData) (
     Inr (tl output)))"

definition cat_finish :: "cat_process \<Rightarrow> unit result" where
  "cat_finish cat = and_then (cp_exit cat) (\<lambda>success. bail_if (\<not> success) (Io OtherIo) (Inr ()))"

definition carrier_blob :: "cat_process \<Rightarrow> string \<Rightarrow> nat \<Rightarrow> bounded result" where
  "carrier_blob cat object max_bytes =
     and_then (cat_header cat object) (\<lambda>header. case header of
       Missing \<Rightarrow> Inr BoundedAbsent
     | Object _ kind sz \<Rightarrow>
         if kind \<noteq> BlobType then Inr BoundedNotRegular
         else if sz > max_bytes then Inr BoundedOversized
         else
           and_then (cat_output cat object) (\<lambda>output.
           bail_if (length output < sz) (Io UnexpectedEof) (
           and_then (cat_end_body (drop sz output)) (\<lambda>_.
           and_then (cat_finish cat) (\<lambda>_.
           Inr (Within (take sz output)))))))"

text \<open>\<^verbatim>\<open>GitChunkReader\<close>: the chunks from \<^verbatim>\<open>next\<close> on, \<^verbatim>\<open>next\<close>, \<^verbatim>\<open>remaining\<close>, and the pending output.\<close>

record git_chunk_reader =
  gk_chunks :: "(string \<times> string) list"
  gk_next :: nat
  gk_remaining :: nat
  gk_output :: bytes

definition git_chunk_reader_new :: "(string \<times> string) list \<Rightarrow> git_chunk_reader" where
  "git_chunk_reader_new chunks = \<lparr>gk_chunks = chunks, gk_next = 0, gk_remaining = 0, gk_output = []\<rparr>"

definition chunk_index :: "git_chunk_reader \<Rightarrow> nat" where
  "chunk_index r = gk_next r - 1"

definition start_next_chunk :: "cat_process \<Rightarrow> git_chunk_reader \<Rightarrow> git_chunk_reader result" where
  "start_next_chunk cat r =
     (let expected = snd (hd (gk_chunks r)) in
      and_then (cat_header cat expected) (\<lambda>header. case header of
        Missing \<Rightarrow> Inl (err (Io InvalidData))
      | Object i kind sz \<Rightarrow>
          bail_if (\<not> (i = expected \<and> kind = BlobType)) (Io InvalidData) (
          let last = (tl (gk_chunks r) = []) in
          bail_if ((\<not> last \<and> sz \<noteq> CARRIER_CHUNK_BYTES) \<or> (last \<and> (sz = 0 \<or> sz > CARRIER_CHUNK_BYTES)))
            (Io InvalidData) (
          and_then (cat_output cat expected) (\<lambda>output.
          Inr (r\<lparr>gk_chunks := tl (gk_chunks r), gk_next := gk_next r + 1, gk_remaining := sz,
            gk_output := output\<rparr>))))))"

definition read_body :: "cat_process \<Rightarrow> nat \<Rightarrow> git_chunk_reader \<Rightarrow> (bytes \<times> git_chunk_reader) result" where
  "read_body cat sz r =
     (let amount = min sz (gk_remaining r);
          got = take (min amount (max 1 (cp_read cat (gk_output r) amount))) (gk_output r);
          r' = r\<lparr>gk_remaining := gk_remaining r - length got, gk_output := drop (length got) (gk_output r)\<rparr> in
      bail_if (got = []) (Io UnexpectedEof) (
      if gk_remaining r' = 0 then
        and_then (cat_end_body (gk_output r')) (\<lambda>output.
        Inr (got, r'\<lparr>gk_output := output\<rparr>))
      else Inr (got, r')))"

definition git_chunk_read :: "cat_process \<Rightarrow> nat \<Rightarrow> git_chunk_reader \<Rightarrow> (bytes \<times> git_chunk_reader) result" where
  "git_chunk_read cat sz r =
     (if sz = 0 then Inr ([], r)
      else if gk_remaining r = 0 then
        (if gk_chunks r = [] then and_then (cat_finish cat) (\<lambda>_. Inr ([], r))
         else and_then (start_next_chunk cat r) (read_body cat sz))
      else read_body cat sz r)"

text \<open>What one read of the pipe yields.\<close>

definition pipe_read :: "cat_process \<Rightarrow> nat \<Rightarrow> git_chunk_reader \<Rightarrow> bytes" where
  "pipe_read cat sz r = (let amount = min sz (gk_remaining r) in
     take (min amount (max 1 (cp_read cat (gk_output r) amount))) (gk_output r))"

lemma take_drop_length: "take k xs @ drop (length (take k xs)) xs = xs"
  by (cases "k \<le> length xs") simp_all

lemma length_pipe_read: "length (pipe_read cat sz r) \<le> gk_remaining r"
  by (simp add: pipe_read_def Let_def)

lemma read_body_cases:
  assumes "read_body cat sz r = Inr (piece, r')"
  shows "piece = pipe_read cat sz r" and "piece \<noteq> []"
    and "gk_chunks r' = gk_chunks r" and "gk_remaining r' = gk_remaining r - length piece"
    and "gk_next r' = gk_next r"
    and "gk_remaining r' = 0 \<Longrightarrow> \<exists>rest. gk_output r = piece @ 0x0A # rest \<and> gk_output r' = rest"
    and "gk_remaining r' \<noteq> 0 \<Longrightarrow> gk_output r = piece @ gk_output r'"
proof -
  define got where "got = pipe_read cat sz r"
  define r1 where "r1 = r\<lparr>gk_remaining := gk_remaining r - length got, gk_output := drop (length got) (gk_output r)\<rparr>"
  have "gk_output r1 = drop (length got) (gk_output r)" by (simp add: r1_def)
  then have whole_output: "gk_output r = got @ gk_output r1"
    unfolding got_def pipe_read_def Let_def by (simp only: take_drop_length)
  have "read_body cat sz r = bail_if (got = []) (Io UnexpectedEof) (
      if gk_remaining r1 = 0 then and_then (cat_end_body (gk_output r1)) (\<lambda>output. Inr (got, r1\<lparr>gk_output := output\<rparr>))
      else Inr (got, r1))"
    unfolding read_body_def got_def r1_def pipe_read_def Let_def ..
  with assms have got: "got \<noteq> []" "piece = got"
    and z: "gk_remaining r1 = 0 \<Longrightarrow> \<exists>output. cat_end_body (gk_output r1) = Inr output \<and> r' = r1\<lparr>gk_output := output\<rparr>"
    and nz: "gk_remaining r1 \<noteq> 0 \<Longrightarrow> r' = r1"
    by (auto simp: bail_if_eq_Inr and_then_eq_Inr split: if_splits)
  have r': "gk_chunks r' = gk_chunks r \<and> gk_remaining r' = gk_remaining r1 \<and> gk_next r' = gk_next r"
    using z nz by (cases "gk_remaining r1 = 0") (auto simp: r1_def)
  show "piece = pipe_read cat sz r" "piece \<noteq> []" "gk_chunks r' = gk_chunks r"
    "gk_remaining r' = gk_remaining r - length piece" "gk_next r' = gk_next r"
    using got r' by (simp_all add: got_def r1_def)
  show "gk_remaining r' \<noteq> 0 \<Longrightarrow> gk_output r = piece @ gk_output r'" using r' nz got whole_output by simp
  show "gk_remaining r' = 0 \<Longrightarrow> \<exists>rest. gk_output r = piece @ 0x0A # rest \<and> gk_output r' = rest"
    using r' z got whole_output
    by (cases "gk_output r1") (auto simp: cat_end_body_def bail_if_eq_Inr)
qed

lemma read_body_decreases:
  assumes "read_body cat sz r = Inr (piece, r')"
  shows "gk_chunks r' = gk_chunks r \<and> gk_remaining r' < gk_remaining r"
  using read_body_cases(1-4) [OF assms] length_pipe_read [of cat sz r] diff_less [of "length piece" "gk_remaining r"]
  by (metis bot_nat_0.not_eq_extremum le_zero_eq length_0_conv)

lemma start_next_chunk_decreases:
  assumes "start_next_chunk cat r = Inr r'"
  shows "gk_chunks r' = tl (gk_chunks r)"
proof -
  from assms obtain header where header: "cat_header cat (snd (hd (gk_chunks r))) = Inr header"
    by (auto simp: start_next_chunk_def Let_def and_then_eq_Inr)
  then show ?thesis using assms
    by (cases header) (auto simp: start_next_chunk_def Let_def bail_if_eq_Inr and_then_eq_Inr)
qed

lemma git_chunk_read_decreases:
  assumes "git_chunk_read cat sz r = Inr (piece, r')" and "piece \<noteq> []"
  shows "length (gk_chunks r') < length (gk_chunks r)
    \<or> gk_chunks r' = gk_chunks r \<and> gk_remaining r' < gk_remaining r"
proof (cases "gk_remaining r = 0")
  case True
  then obtain r1 where r1: "gk_chunks r \<noteq> []" "start_next_chunk cat r = Inr r1" "read_body cat sz r1 = Inr (piece, r')"
    using assms by (auto simp: git_chunk_read_def and_then_eq_Inr split: if_splits)
  then show ?thesis using read_body_decreases start_next_chunk_decreases by fastforce
next
  case False
  then show ?thesis using assms read_body_decreases by (auto simp: git_chunk_read_def split: if_splits)
qed

text \<open>The loop of \<^verbatim>\<open>read_copy_at\<close>: every piece goes to the sink with the index of its chunk. The result is
  what was hashed, or nothing when the copy is malformed.\<close>

function read_copy_loop :: "cat_process \<Rightarrow> (nat \<Rightarrow> bytes \<Rightarrow> (unit, 's) act) \<Rightarrow> git_chunk_reader \<Rightarrow> bytes
    \<Rightarrow> (bytes option, 's) act" where
  "read_copy_loop cat sink r hashed s = (case git_chunk_read cat (64 * 1024) r of
     Inl e \<Rightarrow> if root e = Io InvalidData then (Inr None, s) else (Inl e, s)
   | Inr (piece, r') \<Rightarrow>
       if piece = [] then (Inr (Some hashed), s)
       else case sink (chunk_index r') piece s of
         (Inl e, s') \<Rightarrow> (Inl e, s')
       | (Inr _, s') \<Rightarrow> read_copy_loop cat sink r' (hashed @ piece) s')"
  by pat_completeness auto

termination
  by (relation "measures [\<lambda>(cat, sink, r, hashed, s). length (gk_chunks r), \<lambda>(cat, sink, r, hashed, s). gk_remaining r]")
    (auto dest: git_chunk_read_decreases)

declare read_copy_loop.simps [simp del]

section \<open>Listings\<close>

datatype carrier_listing = ListingAbsent | ListingMalformed string | ListingChunks "(string \<times> string) list"

text \<open>One entry of the loop of \<^verbatim>\<open>parse_chunk_listing\<close>.\<close>

definition parse_chunk_entry :: "string \<Rightarrow> bytes \<Rightarrow> string + string \<times> string" where
  "parse_chunk_entry directory entry =
     (if 0x09 \<notin> set entry then Inl ''carrier tree entry has no path''
      else
      let metadata = takeWhile (\<lambda>b. b \<noteq> 0x09) entry;
          path = drop (length metadata + 1) entry in
      case from_utf8 metadata of
        None \<Rightarrow> Inl ''carrier tree entry is not UTF-8''
      | Some metadata \<Rightarrow>
      (case from_utf8 path of
        None \<Rightarrow> Inl ''carrier object path is not UTF-8''
      | Some path \<Rightarrow>
      (case split_ascii_whitespace metadata of
        mode # kind # rest \<Rightarrow>
          if mode \<noteq> ''100644'' \<or> kind \<noteq> ''blob'' then Inl ''carrier object contains a non-regular blob''
          else (case rest of
            [] \<Rightarrow> Inl ''carrier blob has no id''
          | blob_id # extra \<Rightarrow>
              if extra \<noteq> [] \<or> \<not> starts_with path (directory @ ''/'') then Inl ''unexpected carrier object path''
              else Inr (path, blob_id))
      | _ \<Rightarrow> Inl ''carrier object contains a non-regular blob'')))"

fun parse_chunk_entries :: "string \<Rightarrow> bytes list \<Rightarrow> string + (string \<times> string) list" where
  "parse_chunk_entries directory [] = Inr []"
| "parse_chunk_entries directory (entry # entries) = (case parse_chunk_entry directory entry of
     Inl reason \<Rightarrow> Inl reason
   | Inr chunk \<Rightarrow> (case parse_chunk_entries directory entries of
       Inl reason \<Rightarrow> Inl reason
     | Inr chunks \<Rightarrow> Inr (chunk # chunks)))"

fun dense_chunk_paths :: "string \<Rightarrow> nat \<Rightarrow> (string \<times> string) list \<Rightarrow> bool" where
  "dense_chunk_paths directory index [] = True"
| "dense_chunk_paths directory index ((path, _) # chunks) =
     (path = directory @ ''/'' @ pad8 index \<and> dense_chunk_paths directory (index + 1) chunks)"

definition parse_chunk_listing :: "bytes \<Rightarrow> string \<Rightarrow> string + (string \<times> string) list" where
  "parse_chunk_listing listing directory =
     (case parse_chunk_entries directory (filter (\<lambda>entry. entry \<noteq> []) (split_on 0 listing)) of
        Inl reason \<Rightarrow> Inl reason
      | Inr chunks \<Rightarrow>
          let chunks = sort_key fst chunks in
          if chunks = [] \<or> length chunks > MAX_CHUNKS_PER_OBJECT
          then Inl ''carrier object has an invalid chunk count''
          else if \<not> dense_chunk_paths directory 0 chunks
          then Inl ''carrier object chunks are not a dense canonical sequence''
          else Inr chunks)"

section \<open>Carriers and caches by name\<close>

definition is_ascii_alphabetic :: "char \<Rightarrow> bool" where
  "is_ascii_alphabetic c = (let byte = (of_char c :: nat) in (0x41 \<le> byte \<and> byte \<le> 0x5A) \<or> (0x61 \<le> byte \<and> byte \<le> 0x7A))"

definition is_ascii_alphanumeric :: "char \<Rightarrow> bool" where
  "is_ascii_alphanumeric c = (is_ascii_alphabetic c \<or> (let byte = (of_char c :: nat) in 0x30 \<le> byte \<and> byte \<le> 0x39))"

definition valid_cache_generation :: "string \<Rightarrow> bool" where
  "valid_cache_generation value =
     (starts_with value ''objects-'' \<and> list_all (\<lambda>c. is_ascii_alphanumeric c \<or> c = CHR ''-'') value)"

text \<open>The environment variables, the current directory, and \<^verbatim>\<open>fs::canonicalize\<close>.\<close>

record carrier_env =
  ce_var :: "string \<Rightarrow> string option"
  ce_paths :: path_env
  ce_canonicalize :: "string \<Rightarrow> string result"

definition carrier_cache_root :: "carrier_env \<Rightarrow> string result" where
  "carrier_cache_root E = (case ce_var E CARRIER_CACHE_ENV of
     Some override_dir \<Rightarrow>
       bail_if (override_dir = []) (Msg (CARRIER_CACHE_ENV @ '' must not be empty'')) (Inr override_dir)
   | None \<Rightarrow>
       and_then (case ce_var E ''XDG_CACHE_HOME'' of
           Some path \<Rightarrow> if path \<noteq> [] then Inr (Some path) else Inr None
         | None \<Rightarrow> Inr None) (\<lambda>xdg.
       and_then (case xdg of
           Some path \<Rightarrow> Inr path
         | None \<Rightarrow> and_then (ok_or (ce_var E ''HOME'') (Msg ''HOME is unset and XDG_CACHE_HOME is unset'')) (\<lambda>home.
             Inr (path_push home ''.cache''))) (\<lambda>cache_home.
       Inr (path_push (path_push cache_home ''git-remote-e2ee'') ''carrier''))))"

definition parse_carrier_location :: "string \<Rightarrow> (string \<times> string) result" where
  "parse_carrier_location location =
     (let (remote, branch) = (case rsplit_once (CHR ''#'') location of
           Some (remote, branch) \<Rightarrow> (remote, branch)
         | None \<Rightarrow> (location, CARRIER_DEFAULT_BRANCH)) in
      bail_if (remote = []) (Msg ''empty carrier Git remote'') (
      bail_if (branch = []) (Msg ''empty carrier branch'') (
      bail_if (\<not> is_valid (''refs/heads/'' @ branch) \<or> starts_with branch ''-'') (Msg ''invalid carrier branch name'') (
      Inr (remote, branch)))))"

definition trim_end_slashes :: "string \<Rightarrow> string" where
  "trim_end_slashes s = rev (dropWhile (\<lambda>c. c = CHR ''/'') (rev s))"

fun contains_str :: "string \<Rightarrow> string \<Rightarrow> bool" where
  "contains_str [] p = (p = [])"
| "contains_str (c # cs) p = (starts_with (c # cs) p \<or> contains_str cs p)"

text \<open>The form \<^verbatim>\<open>host:path\<close>, of which a drive letter and a local path are no instances.\<close>

definition scp_remote :: "string \<Rightarrow> (string \<times> string) option" where
  "scp_remote remote =
     (if remote \<noteq> trim remote then None
      else case split_once (CHR '':'') remote of
        None \<Rightarrow> None
      | Some (host, path) \<Rightarrow>
          if host \<noteq> [] \<and> CHR ''/'' \<notin> set host \<and> CHR 0x5C \<notin> set host
             \<and> \<not> (length host = 1 \<and> is_ascii_alphabetic (hd host))
             \<and> \<not> starts_with remote ''./'' \<and> \<not> starts_with remote ''../'' \<and> \<not> starts_with remote ''/''
          then Some (host, path) else None)"

definition lexically_normalize :: "string \<Rightarrow> string" where
  "lexically_normalize path =
     foldl path_push (if is_absolute path then ''/'' else [])
       (foldl (\<lambda>cs c. if c = ''..'' then butlast cs else cs @ [c]) [] (path_components path))"

definition normalize_carrier_remote :: "carrier_env \<Rightarrow> string \<Rightarrow> string result" where
  "normalize_carrier_remote E remote =
     bail_if (trim remote = []) (Msg ''empty carrier Git remote'') (
     if contains_str remote ''://'' then Inr (trim_end_slashes (trim remote))
     else case scp_remote remote of
       Some (host, path) \<Rightarrow> Inr (host @ '':'' @ trim_end_slashes path)
     | None \<Rightarrow>
         and_then (if is_absolute remote then Inr remote
           else and_then (pe_current_dir (ce_paths E)) (\<lambda>dir. Inr (path_push dir remote))) (\<lambda>absolute.
         case ce_canonicalize E absolute of
           Inr path \<Rightarrow> Inr path
         | Inl _ \<Rightarrow> Inr (lexically_normalize absolute)))"

end
