(* ===== verification/Carrier_Git.thy ===== *)
theory Carrier_Git
  imports Carrier_Chunks Gitcmd
begin

text \<open>
  \<^verbatim>\<open>src/storage.rs\<close>, how the Git carrier runs git, and its cache: a bare repository for each remote and
  branch that fetches the carrier branch and lends its objects to the temporary checkouts. Git is
  a parameter: a process takes the command the code builds to an exit status and an output, and
  may change the checkout, the cache and everything git keeps, the remote included.
\<close>

section \<open>The world of a carrier\<close>

text \<open>The working tree of the checkout, the files of the cache directory, the path of the cache that is
  locked (\<^verbatim>\<open>CarrierCache::path\<close>), the commit the storage was opened at, the random suffixes that will be
  drawn, and git's own state.\<close>

record 'c carrier_world =
  cw_checkout :: node
  cw_cache :: tree
  cw_path :: string
  cw_base :: "string option"
  cw_random :: "nat \<Rightarrow> string"
  cw_git :: 'c

record process =
  pr_command :: git_command
  pr_env :: "(string \<times> string) list"
  pr_input :: bytes

type_synonym process_output = "int option \<times> bytes"

type_synonym ('a, 'c) carrier_act = "('a, 'c carrier_world) act"

text \<open>What surrounds the code: git, the environment, the process identifier, the path of the temporary
  checkout, and the fault and suffix of the replacement of the file that names the cache.\<close>

record 'c carrier_io =
  ci_run :: "process \<Rightarrow> (process_output, 'c) carrier_act"
  ci_cat :: "git_handle \<Rightarrow> 'c carrier_world \<Rightarrow> cat_process result"
  ci_env :: carrier_env
  ci_pid :: string
  ci_checkout :: string
  ci_current :: "io_fault option \<times> string"

definition in_checkout :: "('a, node) act \<Rightarrow> ('a, 'c) carrier_act" where
  "in_checkout m w = (case m (cw_checkout w) of (r, n) \<Rightarrow> (r, w\<lparr>cw_checkout := n\<rparr>))"

section \<open>Running git\<close>

text \<open>A process does not change the memory of the program.\<close>

definition run_process ::
    "'c carrier_io \<Rightarrow> git_command \<Rightarrow> (string \<times> string) list \<Rightarrow> string list \<Rightarrow> bytes \<Rightarrow> (process_output, 'c) carrier_act" where
  "run_process X command env args input w =
     (case ci_run X \<lparr>pr_command = add_args args command, pr_env = env, pr_input = input\<rparr> w of
        (r, w') \<Rightarrow> (r, w'\<lparr>cw_path := cw_path w, cw_base := cw_base w, cw_random := cw_random w\<rparr>))"

definition git_output :: "'c carrier_io \<Rightarrow> string \<Rightarrow> string list \<Rightarrow> (process_output, 'c) carrier_act" where
  "git_output X repo args = run_process X (git (owned_work_tree repo)) [] args []"

definition succeeded :: "process_output \<Rightarrow> bool" where
  "succeeded output \<longleftrightarrow> fst output = Some 0"

definition ensure_git_success :: "process_output \<Rightarrow> string \<Rightarrow> unit result" where
  "ensure_git_success output action = bail_if (\<not> succeeded output) (Msg (action @ '' failed'')) (Inr ())"

text \<open>\<^verbatim>\<open>String::from_utf8_lossy(..).trim()\<close> compared with an ASCII text: a replacement character is neither
  white space nor ASCII.\<close>

definition lossy_trim_is :: "bytes \<Rightarrow> string \<Rightarrow> bool" where
  "lossy_trim_is b text = (case from_utf8 b of Some t \<Rightarrow> trim t = text | None \<Rightarrow> False)"

definition join_args :: "string list \<Rightarrow> string" where
  "join_args args = (case args of [] \<Rightarrow> [] | a # as \<Rightarrow> concat (a # map (\<lambda>b. CHR '' '' # b) as))"

definition git_command :: "'c carrier_io \<Rightarrow> string \<Rightarrow> string list \<Rightarrow> (unit, 'c) carrier_act" where
  "git_command X repo args =
     act_then (git_output X repo args) (\<lambda>output.
     act_ret (ensure_git_success output (''git '' @ join_args args)))"

definition git_command_with_input :: "'c carrier_io \<Rightarrow> string \<Rightarrow> string list \<Rightarrow> bytes \<Rightarrow> (unit, 'c) carrier_act" where
  "git_command_with_input X repo args input =
     act_then (run_process X (git (owned_work_tree repo)) [] args input) (\<lambda>output.
     act_ret (ensure_git_success output (''git '' @ join_args args)))"

definition git_command_with_object_directory_input ::
    "'c carrier_io \<Rightarrow> string \<Rightarrow> string \<Rightarrow> string list \<Rightarrow> bytes \<Rightarrow> (unit, 'c) carrier_act" where
  "git_command_with_object_directory_input X repo objects args input =
     act_then (run_process X (git (owned_work_tree repo)) [(''GIT_OBJECT_DIRECTORY'', objects)] args input) (\<lambda>output.
     act_ret (ensure_git_success output (''git '' @ join_args args)))"

definition git_text_with_object_directory ::
    "'c carrier_io \<Rightarrow> string \<Rightarrow> string \<Rightarrow> string list \<Rightarrow> (string, 'c) carrier_act" where
  "git_text_with_object_directory X repo objects args =
     (let (name, email) = CARRIER_IDENTITY in
      act_then (run_process X (git (owned_work_tree repo))
        [(''GIT_OBJECT_DIRECTORY'', objects), (''GIT_AUTHOR_NAME'', name), (''GIT_AUTHOR_EMAIL'', email),
         (''GIT_COMMITTER_NAME'', name), (''GIT_COMMITTER_EMAIL'', email)] args []) (\<lambda>output.
      act_ret (
        and_then (ensure_git_success output (''git '' @ join_args args)) (\<lambda>_.
        and_then (ok_or (from_utf8 (snd output)) (Msg ''invalid utf-8'')) (\<lambda>text.
        Inr (trim text))))))"

definition git_rev_parse :: "'c carrier_io \<Rightarrow> string \<Rightarrow> string \<Rightarrow> (string option, 'c) carrier_act" where
  "git_rev_parse X repo reference =
     act_then (git_output X repo [''rev-parse'', ''--verify'', ''--quiet'', reference]) (\<lambda>output.
     act_ret (
       if fst output = Some 0 then
         and_then (ok_or (from_utf8 (snd output)) (Msg ''invalid utf-8'')) (\<lambda>text. Inr (Some (trim text)))
       else if fst output = Some 1 then Inr None
       else and_then (ensure_git_success output (''git rev-parse '' @ reference)) (\<lambda>_. Inr None)))"

definition cache_git_output :: "'c carrier_io \<Rightarrow> string \<Rightarrow> string list \<Rightarrow> (process_output, 'c) carrier_act" where
  "cache_git_output X cache args = run_process X (git (owned_git_dir cache)) [] args []"

definition cache_transport_output :: "'c carrier_io \<Rightarrow> string \<Rightarrow> string list \<Rightarrow> (process_output, 'c) carrier_act" where
  "cache_transport_output X cache args = run_process X (transport (owned_git_dir cache)) [] args []"

definition cache_git_command :: "'c carrier_io \<Rightarrow> string \<Rightarrow> string list \<Rightarrow> (unit, 'c) carrier_act" where
  "cache_git_command X cache args =
     act_then (cache_git_output X cache args) (\<lambda>output.
     act_ret (ensure_git_success output (''git '' @ join_args args)))"

text \<open>One command after the other.\<close>

fun run_each :: "('x \<Rightarrow> (unit, 'w) act) \<Rightarrow> 'x list \<Rightarrow> (unit, 'w) act" where
  "run_each f [] = act_ret (Inr ())"
| "run_each f (x # xs) = act_then (f x) (\<lambda>_. run_each f xs)"

definition configure_git_pack_settings :: "(string \<Rightarrow> string \<Rightarrow> (unit, 'c) carrier_act) \<Rightarrow> (unit, 'c) carrier_act" where
  "configure_git_pack_settings configure = run_each (\<lambda>(key, value). configure key value)
     [(''core.compression'', ''0''), (''core.looseCompression'', ''0''), (''pack.compression'', ''0''),
      (''pack.window'', ''0''), (''pack.depth'', ''0''), (''core.bigFileThreshold'', ''1m'')]"

definition configure_cache :: "'c carrier_io \<Rightarrow> string \<Rightarrow> (unit, 'c) carrier_act" where
  "configure_cache X cache =
     act_then (cache_git_command X cache [''config'', ''gc.auto'', ''0'']) (\<lambda>_.
     act_then (cache_git_command X cache [''config'', ''maintenance.auto'', ''false'']) (\<lambda>_.
     configure_git_pack_settings (\<lambda>key value. cache_git_command X cache [''config'', key, value])))"

section \<open>Fetching the carrier branch\<close>

datatype fetch_error = FetchRemote error | FetchLocal error

fun fetch_into_inner :: "fetch_error \<Rightarrow> error" where
  "fetch_into_inner (FetchRemote e) = e"
| "fetch_into_inner (FetchLocal e) = e"

text \<open>\<^verbatim>\<open>map_err\<close> of the whole action into a \<^verbatim>\<open>FetchError\<close>.\<close>

definition fetching :: "(error \<Rightarrow> fetch_error) \<Rightarrow> ('a, 'c) carrier_act \<Rightarrow> ('a \<Rightarrow> 'c carrier_world \<Rightarrow> (fetch_error + 'b) \<times> 'c carrier_world)
    \<Rightarrow> 'c carrier_world \<Rightarrow> (fetch_error + 'b) \<times> 'c carrier_world" where
  "fetching f m k w = (case m w of (Inl e, w') \<Rightarrow> (Inl (f e), w') | (Inr a, w') \<Rightarrow> k a w')"

definition fetch_carrier_branch ::
    "'c carrier_io \<Rightarrow> string \<Rightarrow> string \<Rightarrow> string \<Rightarrow> 'c carrier_world \<Rightarrow> (fetch_error + string option) \<times> 'c carrier_world" where
  "fetch_carrier_branch X cache remote branch =
     (let remote_ref = ''refs/heads/'' @ branch;
          refspec = ''+'' @ remote_ref @ '':'' @ CARRIER_CACHE_FETCH_REF;
          failed = ''git fetch carrier branch failed'' in
      fetching FetchLocal (cache_transport_output X cache [''fetch'', ''--quiet'', ''--no-tags'', remote, refspec]) (\<lambda>fetch.
      if succeeded fetch then
        fetching FetchLocal (git_rev_parse X cache CARRIER_CACHE_FETCH_REF) (\<lambda>tip w. (Inr tip, w))
      else
        fetching (\<lambda>e. FetchRemote (context_of (Msg failed) e))
          (act_then (cache_transport_output X cache [''ls-remote'', ''--heads'', remote, remote_ref]) (\<lambda>output.
           act_ret (and_then (ensure_git_success output ''git ls-remote carrier branch'') (\<lambda>_. Inr output)))) (\<lambda>ls_remote.
        if lossy_trim_is (snd ls_remote) [] then
          fetching FetchLocal
            (act_then (cache_git_output X cache [''update-ref'', ''-d'', CARRIER_CACHE_FETCH_REF]) (\<lambda>output.
             act_ret (ensure_git_success output ''git update-ref delete missing carrier branch''))) (\<lambda>_ w.
          (Inr None, w))
        else (\<lambda>w. (Inl (FetchLocal (err (Msg failed))), w)))))"

definition remote_has_branch :: "'c carrier_io \<Rightarrow> string \<Rightarrow> string \<Rightarrow> string \<Rightarrow> (bool, 'c) carrier_act" where
  "remote_has_branch X cache remote branch =
     act_then (cache_transport_output X cache [''ls-remote'', ''--heads'', remote, ''refs/heads/'' @ branch]) (\<lambda>output.
     act_ret (and_then (ensure_git_success output ''git ls-remote carrier branches'') (\<lambda>_.
     Inr (snd output \<noteq> []))))"

section \<open>The cache\<close>

text \<open>\<^verbatim>\<open>CarrierCache::lock\<close>: the directory of the cache of a remote and a branch. The lock is held by the
  operation that follows.\<close>

definition carrier_lock :: "'a prims_scheme \<Rightarrow> 'c carrier_io \<Rightarrow> string \<Rightarrow> string \<Rightarrow> (string, 'c) carrier_act" where
  "carrier_lock P X remote branch w =
     (and_then (normalize_carrier_remote (ci_env X) remote) (\<lambda>normalized.
      let hash = hex_encode P (sha256 P (as_bytes (normalized @ ''#'' @ branch))) in
      and_then (carrier_cache_root (ci_env X)) (\<lambda>root_dir.
      and_then (ce_canonicalize (ci_env X) root_dir) (\<lambda>root_dir.
      Inr (path_push root_dir hash)))), w\<lparr>cw_path := []\<rparr>)"

definition publish_current :: "'c carrier_io \<Rightarrow> string \<Rightarrow> (unit, 'c) carrier_act" where
  "publish_current X remote_dir w =
     (case rsplit_once (CHR ''/'') (cw_path w) of
        None \<Rightarrow> (Inl (err (Msg ''carrier cache generation has no name'')), w)
      | Some (_, generation) \<Rightarrow>
          (case replace_file_durably (fst (ci_current X)) (snd (ci_current X)) remote_dir ''current''
              (as_bytes (generation @ [CHR 0x0A])) (cw_cache w) of
             (r, fs) \<Rightarrow> (replace_result r, w\<lparr>cw_cache := fs\<rparr>)))"

definition initialize_generation :: "'c carrier_io \<Rightarrow> string \<Rightarrow> (unit, 'c) carrier_act" where
  "initialize_generation X remote_dir w =
     (let generation = ''objects-'' @ ci_pid X @ ''-'' @ cw_random w 0;
          path = path_push remote_dir generation in
      act_then (run_process X without_repository [] [''init'', ''--bare'', ''--quiet'', path] []) (\<lambda>output.
      act_then (act_ret (ensure_git_success output ''git init --bare carrier cache'')) (\<lambda>_.
      act_then (configure_cache X path) (\<lambda>_.
      act_then (cache_git_command X path [''symbolic-ref'', ''HEAD'', CARRIER_CACHE_FETCH_REF]) (\<lambda>_.
      publish_current X remote_dir))))
      (w\<lparr>cw_path := path, cw_random := (\<lambda>n. cw_random w (Suc n))\<rparr>))"

definition cache_is_corrupt :: "'c carrier_io \<Rightarrow> (bool, 'c) carrier_act" where
  "cache_is_corrupt X w =
     act_then (cache_git_output X (cw_path w) [''fsck'', ''--full'']) (\<lambda>output.
     act_ret (Inr (\<not> succeeded output))) w"

text \<open>The other generations below the directory of the cache.\<close>

definition replaced_generation :: "string \<Rightarrow> string \<Rightarrow> string \<Rightarrow> bool" where
  "replaced_generation remote_dir current path = (case strip_prefix path (path_push remote_dir []) of
     None \<Rightarrow> False
   | Some name \<Rightarrow> valid_cache_generation name \<and> path \<noteq> current)"

definition rebuild :: "'c carrier_io \<Rightarrow> string \<Rightarrow> (unit, 'c) carrier_act" where
  "rebuild X remote_dir =
     act_then (initialize_generation X remote_dir) (\<lambda>_ w.
     (Inr (), w\<lparr>cw_cache := (\<lambda>path.
        if replaced_generation remote_dir (cw_path w) path then None else cw_cache w path)\<rparr>))"

definition current_generation :: "string \<Rightarrow> tree \<Rightarrow> string option" where
  "current_generation remote_dir cache = (case cache (join_path remote_dir ''current'') of
     Some (RegularFile b) \<Rightarrow> (case from_utf8 b of
         Some text \<Rightarrow> if valid_cache_generation (trim text) then Some (trim text) else None
       | None \<Rightarrow> None)
   | _ \<Rightarrow> None)"

text \<open>The probe of an existing cache: a process that cannot be run makes it unusable.\<close>

definition cache_usable :: "'c carrier_io \<Rightarrow> (bool, 'c) carrier_act" where
  "cache_usable X w =
     (if cw_path w = [] \<or> cw_cache w (cw_path w) = None then (Inr False, w)
      else case cache_git_output X (cw_path w) [''rev-parse'', ''--is-bare-repository''] w of
        (Inl _, w') \<Rightarrow> (Inr False, w')
      | (Inr output, w') \<Rightarrow> (Inr (succeeded output \<and> lossy_trim_is (snd output) ''true''), w'))"

definition ensure_initialized :: "'c carrier_io \<Rightarrow> string \<Rightarrow> (unit, 'c) carrier_act" where
  "ensure_initialized X remote_dir w =
     act_then (cache_usable X) (\<lambda>usable.
     act_then (if usable then act_ret (Inr ()) else initialize_generation X remote_dir) (\<lambda>_ w.
     case configure_cache X (cw_path w) w of
       (Inl _, w') \<Rightarrow> rebuild X remote_dir w'
     | (Inr _, w') \<Rightarrow> (Inr (), w')))
     (case current_generation remote_dir (cw_cache w) of
        Some generation \<Rightarrow> w\<lparr>cw_path := path_push remote_dir generation\<rparr>
      | None \<Rightarrow> w)"

definition cache_refresh :: "'c carrier_io \<Rightarrow> string \<Rightarrow> string \<Rightarrow> string \<Rightarrow> (string option, 'c) carrier_act" where
  "cache_refresh X remote_dir remote branch =
     act_then (ensure_initialized X remote_dir) (\<lambda>_ w.
     case fetch_carrier_branch X (cw_path w) remote branch w of
       (Inr tip, w') \<Rightarrow> (Inr tip, w')
     | (Inl (FetchRemote e), w') \<Rightarrow> (Inl e, w')
     | (Inl (FetchLocal e), w') \<Rightarrow>
         act_then (cache_is_corrupt X) (\<lambda>corrupt.
         if \<not> corrupt then act_ret (Inl e)
         else
           act_then (rebuild X remote_dir) (\<lambda>_ w.
           case fetch_carrier_branch X (cw_path w) remote branch w of
             (Inr tip, w') \<Rightarrow> (Inr tip, w')
           | (Inl e, w') \<Rightarrow> (Inl (context_of (Msg ''fetch carrier branch after rebuilding corrupt cache'')
                (fetch_into_inner e)), w'))) w')"

definition update_published_tip :: "'c carrier_io \<Rightarrow> string \<Rightarrow> (unit, 'c) carrier_act" where
  "update_published_tip X commit w =
     cache_git_command X (cw_path w) [''update-ref'', CARRIER_CACHE_FETCH_REF, commit] w"

end
