(* ===== verification/Carrier.thy ===== *)
theory Carrier
  imports Carrier_Git
begin

text \<open>
  \<^verbatim>\<open>src/storage.rs\<close>, \<^verbatim>\<open>GitStorage\<close>: the storage kept on a branch of a Git remote. Opening it fetches the
  branch into the cache and makes a temporary checkout whose index is the fetched commit; objects
  and the head are written into the checkout, committed on top of that commit and pushed. The
  push, which Git refuses unless it is a fast-forward, is the compare-and-swap.
\<close>

section \<open>The storage\<close>

record git_storage =
  gs_root :: string
  gs_location :: string
  gs_remote :: string
  gs_branch :: string
  gs_format_4_branch :: bool

definition create_carrier_checkout ::
    "'c carrier_io \<Rightarrow> string \<Rightarrow> string \<Rightarrow> string \<Rightarrow> string \<Rightarrow> string option \<Rightarrow> (unit, 'c) carrier_act" where
  "create_carrier_checkout X checkout cache remote branch base_commit =
     act_then (git_output X checkout [''init'', ''--quiet'']) (\<lambda>output.
     act_then (act_ret (ensure_git_success output ''git init carrier checkout'')) (\<lambda>_.
     let cache_objects = path_push cache ''objects'' in
     act_then (act_ret (bail_if (CHR 0x0A \<in> set cache_objects)
       (Msg ''carrier cache object path contains a newline'') (Inr ()))) (\<lambda>_.
     act_then (in_checkout (write_file [''.git'', ''objects'', ''info'', ''alternates''] (as_bytes (cache_objects @ [CHR 0x0A])))) (\<lambda>_.
     act_then (git_command X checkout [''config'', ''gc.auto'', ''0'']) (\<lambda>_.
     act_then (git_command X checkout [''config'', ''maintenance.auto'', ''false'']) (\<lambda>_.
     act_then (configure_git_pack_settings (\<lambda>key value. git_command X checkout [''config'', key, value])) (\<lambda>_.
     act_then (git_command X checkout [''remote'', ''add'', ''origin'', remote]) (\<lambda>_.
     act_then (case base_commit of
         Some commit \<Rightarrow>
           act_then (git_command X checkout [''update-ref'', ''refs/remotes/origin/'' @ branch, commit]) (\<lambda>_.
           act_then (git_command X checkout [''update-ref'', ''refs/heads/'' @ branch, commit]) (\<lambda>_.
           act_then (git_command X checkout [''symbolic-ref'', ''HEAD'', ''refs/heads/'' @ branch]) (\<lambda>_.
           git_command X checkout [''read-tree'', commit])))
       | None \<Rightarrow> git_command X checkout [''checkout'', ''--quiet'', ''--orphan'', branch]) (\<lambda>_.
     in_checkout (write_file [''.gitattributes''] CARRIER_ATTRIBUTES))))))))))"

text \<open>A new temporary directory.\<close>

definition new_checkout :: "(unit, 'c) carrier_act" where
  "new_checkout w = (Inr (), w\<lparr>cw_checkout := Dir []\<rparr>)"

definition carrier_open :: "'a prims_scheme \<Rightarrow> 'c carrier_io \<Rightarrow> string \<Rightarrow> (git_storage, 'c) carrier_act" where
  "carrier_open P X location =
     act_then (act_ret (parse_carrier_location location)) (\<lambda>(remote, branch).
     let checkout = ci_checkout X in
     act_then (carrier_lock P X remote branch) (\<lambda>remote_dir.
     act_then (cache_refresh X remote_dir remote branch) (\<lambda>base_commit.
     act_then new_checkout (\<lambda>_.
     act_then (\<lambda>w. case create_carrier_checkout X checkout (cw_path w) remote branch base_commit w of
         (Inr _, w') \<Rightarrow> (Inr base_commit, w')
       | (Inl e, w') \<Rightarrow>
           act_then (cache_is_corrupt X) (\<lambda>corrupt.
           if \<not> corrupt then act_ret (Inl (context_of (Msg ''create carrier checkout'') e))
           else
             act_then (rebuild X remote_dir) (\<lambda>_.
             act_then (cache_refresh X remote_dir remote branch) (\<lambda>base_commit.
             act_then new_checkout (\<lambda>_ w.
             case create_carrier_checkout X checkout (cw_path w) remote branch base_commit w of
               (Inr _, w') \<Rightarrow> (Inr base_commit, w')
             | (Inl e, w') \<Rightarrow>
                 (Inl (context_of (Msg ''create carrier checkout after rebuilding corrupt cache'') e), w'))))) w') (\<lambda>base_commit.
     act_then (\<lambda>w. if base_commit = None \<and> branch \<noteq> FORMAT_4_BRANCH
         then remote_has_branch X (cw_path w) remote FORMAT_4_BRANCH w else (Inr False, w)) (\<lambda>format_4_branch w.
     (Inr \<lparr>gs_root = checkout, gs_location = location, gs_remote = remote, gs_branch = branch,
        gs_format_4_branch = format_4_branch\<rparr>, w\<lparr>cw_base := base_commit\<rparr>)))))))"

section \<open>Reading the root files\<close>

definition blob_at :: "'c carrier_io \<Rightarrow> git_storage \<Rightarrow> string \<Rightarrow> nat \<Rightarrow> (bounded, 'c) carrier_act" where
  "blob_at X S object max_bytes = act_get (\<lambda>w.
     and_then (ci_cat X (owned_work_tree (gs_root S)) w) (\<lambda>cat. carrier_blob cat object max_bytes))"

definition local_root_file :: "'c carrier_io \<Rightarrow> git_storage \<Rightarrow> string \<Rightarrow> nat \<Rightarrow> (bounded, 'c) carrier_act" where
  "local_root_file X S name max_bytes w = (case read_regular_bounded (file_view (cw_checkout w)) name max_bytes of
     BoundedAbsent \<Rightarrow>
       act_then (git_rev_parse X (gs_root S) ''HEAD'') (\<lambda>commit. case commit of
         None \<Rightarrow> act_ret (Inr BoundedAbsent)
       | Some commit \<Rightarrow> blob_at X S (commit @ '':'' @ name) max_bytes) w
   | found \<Rightarrow> (Inr found, w))"

definition check_format :: "'c carrier_io \<Rightarrow> git_storage \<Rightarrow> (unit, 'c) carrier_act" where
  "check_format X S =
     act_then (local_root_file X S ''FORMAT'' MAX_STORAGE_FORMAT_BYTES) (\<lambda>found.
     act_then (act_ret (case found of
         BoundedAbsent \<Rightarrow> Inr None
       | Within bytes \<Rightarrow> Inr (Some bytes)
       | _ \<Rightarrow> Inl (err (Msg ''carrier FORMAT is not a small regular file'')))) (\<lambda>format.
     act_then (local_root_file X S ''HEAD'' MAX_HEAD_BYTES) (\<lambda>head.
     let head_present = (head \<noteq> BoundedAbsent) in
     act_then (if format = None \<and> \<not> head_present then
         act_then (local_root_file X S ''e2ee/HEAD'' MAX_HEAD_BYTES) (\<lambda>old.
         act_ret (
           bail_if (old \<noteq> BoundedAbsent) (Unsupported ''branch holds format 4 storage'') (
           bail_if (gs_format_4_branch S) (Unsupported ''another branch holds format 4 storage'') (
           Inr ()))))
       else act_ret (Inr ())) (\<lambda>_.
     act_ret (check_storage_format format head_present)))))"

definition local_stored_head :: "'c carrier_io \<Rightarrow> git_storage \<Rightarrow> (stored_head option, 'c) carrier_act" where
  "local_stored_head X S =
     act_then (check_format X S) (\<lambda>_.
     act_then (local_root_file X S ''HEAD'' MAX_HEAD_BYTES) (\<lambda>found.
     act_ret (Inr (stored_head_from_bounded found))))"

definition local_head :: "'c carrier_io \<Rightarrow> git_storage \<Rightarrow> (string option, 'c) carrier_act" where
  "local_head X S =
     act_then (local_stored_head X S) (\<lambda>head.
     act_ret (case head of
       None \<Rightarrow> Inr None
     | Some head \<Rightarrow> and_then (stored_head_parse head) (\<lambda>i. Inr (Some i))))"

definition stored_head_at_commit :: "'c carrier_io \<Rightarrow> git_storage \<Rightarrow> string \<Rightarrow> (stored_head option, 'c) carrier_act" where
  "stored_head_at_commit X S commit =
     act_then (blob_at X S (commit @ '':HEAD'') MAX_HEAD_BYTES) (\<lambda>found.
     act_ret (Inr (stored_head_from_bounded found)))"

definition conflicting_head :: "'c carrier_io \<Rightarrow> git_storage \<Rightarrow> string option \<Rightarrow> 'c carrier_world \<Rightarrow> string option \<times> 'c carrier_world" where
  "conflicting_head X S commit w = (case commit of
     None \<Rightarrow> (None, w)
   | Some commit \<Rightarrow> (case stored_head_at_commit X S commit w of
       (Inr (Some head), w') \<Rightarrow> (stored_head_id head, w')
     | (_, w') \<Rightarrow> (None, w')))"

definition cas_conflict :: "'c carrier_io \<Rightarrow> git_storage \<Rightarrow> string option \<Rightarrow> string option \<Rightarrow> ('a, 'c) carrier_act" where
  "cas_conflict X S expected commit w = (case conflicting_head X S commit w of
     (actual, w') \<Rightarrow> (Inl (err (CasConflict expected actual)), w'))"

section \<open>Publishing a head\<close>

definition write_checkout_head :: "string \<Rightarrow> bool \<Rightarrow> (unit, 'c) carrier_act" where
  "write_checkout_head next genesis =
     act_then (if genesis then
         act_then (in_checkout (write_file [''README.md''] (as_bytes (storage_readme ''This branch'')))) (\<lambda>_.
         in_checkout (write_file [''FORMAT''] STORAGE_FORMAT))
       else act_ret (Inr ())) (\<lambda>_.
     in_checkout (write_file [''HEAD''] (as_bytes (next @ [CHR 0x0A]))))"

definition refuse_foreign_branch :: "string option \<Rightarrow> unit result" where
  "refuse_foreign_branch base_commit = bail_if (base_commit \<noteq> None) (StorageOccupied ''branch already exists'') (Inr ())"

text \<open>The paths of the regular files below an entry, each ended by a zero byte.\<close>

fun collect_paths :: "string \<Rightarrow> node \<Rightarrow> bytes result" and
    collect_entries :: "string \<Rightarrow> (string \<times> node) list \<Rightarrow> bytes result" where
  "collect_paths relative (Dir es) = collect_entries relative es"
| "collect_paths relative (File _) =
     bail_if (CHR 0x0A \<in> set relative \<or> CHR 0x00 \<in> set relative)
       (Msg ''carrier checkout path contains a forbidden character'') (
     Inr (as_bytes relative @ [0]))"
| "collect_paths relative Special = Inl (err (Msg ''carrier checkout contains a non-regular staged path''))"
| "collect_entries relative [] = Inr []"
| "collect_entries relative ((name, n) # es) =
     and_then (collect_paths (relative @ ''/'' @ name) n) (\<lambda>paths.
     and_then (collect_entries relative es) (\<lambda>rest.
     Inr (paths @ rest)))"

fun collect_roots :: "node \<Rightarrow> string list \<Rightarrow> bytes result" where
  "collect_roots n [] = Inr []"
| "collect_roots n (name # names) =
     and_then (case node_at n [name] of Some m \<Rightarrow> collect_paths name m | None \<Rightarrow> Inr []) (\<lambda>paths.
     and_then (collect_roots n names) (\<lambda>rest.
     Inr (paths @ rest)))"

definition stage_carrier_checkout :: "'c carrier_io \<Rightarrow> string \<Rightarrow> string \<Rightarrow> (unit, 'c) carrier_act" where
  "stage_carrier_checkout X repo objects =
     act_then (act_get (\<lambda>w. collect_roots (cw_checkout w) CARRIER_ROOT_ENTRIES)) (\<lambda>paths.
     act_then (act_ret (bail_if (paths = []) (Msg ''carrier publication has no staged files'') (Inr ()))) (\<lambda>_.
     git_command_with_object_directory_input X repo objects
       [''add'', ''-A'', ''--pathspec-from-file=-'', ''--pathspec-file-nul''] paths))"

text \<open>Building the commit: everything of \<^verbatim>\<open>commit_and_push_head\<close> before the push.\<close>

definition commit_head :: "'c carrier_io \<Rightarrow> git_storage \<Rightarrow> string \<Rightarrow> string option \<Rightarrow> (string, 'c) carrier_act" where
  "commit_head X S next base_commit =
     act_then (write_checkout_head next (base_commit = None)) (\<lambda>_.
     act_then (act_get (\<lambda>w. Inr (path_push (cw_path w) ''objects''))) (\<lambda>objects.
     act_then (stage_carrier_checkout X (gs_root S) objects) (\<lambda>_.
     act_then (git_text_with_object_directory X (gs_root S) objects [''write-tree'']) (\<lambda>tree_id.
     let parent = (case base_commit of Some parent \<Rightarrow> [''-p'', parent] | None \<Rightarrow> []) in
     act_then (git_text_with_object_directory X (gs_root S) objects
       ([''commit-tree'', ''--no-gpg-sign'', ''-m'', CARRIER_COMMIT_MESSAGE] @ parent @ [tree_id])) (\<lambda>new_commit.
     act_then (git_command X (gs_root S) [''update-ref'', ''refs/heads/'' @ gs_branch S, new_commit]) (\<lambda>_.
     act_ret (Inr new_commit)))))))"

definition push_head :: "'c carrier_io \<Rightarrow> git_storage \<Rightarrow> (process_output, 'c) carrier_act" where
  "push_head X S = run_process X (transport (owned_work_tree (gs_root S))) []
     [''push'', ''--quiet'', ''--no-verify'', ''origin'', ''HEAD:refs/heads/'' @ gs_branch S] []"

definition commit_and_push_head ::
    "'c carrier_io \<Rightarrow> git_storage \<Rightarrow> string \<Rightarrow> string \<Rightarrow> string option \<Rightarrow> string option \<Rightarrow> (string, 'c) carrier_act" where
  "commit_and_push_head X S remote_dir next expected base_commit =
     act_then (commit_head X S next base_commit) (\<lambda>new_commit.
     act_then (push_head X S) (\<lambda>push.
     act_then (if succeeded push then act_ret (Inr ())
       else (\<lambda>w.
         let push_error = err (Msg ''git push carrier branch failed'') in
         case cache_refresh X remote_dir (gs_remote S) (gs_branch S) w of
           (Inl _, w') \<Rightarrow> (Inl push_error, w')
         | (Inr latest, w') \<Rightarrow>
             if latest = Some new_commit then (Inr (), w')
             else if latest = base_commit then (Inl push_error, w')
             else cas_conflict X S expected latest w')) (\<lambda>_.
     act_then (update_published_tip X new_commit) (\<lambda>_.
     act_ret (Inr new_commit)))))"

definition remove_untracked :: "bytes list \<Rightarrow> (unit, 'c) carrier_act" where
  "remove_untracked = run_each (\<lambda>path.
     if path = [] then act_ret (Inr ())
     else act_then (act_ret (with_context ''carrier checkout path is not UTF-8'' (ok_or (from_utf8 path) (Msg ''invalid utf-8'')))) (\<lambda>path.
       in_checkout (remove_file (split_on (CHR ''/'') path))))"

definition remove_head_file :: "(unit, 'c) carrier_act" where
  "remove_head_file w = (case in_checkout (remove_file [''HEAD'']) w of
     (Inl e, w') \<Rightarrow> if root e = Io NotFound then (Inr (), w') else (Inl e, w')
   | (Inr _, w') \<Rightarrow> (Inr (), w'))"

definition restore_index :: "'c carrier_io \<Rightarrow> git_storage \<Rightarrow> string option \<Rightarrow> (unit, 'c) carrier_act" where
  "restore_index X S base_commit =
     (let local_ref = ''refs/heads/'' @ gs_branch S in
      case base_commit of
        Some commit \<Rightarrow>
          act_then (git_command X (gs_root S) [''update-ref'', local_ref, commit]) (\<lambda>_.
          git_command X (gs_root S) [''read-tree'', commit])
      | None \<Rightarrow>
          act_then (git_rev_parse X (gs_root S) local_ref) (\<lambda>found.
          act_then (if found \<noteq> None then git_command X (gs_root S) [''update-ref'', ''-d'', local_ref]
            else act_ret (Inr ())) (\<lambda>_.
          git_command X (gs_root S) [''read-tree'', ''--empty''])))"

definition restore_checkout :: "'c carrier_io \<Rightarrow> git_storage \<Rightarrow> string option \<Rightarrow> (unit, 'c) carrier_act" where
  "restore_checkout X S base_commit =
     act_then (restore_index X S base_commit) (\<lambda>_.
     act_then remove_head_file (\<lambda>_.
     act_then (git_output X (gs_root S)
       [''ls-files'', ''--others'', ''-z'', ''--'', ''README.md'', ''FORMAT'', ''manifests'', ''packs'']) (\<lambda>untracked.
     act_then (act_ret (ensure_git_success untracked ''git ls-files carrier checkout'')) (\<lambda>_.
     remove_untracked (split_on 0 (snd untracked))))))"

definition publish_checkout_head ::
    "'c carrier_io \<Rightarrow> git_storage \<Rightarrow> string \<Rightarrow> string \<Rightarrow> string option \<Rightarrow> string option \<Rightarrow> (string, 'c) carrier_act" where
  "publish_checkout_head X S remote_dir next expected base_commit w =
     (case commit_and_push_head X S remote_dir next expected base_commit w of
        (Inr new_commit, w') \<Rightarrow> (Inr new_commit, w')
      | (Inl e, w') \<Rightarrow> (case restore_checkout X S base_commit w' of
          (Inr _, w'') \<Rightarrow> (Inl e, w'')
        | (Inl _, w'') \<Rightarrow> (Inl (context_of
            (Msg ''restoring the carrier checkout after a failed publication also failed'') e), w'')))"

end
