(* ===== verification/Carrier_Storage.thy ===== *)
theory Carrier_Storage
  imports Carrier
begin

text \<open>
  \<^verbatim>\<open>src/storage.rs\<close>, the \<^verbatim>\<open>Storage\<close> trait for \<^verbatim>\<open>GitStorage\<close>: objects, the head and its two
  compare-and-swap operations, the search of the carrier's history and the removal of objects that
  recovery does not keep. \<open>carrier_storage\<close> is the backend as a value of the trait.
\<close>

section \<open>Objects\<close>

definition carrier_chunk_entries ::
    "'c carrier_io \<Rightarrow> string \<Rightarrow> string \<Rightarrow> object_kind \<Rightarrow> string \<Rightarrow> (carrier_listing, 'c) carrier_act" where
  "carrier_chunk_entries X repo commit kind i =
     act_then (act_ret (validate_id i)) (\<lambda>_.
     let directory = object_listing_name kind i in
     act_then (git_output X repo [''ls-tree'', ''-r'', ''-z'', commit, ''--'', directory]) (\<lambda>output.
     let listing = take (MAX_CARRIER_LISTING_BYTES + 1) (snd output) in
     if length listing > MAX_CARRIER_LISTING_BYTES
     then act_ret (Inr (ListingMalformed ''carrier object listing exceeds its size budget''))
     else act_ret (
       and_then (ensure_git_success output ''git ls-tree carrier object'') (\<lambda>_.
       if listing = [] then Inr ListingAbsent
       else case parse_chunk_listing listing directory of
         Inr chunks \<Rightarrow> Inr (ListingChunks chunks)
       | Inl reason \<Rightarrow> Inr (ListingMalformed reason)))))"

text \<open>The whole contents a \<open>git_chunk_reader\<close> yields to a client that reads to the end.\<close>

function git_reader_bytes :: "cat_process \<Rightarrow> git_chunk_reader \<Rightarrow> bytes \<Rightarrow> bytes result" where
  "git_reader_bytes cat r seen =
     and_then (git_chunk_read cat (64 * 1024) r) (\<lambda>(piece, r').
     if piece = [] then Inr seen else git_reader_bytes cat r' (seen @ piece))"
  by pat_completeness auto

termination
  by (relation "measures [\<lambda>(cat, r, seen). length (gk_chunks r), \<lambda>(cat, r, seen). gk_remaining r]")
    (auto dest: git_chunk_read_decreases)

declare git_reader_bytes.simps [simp del]

text \<open>\<^verbatim>\<open>open_object\<close>, and reading what it opened to the end.\<close>

definition carrier_open_object :: "'c carrier_io \<Rightarrow> git_storage \<Rightarrow> object_kind \<Rightarrow> string \<Rightarrow> (bytes, 'c) carrier_act" where
  "carrier_open_object X S kind i =
     act_then (act_ret (object_directory kind i)) (\<lambda>directory w.
     if node_at (cw_checkout w) directory \<noteq> None then
       (and_then (validated_chunk_paths directory (cw_checkout w)) (\<lambda>paths.
        reader_bytes (cw_checkout w) (chunk_reader_of paths) []), w)
     else
       act_then (git_rev_parse X (gs_root S) ''HEAD'') (\<lambda>commit.
       act_then (act_ret (ok_or commit (ObjectUnavailable ''carrier'' i None))) (\<lambda>commit.
       act_then (carrier_chunk_entries X (gs_root S) commit kind i) (\<lambda>listing.
       case listing of
         ListingAbsent \<Rightarrow> act_ret (Inl (err (ObjectUnavailable ''carrier'' i None)))
       | ListingMalformed reason \<Rightarrow> act_ret (Inl (err (Msg (''carrier object '' @ i @ '': '' @ reason))))
       | ListingChunks chunks \<Rightarrow> act_get (\<lambda>w.
           and_then (ci_cat X (owned_work_tree (gs_root S)) w) (\<lambda>cat.
           git_reader_bytes cat (git_chunk_reader_new chunks) []))))) w)"

text \<open>The writes of a client to a new stage: the size check, the chunks and the digest. The write loop of the
  chunks always ends (\<open>carrier_write_ok\<close>).\<close>

fun stage_pieces :: "bytes list \<Rightarrow> object_stage \<Rightarrow> chunk_stage \<Rightarrow> (object_stage \<times> chunk_stage) result" where
  "stage_pieces [] stage chunks = Inr (stage, chunks)"
| "stage_pieces (piece # pieces) stage chunks =
     and_then (stage_write_all stage piece) (\<lambda>stage.
     and_then (the (carrier_write piece chunks)) (\<lambda>chunks.
     stage_pieces pieces stage chunks))"

text \<open>\<^verbatim>\<open>begin_object\<close>, the writes and \<^verbatim>\<open>finish\<close>.\<close>

definition carrier_stage_object ::
    "'a prims_scheme \<Rightarrow> object_kind \<Rightarrow> string \<Rightarrow> bytes list \<Rightarrow> (unit, 'c) carrier_act" where
  "carrier_stage_object P kind i pieces =
     act_then (act_ret (stage_pieces pieces (stage_wrap kind) new_chunk_stage)) (\<lambda>(stage, chunks).
     act_then (act_ret (stage_finish P stage i)) (\<lambda>_.
     in_checkout (carrier_publish P kind i chunks)))"

definition carrier_put_object_if_absent ::
    "'a prims_scheme \<Rightarrow> object_kind \<Rightarrow> string \<Rightarrow> bytes \<Rightarrow> (unit, 'c) carrier_act" where
  "carrier_put_object_if_absent P kind i data = carrier_stage_object P kind i [data]"

section \<open>The head\<close>

definition carrier_refresh :: "'a prims_scheme \<Rightarrow> 'c carrier_io \<Rightarrow> git_storage \<Rightarrow> (bool, 'c) carrier_act" where
  "carrier_refresh P X S =
     act_then (carrier_lock P X (gs_remote S) (gs_branch S)) (\<lambda>remote_dir.
     act_then (cache_refresh X remote_dir (gs_remote S) (gs_branch S)) (\<lambda>remote_tip w.
     if remote_tip = cw_base w then (Inr False, w)
     else
       act_then (restore_checkout X S remote_tip) (\<lambda>_ w.
       (Inr True, w\<lparr>cw_base := remote_tip\<rparr>)) w))"

definition publish_and_advance ::
    "'c carrier_io \<Rightarrow> git_storage \<Rightarrow> string \<Rightarrow> string \<Rightarrow> string option \<Rightarrow> string option \<Rightarrow> (unit, 'c) carrier_act" where
  "publish_and_advance X S remote_dir next expected base_commit =
     act_then (publish_checkout_head X S remote_dir next expected base_commit) (\<lambda>new_commit w.
     (Inr (), w\<lparr>cw_base := Some new_commit\<rparr>))"

definition carrier_compare_and_swap_head ::
    "'a prims_scheme \<Rightarrow> 'c carrier_io \<Rightarrow> git_storage \<Rightarrow> string option \<Rightarrow> string \<Rightarrow> (unit, 'c) carrier_act" where
  "carrier_compare_and_swap_head P X S expected next =
     act_then (act_ret (validate_id next)) (\<lambda>_.
     act_then (carrier_lock P X (gs_remote S) (gs_branch S)) (\<lambda>remote_dir.
     act_then (cache_refresh X remote_dir (gs_remote S) (gs_branch S)) (\<lambda>remote_tip w.
     if remote_tip \<noteq> cw_base w then cas_conflict X S expected remote_tip w
     else
       act_then (local_head X S) (\<lambda>actual w.
       if actual \<noteq> expected then (Inl (err (CasConflict expected actual)), w)
       else
         act_then (act_ret (if actual = None then refuse_foreign_branch (cw_base w) else Inr ())) (\<lambda>_ w.
         publish_and_advance X S remote_dir next expected (cw_base w) w) w) w)))"

definition carrier_observe_head :: "'c carrier_io \<Rightarrow> git_storage \<Rightarrow> (head_observation, 'c) carrier_act" where
  "carrier_observe_head X S =
     act_then (local_stored_head X S) (\<lambda>head w.
     (Inr \<lparr>ho_head_id = Option.bind head stored_head_id,
        ho_token = (case cw_base w of None \<Rightarrow> [] | Some commit \<Rightarrow> as_bytes commit),
        ho_head = head\<rparr>, w))"

definition carrier_compare_and_swap_observed_head ::
    "'a prims_scheme \<Rightarrow> 'c carrier_io \<Rightarrow> git_storage \<Rightarrow> head_observation \<Rightarrow> string \<Rightarrow> (unit, 'c) carrier_act" where
  "carrier_compare_and_swap_observed_head P X S observed next =
     act_then (act_ret (validate_id next)) (\<lambda>_ w.
     let expected_tip = cw_base w in
     if ho_token observed \<noteq> (case expected_tip of None \<Rightarrow> [] | Some commit \<Rightarrow> as_bytes commit)
     then (Inl (err (Msg ''recovery storage token does not match the opened carrier tip'')), w)
     else
       act_then (carrier_lock P X (gs_remote S) (gs_branch S)) (\<lambda>remote_dir.
       act_then (cache_refresh X remote_dir (gs_remote S) (gs_branch S)) (\<lambda>remote_tip.
       if remote_tip \<noteq> expected_tip then cas_conflict X S (ho_head_id observed) remote_tip
       else
         act_then (local_stored_head X S) (\<lambda>actual.
         if actual \<noteq> ho_head observed
         then act_ret (Inl (err (CasConflict (ho_head_id observed) (Option.bind actual stored_head_id))))
         else
           act_then (act_ret (if actual = None then refuse_foreign_branch expected_tip else Inr ())) (\<lambda>_.
           publish_and_advance X S remote_dir next (ho_head_id observed) expected_tip)))) w)"

section \<open>History\<close>

fun history_lines :: "string list \<Rightarrow> string list result" where
  "history_lines [] = Inr []"
| "history_lines (line # ls) = (case split_ascii_whitespace line of
     [] \<Rightarrow> Inl (err (Msg ''parse carrier history entry''))
   | commit # parents \<Rightarrow>
       bail_if (length parents > 1) (Msg ''carrier history contains a merge commit'') (
       and_then (history_lines ls) (\<lambda>commits.
       Inr (commit # commits))))"

definition commit_history :: "'c carrier_io \<Rightarrow> git_storage \<Rightarrow> nat \<Rightarrow> (string list, 'c) carrier_act" where
  "commit_history X S limit =
     (let maximum = show_nat (min (limit + 1) (2 ^ 64 - 1)) in
      act_then (git_output X (gs_root S) [''rev-list'', ''--parents'', ''--max-count='' @ maximum, ''HEAD'']) (\<lambda>output.
      act_ret (
        and_then (ensure_git_success output ''git rev-list carrier history'') (\<lambda>_.
        and_then (ok_or (from_utf8 (snd output)) (Msg ''invalid utf-8'')) (\<lambda>text.
        history_lines (text_lines text))))))"

definition copy_commits ::
    "'c carrier_io \<Rightarrow> git_storage \<Rightarrow> string list \<Rightarrow> object_kind \<Rightarrow> string \<Rightarrow> (string list, 'c) carrier_act" where
  "copy_commits X S window kind i =
     act_then (act_ret (validate_id i)) (\<lambda>_.
     case window of
       [] \<Rightarrow> act_ret (Inr [])
     | newest # _ \<Rightarrow>
         act_then (git_output X (gs_root S) [''rev-list'', ''--max-count='' @ show_nat (length window), newest,
           ''--'', object_listing_name kind i]) (\<lambda>output.
         act_ret (
           and_then (ensure_git_success output ''git rev-list carrier object copies'') (\<lambda>_.
           and_then (ok_or (from_utf8 (snd output)) (Msg ''invalid utf-8'')) (\<lambda>text.
           Inr (filter (\<lambda>commit. commit \<in> set window) (text_lines text)))))))"

text \<open>\<^verbatim>\<open>read_copy_at\<close>; the sink has a state of its own beside the world.\<close>

definition read_copy_at ::
    "'a prims_scheme \<Rightarrow> 'c carrier_io \<Rightarrow> git_storage \<Rightarrow> string \<Rightarrow> object_kind \<Rightarrow> string \<Rightarrow> (nat \<Rightarrow> bytes \<Rightarrow> (unit, 's) act)
     \<Rightarrow> (bool, 's \<times> 'c carrier_world) act" where
  "read_copy_at P X S commit kind i sink = (\<lambda>(s, w).
     case carrier_chunk_entries X (gs_root S) commit kind i w of
       (Inl e, w') \<Rightarrow> (Inl e, s, w')
     | (Inr (ListingChunks chunks), w') \<Rightarrow> (case ci_cat X (owned_work_tree (gs_root S)) w' of
         Inl e \<Rightarrow> (Inl e, s, w')
       | Inr cat \<Rightarrow> (case read_copy_loop cat sink (git_chunk_reader_new chunks) [] s of
           (Inl e, s') \<Rightarrow> (Inl e, s', w')
         | (Inr None, s') \<Rightarrow> (Inr False, s', w')
         | (Inr (Some hashed), s') \<Rightarrow> (Inr (hex_encode P (sha256 P hashed) = i), s', w')))
     | (Inr _, w') \<Rightarrow> (Inr False, s, w'))"

text \<open>The bytes read so far count against the budget, also those of copies that are rejected.\<close>

definition count_bytes :: "string \<Rightarrow> string \<Rightarrow> nat \<Rightarrow> nat \<Rightarrow> bytes \<Rightarrow> nat result" where
  "count_bytes overflow exhausted max_bytes seen piece =
     bail_if (seen + length piece \<ge> 2 ^ 64) (Msg overflow) (
     bail_if (seen + length piece > max_bytes) (BudgetExhausted exhausted) (
     Inr (seen + length piece)))"

definition manifest_sink :: "nat \<Rightarrow> nat \<Rightarrow> bytes \<Rightarrow> (unit, nat \<times> bytes) act" where
  "manifest_sink max_manifest_bytes index piece = (\<lambda>(seen, bytes).
     case count_bytes ''carrier recovery manifest byte count overflow'' ''carrier recovery manifest byte budget exhausted''
         max_manifest_bytes seen piece of
       Inl e \<Rightarrow> (Inl e, seen, bytes)
     | Inr seen \<Rightarrow> (Inr (), seen, bytes @ piece))"

text \<open>The first copy that is valid, and the bytes counted.\<close>

fun first_copy ::
    "'a prims_scheme \<Rightarrow> 'c carrier_io \<Rightarrow> git_storage \<Rightarrow> nat \<Rightarrow> string \<Rightarrow> string list \<Rightarrow> nat \<Rightarrow> (bytes option \<times> nat, 'c) carrier_act" where
  "first_copy P X S max_bytes i [] seen w = (Inr (None, seen), w)"
| "first_copy P X S max_bytes i (copy # copies) seen w =
     (case read_copy_at P X S copy Manifest i (manifest_sink max_bytes) ((seen, []), w) of
        (Inl e, _, w') \<Rightarrow> (Inl e, w')
      | (Inr True, (seen', bytes), w') \<Rightarrow> (Inr (Some bytes, seen'), w')
      | (Inr False, (seen', bytes), w') \<Rightarrow> first_copy P X S max_bytes i copies seen' w')"

text \<open>The loop over the commits, newest first.\<close>

fun history_loop ::
    "'a prims_scheme \<Rightarrow> 'c carrier_io \<Rightarrow> git_storage \<Rightarrow> string list \<Rightarrow> nat \<Rightarrow> string list \<Rightarrow> nat \<Rightarrow> recovery_history
     \<Rightarrow> (recovery_history, 'c) carrier_act" where
  "history_loop P X S window max_bytes [] seen history w = (Inr history, w)"
| "history_loop P X S window max_bytes (commit_id # commits) seen history w =
     act_then (stored_head_at_commit X S commit_id) (\<lambda>head.
     let head_id = Option.bind head stored_head_id in
     act_then (case head_id of
         Some i \<Rightarrow>
           (if bt_get (rh_manifests history) i = None then
              act_then (copy_commits X S window Manifest i) (\<lambda>copies.
              act_then (first_copy P X S max_bytes i copies seen) (\<lambda>(found, seen).
              act_ret (Inr (seen, case found of
                Some bytes \<Rightarrow> history\<lparr>rh_manifests := bt_insert i bytes (rh_manifests history)\<rparr>
              | None \<Rightarrow> history))))
            else act_ret (Inr (seen, history)))
       | None \<Rightarrow> act_ret (Inr (seen, history))) (\<lambda>(seen, history).
     history_loop P X S window max_bytes commits seen
       (history\<lparr>rh_commits := rh_commits history @ [\<lparr>rc_commit_id = commit_id, rc_head_id = head_id\<rparr>]\<rparr>))) w"

definition carrier_recovery_history ::
    "'a prims_scheme \<Rightarrow> 'c carrier_io \<Rightarrow> git_storage \<Rightarrow> nat \<Rightarrow> nat \<Rightarrow> (recovery_history option, 'c) carrier_act" where
  "carrier_recovery_history P X S max_commits max_manifest_bytes =
     act_then (commit_history X S max_commits) (\<lambda>commits.
     act_then (act_ret (bail_if (length commits > max_commits)
       (BudgetExhausted ''carrier recovery outer-commit budget exhausted'') (Inr ()))) (\<lambda>_.
     act_then (history_loop P X S commits max_manifest_bytes commits 0 \<lparr>rh_commits = [], rh_manifests = []\<rparr>) (\<lambda>history.
     act_ret (Inr (Some history)))))"

text \<open>The sink of \<^verbatim>\<open>restore_historical_object\<close>: the bytes counted, the index of the open file, and the files
  of the new object directory. A file is created anew when the index changes.\<close>

record restore_state =
  rs_bytes :: nat
  rs_current :: "nat option"
  rs_files :: "(string \<times> bytes) list"

definition restore_sink :: "nat \<Rightarrow> nat \<Rightarrow> bytes \<Rightarrow> (unit, restore_state) act" where
  "restore_sink max_bytes index piece s =
     (case count_bytes ''carrier restore byte count overflow'' ''carrier recovery restore byte budget exhausted''
         max_bytes (rs_bytes s) piece of
        Inl e \<Rightarrow> (Inl e, s)
      | Inr seen \<Rightarrow>
          let files = (if rs_current s \<noteq> Some index then AList.update (pad8 index) [] (rs_files s) else rs_files s) in
          (Inr (), \<lparr>rs_bytes = seen, rs_current = Some index,
             rs_files = map (\<lambda>(name, b). (name, if name = pad8 index then b @ piece else b)) files\<rparr>))"

definition install_object :: "object_kind \<Rightarrow> string \<Rightarrow> (string \<times> bytes) list \<Rightarrow> (unit, node) act" where
  "install_object kind i files =
     act_then (act_ret (object_directory kind i)) (\<lambda>target n.
     act_then (if node_at n target \<noteq> None then remove_dir_all target else act_ret (Inr ())) (\<lambda>_.
     act_then (create_dir_all (butlast target)) (\<lambda>_.
     rename_dir (Dir (map (\<lambda>(name, b). (name, File b)) files)) target)) n)"

fun restore_copies ::
    "'a prims_scheme \<Rightarrow> 'c carrier_io \<Rightarrow> git_storage \<Rightarrow> object_kind \<Rightarrow> string \<Rightarrow> nat \<Rightarrow> string list \<Rightarrow> nat \<Rightarrow> (bool, 'c) carrier_act" where
  "restore_copies P X S kind i max_bytes [] seen w = (Inr False, w)"
| "restore_copies P X S kind i max_bytes (copy # copies) seen w =
     (case read_copy_at P X S copy kind i (restore_sink max_bytes)
         (\<lparr>rs_bytes = seen, rs_current = None, rs_files = []\<rparr>, w) of
        (Inl e, _, w') \<Rightarrow> (Inl e, w')
      | (Inr False, s, w') \<Rightarrow> restore_copies P X S kind i max_bytes copies (rs_bytes s) w'
      | (Inr True, s, w') \<Rightarrow>
          act_then (in_checkout (install_object kind i (rs_files s))) (\<lambda>_. act_ret (Inr True)) w')"

definition carrier_restore_historical_object ::
    "'a prims_scheme \<Rightarrow> 'c carrier_io \<Rightarrow> git_storage \<Rightarrow> object_kind \<Rightarrow> string \<Rightarrow> nat \<Rightarrow> (bool, 'c) carrier_act" where
  "carrier_restore_historical_object P X S kind i max_bytes =
     act_then (commit_history X S MAX_RECOVERY_OUTER_COMMITS) (\<lambda>commits.
     act_then (act_ret (bail_if (length commits > MAX_RECOVERY_OUTER_COMMITS)
       (BudgetExhausted ''carrier recovery outer-commit budget exhausted'') (Inr ()))) (\<lambda>_.
     act_then (copy_commits X S commits kind i) (\<lambda>copies.
     restore_copies P X S kind i max_bytes copies 0)))"

section \<open>Removing what recovery does not keep\<close>

text \<open>The paths to remove among those of the index.\<close>

fun unretained_paths :: "string \<Rightarrow> string set \<Rightarrow> bytes list \<Rightarrow> bytes result" where
  "unretained_paths dir keep [] = Inr []"
| "unretained_paths dir keep (path # paths) =
     (if path = [] then unretained_paths dir keep paths
      else
      and_then (ok_or (from_utf8 path) (Msg ''invalid utf-8'')) (\<lambda>text.
      let names = split_on (CHR ''/'') text in
      bail_if (hd names \<noteq> dir) (Msg ''unexpected carrier index path during recovery'') (
      bail_if (length names < 2) (Msg ''carrier index path has no prefix'') (
      bail_if (length names < 3) (Msg ''carrier index path has no object id'') (
      bail_if (length names < 4) (Msg ''carrier index path has no chunk'') (
      bail_if (length names > 4) (Msg ''unexpected carrier index path depth during recovery'') (
      and_then (unretained_paths dir keep paths) (\<lambda>rest.
      Inr ((if names ! 2 \<in> keep then [] else path @ [0]) @ rest)))))))))"

definition remove_unretained_index_objects ::
    "'c carrier_io \<Rightarrow> string \<Rightarrow> object_kind \<Rightarrow> string set \<Rightarrow> (unit, 'c) carrier_act" where
  "remove_unretained_index_objects X repo kind keep =
     act_then (git_output X repo [''ls-files'', ''-z'', ''--'', kind_directory kind]) (\<lambda>output.
     act_then (act_ret (ensure_git_success output ''git ls-files carrier recovery objects'')) (\<lambda>_.
     act_then (act_ret (unretained_paths (kind_directory kind) keep (split_on 0 (snd output)))) (\<lambda>remove.
     if remove = [] then act_ret (Inr ())
     else git_command_with_input X repo [''update-index'', ''--force-remove'', ''-z'', ''--stdin''] remove)))"

definition remove_object :: "string list \<Rightarrow> string \<times> node \<Rightarrow> (unit, node) act" where
  "remove_object dir e = (case snd e of
     Dir _ \<Rightarrow> remove_dir_all (dir @ [fst e])
   | _ \<Rightarrow> remove_file (dir @ [fst e]))"

definition retain_prefix :: "string list \<Rightarrow> string set \<Rightarrow> string \<times> node \<Rightarrow> (unit, node) act" where
  "retain_prefix dir keep e = (case snd e of
     Dir objects \<Rightarrow>
       act_then (run_each (\<lambda>object. if fst object \<in> keep then act_ret (Inr ())
         else remove_object (dir @ [fst e]) object) objects) (\<lambda>_.
       act_then (act_get (read_dir (dir @ [fst e]))) (\<lambda>left.
       if left = [] then remove_dir (dir @ [fst e]) else act_ret (Inr ())))
   | _ \<Rightarrow> remove_file (dir @ [fst e]))"

definition retain_carrier_objects :: "string list \<Rightarrow> string set \<Rightarrow> (unit, node) act" where
  "retain_carrier_objects dir keep n = (case read_dir dir n of
     Inr entries \<Rightarrow> run_each (retain_prefix dir keep) entries n
   | Inl e \<Rightarrow> if root e = Io NotFound then (Inr (), n) else (Inl e, n))"

definition carrier_prepare_recovery ::
    "'c carrier_io \<Rightarrow> git_storage \<Rightarrow> string list \<Rightarrow> string list \<Rightarrow> (unit, 'c) carrier_act" where
  "carrier_prepare_recovery X S manifest_ids pack_ids =
     act_then (in_checkout (retain_carrier_objects [kind_directory Manifest] (set manifest_ids))) (\<lambda>_.
     act_then (in_checkout (retain_carrier_objects [kind_directory Pack] (set pack_ids))) (\<lambda>_.
     act_then (remove_unretained_index_objects X (gs_root S) Manifest (set manifest_ids)) (\<lambda>_.
     remove_unretained_index_objects X (gs_root S) Pack (set pack_ids))))"

section \<open>The backend\<close>

text \<open>An operation that only reads answers from the state of the moment.\<close>

definition reads :: "('a, 'w) act \<Rightarrow> 'w \<Rightarrow> 'a result" where
  "reads m w = fst (m w)"

definition carrier_storage :: "'a prims_scheme \<Rightarrow> 'c carrier_io \<Rightarrow> git_storage \<Rightarrow> 'c carrier_world storage_ops" where
  "carrier_storage P X S =
     \<lparr>so_open_object = (\<lambda>kind i. reads (carrier_open_object X S kind i)),
      so_put_object_if_absent = carrier_put_object_if_absent P,
      so_read_head = reads (local_head X S),
      so_refresh = carrier_refresh P X S,
      so_compare_and_swap_head = carrier_compare_and_swap_head P X S,
      so_observe_head = reads (carrier_observe_head X S),
      so_compare_and_swap_observed_head = carrier_compare_and_swap_observed_head P X S,
      so_recovery_history = (\<lambda>max_commits max_bytes. reads (carrier_recovery_history P X S max_commits max_bytes)),
      so_restore_historical_object = carrier_restore_historical_object P X S,
      so_prepare_recovery = carrier_prepare_recovery X S\<rparr>"

end
