(* ===== verification/Carrier_Laws.thy ===== *)
theory Carrier_Laws
  imports Carrier_Storage
begin

text \<open>
  What the Git carrier relies on of Git, as hypotheses on the processes it runs, and what follows for
  its own building blocks. A \<open>git_view\<close> reads Git's state: the tips the carrier branch of the remote
  has had, the fetched tip of a cache, the commit the branch of the checkout names, the entry
  \<^verbatim>\<open>HEAD\<close> of the index, and the contents of trees and commits, which their names determine.
\<close>

section \<open>Views of Git's state\<close>

record 'c git_view =
  gv_log :: "'c \<Rightarrow> string option list"
  gv_cached :: "'c \<Rightarrow> string \<Rightarrow> string option"
  gv_local :: "'c \<Rightarrow> string option"
  gv_index :: "'c \<Rightarrow> entry option"
  gv_tree :: "string \<Rightarrow> entry option"
  gv_tree_of :: "string \<Rightarrow> string"
  gv_parents :: "string \<Rightarrow> string list"

definition commit_entry :: "'c git_view \<Rightarrow> string \<Rightarrow> entry option" where
  "commit_entry V commit = gv_tree V (gv_tree_of V commit)"

definition ancestry :: "'c git_view \<Rightarrow> (string \<times> string) set" where
  "ancestry V = {(p, c). p \<in> set (gv_parents V c)}"

text \<open>One tip may be followed by another: the branch is created, or moved to a descendant.\<close>

definition forward :: "'c git_view \<Rightarrow> string option \<Rightarrow> string option \<Rightarrow> bool" where
  "forward V a b = (case a of None \<Rightarrow> True | Some x \<Rightarrow> (case b of None \<Rightarrow> False | Some y \<Rightarrow> (x, y) \<in> (ancestry V)\<^sup>*))"

definition tips :: "'c git_view \<Rightarrow> 'c carrier_world \<Rightarrow> string option list" where
  "tips V w = gv_log V (cw_git w)"

definition fast_forward_log :: "'c git_view \<Rightarrow> string option list \<Rightarrow> bool" where
  "fast_forward_log V L \<longleftrightarrow> L \<noteq> [] \<and> sorted_wrt (forward V) L"

text \<open>The tips the branch had between two moments.\<close>

definition window :: "'c git_view \<Rightarrow> 'c carrier_world \<Rightarrow> 'c carrier_world \<Rightarrow> string option set" where
  "window V w w' = set (drop (length (tips V w) - 1) (tips V w'))"

text \<open>Steps that only let the remote move on, and those that also leave the checkout alone.\<close>

definition grows :: "'c git_view \<Rightarrow> 'c carrier_world \<Rightarrow> 'c carrier_world \<Rightarrow> bool" where
  "grows V w w' \<longleftrightarrow> cw_base w' = cw_base w \<and> (\<exists>ext. tips V w' = tips V w @ ext)
     \<and> (fast_forward_log V (tips V w) \<longrightarrow> fast_forward_log V (tips V w'))"

definition quiet :: "'c git_view \<Rightarrow> 'c carrier_world \<Rightarrow> 'c carrier_world \<Rightarrow> bool" where
  "quiet V w w' \<longleftrightarrow> grows V w w' \<and> cw_checkout w' = cw_checkout w
     \<and> gv_local V (cw_git w') = gv_local V (cw_git w)"

section \<open>The laws\<close>

text \<open>Whatever a process does, the remote branch is only created or fast-forwarded.\<close>

definition remote_only_forward :: "'c git_view \<Rightarrow> 'c carrier_io \<Rightarrow> bool" where
  "remote_only_forward V X \<longleftrightarrow> (\<forall>p w r w'. ci_run X p w = (r, w') \<longrightarrow>
     (\<exists>ext. tips V w' = tips V w @ ext) \<and> (fast_forward_log V (tips V w) \<longrightarrow> fast_forward_log V (tips V w')))"

text \<open>Only \<^verbatim>\<open>init\<close> and \<^verbatim>\<open>checkout\<close> touch a working tree; only the commands that write refs, on the checkout
  itself, move its branch.\<close>

definition commands_are_local :: "'c git_view \<Rightarrow> 'c carrier_io \<Rightarrow> bool" where
  "commands_are_local V X \<longleftrightarrow>
     (\<forall>h command env args input w r w'. gh_owner h = Program \<and> command \<in> {git h, transport h} \<and> run_process X command env args input w = (r, w') \<longrightarrow>
        (hd args \<notin> {''init'', ''checkout''} \<longrightarrow> cw_checkout w' = cw_checkout w)
      \<and> ((\<exists>d. gh_location h = GitDir d) \<or> hd args \<notin> {''update-ref'', ''symbolic-ref'', ''init'', ''checkout''} \<longrightarrow>
          gv_local V (cw_git w') = gv_local V (cw_git w)))
   \<and> (\<forall>path w r w'. run_process X without_repository [] [''init'', ''--bare'', ''--quiet'', path] [] w = (r, w') \<longrightarrow>
        cw_checkout w' = cw_checkout w \<and> gv_local V (cw_git w') = gv_local V (cw_git w))"

text \<open>Fetching and listing answer with a tip the branch had while they ran; a push that succeeded has made
  the commit of the checkout the tip.\<close>

definition transports_are_live :: "'c git_view \<Rightarrow> 'c carrier_io \<Rightarrow> git_storage \<Rightarrow> bool" where
  "transports_are_live V X S \<longleftrightarrow>
     (\<forall>cache w out w'. cache_transport_output X cache [''fetch'', ''--quiet'', ''--no-tags'', gs_remote S,
          ''+'' @ (''refs/heads/'' @ gs_branch S) @ '':'' @ CARRIER_CACHE_FETCH_REF] w = (Inr out, w') \<and> succeeded out \<longrightarrow>
        (\<exists>t. gv_cached V (cw_git w') cache = Some t \<and> Some t \<in> window V w w'))
   \<and> (\<forall>cache w t w'. git_rev_parse X cache CARRIER_CACHE_FETCH_REF w = (Inr t, w') \<longrightarrow> t = gv_cached V (cw_git w) cache)
   \<and> (\<forall>cache w out w'. cache_transport_output X cache [''ls-remote'', ''--heads'', gs_remote S, ''refs/heads/'' @ gs_branch S] w
          = (Inr out, w') \<and> succeeded out \<and> lossy_trim_is (snd out) [] \<longrightarrow> None \<in> window V w w')
   \<and> (\<forall>w out w' c. push_head X S w = (Inr out, w') \<and> succeeded out \<and> gv_local V (cw_git w) = Some c \<longrightarrow>
        Some c \<in> window V w w')"

text \<open>The plumbing on the checkout: refs, the index, trees and commits.\<close>

definition refs_are_kept :: "'c git_view \<Rightarrow> 'c carrier_io \<Rightarrow> git_storage \<Rightarrow> bool" where
  "refs_are_kept V X S \<longleftrightarrow>
     (\<forall>reference w t w'. reference \<in> {''HEAD'', ''refs/heads/'' @ gs_branch S}
        \<and> git_rev_parse X (gs_root S) reference w = (Inr t, w') \<longrightarrow> t = gv_local V (cw_git w))
   \<and> (\<forall>commit w w'. git_command X (gs_root S) [''update-ref'', ''refs/heads/'' @ gs_branch S, commit] w = (Inr (), w') \<longrightarrow>
        gv_local V (cw_git w') = Some commit)
   \<and> (\<forall>w w'. git_command X (gs_root S) [''update-ref'', ''-d'', ''refs/heads/'' @ gs_branch S] w = (Inr (), w') \<longrightarrow>
        gv_local V (cw_git w') = None)"

definition objects_are_named :: "'c git_view \<Rightarrow> 'c carrier_io \<Rightarrow> git_storage \<Rightarrow> bool" where
  "objects_are_named V X S \<longleftrightarrow>
     (\<forall>objects paths w w'. git_command_with_object_directory_input X (gs_root S) objects
          [''add'', ''-A'', ''--pathspec-from-file=-'', ''--pathspec-file-nul''] paths w = (Inr (), w')
        \<and> as_bytes ''HEAD'' \<in> set (split_on 0 paths) \<longrightarrow> gv_index V (cw_git w') = file_view (cw_checkout w) ''HEAD'')
   \<and> (\<forall>objects w t w'. git_text_with_object_directory X (gs_root S) objects [''write-tree''] w = (Inr t, w') \<longrightarrow>
        gv_tree V t = gv_index V (cw_git w))
   \<and> (\<forall>objects base t w c w'. git_text_with_object_directory X (gs_root S) objects
            ([''commit-tree'', ''--no-gpg-sign'', ''-m'', CARRIER_COMMIT_MESSAGE]
             @ (case base of Some parent \<Rightarrow> [''-p'', parent] | None \<Rightarrow> []) @ [t]) w = (Inr c, w') \<longrightarrow>
        gv_tree_of V c = t \<and> gv_parents V c = (case base of None \<Rightarrow> [] | Some parent \<Rightarrow> [parent]))
   \<and> (\<forall>w cat c max_bytes found. ci_cat X (owned_work_tree (gs_root S)) w = Inr cat
        \<and> carrier_blob cat (c @ '':HEAD'') max_bytes = Inr found \<longrightarrow>
        found = read_regular_bounded (\<lambda>_. commit_entry V c) ''HEAD'' max_bytes)
   \<and> acyclic (ancestry V)"

definition carrier_git_laws :: "'c git_view \<Rightarrow> 'c carrier_io \<Rightarrow> git_storage \<Rightarrow> bool" where
  "carrier_git_laws V X S \<longleftrightarrow> remote_only_forward V X \<and> commands_are_local V X \<and> transports_are_live V X S
     \<and> refs_are_kept V X S \<and> objects_are_named V X S"

section \<open>Growing logs\<close>

lemma grows_refl: "reflp (grows V)" and quiet_refl: "reflp (quiet V)"
  by (simp_all add: reflp_def grows_def quiet_def)

lemma grows_trans: "transp (grows V)"
  unfolding transp_def grows_def by (metis append.assoc)

lemma quiet_trans: "transp (quiet V)"
  using grows_trans [of V] unfolding transp_def quiet_def by metis

lemma quiet_grows: "quiet V w w' \<Longrightarrow> grows V w w'"
  by (simp add: quiet_def)

lemma act_keeps_grows: "act_keeps (quiet V) m \<Longrightarrow> act_keeps (grows V) m"
  by (simp add: act_keeps_def quiet_grows)

lemma act_keepsD: "act_keeps R m \<Longrightarrow> m w = (r, w') \<Longrightarrow> R w w'"
  by (metis act_keeps_def snd_conv)

lemma window_right: "window V w w1 \<subseteq> window V w w2" if "grows V w1 w2"
  using that by (auto simp: window_def grows_def)

lemma window_left: "window V w1 w' \<subseteq> window V w w'" if "grows V w w1"
proof -
  have "length (tips V w) - 1 \<le> length (tips V w1) - 1" using that by (auto simp: grows_def)
  then show ?thesis unfolding window_def by (rule set_drop_subset_set_drop)
qed

text \<open>A tip that was seen, and later one whose only parent it is: the branch moved from the first to the
  second in one step.\<close>

lemma forward_antisym:
  assumes "acyclic (ancestry V)" and "forward V a b" and "forward V b a"
  shows "a = b"
  using assms acyclic_impl_antisym_rtrancl [OF assms(1)] by (auto simp: forward_def antisym_def split: option.splits)

lemma forward_to_child:
  assumes "gv_parents V c = (case base of None \<Rightarrow> [] | Some p \<Rightarrow> [p])" and "forward V e (Some c)"
  shows "e = Some c \<or> forward V e base"
proof (cases e)
  case (Some x)
  then have "(x, c) \<in> (ancestry V)\<^sup>*" using assms(2) by (simp add: forward_def)
  then show ?thesis
  proof (cases rule: rtranclE)
    case base
    then show ?thesis using Some by simp
  next
    case (step y)
    then have "base = Some y" using assms(1) by (auto simp: ancestry_def split: option.splits)
    then show ?thesis using Some step by (simp add: forward_def)
  qed
qed (simp add: forward_def)

lemma moved_in_one_step:
  assumes ac: "acyclic (ancestry V)" and parents: "gv_parents V c = (case base of None \<Rightarrow> [] | Some p \<Rightarrow> [p])"
    and ff: "fast_forward_log V L" and ij: "i \<le> j" "j < length L" and base: "L ! i = base" and c: "L ! j = Some c"
  shows "\<exists>k. i \<le> k \<and> Suc k < length L \<and> L ! k = base \<and> L ! Suc k = Some c"
proof -
  have ord: "forward V (L ! a) (L ! b)" if "a < b" "b < length L" for a b
    using ff that by (simp add: fast_forward_log_def sorted_wrt_iff_nth_less)
  have ne: "base \<noteq> Some c"
  proof
    assume "base = Some c"
    then have "(c, c) \<in> ancestry V" using parents by (simp add: ancestry_def)
    then show False using ac by (auto simp: acyclic_def)
  qed
  then have "i < j" using ij base c by (cases "i = j") auto
  define m where "m = (LEAST m. i < m \<and> L ! m = Some c)"
  have m: "i < m" "L ! m = Some c" "m \<le> j"
    using LeastI [of "\<lambda>m. i < m \<and> L ! m = Some c" j] Least_le [of "\<lambda>m. i < m \<and> L ! m = Some c" j] \<open>i < j\<close> c
    by (auto simp: m_def)
  have "L ! (m - 1) = base"
  proof (cases "m - 1 = i")
    case False
    then have "i < m - 1" using m(1) by simp
    then have "L ! (m - 1) \<noteq> Some c" 
      using not_less_Least [of "m - 1" "\<lambda>m. i < m \<and> L ! m = Some c"] m(1) by (simp add: m_def [symmetric])
    moreover have "forward V (L ! (m - 1)) (Some c)" using ord [of "m - 1" m] m ij by simp
    ultimately have "forward V (L ! (m - 1)) base" using forward_to_child [OF parents] by blast
    moreover have "forward V base (L ! (m - 1))" using ord [OF \<open>i < m - 1\<close>] m ij base by simp
    ultimately show ?thesis using forward_antisym [OF ac] by blast
  qed (use base in simp)
  then show ?thesis using m ij by (intro exI [of _ "m - 1"]) auto
qed

section \<open>Steps that are quiet\<close>

lemma laws_parts:
  assumes "carrier_git_laws V X S"
  shows "remote_only_forward V X" and "commands_are_local V X" and "transports_are_live V X S"
    and "refs_are_kept V X S" and "objects_are_named V X S"
  using assms by (simp_all add: carrier_git_laws_def)

lemma run_process_grows:
  assumes "remote_only_forward V X"
  shows "act_keeps (grows V) (run_process X command env args input)"
  using assms
  by (auto simp: act_keeps_def run_process_def remote_only_forward_def grows_def tips_def split: prod.splits)

lemma run_process_quiet:
  assumes laws: "carrier_git_laws V X S" and command: "gh_owner h = Program" "command \<in> {git h, transport h}"
    and args: "hd args \<notin> {''init'', ''checkout''}"
    and where_: "(\<exists>d. gh_location h = GitDir d) \<or> hd args \<notin> {''update-ref'', ''symbolic-ref''}"
  shows "act_keeps (quiet V) (run_process X command env args input)"
  unfolding act_keeps_def
proof
  fix w
  obtain r w' where run: "run_process X command env args input w = (r, w')" by (cases "run_process X command env args input w")
  have "grows V w w'" using act_keepsD [OF run_process_grows [OF laws_parts(1) [OF laws]] run] .
  moreover have "cw_checkout w' = cw_checkout w \<and> gv_local V (cw_git w') = gv_local V (cw_git w)"
    using laws_parts(2) [OF laws] command run args where_ unfolding commands_are_local_def by blast
  ultimately show "quiet V w (snd (run_process X command env args input w))" by (simp add: quiet_def run)
qed

lemma init_bare_quiet:
  assumes laws: "carrier_git_laws V X S"
  shows "act_keeps (quiet V) (run_process X without_repository [] [''init'', ''--bare'', ''--quiet'', path] [])"
  unfolding act_keeps_def
proof
  fix w
  let ?run = "run_process X without_repository [] [''init'', ''--bare'', ''--quiet'', path] []"
  obtain r w' where run: "?run w = (r, w')" by (cases "?run w")
  have "grows V w w'" using act_keepsD [OF run_process_grows [OF laws_parts(1) [OF laws]] run] .
  moreover have "cw_checkout w' = cw_checkout w \<and> gv_local V (cw_git w') = gv_local V (cw_git w)"
    using laws_parts(2) [OF laws] run unfolding commands_are_local_def by blast
  ultimately show "quiet V w (snd (?run w))" by (simp add: quiet_def run)
qed

text \<open>Changes of the program's memory and of the files of the cache.\<close>

lemma quiet_memory:
  "quiet V w (w\<lparr>cw_path := p\<rparr>)" "quiet V w (w\<lparr>cw_cache := fs\<rparr>)" "quiet V w (w\<lparr>cw_path := p, cw_random := f\<rparr>)"
  by (simp_all add: quiet_def grows_def tips_def)

lemma quiet_ret: "act_keeps (quiet V) (act_ret r)" and quiet_get: "act_keeps (quiet V) (act_get f)"
  by (simp_all add: act_keeps_ret act_keeps_get quiet_refl)

lemma quiet_then: "act_keeps (quiet V) m \<Longrightarrow> (\<And>a. act_keeps (quiet V) (f a)) \<Longrightarrow> act_keeps (quiet V) (act_then m f)"
  by (rule act_keeps_then [OF quiet_trans])

lemma quiet_after: "act_keeps (quiet V) m \<Longrightarrow> quiet V w w1 \<Longrightarrow> quiet V w (snd (m w1))"
  using quiet_trans [of V] unfolding transp_def act_keeps_def by blast

lemma quiet_case:
  assumes "m w = (r, w1)" and "act_keeps (quiet V) m" and "quiet V w1 w2"
  shows "quiet V w w2"
  using assms quiet_trans [of V] act_keepsD unfolding transp_def by metis

lemma quiet_run_each: "(\<And>x. act_keeps (quiet V) (f x)) \<Longrightarrow> act_keeps (quiet V) (run_each f xs)"
  by (induction xs) (simp_all add: quiet_ret quiet_then)

lemmas quiet_rules = quiet_ret quiet_get quiet_then quiet_run_each

lemma cache_output_quiet:
  assumes "carrier_git_laws V X S" and "hd args \<notin> {''init'', ''checkout''}"
  shows "act_keeps (quiet V) (cache_git_output X cache args)" and "act_keeps (quiet V) (cache_transport_output X cache args)"
  unfolding cache_git_output_def cache_transport_output_def
  by (rule run_process_quiet [OF assms(1) _ _ assms(2), where h = "owned_git_dir cache"]; simp add: owned_git_dir_def)+

lemma cache_command_quiet:
  "carrier_git_laws V X S \<Longrightarrow> hd args \<notin> {''init'', ''checkout''} \<Longrightarrow> act_keeps (quiet V) (cache_git_command X cache args)"
  unfolding cache_git_command_def by (intro quiet_rules cache_output_quiet)

lemma rev_parse_quiet: "carrier_git_laws V X S \<Longrightarrow> act_keeps (quiet V) (git_rev_parse X repo reference)"
  unfolding git_rev_parse_def git_output_def by (intro quiet_rules run_process_quiet [where h = "owned_work_tree repo"]) (simp_all add: owned_work_tree_def)

lemma configure_cache_quiet: "carrier_git_laws V X S \<Longrightarrow> act_keeps (quiet V) (configure_cache X cache)"
  unfolding configure_cache_def configure_git_pack_settings_def
  by (intro quiet_rules cache_command_quiet) (simp_all add: split_def cache_command_quiet)

lemma publish_current_quiet: "act_keeps (quiet V) (publish_current X remote_dir)"
  by (auto simp: act_keeps_def publish_current_def quiet_memory quiet_refl [unfolded reflp_def] split: option.splits prod.splits)

lemma initialize_generation_quiet:
  assumes laws: "carrier_git_laws V X S"
  shows "act_keeps (quiet V) (initialize_generation X remote_dir)"
  unfolding act_keeps_def initialize_generation_def Let_def
  by (intro allI quiet_after [OF _ quiet_memory(3)] quiet_rules init_bare_quiet [OF laws] configure_cache_quiet [OF laws]
      cache_command_quiet [OF laws] publish_current_quiet) simp_all

lemma cache_is_corrupt_quiet: "carrier_git_laws V X S \<Longrightarrow> act_keeps (quiet V) (cache_is_corrupt X)"
  unfolding act_keeps_def cache_is_corrupt_def
  by (intro allI quiet_after [OF _ quiet_refl [unfolded reflp_def, rule_format]] quiet_rules cache_output_quiet(1)) simp_all

lemma rebuild_quiet:
  assumes laws: "carrier_git_laws V X S"
  shows "act_keeps (quiet V) (rebuild X remote_dir)"
  unfolding rebuild_def
  by (intro quiet_then initialize_generation_quiet [OF laws]) (simp add: act_keeps_def quiet_memory)

lemma cache_usable_quiet:
  assumes laws: "carrier_git_laws V X S"
  shows "act_keeps (quiet V) (cache_usable X)"
  using cache_output_quiet(1) [OF laws, of "[''rev-parse'', ''--is-bare-repository'']"]
  by (auto simp: act_keeps_def cache_usable_def quiet_refl [unfolded reflp_def] split: prod.splits sum.splits) (metis snd_conv)+

lemma ensure_initialized_quiet:
  assumes laws: "carrier_git_laws V X S"
  shows "act_keeps (quiet V) (ensure_initialized X remote_dir)"
proof -
  have c: "act_keeps (quiet V) (\<lambda>w. case configure_cache X (cw_path w) w of
       (Inl _, w') \<Rightarrow> rebuild X remote_dir w' | (Inr _, w') \<Rightarrow> (Inr (), w'))"
    unfolding act_keeps_def
  proof
    fix w
    obtain r w' where run: "configure_cache X (cw_path w) w = (r, w')" by (cases "configure_cache X (cw_path w) w")
    have q: "quiet V w w'" using act_keepsD [OF configure_cache_quiet [OF laws] run] .
    show "quiet V w (snd (case configure_cache X (cw_path w) w of
       (Inl _, w') \<Rightarrow> rebuild X remote_dir w' | (Inr _, w') \<Rightarrow> (Inr (), w')))"
      using quiet_after [OF rebuild_quiet [OF laws] q, of remote_dir] q by (cases r) (simp_all add: run)
  qed
  have first: "quiet V w (case current_generation remote_dir (cw_cache w) of
        Some generation \<Rightarrow> w\<lparr>cw_path := path_push remote_dir generation\<rparr> | None \<Rightarrow> w)" for w :: "'a carrier_world"
    by (simp add: quiet_memory quiet_refl [unfolded reflp_def] split: option.split)
  have "act_keeps (quiet V) (act_then (cache_usable X) (\<lambda>usable.
     act_then (if usable then act_ret (Inr ()) else initialize_generation X remote_dir) (\<lambda>_ w.
     case configure_cache X (cw_path w) w of
       (Inl _, w') \<Rightarrow> rebuild X remote_dir w' | (Inr _, w') \<Rightarrow> (Inr (), w'))))"
    by (intro quiet_then cache_usable_quiet [OF laws] c) (simp add: quiet_ret initialize_generation_quiet [OF laws])
  note k = this
  show ?thesis
    unfolding act_keeps_def ensure_initialized_def by (intro allI quiet_after [OF k first])
qed

section \<open>Refreshing the cache\<close>

lemma fetching_Inr:
  "fetching f m k w = (Inr b, w') \<longleftrightarrow> (\<exists>a w1. m w = (Inr a, w1) \<and> k a w1 = (Inr b, w'))"
  by (auto simp: fetching_def split: prod.splits sum.splits)

text \<open>The two ends of a fetch: what it fetched, and a branch that is not there.\<close>

abbreviation fetched_tip :: "'c carrier_io \<Rightarrow> string \<Rightarrow> 'c carrier_world \<Rightarrow> (fetch_error + string option) \<times> 'c carrier_world" where
  "fetched_tip X cache \<equiv> fetching FetchLocal (git_rev_parse X cache CARRIER_CACHE_FETCH_REF) (\<lambda>tip w. (Inr tip, w))"

definition missing_tip :: "'c carrier_io \<Rightarrow> string \<Rightarrow> string \<Rightarrow> string \<Rightarrow> 'c carrier_world \<Rightarrow> (fetch_error + string option) \<times> 'c carrier_world" where
  "missing_tip X cache remote remote_ref =
     fetching (\<lambda>e. FetchRemote (context_of (Msg ''git fetch carrier branch failed'') e))
       (act_then (cache_transport_output X cache [''ls-remote'', ''--heads'', remote, remote_ref]) (\<lambda>output.
        act_ret (and_then (ensure_git_success output ''git ls-remote carrier branch'') (\<lambda>_. Inr output)))) (\<lambda>ls_remote.
     if lossy_trim_is (snd ls_remote) [] then
       fetching FetchLocal
         (act_then (cache_git_output X cache [''update-ref'', ''-d'', CARRIER_CACHE_FETCH_REF]) (\<lambda>output.
          act_ret (ensure_git_success output ''git update-ref delete missing carrier branch''))) (\<lambda>_ w.
       (Inr None, w))
     else (\<lambda>w. (Inl (FetchLocal (err (Msg ''git fetch carrier branch failed''))), w)))"

lemma fetch_unfold:
  "fetch_carrier_branch X cache remote branch =
     fetching FetchLocal (cache_transport_output X cache [''fetch'', ''--quiet'', ''--no-tags'', remote,
       ''+'' @ (''refs/heads/'' @ branch) @ '':'' @ CARRIER_CACHE_FETCH_REF]) (\<lambda>fetch.
     if succeeded fetch then fetched_tip X cache else missing_tip X cache remote (''refs/heads/'' @ branch))"
  unfolding fetch_carrier_branch_def missing_tip_def Let_def ..

lemma fetching_quiet:
  assumes "act_keeps (quiet V) m" and "\<And>a w1. quiet V w1 (snd (k a w1))"
  shows "quiet V w (snd (fetching f m k w))"
proof (cases "m w")
  case (Pair r w1)
  then have q: "quiet V w w1" using act_keepsD [OF assms(1)] by simp
  show ?thesis
  proof (cases r)
    case (Inl e)
    then show ?thesis using q Pair by (simp add: fetching_def)
  next
    case (Inr a)
    then show ?thesis using q Pair assms(2) [of w1 a] quiet_trans [of V] unfolding transp_def
      by (auto simp: fetching_def)
  qed
qed

lemma fetched_tip_quiet:
  assumes laws: "carrier_git_laws V X S"
  shows "quiet V w (snd (fetched_tip X cache w))"
  by (rule fetching_quiet [OF rev_parse_quiet [OF laws]]) (simp add: quiet_refl [unfolded reflp_def])

lemma missing_tip_quiet:
  assumes laws: "carrier_git_laws V X S"
  shows "quiet V w (snd (missing_tip X cache remote remote_ref w))"
  unfolding missing_tip_def
proof (rule fetching_quiet)
  show "act_keeps (quiet V) (act_then (cache_transport_output X cache [''ls-remote'', ''--heads'', remote, remote_ref]) (\<lambda>output.
        act_ret (and_then (ensure_git_success output ''git ls-remote carrier branch'') (\<lambda>_. Inr output))))"
    by (intro quiet_rules cache_output_quiet [OF laws]) simp
  have del: "act_keeps (quiet V) (act_then (cache_git_output X cache [''update-ref'', ''-d'', CARRIER_CACHE_FETCH_REF]) (\<lambda>output.
          act_ret (ensure_git_success output ''git update-ref delete missing carrier branch'')))"
    by (intro quiet_rules cache_output_quiet [OF laws]) simp
  show "quiet V w1 (snd ((if lossy_trim_is (snd ls) [] then
       fetching FetchLocal (act_then (cache_git_output X cache [''update-ref'', ''-d'', CARRIER_CACHE_FETCH_REF]) (\<lambda>output.
          act_ret (ensure_git_success output ''git update-ref delete missing carrier branch''))) (\<lambda>_ w. (Inr (None :: string option), w))
     else (\<lambda>w. (Inl (FetchLocal (err (Msg ''git fetch carrier branch failed''))), w))) w1))" for ls w1
    using fetching_quiet [OF del, of "\<lambda>_ w. (Inr (None :: string option), w)"] by (simp add: quiet_refl [unfolded reflp_def])
qed

lemma fetch_quiet:
  assumes laws: "carrier_git_laws V X S"
  shows "quiet V w (snd (fetch_carrier_branch X cache remote branch w))"
  unfolding fetch_unfold
proof (rule fetching_quiet)
  show "act_keeps (quiet V) (cache_transport_output X cache [''fetch'', ''--quiet'', ''--no-tags'', remote,
       ''+'' @ (''refs/heads/'' @ branch) @ '':'' @ CARRIER_CACHE_FETCH_REF])"
    by (rule cache_output_quiet [OF laws]) simp
  show "quiet V w1 (snd ((if succeeded fetch then fetched_tip X cache
      else missing_tip X cache remote (''refs/heads/'' @ branch)) w1))" for fetch w1
    using fetched_tip_quiet [OF laws] missing_tip_quiet [OF laws] by (cases "succeeded fetch") simp_all
qed

lemma missing_tip_live:
  assumes laws: "carrier_git_laws V X S"
    and missing: "missing_tip X cache (gs_remote S) (''refs/heads/'' @ gs_branch S) w = (Inr tip, w')"
  shows "tip \<in> window V w w'"
proof -
  from missing obtain ls w1 d where
    ls: "cache_transport_output X cache [''ls-remote'', ''--heads'', gs_remote S, ''refs/heads/'' @ gs_branch S] w = (Inr ls, w1)"
    "succeeded ls" "lossy_trim_is (snd ls) []" and tip: "tip = None"
    and rest: "cache_git_output X cache [''update-ref'', ''-d'', CARRIER_CACHE_FETCH_REF] w1 = (d, w')"
    unfolding missing_tip_def fetching_Inr act_then_Inr act_ret_eq
    by (auto simp: fetching_Inr act_then_Inr act_ret_eq and_then_eq_Inr ensure_git_success_def bail_if_eq_Inr split: if_splits)
  have "None \<in> window V w w1"
    using laws_parts(3) [OF laws] ls unfolding transports_are_live_def by blast
  moreover have "grows V w1 w'" by (rule quiet_grows [OF act_keepsD [OF cache_output_quiet(1) [OF laws] rest]]) simp
  ultimately show ?thesis using tip window_right by blast
qed

lemma fetched_tip_live:
  assumes laws: "carrier_git_laws V X S"
    and fetch: "cache_transport_output X cache [''fetch'', ''--quiet'', ''--no-tags'', gs_remote S,
       ''+'' @ (''refs/heads/'' @ gs_branch S) @ '':'' @ CARRIER_CACHE_FETCH_REF] w = (Inr out, w1)" "succeeded out"
    and parse: "git_rev_parse X cache CARRIER_CACHE_FETCH_REF w1 = (Inr tip, w')"
  shows "tip \<in> window V w w'"
proof -
  note live = laws_parts(3) [OF laws, unfolded transports_are_live_def]
  from live fetch obtain t where "gv_cached V (cw_git w1) cache = Some t" "Some t \<in> window V w w1" by blast
  moreover have "tip = gv_cached V (cw_git w1) cache" using live parse by blast
  moreover have "grows V w1 w'" by (rule quiet_grows [OF act_keepsD [OF rev_parse_quiet [OF laws] parse]])
  ultimately show ?thesis using window_right [of V w1 w' w] by auto
qed

lemma fetch_live:
  assumes laws: "carrier_git_laws V X S"
    and fetch: "fetch_carrier_branch X cache (gs_remote S) (gs_branch S) w = (Inr tip, w')"
  shows "tip \<in> window V w w'"
proof -
  from fetch obtain out w1 where
    run: "cache_transport_output X cache [''fetch'', ''--quiet'', ''--no-tags'', gs_remote S,
       ''+'' @ (''refs/heads/'' @ gs_branch S) @ '':'' @ CARRIER_CACHE_FETCH_REF] w = (Inr out, w1)"
    and rest: "(if succeeded out then fetched_tip X cache
      else missing_tip X cache (gs_remote S) (''refs/heads/'' @ gs_branch S)) w1 = (Inr tip, w')"
    unfolding fetch_unfold fetching_Inr [of FetchLocal "cache_transport_output X cache _"] by blast
  have g: "grows V w w1" by (rule quiet_grows [OF act_keepsD [OF cache_output_quiet(2) [OF laws] run]]) simp
  show ?thesis
  proof (cases "succeeded out")
    case True
    then have "git_rev_parse X cache CARRIER_CACHE_FETCH_REF w1 = (Inr tip, w')"
      using rest by (auto simp: fetching_Inr)
    then show ?thesis by (rule fetched_tip_live [OF laws run True])
  next
    case False
    then have "missing_tip X cache (gs_remote S) (''refs/heads/'' @ gs_branch S) w1 = (Inr tip, w')" using rest by (simp only: if_False)
    then show ?thesis using missing_tip_live [OF laws] window_left [OF g] by blast
  qed
qed

lemma cache_refresh_quiet:
  assumes laws: "carrier_git_laws V X S"
  shows "act_keeps (quiet V) (cache_refresh X remote_dir remote branch)"
proof -
  note fq = fetch_quiet [OF laws] and trans = quiet_trans [of V, unfolded transp_def, rule_format]
  have last: "act_keeps (quiet V) (\<lambda>w. case fetch_carrier_branch X (cw_path w) remote branch w of
       (Inr tip, w') \<Rightarrow> (Inr tip, w')
     | (Inl e, w') \<Rightarrow> (Inl (context_of (Msg ''fetch carrier branch after rebuilding corrupt cache'') (fetch_into_inner e)), w'))"
    unfolding act_keeps_def using fq by (auto split: prod.splits sum.splits) (metis snd_conv)+
  have local_error: "act_keeps (quiet V) (act_then (cache_is_corrupt X) (\<lambda>corrupt.
         if \<not> corrupt then act_ret (Inl e)
         else act_then (rebuild X remote_dir) (\<lambda>_ w.
           case fetch_carrier_branch X (cw_path w) remote branch w of
             (Inr tip, w') \<Rightarrow> (Inr tip, w')
           | (Inl e, w') \<Rightarrow> (Inl (context_of (Msg ''fetch carrier branch after rebuilding corrupt cache'')
                (fetch_into_inner e)), w'))))" for e
    by (intro quiet_then cache_is_corrupt_quiet [OF laws]) (simp add: quiet_ret quiet_then rebuild_quiet [OF laws] last)
  show ?thesis
    unfolding cache_refresh_def
  proof (intro quiet_then ensure_initialized_quiet [OF laws])
    fix a :: unit
    show "act_keeps (quiet V) (\<lambda>w. case fetch_carrier_branch X (cw_path w) remote branch w of
       (Inr tip, w') \<Rightarrow> (Inr tip, w')
     | (Inl (FetchRemote e), w') \<Rightarrow> (Inl e, w')
     | (Inl (FetchLocal e), w') \<Rightarrow>
         act_then (cache_is_corrupt X) (\<lambda>corrupt.
         if \<not> corrupt then act_ret (Inl e)
         else act_then (rebuild X remote_dir) (\<lambda>_ w.
           case fetch_carrier_branch X (cw_path w) remote branch w of
             (Inr tip, w') \<Rightarrow> (Inr tip, w')
           | (Inl e, w') \<Rightarrow> (Inl (context_of (Msg ''fetch carrier branch after rebuilding corrupt cache'')
                (fetch_into_inner e)), w'))) w')" (is "act_keeps _ ?m")
      unfolding act_keeps_def
    proof
      fix w
      obtain r w' where f: "fetch_carrier_branch X (cw_path w) remote branch w = (r, w')"
        by (cases "fetch_carrier_branch X (cw_path w) remote branch w")
      have q: "quiet V w w'" using fq [of w "cw_path w" remote branch] f by simp
      then show "quiet V w (snd (?m w))"
        using quiet_after [OF local_error q] by (auto simp: f split: sum.split fetch_error.split)
    qed
  qed
qed

lemma cache_refresh_live:
  assumes laws: "carrier_git_laws V X S"
    and refresh: "cache_refresh X remote_dir (gs_remote S) (gs_branch S) w = (Inr tip, w')"
  shows "tip \<in> window V w w'"
proof -
  note grow = act_keepsD [OF act_keeps_grows]
  from refresh obtain w1 where init: "ensure_initialized X remote_dir w = (Inr (), w1)"
    by (auto simp: cache_refresh_def act_then_Inr)
  obtain r w2 where f: "fetch_carrier_branch X (cw_path w1) (gs_remote S) (gs_branch S) w1 = (r, w2)"
    by (cases "fetch_carrier_branch X (cw_path w1) (gs_remote S) (gs_branch S) w1")
  have g1: "grows V w w1" by (rule grow [OF ensure_initialized_quiet [OF laws] init])
  show ?thesis
  proof (cases r)
    case (Inr t)
    then have "t = tip" "w2 = w'" using refresh init f by (auto simp: cache_refresh_def act_then_Inr)
    then show ?thesis using fetch_live [OF laws f [unfolded Inr]] window_left [OF g1] by blast
  next
    case (Inl fe)
    then obtain e where e: "fe = FetchLocal e" using refresh init f by (cases fe) (auto simp: cache_refresh_def act_then_Inr)
    then obtain w3 w4 where c: "cache_is_corrupt X w2 = (Inr True, w3)" and b: "rebuild X remote_dir w3 = (Inr (), w4)"
      and f2: "(case fetch_carrier_branch X (cw_path w4) (gs_remote S) (gs_branch S) w4 of
             (Inr tip, w') \<Rightarrow> (Inr tip, w')
           | (Inl e, w') \<Rightarrow> (Inl (context_of (Msg ''fetch carrier branch after rebuilding corrupt cache'')
                (fetch_into_inner e)), w')) = (Inr tip, w')"
      using refresh init f Inl
      by (auto simp: cache_refresh_def act_then_Inr act_ret_eq split: if_splits)
    then have f2: "fetch_carrier_branch X (cw_path w4) (gs_remote S) (gs_branch S) w4 = (Inr tip, w')"
      by (auto split: prod.splits sum.splits)
    have "grows V w1 w2" using fetch_quiet [OF laws, of w1] f quiet_grows by (metis snd_conv)
    then have "grows V w w4"
      using g1 grow [OF cache_is_corrupt_quiet [OF laws] c] grow [OF rebuild_quiet [OF laws] b] grows_trans [of V]
      unfolding transp_def by metis
    then show ?thesis using fetch_live [OF laws f2] window_left by blast
  qed
qed

end
