(* ===== verification/Carrier_Swap.thy ===== *)
theory Carrier_Swap
  imports Carrier_Laws Storage_Facts
begin

text \<open>
  The compare-and-swap of the Git carrier as a step of an atomic register. The register is the sequence of
  tips of the remote branch, each naming a head by its file \<^verbatim>\<open>HEAD\<close>; other clients may move it between
  any two processes. A swap that succeeds has moved it in one step from the commit whose head was
  expected to a commit that names the next head. A swap that fails leaves the checkout where it was.
\<close>

section \<open>The head a commit names\<close>

definition base_entry :: "'c git_view \<Rightarrow> string option \<Rightarrow> entry option" where
  "base_entry V base = (case base of None \<Rightarrow> None | Some c \<Rightarrow> commit_entry V c)"

definition head_found :: "'c git_view \<Rightarrow> string option \<Rightarrow> bounded" where
  "head_found V base = read_regular_bounded (\<lambda>_. base_entry V base) ''HEAD'' MAX_HEAD_BYTES"

definition head_named :: "'c git_view \<Rightarrow> string option \<Rightarrow> string option result" where
  "head_named V base = (case stored_head_from_bounded (head_found V base) of
     None \<Rightarrow> Inr None
   | Some head \<Rightarrow> and_then (stored_head_parse head) (\<lambda>i. Inr (Some i)))"

text \<open>The checkout stands at the commit the storage was opened at: its branch names that commit, and a file
  \<^verbatim>\<open>HEAD\<close> in the working tree is the one of the commit.\<close>

definition synced :: "'c git_view \<Rightarrow> 'c carrier_world \<Rightarrow> bool" where
  "synced V w \<longleftrightarrow> gv_local V (cw_git w) = cw_base w
     \<and> (\<forall>n. node_at (cw_checkout w) [''HEAD''] = Some n \<longrightarrow> base_entry V (cw_base w) = Some (entry_of n))"

lemma synced_quiet: "synced V w \<Longrightarrow> quiet V w w' \<Longrightarrow> synced V w'"
  by (simp add: synced_def quiet_def grows_def)

lemma split_HEAD: "split_on (CHR ''/'') ''HEAD'' = [''HEAD'']"
  by code_simp

lemma file_view_HEAD: "file_view n ''HEAD'' = map_option entry_of (node_at n [''HEAD''])"
  by (simp add: file_view_def split_HEAD)

lemma read_regular_bounded_cong: "fs p = fs' q \<Longrightarrow> read_regular_bounded fs p m = read_regular_bounded fs' q m"
  by (simp add: read_regular_bounded_def open_regular_def)

lemma blob_at_quiet: "act_keeps (quiet V) (blob_at X S object max_bytes)"
  unfolding blob_at_def by (rule quiet_get)

lemma local_root_file_quiet:
  assumes laws: "carrier_git_laws V X S"
  shows "act_keeps (quiet V) (local_root_file X S name max_bytes)"
proof -
  have "act_keeps (quiet V) (act_then (git_rev_parse X (gs_root S) ''HEAD'') (\<lambda>commit. case commit of
         None \<Rightarrow> act_ret (Inr BoundedAbsent)
       | Some commit \<Rightarrow> blob_at X S (commit @ '':'' @ name) max_bytes))"
    by (intro quiet_then rev_parse_quiet [OF laws]) (simp add: quiet_ret blob_at_quiet split: option.split)
  then show ?thesis
    by (auto simp: act_keeps_def local_root_file_def quiet_refl [unfolded reflp_def] split: bounded.split)
qed

lemma check_format_quiet:
  assumes laws: "carrier_git_laws V X S"
  shows "act_keeps (quiet V) (check_format X S)"
  unfolding check_format_def Let_def
  by (intro quiet_then local_root_file_quiet [OF laws] quiet_ret)
    (simp add: quiet_ret quiet_then local_root_file_quiet [OF laws])

lemma local_stored_head_quiet:
  assumes laws: "carrier_git_laws V X S"
  shows "act_keeps (quiet V) (local_stored_head X S)"
  unfolding local_stored_head_def by (intro quiet_then check_format_quiet [OF laws] local_root_file_quiet [OF laws] quiet_ret)

lemma local_head_quiet:
  assumes laws: "carrier_git_laws V X S"
  shows "act_keeps (quiet V) (local_head X S)"
  unfolding local_head_def by (intro quiet_then local_stored_head_quiet [OF laws] quiet_ret)

lemma conflicting_head_quiet: "quiet V w (snd (conflicting_head X S commit w))"
proof (cases commit)
  case None
  then show ?thesis by (simp add: conflicting_head_def quiet_refl [unfolded reflp_def])
next
  case (Some c)
  have k: "act_keeps (quiet V) (stored_head_at_commit X S c)"
    unfolding stored_head_at_commit_def by (intro quiet_then blob_at_quiet quiet_ret)
  obtain r w' where run: "stored_head_at_commit X S c w = (r, w')" by (cases "stored_head_at_commit X S c w")
  have "snd (conflicting_head X S (Some c) w) = w'"
  proof (cases r)
    case (Inl e)
    show ?thesis unfolding conflicting_head_def option.case run Inl by (simp only: prod.case sum.case snd_conv)
  next
    case (Inr h)
    show ?thesis
      unfolding conflicting_head_def option.case run Inr
      by (cases h) (simp_all only: prod.case sum.case option.case snd_conv)
  qed
  then show ?thesis using act_keepsD [OF k run] Some by simp
qed

lemma cas_conflict_quiet: "act_keeps (quiet V) (cas_conflict X S expected commit)"
  using conflicting_head_quiet [of V] by (simp add: act_keeps_def cas_conflict_def split_def)

text \<open>A synchronized checkout reads the head of its base.\<close>

lemma local_root_file_HEAD:
  assumes laws: "carrier_git_laws V X S" and sync: "synced V w"
    and read: "local_root_file X S ''HEAD'' MAX_HEAD_BYTES w = (Inr found, w')"
  shows "found = head_found V (cw_base w)"
proof (cases "node_at (cw_checkout w) [''HEAD'']")
  case (Some n)
  then have same: "file_view (cw_checkout w) ''HEAD'' = base_entry V (cw_base w)" "file_view (cw_checkout w) ''HEAD'' \<noteq> None"
    using sync by (auto simp: synced_def file_view_HEAD)
  then have "read_regular_bounded (file_view (cw_checkout w)) ''HEAD'' MAX_HEAD_BYTES \<noteq> BoundedAbsent"
    by (simp add: read_regular_bounded_Absent)
  moreover have "read_regular_bounded (file_view (cw_checkout w)) ''HEAD'' MAX_HEAD_BYTES = head_found V (cw_base w)"
    unfolding head_found_def using same(1) by (rule read_regular_bounded_cong)
  ultimately show ?thesis using read by (auto simp: local_root_file_def split: bounded.splits)
next
  case None
  then have "read_regular_bounded (file_view (cw_checkout w)) ''HEAD'' MAX_HEAD_BYTES = BoundedAbsent"
    by (simp add: read_regular_bounded_Absent file_view_HEAD)
  then obtain commit w1 where parse: "git_rev_parse X (gs_root S) ''HEAD'' w = (Inr commit, w1)"
    and rest: "(case commit of None \<Rightarrow> act_ret (Inr BoundedAbsent)
       | Some commit \<Rightarrow> blob_at X S (commit @ '':HEAD'') MAX_HEAD_BYTES) w1 = (Inr found, w')"
    using read by (auto simp: local_root_file_def act_then_Inr)
  have "commit = gv_local V (cw_git w)"
    using laws_parts(4) [OF laws] parse unfolding refs_are_kept_def by blast
  then have commit: "commit = cw_base w" using sync by (simp add: synced_def)
  show ?thesis
  proof (cases commit)
    case None
    then show ?thesis
      using rest commit by (auto simp: act_ret_eq head_found_def base_entry_def read_regular_bounded_def open_regular_def)
  next
    case (Some c)
    from rest obtain cat where "ci_cat X (owned_work_tree (gs_root S)) w1 = Inr cat"
      "carrier_blob cat (c @ '':HEAD'') MAX_HEAD_BYTES = Inr found"
      by (auto simp: Some blob_at_def act_get_eq and_then_eq_Inr)
    then have "found = read_regular_bounded (\<lambda>_. commit_entry V c) ''HEAD'' MAX_HEAD_BYTES"
      using laws_parts(5) [OF laws] unfolding objects_are_named_def by blast
    then show ?thesis using Some commit by (simp add: head_found_def base_entry_def)
  qed
qed

lemma local_stored_head_named:
  assumes laws: "carrier_git_laws V X S" and sync: "synced V w" and head: "local_stored_head X S w = (Inr h, w')"
  shows "h = stored_head_from_bounded (head_found V (cw_base w))"
proof -
  from head obtain w1 found where c: "check_format X S w = (Inr (), w1)"
    and f: "local_root_file X S ''HEAD'' MAX_HEAD_BYTES w1 = (Inr found, w')" and h: "h = stored_head_from_bounded found"
    by (auto simp: local_stored_head_def act_simps)
  have q: "quiet V w w1" by (rule act_keepsD [OF check_format_quiet [OF laws] c])
  then have "cw_base w1 = cw_base w" by (simp add: quiet_def grows_def)
  then show ?thesis using local_root_file_HEAD [OF laws synced_quiet [OF sync q] f] h by simp
qed

lemma local_head_named:
  assumes laws: "carrier_git_laws V X S" and sync: "synced V w" and head: "local_head X S w = (Inr i, w')"
  shows "head_named V (cw_base w) = Inr i"
proof -
  from head obtain h where h: "local_stored_head X S w = (Inr h, w')"
    and i: "(case h of None \<Rightarrow> Inr None | Some h \<Rightarrow> and_then (stored_head_parse h) (\<lambda>i. Inr (Some i))) = Inr i"
    by (auto simp: local_head_def act_simps)
  show ?thesis using local_stored_head_named [OF laws sync h] i by (simp add: head_named_def)
qed

section \<open>Publishing\<close>

lemma write_file_writes:
  assumes "write_file [name] data n = (Inr u, n')"
  shows "node_at n' [name] = Some (File data)"
proof -
  have "is_dir (node_at n (butlast [name]))" "n' = put_at [name] (Some (File data)) n"
    using assms by (auto simp: write_file_def split: if_splits option.splits node.splits)
  then show ?thesis using node_at_put_at [of n "[name]" "Some (File data)"] by simp
qed

lemma in_checkout_Inr: "in_checkout m w = (Inr a, w') \<longleftrightarrow> (\<exists>n. m (cw_checkout w) = (Inr a, n) \<and> w' = w\<lparr>cw_checkout := n\<rparr>)"
  by (auto simp: in_checkout_def split: prod.splits)

lemma in_checkout_grows: "act_keeps (grows V) (in_checkout m)"
  by (simp add: act_keeps_def in_checkout_def grows_def tips_def split: prod.split)

lemma grows_then: "act_keeps (grows V) m \<Longrightarrow> (\<And>a. act_keeps (grows V) (f a)) \<Longrightarrow> act_keeps (grows V) (act_then m f)"
  by (rule act_keeps_then [OF grows_trans])

lemma grows_ret: "act_keeps (grows V) (act_ret r)" and grows_get: "act_keeps (grows V) (act_get f)"
  by (simp_all add: act_keeps_ret act_keeps_get grows_refl)

lemma write_checkout_head_writes:
  assumes "write_checkout_head next genesis w = (Inr u, w')"
  shows "node_at (cw_checkout w') [''HEAD''] = Some (File (as_bytes (next @ [CHR 0x0A])))" and "grows V w w'"
proof -
  from assms obtain a w1 where "in_checkout (write_file [''HEAD''] (as_bytes (next @ [CHR 0x0A]))) w1 = (Inr u, w')"
    unfolding write_checkout_head_def act_then_Inr by blast
  then obtain n where n: "write_file [''HEAD''] (as_bytes (next @ [CHR 0x0A])) (cw_checkout w1) = (Inr u, n)"
    and w': "w' = w1\<lparr>cw_checkout := n\<rparr>" unfolding in_checkout_Inr by blast
  show "node_at (cw_checkout w') [''HEAD''] = Some (File (as_bytes (next @ [CHR 0x0A])))"
    using write_file_writes [OF n] by (simp add: w')
  have "act_keeps (grows V) (write_checkout_head next genesis)"
    unfolding write_checkout_head_def by (intro grows_then) (simp_all add: grows_then grows_ret in_checkout_grows)
  then show "grows V w w'" using assms by (rule act_keepsD)
qed

text \<open>The pathspec names every regular file at the root of the checkout.\<close>

definition closed_paths :: "bytes \<Rightarrow> bool" where
  "closed_paths b \<longleftrightarrow> b = [] \<or> last b = 0"

lemma closed_append: "closed_paths a \<Longrightarrow> closed_paths b \<Longrightarrow> closed_paths (a @ b)"
  by (cases "b = []") (auto simp: closed_paths_def)

lemma closed_base: "closed_paths []" "closed_paths (b @ [0])"
  by (simp_all add: closed_paths_def)

lemma collect_closed:
  "collect_paths relative n = Inr b \<Longrightarrow> closed_paths b" "collect_entries relative es = Inr b \<Longrightarrow> closed_paths b"
  by (induction relative n and relative es arbitrary: b and b rule: collect_paths_collect_entries.induct)
    (auto simp: bail_if_eq_Inr and_then_eq_Inr closed_base intro!: closed_append)

lemma split_on_closed:
  assumes "closed_paths a" and "x \<in> set (split_on 0 b)"
  shows "x \<in> set (split_on 0 (a @ b))"
proof (cases "a = []")
  case False
  then have "a = butlast a @ [0]" using assms(1) by (metis append_butlast_last_id closed_paths_def)
  then have "split_on 0 (a @ b) = split_on 0 (butlast a) @ split_on 0 b"
    using split_on_append_sep [of 0 "butlast a" b] by (metis append.assoc append_Cons append_Nil)
  then show ?thesis using assms(2) by simp
qed (use assms(2) in simp)

lemma collect_roots_names:
  assumes "collect_roots n names = Inr paths" and "name \<in> set names" and "node_at n [name] = Some (File b)"
    and "0 \<notin> set (as_bytes name)"
  shows "as_bytes name \<in> set (split_on 0 paths)"
  using assms
proof (induction names arbitrary: paths)
  case (Cons m names)
  from Cons.prems(1) obtain a rest where a: "(case node_at n [m] of Some x \<Rightarrow> collect_paths m x | None \<Rightarrow> Inr []) = Inr a"
    and rest: "collect_roots n names = Inr rest" and paths: "paths = a @ rest"
    by (auto simp: and_then_eq_Inr)
  have closed: "closed_paths a" using a collect_closed(1) by (auto simp: closed_paths_def split: option.splits)
  show ?case
  proof (cases "m = name")
    case True
    then have "a = as_bytes name @ [0]" using a Cons.prems(3) by (simp add: bail_if_eq_Inr)
    then have "split_on 0 paths = [as_bytes name] @ split_on 0 rest"
      using split_on_append_sep [of 0 "as_bytes name" rest] split_on_absent [OF Cons.prems(4)] paths by simp
    then show ?thesis by simp
  next
    case False
    then show ?thesis using Cons.IH [OF rest] Cons.prems split_on_closed [OF closed] paths by simp
  qed
qed simp

lemma command_success:
  assumes "act_then m (\<lambda>output. act_ret (ensure_git_success output action)) w = (Inr u, w')"
  shows "\<exists>output. m w = (Inr output, w')"
  using assms by (auto simp: act_simps)

lemma HEAD_listed: "''HEAD'' \<in> set CARRIER_ROOT_ENTRIES" and HEAD_bytes: "0 \<notin> set (as_bytes ''HEAD'')"
  by (simp add: CARRIER_ROOT_ENTRIES_def) code_simp

lemma stage_checkout_indexes:
  assumes laws: "carrier_git_laws V X S" and stage: "stage_carrier_checkout X (gs_root S) objects w = (Inr (), w')"
    and head: "node_at (cw_checkout w) [''HEAD''] = Some (File b)"
  shows "gv_index V (cw_git w') = Some (RegularFile b)" and "quiet V w w'"
proof -
  let ?add = "git_command_with_object_directory_input X (gs_root S) objects
      [''add'', ''-A'', ''--pathspec-from-file=-'', ''--pathspec-file-nul'']"
  from stage obtain paths where paths: "collect_roots (cw_checkout w) CARRIER_ROOT_ENTRIES = Inr paths"
    and add: "?add paths w = (Inr (), w')"
    unfolding stage_carrier_checkout_def act_then_Inr act_get_eq act_ret_eq by blast
  have "as_bytes ''HEAD'' \<in> set (split_on 0 paths)"
    by (rule collect_roots_names [OF paths HEAD_listed head HEAD_bytes])
  then have "gv_index V (cw_git w') = file_view (cw_checkout w) ''HEAD''"
    using laws_parts(5) [OF laws] add unfolding objects_are_named_def by blast
  then show "gv_index V (cw_git w') = Some (RegularFile b)" using head by (simp add: file_view_HEAD)
  have "act_keeps (quiet V) (?add paths)"
    unfolding git_command_with_object_directory_input_def
    by (intro quiet_rules run_process_quiet [OF laws, where h = "owned_work_tree (gs_root S)"]) (simp_all add: owned_work_tree_def)
  then show "quiet V w w'" using add by (rule act_keepsD)
qed

lemma git_text_quiet:
  assumes laws: "carrier_git_laws V X S" and "hd args \<notin> {''init'', ''checkout'', ''update-ref'', ''symbolic-ref''}"
  shows "act_keeps (quiet V) (git_text_with_object_directory X repo objects args)"
  unfolding git_text_with_object_directory_def CARRIER_IDENTITY_def prod.case Let_def
  by (intro quiet_rules run_process_quiet [OF laws, where h = "owned_work_tree repo"]) (use assms(2) in \<open>auto simp: owned_work_tree_def\<close>)

text \<open>What a commit holds that a publication built.\<close>

lemma commit_head_built:
  assumes laws: "carrier_git_laws V X S" and commit: "commit_head X S next base w = (Inr c, w')"
  shows "gv_local V (cw_git w') = Some c" and "gv_parents V c = (case base of None \<Rightarrow> [] | Some p \<Rightarrow> [p])"
    and "commit_entry V c = Some (RegularFile (as_bytes (next @ [CHR 0x0A])))"
    and "node_at (cw_checkout w') [''HEAD''] = Some (File (as_bytes (next @ [CHR 0x0A])))"
    and "grows V w w'"
proof -
  let ?parent = "case base of Some parent \<Rightarrow> [''-p'', parent] | None \<Rightarrow> []"
  let ?ref = "git_command X (gs_root S) [''update-ref'', ''refs/heads/'' @ gs_branch S, c]"
  from commit obtain u1 u2 u3 :: unit and objects t w1 w2 w3 w4 where
    wr: "write_checkout_head next (base = None) w = (Inr u1, w1)"
    and st0: "stage_carrier_checkout X (gs_root S) objects w1 = (Inr u2, w2)"
    and tr: "git_text_with_object_directory X (gs_root S) objects [''write-tree''] w2 = (Inr t, w3)"
    and co: "git_text_with_object_directory X (gs_root S) objects
       ([''commit-tree'', ''--no-gpg-sign'', ''-m'', CARRIER_COMMIT_MESSAGE] @ ?parent @ [t]) w3 = (Inr c, w4)"
    and up0: "?ref w4 = (Inr u3, w')"
    unfolding commit_head_def act_then_Inr act_get_eq act_ret_eq Let_def sum.inject by (elim exE conjE) (hypsubst_thin, blast)
  have st: "stage_carrier_checkout X (gs_root S) objects w1 = (Inr (), w2)" and up: "?ref w4 = (Inr (), w')"
    using st0 up0 by simp_all
  have "gv_index V (cw_git w2) = Some (RegularFile (as_bytes (next @ [CHR 0x0A])))"
    by (rule stage_checkout_indexes(1) [OF laws st write_checkout_head_writes(1) [OF wr]])
  moreover have "gv_tree V t = gv_index V (cw_git w2)"
    using laws_parts(5) [OF laws] tr unfolding objects_are_named_def by blast
  moreover have "gv_tree_of V c = t \<and> gv_parents V c = (case base of None \<Rightarrow> [] | Some p \<Rightarrow> [p])"
    using laws_parts(5) [OF laws] co unfolding objects_are_named_def by blast
  ultimately show "gv_parents V c = (case base of None \<Rightarrow> [] | Some p \<Rightarrow> [p])"
    "commit_entry V c = Some (RegularFile (as_bytes (next @ [CHR 0x0A])))" by (simp_all add: commit_entry_def)
  show "gv_local V (cw_git w') = Some c"
    using laws_parts(4) [OF laws] up unfolding refs_are_kept_def by blast
  have q: "quiet V w1 w4"
    using stage_checkout_indexes(2) [OF laws st write_checkout_head_writes(1) [OF wr]]
      act_keepsD [OF git_text_quiet [OF laws] tr] act_keepsD [OF git_text_quiet [OF laws] co]
      quiet_trans [of V, unfolded transp_def] by simp
  obtain out where run: "run_process X (git (owned_work_tree (gs_root S))) []
      [''update-ref'', ''refs/heads/'' @ gs_branch S, c] [] w4 = (Inr out, w')"
    using command_success [OF up [unfolded git_command_def git_output_def]] by blast
  have "hd [''update-ref'', ''refs/heads/'' @ gs_branch S, c] \<notin> {''init'', ''checkout''}" by simp
  moreover have "gh_owner (owned_work_tree (gs_root S)) = Program" by (simp add: owned_work_tree_def)
  ultimately have tree: "cw_checkout w' = cw_checkout w4"
    using laws_parts(2) [OF laws] run unfolding commands_are_local_def by blast
  then show "node_at (cw_checkout w') [''HEAD''] = Some (File (as_bytes (next @ [CHR 0x0A])))"
    using write_checkout_head_writes(1) [OF wr] q by (simp add: quiet_def)
  have "grows V w4 w'" by (rule act_keepsD [OF run_process_grows [OF laws_parts(1) [OF laws]] run])
  then show "grows V w w'"
    using write_checkout_head_writes(2) [OF wr] quiet_grows [OF q] grows_trans [of V, unfolded transp_def] by metis
qed

lemma push_quiet:
  assumes laws: "carrier_git_laws V X S"
  shows "act_keeps (quiet V) (push_head X S)"
  unfolding push_head_def by (rule run_process_quiet [OF laws, where h = "owned_work_tree (gs_root S)"]) (simp_all add: owned_work_tree_def)

lemma update_published_tip_quiet:
  assumes laws: "carrier_git_laws V X S"
  shows "act_keeps (quiet V) (update_published_tip X c)"
proof -
  have "act_keeps (quiet V) (cache_git_command X p [''update-ref'', CARRIER_CACHE_FETCH_REF, c])" for p
    by (rule cache_command_quiet [OF laws]) simp
  then show ?thesis by (simp add: act_keeps_def update_published_tip_def)
qed

lemma commit_and_push_moves:
  assumes laws: "carrier_git_laws V X S"
    and push: "commit_and_push_head X S remote_dir next expected base w = (Inr c, w')"
  shows "Some c \<in> window V w w'" and "gv_parents V c = (case base of None \<Rightarrow> [] | Some p \<Rightarrow> [p])"
    and "commit_entry V c = Some (RegularFile (as_bytes (next @ [CHR 0x0A])))"
    and "gv_local V (cw_git w') = Some c"
    and "node_at (cw_checkout w') [''HEAD''] = Some (File (as_bytes (next @ [CHR 0x0A])))" and "grows V w w'"
proof -
  let ?settle = "\<lambda>push. if succeeded push then act_ret (Inr ())
       else (\<lambda>w.
         let push_error = err (Msg ''git push carrier branch failed'') in
         case cache_refresh X remote_dir (gs_remote S) (gs_branch S) w of
           (Inl _, w') \<Rightarrow> (Inl push_error, w')
         | (Inr latest, w') \<Rightarrow>
             if latest = Some c then (Inr (), w')
             else if latest = base then (Inl push_error, w')
             else cas_conflict X S expected latest w')"
  from push obtain u1 u2 :: unit and w1 out w2 w3 where co: "commit_head X S next base w = (Inr c, w1)"
    and run: "push_head X S w1 = (Inr out, w2)" and settle0: "?settle out w2 = (Inr u1, w3)"
    and up: "update_published_tip X c w3 = (Inr u2, w')"
    unfolding commit_and_push_head_def act_then_Inr act_ret_eq sum.inject by (elim exE conjE) (hypsubst_thin, blast)
  note built = commit_head_built [OF laws co] and settle = settle0 [unfolded unit_eq [of u1]]
  have q12: "quiet V w1 w2" by (rule act_keepsD [OF push_quiet [OF laws] run])
  have q3: "quiet V w3 w'" by (rule act_keepsD [OF update_published_tip_quiet [OF laws] up])
  have seen: "quiet V w2 w3 \<and> Some c \<in> window V w1 w3"
  proof (cases "succeeded out")
    case True
    then have "w3 = w2" using settle by (simp add: act_ret_eq)
    moreover have "Some c \<in> window V w1 w2"
      using laws_parts(3) [OF laws] run True built(1) unfolding transports_are_live_def by blast
    ultimately show ?thesis by (simp add: quiet_refl [unfolded reflp_def])
  next
    case False
    obtain r wr where refresh: "cache_refresh X remote_dir (gs_remote S) (gs_branch S) w2 = (r, wr)"
      by (cases "cache_refresh X remote_dir (gs_remote S) (gs_branch S) w2")
    have no: "fst (cas_conflict X S expected latest wr) \<noteq> Inr ()" for latest
      by (simp add: cas_conflict_def split_def)
    obtain latest where r: "r = Inr latest" using settle False refresh by (cases r) (simp_all add: Let_def)
    have "latest = Some c \<and> w3 = wr"
      using settle False refresh r no [of latest] by (auto simp: Let_def split: if_splits)
    then have "cache_refresh X remote_dir (gs_remote S) (gs_branch S) w2 = (Inr (Some c), w3)" using refresh r by simp
    then have "quiet V w2 w3" "Some c \<in> window V w2 w3"
      using act_keepsD [OF cache_refresh_quiet [OF laws]] cache_refresh_live [OF laws] by blast+
    then show ?thesis using window_left [OF quiet_grows [OF q12]] by blast
  qed
  have q: "quiet V w1 w'" using q12 seen q3 quiet_trans [of V, unfolded transp_def] by metis
  show "Some c \<in> window V w w'"
    using seen window_left [OF built(5)] window_right [OF quiet_grows [OF q3]] by blast
  show "gv_parents V c = (case base of None \<Rightarrow> [] | Some p \<Rightarrow> [p])"
    "commit_entry V c = Some (RegularFile (as_bytes (next @ [CHR 0x0A])))" by (rule built(2), rule built(3))
  show "gv_local V (cw_git w') = Some c" "node_at (cw_checkout w') [''HEAD''] = Some (File (as_bytes (next @ [CHR 0x0A])))"
    using built(1,4) q by (simp_all add: quiet_def)
  show "grows V w w'" using built(5) quiet_grows [OF q] grows_trans [of V, unfolded transp_def] by metis
qed

text \<open>Whether it succeeds or not, a publication only lets the remote move on.\<close>

lemma commit_head_grows:
  assumes laws: "carrier_git_laws V X S"
  shows "act_keeps (grows V) (commit_head X S next base)"
proof -
  note run = run_process_grows [OF laws_parts(1) [OF laws]]
  have plumbing: "act_keeps (grows V) (git_text_with_object_directory X (gs_root S) objects args)" for objects args
    unfolding git_text_with_object_directory_def CARRIER_IDENTITY_def prod.case Let_def by (intro grows_then run grows_ret)
  have stage: "act_keeps (grows V) (stage_carrier_checkout X (gs_root S) objects)" for objects
    unfolding stage_carrier_checkout_def git_command_with_object_directory_input_def
    by (intro grows_then run grows_ret grows_get)
  have head: "act_keeps (grows V) (write_checkout_head next (base = None))"
    unfolding write_checkout_head_def by (intro grows_then) (simp_all add: grows_then grows_ret in_checkout_grows)
  show ?thesis
    unfolding commit_head_def Let_def git_command_def git_output_def
    by (intro grows_then head grows_get stage plumbing run grows_ret)
qed

lemma commit_and_push_grows:
  assumes laws: "carrier_git_laws V X S"
  shows "act_keeps (grows V) (commit_and_push_head X S remote_dir next expected base)"
proof -
  let ?settle = "\<lambda>c w.
         let push_error = err (Msg ''git push carrier branch failed'') in
         case cache_refresh X remote_dir (gs_remote S) (gs_branch S) w of
           (Inl _, w') \<Rightarrow> (Inl push_error, w')
         | (Inr latest, w') \<Rightarrow>
             if latest = Some c then (Inr (), w')
             else if latest = base then (Inl push_error, w')
             else cas_conflict X S expected latest w'"
  have settle: "act_keeps (grows V) (?settle c)" for c
    unfolding act_keeps_def
  proof
    fix w
    obtain r w1 where run: "cache_refresh X remote_dir (gs_remote S) (gs_branch S) w = (r, w1)"
      by (cases "cache_refresh X remote_dir (gs_remote S) (gs_branch S) w")
    have q: "quiet V w w1" by (rule act_keepsD [OF cache_refresh_quiet [OF laws] run])
    then show "grows V w (snd (?settle c w))"
      using run quiet_after [OF cas_conflict_quiet [of V X S expected] q] by (cases r) (auto simp: Let_def intro: quiet_grows)
  qed
  show ?thesis
    unfolding commit_and_push_head_def
    by (intro grows_then commit_head_grows [OF laws] act_keeps_grows [OF push_quiet [OF laws]]
        act_keeps_grows [OF update_published_tip_quiet [OF laws]] grows_ret)
      (simp add: grows_ret settle)
qed

section \<open>Restoring the checkout\<close>

lemma remove_keeps_absent:
  assumes "node_at n [c] = None"
  shows "node_at (put_at p None n) [c] = None"
proof (cases n)
  case (Dir es)
  then show ?thesis using assms
    by (cases p; cases "tl p") (auto split: option.splits)
qed (use assms in \<open>cases p; simp\<close>)+

lemma remove_file_keeps_absent:
  "remove_file p n = (r, n') \<Longrightarrow> node_at n [c] = None \<Longrightarrow> node_at n' [c] = None"
  by (auto simp: remove_file_def remove_keeps_absent split: option.splits node.splits)

lemma remove_file_removes:
  assumes "remove_file [c] n = (r, n')" and "r = Inr () \<or> r = Inl (err (Io NotFound))"
  shows "node_at n' [c] = None"
proof (cases "node_at n [c]")
  case None
  then show ?thesis using assms by (simp add: remove_file_def)
next
  case (Some m)
  then have "is_dir (node_at n (butlast [c]))" using node_at_prefix [of n "[]" "[c]" m] by simp
  then have "node_at (put_at [c] None n) [c] = None" by (rule node_at_put_at) simp
  then show ?thesis using assms Some by (auto simp: remove_file_def split: node.splits)
qed

text \<open>Steps that keep the file \<^verbatim>\<open>HEAD\<close> absent and Git's state as it is.\<close>

definition headless :: "'c carrier_world \<Rightarrow> 'c carrier_world \<Rightarrow> bool" where
  "headless w w' \<longleftrightarrow> cw_git w' = cw_git w \<and> cw_base w' = cw_base w
     \<and> (node_at (cw_checkout w) [''HEAD''] = None \<longrightarrow> node_at (cw_checkout w') [''HEAD''] = None)"

lemma remove_untracked_headless: "act_keeps headless (remove_untracked paths)"
proof (induction paths)
  case Nil
  then show ?case by (simp add: remove_untracked_def act_keeps_def act_ret_def headless_def)
next
  case (Cons p paths)
  have trans: "transp headless" and refl: "reflp headless" by (auto simp: transp_def reflp_def headless_def)
  have one: "act_keeps headless (in_checkout (remove_file q))" for q
    using remove_file_keeps_absent by (fastforce simp: act_keeps_def in_checkout_def headless_def split: prod.splits)
  show ?case
    unfolding remove_untracked_def run_each.simps
    by (intro act_keeps_then [OF trans] Cons.IH [unfolded remove_untracked_def])
      (simp add: act_keeps_then [OF trans] act_keeps_ret [OF refl] one)
qed

lemma remove_head_file_removes:
  assumes "remove_head_file w = (Inr u, w')"
  shows "node_at (cw_checkout w') [''HEAD''] = None" and "cw_git w' = cw_git w" and "cw_base w' = cw_base w"
proof -
  obtain r n where run: "remove_file [''HEAD''] (cw_checkout w) = (r, n)" by (cases "remove_file [''HEAD''] (cw_checkout w)")
  have kinds: "r = Inl e \<Longrightarrow> e = err (root e)" for e
    using run by (auto simp: remove_file_def split: option.splits node.splits)
  have w': "w' = w\<lparr>cw_checkout := n\<rparr>" and "r = Inr () \<or> r = Inl (err (Io NotFound))"
    using assms run kinds by (auto simp: remove_head_file_def in_checkout_def split: sum.splits if_splits)
  then show "node_at (cw_checkout w') [''HEAD''] = None" "cw_git w' = cw_git w" "cw_base w' = cw_base w"
    using remove_file_removes [OF run] by simp_all
qed

lemma checkout_command_quiet:
  assumes laws: "carrier_git_laws V X S" and "hd args \<notin> {''init'', ''checkout'', ''update-ref'', ''symbolic-ref''}"
  shows "act_keeps (quiet V) (git_command X repo args)" and "act_keeps (quiet V) (git_output X repo args)"
proof -
  show out: "act_keeps (quiet V) (git_output X repo args)"
    unfolding git_output_def by (rule run_process_quiet [OF laws, where h = "owned_work_tree repo"]) (use assms(2) in \<open>auto simp: owned_work_tree_def\<close>)
  show "act_keeps (quiet V) (git_command X repo args)"
    unfolding git_command_def by (intro quiet_then out quiet_ret)
qed

lemma checkout_command_grows:
  assumes laws: "carrier_git_laws V X S"
  shows "act_keeps (grows V) (git_command X repo args)"
  unfolding git_command_def git_output_def
  by (intro grows_then run_process_grows [OF laws_parts(1) [OF laws]] grows_ret)

lemma restore_index_restores:
  assumes laws: "carrier_git_laws V X S" and restore: "restore_index X S base w = (Inr u, w')"
  shows "gv_local V (cw_git w') = base"
proof (cases base)
  case (Some c)
  with restore obtain v w1 where up: "git_command X (gs_root S) [''update-ref'', ''refs/heads/'' @ gs_branch S, c] w = (Inr v, w1)"
    and rd: "git_command X (gs_root S) [''read-tree'', c] w1 = (Inr u, w')"
    unfolding restore_index_def Let_def by (auto simp only: option.case act_then_Inr)
  have "quiet V w1 w'" by (rule act_keepsD [OF checkout_command_quiet(1) [OF laws] rd]) simp
  moreover have "gv_local V (cw_git w1) = Some c"
    using laws_parts(4) [OF laws] up [unfolded unit_eq [of v]] unfolding refs_are_kept_def by blast
  ultimately show ?thesis using Some by (simp add: quiet_def)
next
  case None
  let ?ref = "''refs/heads/'' @ gs_branch S"
  from restore None obtain found v w1 w2 where
    parse: "git_rev_parse X (gs_root S) ?ref w = (Inr found, w1)"
    and del: "(if found \<noteq> None then git_command X (gs_root S) [''update-ref'', ''-d'', ?ref] else act_ret (Inr ())) w1 = (Inr v, w2)"
    and rd: "git_command X (gs_root S) [''read-tree'', ''--empty''] w2 = (Inr u, w')"
    unfolding restore_index_def Let_def by (auto simp only: option.case act_then_Inr)
  have found: "found = gv_local V (cw_git w)" "quiet V w w1"
    using laws_parts(4) [OF laws] parse act_keepsD [OF rev_parse_quiet [OF laws] parse] unfolding refs_are_kept_def by blast+
  have "gv_local V (cw_git w2) = None"
  proof (cases "found = None")
    case True
    then show ?thesis using found del by (simp add: act_ret_eq quiet_def)
  next
    case False
    then have "git_command X (gs_root S) [''update-ref'', ''-d'', ?ref] w1 = (Inr (), w2)" using del by simp
    then show ?thesis using laws_parts(4) [OF laws] unfolding refs_are_kept_def by blast
  qed
  moreover have "quiet V w2 w'" by (rule act_keepsD [OF checkout_command_quiet(1) [OF laws] rd]) simp
  ultimately show ?thesis using None by (simp add: quiet_def)
qed

lemma restore_index_grows:
  assumes laws: "carrier_git_laws V X S"
  shows "act_keeps (grows V) (restore_index X S base)"
  unfolding restore_index_def Let_def
  by (cases base) (simp_all add: grows_then grows_ret checkout_command_grows [OF laws] act_keeps_grows [OF rev_parse_quiet [OF laws]])

lemma restore_checkout_syncs:
  assumes laws: "carrier_git_laws V X S" and restore: "restore_checkout X S base w = (Inr u, w')"
  shows "gv_local V (cw_git w') = base" and "node_at (cw_checkout w') [''HEAD''] = None" and "cw_base w' = cw_base w"
proof -
  let ?ls = "git_output X (gs_root S) [''ls-files'', ''--others'', ''-z'', ''--'', ''README.md'', ''FORMAT'', ''manifests'', ''packs'']"
  from restore obtain u1 u2 w1 w2 out w3 where ix: "restore_index X S base w = (Inr u1, w1)"
    and hd: "remove_head_file w1 = (Inr u2, w2)" and ls: "?ls w2 = (Inr out, w3)"
    and rm: "remove_untracked (split_on 0 (snd out)) w3 = (Inr u, w')"
    unfolding restore_checkout_def act_then_Inr act_ret_eq by blast
  have q: "quiet V w2 w3" by (rule act_keepsD [OF checkout_command_quiet(2) [OF laws] ls]) simp
  have r: "headless w3 w'" by (rule act_keepsD [OF remove_untracked_headless rm])
  have g: "grows V w w1" by (rule act_keepsD [OF restore_index_grows [OF laws] ix])
  note h = remove_head_file_removes [OF hd]
  show "gv_local V (cw_git w') = base" using restore_index_restores [OF laws ix] h(2) q r by (simp add: headless_def quiet_def)
  show "node_at (cw_checkout w') [''HEAD''] = None" using h(1) q r by (simp add: headless_def quiet_def)
  show "cw_base w' = cw_base w" using g h(3) q r by (simp add: headless_def quiet_def grows_def)
qed

section \<open>The swap\<close>

lemma window_index: "x \<in> window V w w' \<longleftrightarrow> (\<exists>i. length (tips V w) - 1 \<le> i \<and> i < length (tips V w') \<and> tips V w' ! i = x)"
proof
  let ?m = "length (tips V w) - 1"
  assume "x \<in> window V w w'"
  then obtain j where "j < length (drop ?m (tips V w'))" "drop ?m (tips V w') ! j = x"
    unfolding window_def by (meson in_set_conv_nth)
  then show "\<exists>i. ?m \<le> i \<and> i < length (tips V w') \<and> tips V w' ! i = x"
    by (intro exI [of _ "?m + j"]) (auto simp: add.commute)
next
  let ?m = "length (tips V w) - 1"
  assume "\<exists>i. ?m \<le> i \<and> i < length (tips V w') \<and> tips V w' ! i = x"
  then obtain i where i: "?m \<le> i" "i < length (tips V w')" "tips V w' ! i = x" by blast
  then have "drop ?m (tips V w') ! (i - ?m) = x" "i - ?m < length (drop ?m (tips V w'))" by simp_all
  then show "x \<in> window V w w'" unfolding window_def by (meson in_set_conv_nth)
qed

lemma lock_quiet: "act_keeps (quiet V) (carrier_lock P X remote branch)"
  by (simp add: act_keeps_def carrier_lock_def quiet_memory)

lemma head_named_written:
  assumes "commit_entry V c = Some (RegularFile (as_bytes (next @ [CHR 0x0A])))" and "validate_id next = Inr ()"
  shows "head_named V (Some c) = Inr (Some next)"
proof -
  have "length (as_bytes (next @ [CHR 0x0A])) \<le> MAX_HEAD_BYTES"
    using assms(2) by (simp add: validate_id_ok MAX_HEAD_BYTES_def)
  then have "head_found V (Some c) = Within (as_bytes (next @ [CHR 0x0A]))"
    using assms(1) by (simp add: head_found_def base_entry_def read_regular_bounded_def open_regular_def Let_def)
  then show ?thesis
    using stored_head_id_written [OF assms(2)] by (simp add: head_named_def del: stored_head_id.simps)
qed

text \<open>The two swaps end alike: what a publication on top of a tip seen before achieves.\<close>

lemma publish_and_advance_moves:
  assumes laws: "carrier_git_laws V X S" and ff: "fast_forward_log V (tips V w3)" and next_ok: "validate_id next = Inr ()"
    and seen: "base \<in> window V w w3"
    and publish: "publish_and_advance X S remote_dir next expected base w3 = (Inr (), w')"
  shows "\<exists>c k. length (tips V w) \<le> Suc k \<and> Suc k < length (tips V w') \<and> tips V w' ! k = base \<and> tips V w' ! Suc k = Some c
    \<and> head_named V (Some c) = Inr (Some next) \<and> cw_base w' = Some c \<and> synced V w'"
proof -
  from publish obtain c w4 where p: "commit_and_push_head X S remote_dir next expected base w3 = (Inr c, w4)"
    and w': "w' = w4\<lparr>cw_base := Some c\<rparr>"
    by (auto simp: publish_and_advance_def publish_checkout_head_def act_then_Inr split: prod.splits sum.splits)
  note m = commit_and_push_moves [OF laws p]
  have tips': "tips V w' = tips V w4" by (simp add: w' tips_def)
  from seen obtain i where i: "length (tips V w) - 1 \<le> i" "i < length (tips V w3)" "tips V w3 ! i = base"
    by (auto simp: window_index)
  from m(1) obtain j where j: "length (tips V w3) - 1 \<le> j" "j < length (tips V w4)" "tips V w4 ! j = Some c"
    by (auto simp: window_index)
  have ext: "tips V w4 ! i = base" "fast_forward_log V (tips V w4)"
    using m(6) i ff by (auto simp: grows_def nth_append)
  have ac: "acyclic (ancestry V)" using laws_parts(5) [OF laws] by (simp add: objects_are_named_def)
  have "i \<le> j" using i(2) j(1) by linarith
  from moved_in_one_step [OF ac m(2) ext(2) this j(2) ext(1) j(3)] obtain k where
    "i \<le> k" "Suc k < length (tips V w4)" "tips V w4 ! k = base" "tips V w4 ! Suc k = Some c" by blast
  moreover have "synced V w'" using m(3,4,5) by (simp add: synced_def w' base_entry_def)
  ultimately show ?thesis
    using i(1) head_named_written [OF m(3) next_ok] tips' w' by (intro exI [of _ c] exI [of _ k]) auto
qed

definition restore_failed :: "error \<Rightarrow> bool" where
  "restore_failed e \<longleftrightarrow>
     Msg ''restoring the carrier checkout after a failed publication also failed'' \<in> set (contexts e)"

lemma publish_and_advance_restores:
  assumes laws: "carrier_git_laws V X S" and base: "cw_base w = base"
    and publish: "publish_and_advance X S remote_dir next expected base w = (Inl e, w')" and ok: "\<not> restore_failed e"
  shows "synced V w' \<and> cw_base w' = base"
proof -
  from publish have "publish_checkout_head X S remote_dir next expected base w = (Inl e, w')"
    by (auto simp: publish_and_advance_def act_then_Inl)
  then obtain e1 w1 r where fail: "commit_and_push_head X S remote_dir next expected base w = (Inl e1, w1)"
    and res: "restore_checkout X S base w1 = (r, w')" and e: "(case r of Inr _ \<Rightarrow> e = e1
      | Inl _ \<Rightarrow> e = context_of (Msg ''restoring the carrier checkout after a failed publication also failed'') e1)"
    by (auto simp: publish_checkout_head_def split: prod.splits sum.splits)
  obtain u where "r = Inr u" using e ok by (cases r) (auto simp: restore_failed_def context_of_def)
  note s = restore_checkout_syncs [OF laws res [unfolded this]]
  have "cw_base w1 = cw_base w"
    using act_keepsD [OF commit_and_push_grows [OF laws] fail] by (simp add: grows_def)
  then show ?thesis using s base by (simp add: synced_def)
qed

text \<open>A quiet step fails quietly, or the rest of the operation runs.\<close>

lemma quiet_step:
  assumes "act_then m f w = (r, w')" and "act_keeps (quiet V) m" and "quiet V w0 w"
    and "\<And>a w1. m w = (Inr a, w1) \<Longrightarrow> quiet V w0 w1 \<Longrightarrow> f a w1 = (r, w') \<Longrightarrow> G"
    and "\<And>e. r = Inl e \<Longrightarrow> quiet V w0 w' \<Longrightarrow> G"
  shows G
proof (cases "m w")
  case (Pair x w1)
  then have "quiet V w0 w1"
    using act_keepsD [OF assms(2) Pair] assms(3) quiet_trans [of V, unfolded transp_def] by metis
  then show ?thesis using assms(1,4,5) Pair by (cases x) (auto simp: act_then_def)
qed

lemma quiet_self: "quiet V w w"
  by (rule quiet_refl [unfolded reflp_def, rule_format])

text \<open>The swap after its refresh.\<close>

definition swap_at :: "'c carrier_io \<Rightarrow> git_storage \<Rightarrow> string \<Rightarrow> string option \<Rightarrow> string \<Rightarrow> string option \<Rightarrow> (unit, 'c) carrier_act" where
  "swap_at X S remote_dir expected next remote_tip w =
     (if remote_tip \<noteq> cw_base w then cas_conflict X S expected remote_tip w
      else
       act_then (local_head X S) (\<lambda>actual w.
       if actual \<noteq> expected then (Inl (err (CasConflict expected actual)), w)
       else
         act_then (act_ret (if actual = None then refuse_foreign_branch (cw_base w) else Inr ())) (\<lambda>_ w.
         publish_and_advance X S remote_dir next expected (cw_base w) w) w) w)"

lemma swap_unfold:
  "carrier_compare_and_swap_head P X S expected next =
     act_then (act_ret (validate_id next)) (\<lambda>_.
     act_then (carrier_lock P X (gs_remote S) (gs_branch S)) (\<lambda>remote_dir.
     act_then (cache_refresh X remote_dir (gs_remote S) (gs_branch S)) (\<lambda>remote_tip.
     swap_at X S remote_dir expected next remote_tip)))"
  unfolding carrier_compare_and_swap_head_def swap_at_def ..

lemma swap_at_cases:
  assumes laws: "carrier_git_laws V X S" and swap: "swap_at X S remote_dir expected next tip w = (r, w')" and q: "quiet V w0 w"
  shows "(\<exists>e. r = Inl e \<and> quiet V w0 w') \<or>
    (\<exists>w1. tip = cw_base w \<and> local_head X S w = (Inr expected, w1) \<and> quiet V w w1
      \<and> publish_and_advance X S remote_dir next expected (cw_base w) w1 = (r, w'))"
proof (cases "tip = cw_base w")
  case False
  then have c: "cas_conflict X S expected tip w = (r, w')" using swap by (simp add: swap_at_def)
  have "quiet V w0 w'"
    using act_keepsD [OF cas_conflict_quiet c, of V] q quiet_trans [of V, unfolded transp_def] by metis
  then show ?thesis using c by (auto simp: cas_conflict_def split: prod.splits)
next
  case True
  then have rest: "act_then (local_head X S) (\<lambda>actual w.
       if actual \<noteq> expected then (Inl (err (CasConflict expected actual)), w)
       else
         act_then (act_ret (if actual = None then refuse_foreign_branch (cw_base w) else Inr ())) (\<lambda>_ w.
         publish_and_advance X S remote_dir next expected (cw_base w) w) w) w = (r, w')"
    using swap by (simp add: swap_at_def)
  from rest local_head_quiet [OF laws] q show ?thesis
  proof (rule quiet_step)
    fix actual w1
    assume head: "local_head X S w = (Inr actual, w1)" and q1: "quiet V w0 w1"
      and rest: "(if actual \<noteq> expected then (Inl (err (CasConflict expected actual)), w1)
       else
         act_then (act_ret (if actual = None then refuse_foreign_branch (cw_base w1) else Inr ())) (\<lambda>_ w.
         publish_and_advance X S remote_dir next expected (cw_base w) w) w1) = (r, w')"
    have q2: "quiet V w w1" by (rule act_keepsD [OF local_head_quiet [OF laws] head])
    then have b: "cw_base w1 = cw_base w" by (simp add: quiet_def grows_def)
    show ?thesis
      using rest head True q1 q2 b
      by (cases "if actual = None then refuse_foreign_branch (cw_base w1) else Inr ()")
        (auto simp: act_then_def act_ret_def split: if_splits)
  qed blast
qed

text \<open>Locking and refreshing the cache yields a tip the branch had since.\<close>

lemma refreshed_cases:
  assumes laws: "carrier_git_laws V X S" and q0: "quiet V w w0"
    and run: "act_then (carrier_lock P X (gs_remote S) (gs_branch S)) (\<lambda>remote_dir.
      act_then (cache_refresh X remote_dir (gs_remote S) (gs_branch S)) (K remote_dir)) w0 = (r, w')"
  shows "(\<exists>e. r = Inl e \<and> quiet V w w') \<or>
    (\<exists>remote_dir tip w2. quiet V w w2 \<and> cw_base w2 = cw_base w \<and> tip \<in> window V w w2 \<and> K remote_dir tip w2 = (r, w'))" (is ?outcome)
  using run lock_quiet q0
proof (rule quiet_step)
  fix remote_dir w1
  assume q1: "quiet V w w1" and "act_then (cache_refresh X remote_dir (gs_remote S) (gs_branch S)) (K remote_dir) w1 = (r, w')"
  from this(2) cache_refresh_quiet [OF laws] q1 show ?outcome
  proof (rule quiet_step)
    fix tip w2
    assume refresh: "cache_refresh X remote_dir (gs_remote S) (gs_branch S) w1 = (Inr tip, w2)" and q2: "quiet V w w2"
      and rest: "K remote_dir tip w2 = (r, w')"
    have "tip \<in> window V w w2"
      using cache_refresh_live [OF laws refresh] window_left [OF quiet_grows [OF q1]] by blast
    moreover have "cw_base w2 = cw_base w" using q2 by (simp add: quiet_def grows_def)
    ultimately show ?outcome using q2 rest by blast
  qed blast
qed blast

lemma swap_cases:
  assumes laws: "carrier_git_laws V X S" and sync: "synced V w"
    and swap: "carrier_compare_and_swap_head P X S expected next w = (r, w')"
  shows "(\<exists>e. r = Inl e \<and> quiet V w w') \<or>
    (\<exists>w3 remote_dir. validate_id next = Inr () \<and> quiet V w w3 \<and> cw_base w \<in> window V w w3
      \<and> head_named V (cw_base w) = Inr expected
      \<and> publish_and_advance X S remote_dir next expected (cw_base w) w3 = (r, w'))" (is ?outcome)
  using swap [unfolded swap_unfold] quiet_ret quiet_self
proof (rule quiet_step)
  fix u w0
  assume v: "act_ret (validate_id next) w = (Inr u, w0)" and q0: "quiet V w w0"
    and rest: "act_then (carrier_lock P X (gs_remote S) (gs_branch S)) (\<lambda>remote_dir.
      act_then (cache_refresh X remote_dir (gs_remote S) (gs_branch S)) (swap_at X S remote_dir expected next)) w0 = (r, w')"
  from refreshed_cases [OF laws q0 rest] show ?outcome
  proof (elim disjE exE conjE)
    fix remote_dir tip w2
    assume q2: "quiet V w w2" and base2: "cw_base w2 = cw_base w" and seen: "tip \<in> window V w w2"
      and at: "swap_at X S remote_dir expected next tip w2 = (r, w')"
    from swap_at_cases [OF laws at q2] show ?outcome
    proof (elim disjE exE conjE)
      fix w3
      assume t: "tip = cw_base w2" and head: "local_head X S w2 = (Inr expected, w3)" and q3: "quiet V w2 w3"
        and pub: "publish_and_advance X S remote_dir next expected (cw_base w2) w3 = (r, w')"
      have "quiet V w w3" using q2 q3 quiet_trans [of V, unfolded transp_def] by metis
      moreover have "cw_base w \<in> window V w w3" using seen t base2 window_right [OF quiet_grows [OF q3]] by auto
      moreover have "head_named V (cw_base w) = Inr expected"
        using local_head_named [OF laws synced_quiet [OF sync q2] head] base2 by simp
      ultimately show ?outcome using v pub base2 by (auto simp: act_ret_eq)
    qed blast
  qed blast
qed blast

text \<open>What both swaps end with: the step of the branch, or the checkout where it was.\<close>

definition swap_outcome :: "'c git_view \<Rightarrow> string \<Rightarrow> bool \<Rightarrow> 'c carrier_world \<Rightarrow> unit result \<Rightarrow> 'c carrier_world \<Rightarrow> bool" where
  "swap_outcome V next expected_head w r w' = (case r of
      Inr _ \<Rightarrow> \<exists>c k. length (tips V w) \<le> Suc k \<and> Suc k < length (tips V w')
        \<and> tips V w' ! k = cw_base w \<and> tips V w' ! Suc k = Some c
        \<and> expected_head \<and> head_named V (Some c) = Inr (Some next)
        \<and> cw_base w' = Some c \<and> synced V w'
    | Inl e \<Rightarrow> restore_failed e \<or> synced V w' \<and> cw_base w' = cw_base w)"

lemma swap_outcome_quiet: "synced V w \<Longrightarrow> quiet V w w' \<Longrightarrow> swap_outcome V next expected_head w (Inl e) w'"
  using synced_quiet [of V w w'] by (simp add: swap_outcome_def quiet_def grows_def)

lemma publish_outcome:
  assumes laws: "carrier_git_laws V X S" and ff: "fast_forward_log V (tips V w)"
    and next_ok: "validate_id next = Inr ()" and q: "quiet V w w3" and seen: "cw_base w \<in> window V w w3"
    and pub: "publish_and_advance X S remote_dir next expected (cw_base w) w3 = (r, w')" and expected_head
  shows "swap_outcome V next expected_head w r w'"
proof (cases r)
  case (Inl e)
  have "cw_base w3 = cw_base w" using q by (simp add: quiet_def grows_def)
  from publish_and_advance_restores [OF laws this pub [unfolded Inl]] show ?thesis
    unfolding Inl swap_outcome_def by auto
next
  case (Inr u)
  have "fast_forward_log V (tips V w3)" using ff q by (simp add: quiet_def grows_def)
  from publish_and_advance_moves [OF laws this next_ok seen] show ?thesis
    using pub Inr \<open>expected_head\<close> by (simp add: swap_outcome_def)
qed

text \<open>C5. The compare-and-swap of the Git carrier is one step of an atomic register, whatever other clients
  push meanwhile. Given that the remote branch is only created or fast-forwarded and that the checkout
  stands at the opened commit: if the swap succeeds, the branch moved during it, in one step, from the
  opened commit, whose head is the expected one, to a commit that names the next head, and the
  storage then stands there; if it fails, the storage stands where it stood, unless the error says
  that the checkout could not be restored.\<close>

theorem carrier_swap_is_atomic:
  assumes "carrier_git_laws V X S" and "fast_forward_log V (tips V w)" and "synced V w"
    and "carrier_compare_and_swap_head P X S expected next w = (r, w')"
  shows "case r of
      Inr _ \<Rightarrow> \<exists>c k. length (tips V w) \<le> Suc k \<and> Suc k < length (tips V w')
        \<and> tips V w' ! k = cw_base w \<and> tips V w' ! Suc k = Some c
        \<and> head_named V (cw_base w) = Inr expected \<and> head_named V (Some c) = Inr (Some next)
        \<and> cw_base w' = Some c \<and> synced V w'
    | Inl e \<Rightarrow> restore_failed e \<or> synced V w' \<and> cw_base w' = cw_base w"
proof -
  from swap_cases [OF assms(1,3,4)]
  have "swap_outcome V next (head_named V (cw_base w) = Inr expected) w r w'"
  proof (elim disjE exE conjE)
    fix e assume "r = Inl e" "quiet V w w'"
    then show ?thesis using swap_outcome_quiet [OF assms(3)] by simp
  qed (rule publish_outcome [OF assms(1,2)])
  then show ?thesis by (simp add: swap_outcome_def)
qed

section \<open>The swap of recovery\<close>

text \<open>The swap against an observation, after its refresh.\<close>

definition observed_swap_at ::
    "'c carrier_io \<Rightarrow> git_storage \<Rightarrow> head_observation \<Rightarrow> string \<Rightarrow> string option \<Rightarrow> string \<Rightarrow> string option \<Rightarrow> (unit, 'c) carrier_act" where
  "observed_swap_at X S observed next base remote_dir tip =
     (if tip \<noteq> base then cas_conflict X S (ho_head_id observed) tip
       else
         act_then (local_stored_head X S) (\<lambda>actual.
         if actual \<noteq> ho_head observed
         then act_ret (Inl (err (CasConflict (ho_head_id observed) (Option.bind actual stored_head_id))))
         else
           act_then (act_ret (if actual = None then refuse_foreign_branch base else Inr ())) (\<lambda>_.
           publish_and_advance X S remote_dir next (ho_head_id observed) base)))"

definition tip_token :: "string option \<Rightarrow> bytes" where
  "tip_token base = (case base of None \<Rightarrow> [] | Some commit \<Rightarrow> as_bytes commit)"

lemma observed_swap_unfold:
  "carrier_compare_and_swap_observed_head P X S observed next w =
     (case validate_id next of
        Inl e \<Rightarrow> (Inl e, w)
      | Inr _ \<Rightarrow>
          if ho_token observed \<noteq> tip_token (cw_base w)
          then (Inl (err (Msg ''recovery storage token does not match the opened carrier tip'')), w)
          else act_then (carrier_lock P X (gs_remote S) (gs_branch S)) (\<lambda>remote_dir.
            act_then (cache_refresh X remote_dir (gs_remote S) (gs_branch S)) (observed_swap_at X S observed next (cw_base w) remote_dir)) w)"
  unfolding carrier_compare_and_swap_observed_head_def observed_swap_at_def tip_token_def act_then_def [of "act_ret _"] act_ret_def Let_def
    prod.case ..

lemma observed_swap_at_cases:
  assumes laws: "carrier_git_laws V X S" and q: "quiet V w0 w"
    and swap: "observed_swap_at X S observed next base remote_dir tip w = (r, w')"
  shows "(\<exists>e. r = Inl e \<and> quiet V w0 w') \<or>
    (\<exists>w1. tip = base \<and> local_stored_head X S w = (Inr (ho_head observed), w1) \<and> quiet V w w1
      \<and> publish_and_advance X S remote_dir next (ho_head_id observed) base w1 = (r, w'))"
proof (cases "tip = base")
  case False
  then have c: "cas_conflict X S (ho_head_id observed) tip w = (r, w')" using swap by (simp add: observed_swap_at_def)
  have "quiet V w0 w'"
    using act_keepsD [OF cas_conflict_quiet c, of V] q quiet_trans [of V, unfolded transp_def] by metis
  then show ?thesis using c by (auto simp: cas_conflict_def split: prod.splits)
next
  case True
  let ?rest = "\<lambda>actual. if actual \<noteq> ho_head observed
       then act_ret (Inl (err (CasConflict (ho_head_id observed) (Option.bind actual stored_head_id))))
       else act_then (act_ret (if actual = None then refuse_foreign_branch base else Inr ())) (\<lambda>_.
         publish_and_advance X S remote_dir next (ho_head_id observed) base)"
  from swap True have "act_then (local_stored_head X S) ?rest w = (r, w')" by (simp add: observed_swap_at_def)
  from this local_stored_head_quiet [OF laws] q show ?thesis
  proof (rule quiet_step)
    fix actual w1
    assume head: "local_stored_head X S w = (Inr actual, w1)" and q1: "quiet V w0 w1" and rest: "?rest actual w1 = (r, w')"
    have q2: "quiet V w w1" by (rule act_keepsD [OF local_stored_head_quiet [OF laws] head])
    show ?thesis
      using rest head True q1 q2
      by (cases "if actual = None then refuse_foreign_branch base else Inr ()")
        (auto simp: act_then_def act_ret_def split: if_splits)
  qed blast
qed

text \<open>C10. The swap with which recovery commits on the Git carrier is atomic too, whatever other clients push
  meanwhile: when it succeeds, the branch moved during it, in one step, from the opened commit, which
  is the one the observation was taken at and whose file \<^verbatim>\<open>HEAD\<close> is the one that was observed, valid or
  not, to a commit that names the next head; when it fails, the storage stands where it stood,
  unless the error says that the checkout could not be restored.\<close>

theorem carrier_observed_swap_is_atomic:
  assumes laws: "carrier_git_laws V X S" and ff: "fast_forward_log V (tips V w)" and sync: "synced V w"
    and swap: "carrier_compare_and_swap_observed_head P X S observed next w = (r, w')"
  shows "swap_outcome V next (ho_head observed = stored_head_from_bounded (head_found V (cw_base w))
    \<and> ho_token observed = tip_token (cw_base w)) w r w'" (is "swap_outcome V next ?named w r w'")
proof (cases "validate_id next = Inr () \<and> ho_token observed = tip_token (cw_base w)")
  case False
  note bad = this
  have "\<exists>e. (r, w') = (Inl e, w)"
  proof (cases "validate_id next")
    case (Inl e)
    then show ?thesis using swap unfolding observed_swap_unfold by (simp add: eq_commute)
  next
    case (Inr u)
    then show ?thesis using swap bad unfolding observed_swap_unfold by (simp add: eq_commute)
  qed
  then show ?thesis using swap_outcome_quiet [OF sync quiet_self] by auto
next
  case True
  then have "act_then (carrier_lock P X (gs_remote S) (gs_branch S)) (\<lambda>remote_dir.
      act_then (cache_refresh X remote_dir (gs_remote S) (gs_branch S)) (observed_swap_at X S observed next (cw_base w) remote_dir)) w
      = (r, w')" using swap by (simp add: observed_swap_unfold)
  from refreshed_cases [OF laws quiet_self this] show ?thesis
  proof (elim disjE exE conjE)
    fix e assume "r = Inl e" "quiet V w w'"
    then show ?thesis using swap_outcome_quiet [OF sync] by simp
  next
    fix remote_dir tip w2
    assume q2: "quiet V w w2" and base2: "cw_base w2 = cw_base w" and seen: "tip \<in> window V w w2"
      and at: "observed_swap_at X S observed next (cw_base w) remote_dir tip w2 = (r, w')"
    from observed_swap_at_cases [OF laws q2 at] show ?thesis
    proof (elim disjE exE conjE)
      fix e assume "r = Inl e" "quiet V w w'"
      then show ?thesis using swap_outcome_quiet [OF sync] by simp
    next
      fix w3
      assume t: "tip = cw_base w" and head: "local_stored_head X S w2 = (Inr (ho_head observed), w3)" and q3: "quiet V w2 w3"
        and pub: "publish_and_advance X S remote_dir next (ho_head_id observed) (cw_base w) w3 = (r, w')"
      have q: "quiet V w w3" using q2 q3 quiet_trans [of V, unfolded transp_def] by metis
      have in_window: "cw_base w \<in> window V w w3" using seen t window_right [OF quiet_grows [OF q3]] by auto
      have ?named using local_stored_head_named [OF laws synced_quiet [OF sync q2] head] base2 True by simp
      then show ?thesis by (rule publish_outcome [OF laws ff conjunct1 [OF True] q in_window pub])
    qed
  qed
qed

end
