(* ===== verification/Carrier_Chunk_Facts.thy ===== *)
theory Carrier_Chunk_Facts
  imports Carrier_Chunks "HOL-Library.Multiset"
begin

text \<open>
  What the chunk code guarantees. The stage keeps a dense sequence of full chunks and one shorter
  last chunk, whatever the sizes of the writes; a published object is read back byte for byte; a
  listing that is accepted is a dense sequence below the object's directory; the reader of chunk
  blobs hashes exactly what it passed on.
\<close>

section \<open>Chunk names\<close>

definition digits_number :: "string \<Rightarrow> nat" where
  "digits_number s = foldl (\<lambda>a c. 10 * a + (of_char c - 48)) 0 s"

lemma of_char_digit: "of_char (digit n) = 48 + n mod 10"
proof -
  have "48 + n mod 10 < (256 :: nat)" using mod_less_divisor [of 10 n] by linarith
  then show ?thesis by (simp add: digit_def)
qed

lemma digits_number_snoc: "digits_number (s @ [digit n]) = 10 * digits_number s + n mod 10"
  by (simp add: digits_number_def of_char_digit)

lemma digits_number_show: "digits_number (show_nat n) = n"
proof (induction n rule: show_nat.induct)
  case (1 n)
  show ?case
  proof (cases "n < 10")
    case True
    then show ?thesis using digits_number_snoc [of "[]" n] by (simp add: show_nat.simps [of n] digits_number_def)
  next
    case False
    then show ?thesis using 1 by (simp add: show_nat.simps [of n] digits_number_snoc)
  qed
qed

lemma digits_number_zeros: "digits_number (replicate k (CHR ''0'') @ s) = digits_number s"
  unfolding digits_number_def by (induction k) simp_all

lemma pad8_inject: "pad8 m = pad8 n \<Longrightarrow> m = n"
  by (metis digits_number_show digits_number_zeros pad8_def)

text \<open>Numbers in so many digits.\<close>

fun fixed_digits :: "nat \<Rightarrow> nat \<Rightarrow> string" where
  "fixed_digits 0 n = []"
| "fixed_digits (Suc k) n = fixed_digits k (n div 10) @ [digit n]"

lemma length_fixed_digits [simp]: "length (fixed_digits k n) = k"
  by (induction k arbitrary: n) simp_all

lemma fixed_digits_zero: "fixed_digits k 0 = replicate k (CHR ''0'')"
proof (induction k)
  case (Suc k)
  have "digit 0 = CHR ''0''" by code_simp
  with Suc show ?case by (simp add: replicate_append_same)
qed simp

lemma fixed_digits_show:
  "n < 10 ^ k \<Longrightarrow> 0 < k \<Longrightarrow> length (show_nat n) \<le> k \<and> fixed_digits k n = replicate (k - length (show_nat n)) (CHR ''0'') @ show_nat n"
proof (induction k arbitrary: n)
  case (Suc k)
  show ?case
  proof (cases "n < 10")
    case True
    then show ?thesis by (simp add: show_nat.simps [of n] fixed_digits_zero)
  next
    case False
    then have "0 < k" using Suc.prems(1) by (cases k) auto
    moreover have "n div 10 < 10 ^ k" using Suc.prems(1) by (simp add: less_mult_imp_div_less)
    ultimately show ?thesis using Suc.IH [of "n div 10"] False by (simp add: show_nat.simps [of n])
  qed
qed simp

lemma pad8_fixed: "n < 10 ^ 8 \<Longrightarrow> pad8 n = fixed_digits 8 n"
  using fixed_digits_show [of n 8] by (simp add: pad8_def Let_def)

lemma fixed_digits_less:
  "m < n \<Longrightarrow> n < 10 ^ k \<Longrightarrow> fixed_digits k m < fixed_digits k n"
proof (induction k arbitrary: m n)
  case (Suc k)
  show ?case
  proof (cases "m div 10 < n div 10")
    case True
    moreover have "n div 10 < 10 ^ k" using Suc.prems(2) by (simp add: less_mult_imp_div_less)
    ultimately have "fixed_digits k (m div 10) < fixed_digits k (n div 10)" by (rule Suc.IH)
    then show ?thesis by (simp add: list_less_def lexord_sufI)
  next
    case False
    then have same: "m div 10 = n div 10" using Suc.prems(1) div_le_mono [of m n 10] by linarith
    have "m mod 10 < n mod 10" using same Suc.prems(1) by (metis add_less_cancel_left div_mult_mod_eq)
    then have "digit m < digit n" by (simp add: less_char_def of_char_digit)
    then show ?thesis by (simp add: list_less_def same lexord_append_leftI)
  qed
qed simp

lemma pad8_less: "m < n \<Longrightarrow> n < 10 ^ 8 \<Longrightarrow> pad8 m < pad8 n"
  using fixed_digits_less [of m n 8] by (simp add: pad8_fixed)

lemma sorted_pad8: "k + len \<le> 10 ^ 8 \<Longrightarrow> sorted (map pad8 [k..<k + len])"
  by (rule sorted_wrt_mono_rel [where P = "(<)"])
    (auto simp: sorted_wrt_iff_nth_less nth_append intro: pad8_less less_imp_le)

lemma CHUNK_SIZE_pos: "0 < CARRIER_CHUNK_SIZE"
  by (simp add: CARRIER_CHUNK_SIZE_def CARRIER_CHUNK_BYTES_def)

section \<open>The stage\<close>

text \<open>Files that hold \<open>data\<close> in order: densely numbered, every chunk full but the last, which is not empty.\<close>

definition full_chunk :: "string \<times> bytes \<Rightarrow> bool" where
  "full_chunk f \<longleftrightarrow> length (snd f) = CARRIER_CHUNK_SIZE"

definition chunked :: "(string \<times> bytes) list \<Rightarrow> bytes \<Rightarrow> bool" where
  "chunked files data \<longleftrightarrow> concat (map snd files) = data \<and> map fst files = map pad8 [0..<length files]
     \<and> list_all full_chunk (butlast files)
     \<and> (files \<noteq> [] \<longrightarrow> 0 < length (snd (last files)) \<and> length (snd (last files)) \<le> CARRIER_CHUNK_SIZE)"

text \<open>The invariant of the stage: no chunk is open and all are full, or the last one is open and has room.\<close>

definition stage_ok :: "chunk_stage \<Rightarrow> bytes \<Rightarrow> bool" where
  "stage_ok st data \<longleftrightarrow> chunked (ct_files st) data \<and> (case ct_current st of
     None \<Rightarrow> list_all full_chunk (ct_files st) \<and> ct_chunk_index st = length (ct_files st)
   | Some name \<Rightarrow> ct_files st \<noteq> [] \<and> ct_chunk_index st + 1 = length (ct_files st)
       \<and> name = fst (last (ct_files st))
       \<and> ct_chunk_len st = length (snd (last (ct_files st))) \<and> ct_chunk_len st < CARRIER_CHUNK_SIZE)"

lemma stage_ok_new: "stage_ok new_chunk_stage []"
  by (simp add: stage_ok_def new_chunk_stage_def chunked_def)

lemma chunked_snoc:
  "chunked (files @ [(name, b)]) data \<longleftrightarrow> (\<exists>d. chunked files d \<and> data = d @ b) \<and> list_all full_chunk files
     \<and> name = pad8 (length files) \<and> 0 < length b \<and> length b \<le> CARRIER_CHUNK_SIZE"
  (is "?l \<longleftrightarrow> ?r")
proof
  assume ?l
  then have "list_all full_chunk files" by (simp add: chunked_def)
  then have "chunked files (concat (map snd files))"
    using \<open>?l\<close> CHUNK_SIZE_pos by (auto simp: chunked_def full_chunk_def list_all_iff dest: in_set_butlastD)
  then show ?r using \<open>?l\<close> by (auto simp: chunked_def)
qed (auto simp: chunked_def)

lemma chunk_name_fresh:
  assumes "map fst files = map pad8 [0..<length files]"
  shows "pad8 (length files) \<notin> fst ` set files"
proof
  assume "pad8 (length files) \<in> fst ` set files"
  then have "pad8 (length files) \<in> set (map pad8 [0..<length files])" by (metis assms list.set_map)
  then show False by (auto dest: pad8_inject)
qed

lemma chunked_names_fresh: "chunked files data \<Longrightarrow> pad8 (length files) \<notin> fst ` set files"
  by (rule chunk_name_fresh) (simp add: chunked_def)

text \<open>A turn of the write loop that has a chunk open: the chunk takes what it has room for.\<close>

lemma write_to_open:
  assumes files: "ct_files st = files @ [(name, b)]" and current: "ct_current st = Some name"
    and fresh: "name \<notin> fst ` set files"
  shows "ct_files (write_current data st) = files @ [(name, b @ data)]"
proof -
  have "map (\<lambda>(n, c). (n, if Some name = Some n then c @ data else c)) files = files"
    using fresh by (intro map_idI) (auto simp: image_iff)
  then show ?thesis using files current by (simp add: write_current_def)
qed

lemma write_turn_open:
  assumes files: "ct_files st = files @ [(name, b)]" and current: "ct_current st = Some name"
    and ok: "chunked files d" "list_all full_chunk files" "name = pad8 (length files)"
    and len: "ct_chunk_len st = length b" "length b < CARRIER_CHUNK_SIZE" and index: "ct_chunk_index st = length files"
    and data: "data \<noteq> []"
  shows "\<exists>k st'. write_turn data st = Inr (drop k data, st') \<and> 0 < k \<and> stage_ok st' (d @ b @ take k data)"
proof -
  define k where "k = min (CARRIER_CHUNK_SIZE - length b) (length data)"
  define st2 where "st2 = (write_current (take k data) st)\<lparr>ct_chunk_len := length b + k\<rparr>"
  have k: "0 < k" "length (b @ take k data) = length b + k" "length b + k \<le> CARRIER_CHUNK_SIZE"
    using data len(2) by (auto simp: k_def)
  have st2: "ct_files st2 = files @ [(name, b @ take k data)]" "ct_current st2 = Some name"
    "ct_chunk_index st2 = length files" "ct_chunk_len st2 = length b + k"
    using write_to_open [OF files current] chunked_names_fresh [OF ok(1)] ok(3) current index
    by (simp_all add: st2_def write_current_def)
  have turn: "write_turn data st = Inr (drop k data, if ct_chunk_len st2 = CARRIER_CHUNK_SIZE then finish_chunk st2 else st2)"
    using current len(1) by (simp add: write_turn_def open_chunk_def Let_def k_def st2_def)
  have chunks: "chunked (ct_files st2) (d @ b @ take k data)"
    unfolding st2 chunked_snoc using ok k by auto
  have "stage_ok (if ct_chunk_len st2 = CARRIER_CHUNK_SIZE then finish_chunk st2 else st2) (d @ b @ take k data)"
    using chunks st2 ok(2) k(2,3) by (auto simp: stage_ok_def finish_chunk_def full_chunk_def)
  then show ?thesis using turn k(1) by blast
qed

lemma write_turn_ok:
  assumes ok: "stage_ok st d" and data: "data \<noteq> []"
  shows "\<exists>k st'. write_turn data st = Inr (drop k data, st') \<and> 0 < k \<and> stage_ok st' (d @ take k data)"
proof (cases "ct_current st")
  case None
  let ?name = "pad8 (ct_chunk_index st)"
  let ?st = "st\<lparr>ct_files := ct_files st @ [(?name, [])], ct_current := Some ?name, ct_chunk_len := 0\<rparr>"
  have st: "chunked (ct_files st) d" "list_all full_chunk (ct_files st)" "ct_chunk_index st = length (ct_files st)"
    using ok None by (simp_all add: stage_ok_def)
  have "map_of (ct_files st) ?name = None"
    using chunked_names_fresh [OF st(1)] st(3) by (simp add: map_of_eq_None_iff)
  then have "open_chunk st = Inr ?st" using None by (simp add: open_chunk_def Let_def)
  moreover have "open_chunk ?st = Inr ?st" by (simp add: open_chunk_def)
  ultimately have "write_turn data st = write_turn data ?st" by (simp add: write_turn_def)
  moreover have "\<exists>k st'. write_turn data ?st = Inr (drop k data, st') \<and> 0 < k \<and> stage_ok st' (d @ [] @ take k data)"
    by (rule write_turn_open [where files = "ct_files st" and name = ?name]) (use st data CHUNK_SIZE_pos in auto)
  ultimately show ?thesis by simp
next
  case (Some name)
  then obtain files b where files: "ct_files st = files @ [(name, b)]"
    using ok by (cases "ct_files st" rule: rev_cases) (auto simp: stage_ok_def)
  with ok Some obtain d' where "chunked files d'" "d = d' @ b" "list_all full_chunk files" "name = pad8 (length files)"
    by (auto simp: stage_ok_def chunked_snoc)
  then show ?thesis
    using write_turn_open [OF files Some, of d' data] ok Some files data by (auto simp: stage_ok_def)
qed

text \<open>The loop of \<^verbatim>\<open>write\<close> ends, never fails, and takes every byte.\<close>

lemma carrier_write_ok:
  "stage_ok st d \<Longrightarrow> \<exists>st'. carrier_write data st = Some (Inr st') \<and> stage_ok st' (d @ data)"
proof (induction "length data" arbitrary: data st d rule: less_induct)
  case less
  show ?case
  proof (cases "data = []")
    case True
    then show ?thesis using less.prems by (subst carrier_write.simps) simp
  next
    case False
    with write_turn_ok [OF less.prems] obtain k st' where
      turn: "write_turn data st = Inr (drop k data, st')" "0 < k" "stage_ok st' (d @ take k data)" by blast
    have "length (drop k data) < length data" using False turn(2) by (cases data) auto
    from less.hyps [OF this turn(3)] show ?thesis
      using False turn(1) by (simp add: carrier_write.simps [of data st])
  qed
qed

lemma finish_chunk_ok:
  assumes "stage_ok st d"
  shows "chunked (ct_files (finish_chunk st)) d" and "ct_chunk_index (finish_chunk st) = length (ct_files (finish_chunk st))"
    and "ct_files (finish_chunk st) = ct_files st"
  using assms by (auto simp: stage_ok_def finish_chunk_def split: option.splits)

section \<open>Reading what was staged\<close>

definition chunk_files :: "(string \<times> bytes) list \<Rightarrow> (string \<times> node) list" where
  "chunk_files files = map (\<lambda>(name, b). (name, File b)) files"

lemma fst_chunk_files: "map fst (chunk_files files) = map fst files"
  by (induction files) (auto simp: chunk_files_def)

lemma check_chunks_ok:
  assumes "map fst files = map pad8 [k..<k + length files]" and "files \<noteq> []"
    and "list_all full_chunk (butlast files)"
    and "0 < length (snd (last files))" "length (snd (last files)) \<le> CARRIER_CHUNK_SIZE"
  shows "check_chunk_entries (k + length files) k (chunk_files files) = Inr ()"
  using assms
proof (induction files arbitrary: k)
  case (Cons f files)
  obtain name b where f: "f = (name, b)" by (cases f)
  have names: "name = pad8 k" "map fst files = map pad8 [Suc k..<Suc k + length files]"
    using Cons.prems(1) f by (simp_all add: upt_conv_Cons del: upt_Suc)
  show ?case
  proof (cases "files = []")
    case True
    then show ?thesis using Cons.prems f names(1) by (simp add: chunk_files_def bail_if_def)
  next
    case False
    then have "check_chunk_entries (Suc k + length files) (Suc k) (chunk_files files) = Inr ()"
      using Cons.IH [OF names(2)] Cons.prems by simp
    moreover have "length b = CARRIER_CHUNK_SIZE" using Cons.prems(3) False f by (simp add: full_chunk_def)
    ultimately show ?thesis using False f names(1) by (simp add: chunk_files_def bail_if_def)
  qed
qed simp

text \<open>The entries of a directory come in any order.\<close>

lemma sort_chunk_entries:
  assumes "mset entries = mset (chunk_files files)" and "map fst files = map pad8 [0..<length files]"
    and "length files \<le> 10 ^ 8"
  shows "sort_key fst entries = chunk_files files"
proof (rule properties_for_sort_key)
  have names: "map fst (chunk_files files) = map pad8 [0..<length files]" using assms(2) by (simp add: fst_chunk_files)
  show "sorted (map fst (chunk_files files))"
    unfolding names using sorted_pad8 [of 0 "length files"] assms(3) by simp
  have dist: "distinct (map fst (chunk_files files))"
    unfolding names by (auto simp: distinct_map intro: inj_onI pad8_inject)
  show "filter (\<lambda>x. fst k = fst x) (chunk_files files) = filter (\<lambda>x. fst k = fst x) entries" if "k \<in> set (chunk_files files)" for k
  proof -
    have d: "distinct entries" "distinct (map fst entries)"
      using dist assms(1) mset_eq_imp_distinct_iff [of "map fst entries" "map fst (chunk_files files)"]
      by (metis distinct_map mset_map)+
    have eq: "filter (\<lambda>x. fst k = fst x) xs = [k]" if "distinct (map fst xs)" "k \<in> set xs" for xs :: "(string \<times> node) list"
      using that by (induction xs) (auto simp: filter_empty_conv image_iff)
    show ?thesis using eq d dist that assms(1) by (metis set_mset_mset)
  qed
qed (use assms(1) in simp)

lemma chunked_size: "chunked files data \<Longrightarrow> length data \<le> MAX_OBJECT_BYTES \<Longrightarrow> length files \<le> 4096"
proof (cases files rule: rev_cases)
  case (snoc fs f)
  assume ok: "chunked files data" and bound: "length data \<le> MAX_OBJECT_BYTES"
  then have "list_all full_chunk fs" "0 < length (snd f)" "data = concat (map snd fs) @ snd f"
    using snoc by (auto simp: chunked_def)
  moreover have "list_all full_chunk fs \<Longrightarrow> length (concat (map snd fs)) = length fs * CARRIER_CHUNK_SIZE"
    by (induction fs) (auto simp: full_chunk_def)
  ultimately have "length fs * CARRIER_CHUNK_SIZE < MAX_OBJECT_BYTES"
    using bound by (metis add.right_neutral length_append length_greater_0_conv less_le_trans nat_add_left_cancel_less)
  then show ?thesis
    using snoc by (simp add: MAX_OBJECT_BYTES_def CARRIER_CHUNK_SIZE_def CARRIER_CHUNK_BYTES_def MAX_CHUNKS_PER_OBJECT_def)
qed simp

lemma chunked_length: "chunked files data \<Longrightarrow> length data \<le> length files * CARRIER_CHUNK_SIZE"
proof -
  assume ok: "chunked files data"
  have "\<forall>f \<in> set files. length (snd f) \<le> CARRIER_CHUNK_SIZE"
    using ok by (cases files rule: rev_cases) (auto simp: chunked_def list_all_iff full_chunk_def)
  then have "length (concat (map snd files)) \<le> length files * CARRIER_CHUNK_SIZE" by (induction files) auto
  then show ?thesis using ok by (simp add: chunked_def)
qed

lemma reader_bytes_ok:
  assumes "\<forall>p \<in> set (ck_paths r). \<exists>b. node_at n p = Some (File b)"
  shows "reader_bytes n r hashed = Inr (hashed @ pending_bytes n r)"
  using assms
proof (induction n r hashed rule: reader_bytes.induct)
  case (1 n r hashed)
  have step: "\<forall>p \<in> set (ck_paths r). \<exists>b. node_at n p = Some (File b) \<Longrightarrow> 0 < sz \<Longrightarrow>
      \<exists>piece r'. chunk_read n sz r = Inr (piece, r') \<and> set (ck_paths r') \<subseteq> set (ck_paths r)" for sz r
  proof (induction n sz r rule: chunk_read.induct)
    case (1 n sz r)
    show ?case
    proof (cases "ck_current r")
      case None
      show ?thesis
      proof (cases "ck_paths r")
        case Nil
        then show ?thesis using None by (simp add: chunk_read.simps [of n sz r])
      next
        case (Cons p ps)
        with "1.prems" obtain b where b: "node_at n p = Some (File b)" by auto
        from "1.IH"(1) [OF None Cons b refl] "1.prems" Cons obtain piece r' where
          "chunk_read n sz (r\<lparr>ck_current := Some b, ck_paths := ps\<rparr>) = Inr (piece, r')" "set (ck_paths r') \<subseteq> set ps" by auto
        then show ?thesis using None Cons b by (auto simp: chunk_read.simps [of n sz r])
      qed
    next
      case (Some data)
      show ?thesis
      proof (cases "take sz data = []")
        case True
        then show ?thesis using "1.IH"(2) [OF Some] "1.prems" Some by (simp add: chunk_read.simps [of n sz r])
      next
        case False
        then show ?thesis using Some by (simp add: chunk_read.simps [of n sz r])
      qed
    qed
  qed
  from step [OF "1.prems", of "64 * 1024"] obtain piece r' where
    read: "chunk_read n (64 * 1024) r = Inr (piece, r')" and sub: "set (ck_paths r') \<subseteq> set (ck_paths r)" by auto
  have pending: "pending_bytes n r = piece @ pending_bytes n r'" "piece = [] \<longrightarrow> pending_bytes n r = []"
    using chunk_read_pending [OF read] by (metis numeral_times_numeral zero_less_numeral)+
  show ?case
  proof (cases "piece = []")
    case True
    then show ?thesis using read pending(2) by (simp add: reader_bytes.simps [of n r hashed])
  next
    case False
    then have "reader_bytes n r' (hashed @ piece) = Inr ((hashed @ piece) @ pending_bytes n r')"
      using "1.IH" [OF read refl] sub "1.prems" by blast
    then show ?thesis using read pending(1) False by (simp add: reader_bytes.simps [of n r hashed])
  qed
qed

text \<open>A directory whose entries are the chunks of \<open>d\<close>, in any order, reads as \<open>d\<close>.\<close>

definition holds_chunks :: "node \<Rightarrow> string list \<Rightarrow> bytes \<Rightarrow> bool" where
  "holds_chunks n dir d \<longleftrightarrow> (\<exists>files entries. chunked files d \<and> mset entries = mset (chunk_files files)
     \<and> node_at n dir = Some (Dir entries)) \<and> d \<noteq> [] \<and> length d \<le> MAX_OBJECT_BYTES"

lemma chunk_file_at:
  assumes "node_at n dir = Some (Dir entries)" and "mset entries = mset (chunk_files files)"
    and "chunked files d" and "(name, b) \<in> set files"
  shows "node_at n (dir @ [name]) = Some (File b)"
proof -
  have "distinct (map fst (chunk_files files))"
    using assms(3) by (auto simp: fst_chunk_files chunked_def distinct_map intro!: inj_onI pad8_inject)
  then have "distinct (map fst entries)"
    using assms(2) mset_eq_imp_distinct_iff [of "map fst entries" "map fst (chunk_files files)"] by (metis mset_map)
  moreover have "(name, File b) \<in> set entries"
    using assms(2,4) mset_eq_setD [OF assms(2)] by (force simp: chunk_files_def)
  ultimately have "map_of entries name = Some (File b)" by simp
  then show ?thesis using assms(1) by (simp add: node_at_append)
qed

lemma holds_chunks_reads:
  assumes "holds_chunks n dir d"
  shows "\<exists>paths. validated_chunk_paths dir n = Inr paths \<and> reader_bytes n (chunk_reader_of paths) [] = Inr d"
proof -
  from assms obtain files entries where ok: "chunked files d" "mset entries = mset (chunk_files files)"
    "node_at n dir = Some (Dir entries)" and d: "d \<noteq> []" "length d \<le> MAX_OBJECT_BYTES"
    by (auto simp: holds_chunks_def)
  have ne: "files \<noteq> []" using ok(1) d(1) by (auto simp: chunked_def)
  have "length files \<le> 10 ^ 8" using chunked_size [OF ok(1) d(2)] by simp
  then have sorted_entries: "sort_key fst entries = chunk_files files"
    using sort_chunk_entries [OF ok(2)] ok(1) by (simp add: chunked_def)
  have len: "length entries = length files" using arg_cong [OF ok(2), of size] by (simp add: chunk_files_def)
  have "check_chunk_entries (0 + length files) 0 (chunk_files files) = Inr ()"
    by (rule check_chunks_ok) (use ok(1) ne in \<open>auto simp: chunked_def\<close>)
  then have paths: "validated_chunk_paths dir n = Inr (map (\<lambda>e. dir @ [fst e]) (chunk_files files))"
    using ok(3) ne len by (simp add: validated_chunk_paths_def read_dir_def sorted_entries Let_def) (simp add: chunk_files_def)
  have at: "node_at n (dir @ [fst f]) = Some (File (snd f))" if "f \<in> set files" for f
    using chunk_file_at [OF ok(3,2,1), of "fst f" "snd f"] that by simp
  define ps where "ps = map (\<lambda>e. dir @ [fst e]) (chunk_files files)"
  have ps: "ps = map (\<lambda>f. dir @ [fst f]) files" by (simp add: ps_def chunk_files_def split_def)
  have "map (file_bytes n) ps = map snd files"
    unfolding ps using at by (simp add: file_bytes_def)
  then have "pending_bytes n (chunk_reader_of ps) = d"
    using ok(1) by (simp add: pending_bytes_def chunk_reader_of_def chunked_def)
  moreover have "\<forall>p \<in> set (ck_paths (chunk_reader_of ps)). \<exists>b. node_at n p = Some (File b)"
    using at by (auto simp: chunk_reader_of_def ps)
  ultimately have "reader_bytes n (chunk_reader_of ps) [] = Inr d" using reader_bytes_ok by fastforce
  then show ?thesis using paths ps_def by blast
qed

text \<open>Publishing a stage at a free place.\<close>

lemma rename_dir_puts:
  assumes "rename_dir dir (p @ [c]) n = (Inr u, n')"
  shows "node_at n' (p @ [c]) = Some dir"
proof -
  have "is_dir (node_at n (butlast (p @ [c])))" and "n' = put_at (p @ [c]) (Some dir) n"
    using assms by (auto simp: rename_dir_def split: if_splits option.splits node.splits list.splits)
  then show ?thesis using node_at_put_at [of n "p @ [c]" "Some dir"] by simp
qed

lemma object_components_snoc: "object_components kind i = [kind_directory kind, take 2 i] @ [i]"
  by (simp add: object_components_def)

lemma publish_holds_chunks:
  assumes "carrier_publish P kind i st n = (Inr u, n')" and "stage_ok st d" and "length d \<le> MAX_OBJECT_BYTES"
    and "node_at n (object_components kind i) = None"
  shows "holds_chunks n' (object_components kind i) d"
proof -
  let ?t = "object_components kind i" and ?st = "finish_chunk st"
  have files: "chunked (ct_files ?st) d" "ct_chunk_index ?st = length (ct_files ?st)"
    using finish_chunk_ok [OF assms(2)] by simp_all
  from assms(1,4) obtain n1 where idx: "ct_chunk_index ?st \<noteq> 0"
    and ren: "rename_dir (Dir (chunk_files (ct_files ?st))) ?t n1 = (Inr u, n')"
    by (auto simp: carrier_publish_def Let_def act_then_Inr chunk_files_def split: if_splits)
  have "d \<noteq> []" using files idx by (cases "ct_files ?st" rule: rev_cases) (auto simp: chunked_def)
  then show ?thesis
    using files(1) assms(3) rename_dir_puts [OF ren [unfolded object_components_snoc]]
    unfolding holds_chunks_def object_components_snoc by blast
qed

section \<open>Listings\<close>

lemma dense_chunk_paths_iff:
  "dense_chunk_paths directory k chunks \<longleftrightarrow>
     map fst chunks = map (\<lambda>j. directory @ ''/'' @ pad8 j) [k..<k + length chunks]"
  by (induction chunks arbitrary: k) (auto simp: upt_conv_Cons simp del: upt_Suc)

lemma parse_chunk_listing_sound:
  assumes "parse_chunk_listing listing directory = Inr chunks"
  shows "0 < length chunks" and "length chunks \<le> MAX_CHUNKS_PER_OBJECT"
    and "map fst chunks = map (\<lambda>j. directory @ ''/'' @ pad8 j) [0..<length chunks]"
  using assms
  by (auto simp: parse_chunk_listing_def Let_def dense_chunk_paths_iff split: sum.splits if_splits)

end
