(* ===== verification/Carrier_Objects.thy ===== *)
theory Carrier_Objects
  imports Carrier_Storage Carrier_Chunk_Facts Storage_Facts
begin

text \<open>
  Objects of the Git carrier: what was staged in any pieces is read back, and an object restored from
  the carrier's history is a well-formed chunk directory whose contents hash to its name.
\<close>

section \<open>Staging and reading back\<close>

lemma stage_pieces_ok:
  assumes "stage_pieces pieces stage chunks = Inr (stage', chunks')" and "stage_ok chunks d"
    and "sg_hashed stage = d" and "sg_written stage = length d" and "length d \<le> kind_max_bytes (sg_kind stage)"
  shows "stage_ok chunks' (d @ concat pieces) \<and> sg_hashed stage' = d @ concat pieces
    \<and> length (d @ concat pieces) \<le> kind_max_bytes (sg_kind stage)"
  using assms
proof (induction pieces arbitrary: stage chunks d)
  case (Cons p pieces)
  from Cons.prems(1) obtain stage1 chunks1 where
    w: "stage_write_all stage p = Inr stage1" "the (carrier_write p chunks) = Inr chunks1"
    "stage_pieces pieces stage1 chunks1 = Inr (stage', chunks')"
    by (auto simp: and_then_eq_Inr)
  have c: "stage_ok chunks1 (d @ p)" using carrier_write_ok [OF Cons.prems(2), of p] w(2) by auto
  have s: "sg_hashed stage1 = d @ p" "sg_written stage1 = length (d @ p)" "sg_kind stage1 = sg_kind stage"
    "length (d @ p) \<le> kind_max_bytes (sg_kind stage)"
    using w(1) Cons.prems(3,4) by (auto simp: stage_write_all_def stage_write_def Let_def and_then_eq_Inr bail_if_eq_Inr)
  show ?case using Cons.IH [OF w(3) c s(1,2)] s(3,4) by simp
qed simp

lemma kind_max_le: "kind_max_bytes kind \<le> MAX_OBJECT_BYTES"
  by (cases kind) (simp_all add: MAX_OBJECT_BYTES_def MAX_MANIFEST_BYTES_def CARRIER_CHUNK_BYTES_def MAX_CHUNKS_PER_OBJECT_def)

lemma publish_existing:
  assumes "carrier_publish P kind i st n = (Inr u, n')" and "node_at n (object_components kind i) \<noteq> None"
  shows "n' = n \<and> (\<exists>paths d. validated_chunk_paths (object_components kind i) n = Inr paths
    \<and> reader_bytes n (chunk_reader_of paths) [] = Inr d \<and> hex_encode P (sha256 P d) = i)"
  using assms
  by (auto simp: carrier_publish_def Let_def reader_id_def and_then_eq_Inr bail_if_eq_Inr split: if_splits)

lemma open_present:
  assumes "validate_id i = Inr ()" and "validated_chunk_paths (object_components kind i) (cw_checkout w) = Inr paths"
    and "reader_bytes (cw_checkout w) (chunk_reader_of paths) [] = Inr d"
  shows "carrier_open_object X S kind i w = (Inr d, w)"
proof -
  have "node_at (cw_checkout w) (object_components kind i) \<noteq> None"
    using assms(2) by (auto simp: validated_chunk_paths_def read_dir_def and_then_eq_Inr split: option.splits)
  then show ?thesis using assms
    by (simp add: carrier_open_object_def act_then_def act_ret_def object_directory_def)
qed

section \<open>The contract of the objects\<close>

text \<open>What \<^verbatim>\<open>open_object\<close> reads of an object in the working tree.\<close>

definition carrier_stored :: "object_kind \<Rightarrow> string \<Rightarrow> node \<Rightarrow> bytes result" where
  "carrier_stored kind i n =
     and_then (object_directory kind i) (\<lambda>directory.
     and_then (validated_chunk_paths directory n) (\<lambda>paths.
     reader_bytes n (chunk_reader_of paths) []))"

lemma carrier_stored_ok: "carrier_stored kind i n = Inr d \<longleftrightarrow> validate_id i = Inr ()
    \<and> (\<exists>paths. validated_chunk_paths (object_components kind i) n = Inr paths \<and> reader_bytes n (chunk_reader_of paths) [] = Inr d)"
  by (auto simp: carrier_stored_def object_directory_def and_then_eq_Inr)

text \<open>A stage that was published has the contents its name stands for.\<close>

lemma stored_reads:
  assumes "carrier_stage_object P kind i pieces w = (Inr (), w')"
  shows "validate_id i = Inr ()" and "hex_encode P (sha256 P (concat pieces)) = i"
    and "\<exists>d. carrier_stored kind i (cw_checkout w') = Inr d \<and> hex_encode P (sha256 P d) = i
      \<and> (node_at (cw_checkout w) (object_components kind i) = None \<longrightarrow> d = concat pieces)"
proof -
  let ?t = "object_components kind i"
  from assms obtain stage chunks out where
    st: "stage_pieces pieces (stage_wrap kind) new_chunk_stage = Inr (stage, chunks)"
    "stage_finish P stage i = Inr out" and pub: "in_checkout (carrier_publish P kind i chunks) w = (Inr (), w')"
    by (auto simp: carrier_stage_object_def act_simps)
  have ok: "stage_ok chunks (concat pieces)" "sg_hashed stage = concat pieces"
    "length (concat pieces) \<le> MAX_OBJECT_BYTES"
    using stage_pieces_ok [OF st(1) stage_ok_new] kind_max_le [of kind] by (auto simp: stage_wrap_def)
  show i: "validate_id i = Inr ()" "hex_encode P (sha256 P (concat pieces)) = i"
    using st(2) ok(2) by (auto simp: stage_finish_def and_then_eq_Inr bail_if_eq_Inr)
  have pub': "carrier_publish P kind i chunks (cw_checkout w) = (Inr (), cw_checkout w')"
    using pub by (auto simp: in_checkout_def split: prod.splits)
  show "\<exists>d. carrier_stored kind i (cw_checkout w') = Inr d \<and> hex_encode P (sha256 P d) = i
      \<and> (node_at (cw_checkout w) ?t = None \<longrightarrow> d = concat pieces)"
  proof (cases "node_at (cw_checkout w) ?t = None")
    case True
    then have "holds_chunks (cw_checkout w') ?t (concat pieces)"
      using publish_holds_chunks [OF pub' ok(1,3)] by simp
    then show ?thesis using holds_chunks_reads [of "cw_checkout w'" ?t "concat pieces"] i unfolding carrier_stored_ok by metis
  next
    case False
    then show ?thesis using publish_existing [OF pub' False] i(1) unfolding carrier_stored_ok by metis
  qed
qed

lemma chunk_read_cong:
  assumes "\<forall>p \<in> set (ck_paths r). node_at n p = node_at n' p"
  shows "chunk_read n sz r = chunk_read n' sz r"
    and "chunk_read n sz r = Inr (piece, r') \<Longrightarrow> set (ck_paths r') \<subseteq> set (ck_paths r)"
proof -
  have "chunk_read n sz r = chunk_read n' sz r \<and> (\<forall>piece r'. chunk_read n sz r = Inr (piece, r') \<longrightarrow> set (ck_paths r') \<subseteq> set (ck_paths r))"
    using assms
  proof (induction n sz r rule: chunk_read.induct)
    case (1 n sz r)
    show ?case
    proof (cases "ck_current r")
      case None
      show ?thesis
      proof (cases "ck_paths r")
        case Nil
        then show ?thesis using None by (simp add: chunk_read.simps [of _ _ r])
      next
        case (Cons p ps)
        have "node_at n' p = node_at n p" using 1(3) Cons by simp
        note there = this
        show ?thesis
        proof (cases "\<exists>data. node_at n p = Some (File data)")
          case True
          then obtain data where data: "node_at n p = Some (File data)" by blast
          let ?r = "r\<lparr>ck_current := Some data, ck_paths := ps\<rparr>"
          have "\<forall>q \<in> set (ck_paths ?r). node_at n q = node_at n' q" using 1(3) Cons by simp
          note IH = 1(1) [OF None Cons data refl this]
          have "chunk_read n sz r = chunk_read n sz ?r" "chunk_read n' sz r = chunk_read n' sz ?r"
            using None Cons data there by (simp_all add: chunk_read.simps [of _ _ r])
          then show ?thesis using IH Cons by auto
        next
          case False
          then show ?thesis using None Cons there by (auto simp: chunk_read.simps [of _ _ r] split: option.split node.split)
        qed
      qed
    next
      case (Some data)
      then show ?thesis using 1(2) [OF Some] 1(3) by (auto simp: chunk_read.simps [of _ _ r])
    qed
  qed
  then show "chunk_read n sz r = chunk_read n' sz r"
    and "chunk_read n sz r = Inr (piece, r') \<Longrightarrow> set (ck_paths r') \<subseteq> set (ck_paths r)" by blast+
qed

lemma reader_bytes_cong:
  assumes "\<forall>p \<in> set (ck_paths r). node_at n p = node_at n' p"
  shows "reader_bytes n r hashed = reader_bytes n' r hashed"
  using assms
proof (induction n r hashed rule: reader_bytes.induct)
  case (1 n r hashed)
  note same = chunk_read_cong(1) [OF 1(2), of "64 * 1024"] and sub = chunk_read_cong(2) [OF 1(2), of "64 * 1024"]
  show ?case
  proof (cases "chunk_read n (64 * 1024) r")
    case (Inl e)
    moreover from this have "chunk_read n' (64 * 1024) r = Inl e" using same by metis
    ultimately show ?thesis by (simp add: reader_bytes.simps [of _ r])
  next
    case (Inr x)
    obtain piece r' where x: "x = (piece, r')" by (cases x)
    have "\<forall>p \<in> set (ck_paths r'). node_at n p = node_at n' p" using sub [of piece r'] Inr x 1(2) by blast
    then have "piece \<noteq> [] \<Longrightarrow> reader_bytes n r' (hashed @ piece) = reader_bytes n' r' (hashed @ piece)"
      using 1(1) [OF Inr x [symmetric]] by blast
    moreover have "chunk_read n' (64 * 1024) r = Inr (piece, r')" using same Inr x by metis
    ultimately show ?thesis using Inr x by (simp add: reader_bytes.simps [of _ r])
  qed
qed

text \<open>It depends on the directory of the object only.\<close>

lemma carrier_stored_cong:
  assumes "node_at n (object_components kind i) = node_at n' (object_components kind i)"
  shows "carrier_stored kind i n = carrier_stored kind i n'"
proof -
  let ?t = "object_components kind i"
  have paths: "validated_chunk_paths ?t n = validated_chunk_paths ?t n'"
    using assms by (simp add: validated_chunk_paths_def read_dir_def)
  have "reader_bytes n (chunk_reader_of ps) [] = reader_bytes n' (chunk_reader_of ps) []" if "validated_chunk_paths ?t n = Inr ps" for ps
  proof (rule reader_bytes_cong)
    show "\<forall>p \<in> set (ck_paths (chunk_reader_of ps)). node_at n p = node_at n' p"
      using that assms by (auto simp: validated_chunk_paths_def chunk_reader_of_def Let_def and_then_eq_Inr bail_if_eq_Inr node_at_append)
  qed
  then show ?thesis using paths by (cases "validated_chunk_paths ?t n") (simp_all add: carrier_stored_def object_directory_def and_then_def split: sum.split)
qed

lemma put_absent_keeps:
  assumes "node_at n q = None" and "node_at n p = Some m" and "\<nexists>r. q = p @ r"
  shows "node_at (put_at q x n) p = Some m"
proof -
  have "\<nexists>r. p = q @ r" using assms(1,2) by (auto simp: node_at_append)
  then show ?thesis using assms(2,3) node_at_put_other by metis
qed

lemma make_dirs_keeps_objects:
  assumes "make_dirs base cs n = (r, n')" and "length (base @ cs) < length p" and "node_at n p = Some m"
  shows "node_at n' p = Some m"
  using assms
proof (induction base cs n rule: make_dirs.induct)
  case (2 base c cs n)
  have "\<nexists>r. base @ [c] = p @ r" using 2(4) by (auto dest: arg_cong [of _ _ length])
  then have "node_at n (base @ [c]) = None \<Longrightarrow> node_at (put_at (base @ [c]) (Some (Dir [])) n) p = Some m"
    using put_absent_keeps [OF _ 2(5)] by blast
  then show ?case using 2 by (auto split: option.splits node.splits)
qed simp

lemma publish_keeps:
  assumes "carrier_publish P kind i st n = (r, n')" and there: "node_at n (object_components kind' j) = Some m"
  shows "node_at n' (object_components kind' j) = Some m"
proof (cases "n' = n")
  case False
  let ?t = "object_components kind i" and ?p = "object_components kind' j"
  from assms(1) False have absent: "node_at n ?t = None"
    and run: "act_then (create_dir_all (butlast ?t)) (\<lambda>_.
        rename_dir (Dir (map (\<lambda>(name, b). (name, File b)) (ct_files (finish_chunk st)))) ?t) n = (r, n')"
    by (auto simp: carrier_publish_def Let_def split: if_splits)
  obtain r1 n1 where made: "create_dir_all (butlast ?t) n = (r1, n1)" by (cases "create_dir_all (butlast ?t) n")
  have n1: "node_at n1 ?p = Some m"
    using make_dirs_keeps_objects [OF made [unfolded create_dir_all_def] _ there] by (simp add: object_components_def)
  have "\<nexists>x. ?t = ?p @ x" "\<nexists>x. ?p = ?t @ x" using absent there by (auto simp: object_components_def)
  then have "node_at (put_at ?t y n1) ?p = Some m" for y using n1 node_at_put_other by metis
  then show ?thesis using run made n1
    by (cases r1) (auto simp: act_then_def rename_dir_def split: if_splits option.splits node.splits list.splits)
qed (use there in simp)

interpretation carrier_objects: object_store "\<lambda>k i w. carrier_stored k i (cw_checkout w)" "carrier_put_object_if_absent P"
    "object_id P" "\<lambda>k i w. node_at (cw_checkout w) (object_components k i) \<noteq> None"
  for P :: "'a prims_scheme"
proof unfold_locales
  fix k i b c and s s' :: "'b carrier_world"
  assume put: "carrier_put_object_if_absent P k i b s = (Inr (), s')"
  note opened = stored_reads [OF put [unfolded carrier_put_object_if_absent_def]]
  show "object_id P b = i" using opened(2) by (simp add: object_id_def)
  show "\<not> node_at (cw_checkout s) (object_components k i) \<noteq> None \<Longrightarrow> carrier_stored k i (cw_checkout s') = Inr b"
    and "carrier_stored k i (cw_checkout s') = Inr c \<Longrightarrow> object_id P c = i"
    using opened by (auto simp: object_id_def)
next
  fix k i b r k' j c and s s' :: "'b carrier_world"
  assume put: "carrier_put_object_if_absent P k i b s = (r, s')" and "carrier_stored k' j (cw_checkout s) = Inr c"
  then obtain m where there: "node_at (cw_checkout s) (object_components k' j) = Some m"
    by (auto simp: carrier_stored_ok validated_chunk_paths_def read_dir_def and_then_eq_Inr split: option.splits)
  have "node_at (cw_checkout s') (object_components k' j) = Some m"
    using put there publish_keeps [OF _ there]
    by (auto simp: carrier_put_object_if_absent_def carrier_stage_object_def act_then_def act_ret_def in_checkout_def
        split: sum.splits prod.splits)
  then show "carrier_stored k' j (cw_checkout s') = Inr c"
    using carrier_stored_cong [of "cw_checkout s'" k' j "cw_checkout s"] there \<open>carrier_stored k' j (cw_checkout s) = Inr c\<close> by simp
qed

text \<open>Objects in the working tree keep their bytes through every later put.\<close>

lemma carrier_objects_are_immutable:
  "carrier_stored k i (cw_checkout w) = Inr c \<Longrightarrow>
     carrier_stored k i (cw_checkout (put_all (carrier_put_object_if_absent P) ops w)) = Inr c"
  by (rule carrier_objects.put_all_keeps)

text \<open>C11. What is stored through the Git carrier is read back byte for byte: when an object written in any
  pieces was published at a free place of the checkout, opening it yields the concatenation of the
  pieces; when the place was taken, publishing succeeded only because what is stored there has the
  same name, and that is what opening yields.\<close>

theorem carrier_object_round_trip:
  assumes "carrier_stage_object P kind i pieces w = (Inr (), w')"
  shows "\<exists>d. carrier_open_object X S kind i w' = (Inr d, w') \<and> hex_encode P (sha256 P d) = i
    \<and> (node_at (cw_checkout w) (object_components kind i) = None \<longrightarrow> d = concat pieces)"
  using stored_reads [OF assms] open_present unfolding carrier_stored_ok by metis

section \<open>Restoring from history\<close>

lemma update_fresh: "k \<notin> fst ` set al \<Longrightarrow> AList.update k v al = al @ [(k, v)]"
  by (induction al) auto

lemma start_next_chunk_ok:
  assumes "start_next_chunk cat r = Inr r'"
  shows "gk_next r' = gk_next r + 1" and "gk_chunks r' = tl (gk_chunks r)"
    and "0 < gk_remaining r'" and "gk_remaining r' \<le> CARRIER_CHUNK_SIZE"
    and "gk_chunks r' \<noteq> [] \<Longrightarrow> gk_remaining r' = CARRIER_CHUNK_SIZE"
proof -
  from assms obtain header where h: "cat_header cat (snd (hd (gk_chunks r))) = Inr header"
    by (auto simp: start_next_chunk_def Let_def and_then_eq_Inr)
  then obtain x k sz where header: "header = Object x k sz"
    using assms by (cases header) (auto simp: start_next_chunk_def Let_def)
  have pos: "0 < CARRIER_CHUNK_BYTES" by (simp add: CARRIER_CHUNK_BYTES_def)
  with assms h header show "gk_next r' = gk_next r + 1" "gk_chunks r' = tl (gk_chunks r)"
    "0 < gk_remaining r'" "gk_remaining r' \<le> CARRIER_CHUNK_SIZE"
    "gk_chunks r' \<noteq> [] \<Longrightarrow> gk_remaining r' = CARRIER_CHUNK_SIZE"
    by (auto simp: start_next_chunk_def Let_def and_then_eq_Inr bail_if_eq_Inr CARRIER_CHUNK_SIZE_def)
qed

text \<open>The reader and the files written so far: all started chunks have a file, all but the last of full
  size, and what is missing of the last one is what remains to be read of it.\<close>

definition restoring :: "nat \<Rightarrow> nat \<Rightarrow> git_chunk_reader \<Rightarrow> bytes \<Rightarrow> restore_state \<Rightarrow> bool" where
  "restoring max_bytes chunks r hashed s \<longleftrightarrow>
     (let files = rs_files s; k = gk_next r in
      length files = k \<and> k + length (gk_chunks r) = chunks
      \<and> concat (map snd files) = hashed \<and> map fst files = map pad8 [0..<k] \<and> list_all full_chunk (butlast files)
      \<and> length hashed \<le> rs_bytes s \<and> (hashed \<noteq> [] \<longrightarrow> rs_bytes s \<le> max_bytes)
      \<and> (if k = 0 then gk_remaining r = 0 \<and> rs_current s = None
         else rs_current s = Some (k - 1) \<and> 0 < length (snd (last files))
           \<and> length (snd (last files)) + gk_remaining r \<le> CARRIER_CHUNK_SIZE
           \<and> (gk_chunks r \<noteq> [] \<longrightarrow> length (snd (last files)) + gk_remaining r = CARRIER_CHUNK_SIZE)))"

lemma restoring_cons:
  assumes "restoring max_bytes chunks r hashed s" and "gk_next r = Suc k"
  shows "\<exists>files b0. rs_files s = files @ [(pad8 k, b0)] \<and> length files = k \<and> map fst files = map pad8 [0..<k]
    \<and> hashed = concat (map snd files) @ b0 \<and> list_all full_chunk files \<and> rs_current s = Some k \<and> 0 < length b0
    \<and> length b0 + gk_remaining r \<le> CARRIER_CHUNK_SIZE
    \<and> (gk_chunks r \<noteq> [] \<longrightarrow> length b0 + gk_remaining r = CARRIER_CHUNK_SIZE)
    \<and> Suc k + length (gk_chunks r) = chunks \<and> length hashed \<le> rs_bytes s \<and> rs_bytes s \<le> max_bytes"
proof (cases "rs_files s" rule: rev_cases)
  case Nil
  then show ?thesis using assms by (simp add: restoring_def)
next
  case (snoc files f)
  then show ?thesis using assms by (cases f) (auto simp: restoring_def Let_def)
qed

lemma restoring_snoc:
  assumes "rs_files s = files @ [(pad8 k, b0)]" and "length files = k" and "map fst files = map pad8 [0..<k]"
    and "hashed = concat (map snd files) @ b0" and "list_all full_chunk files" and "rs_current s = Some k" and "0 < length b0"
    and "length b0 + gk_remaining r \<le> CARRIER_CHUNK_SIZE"
    and "gk_chunks r \<noteq> [] \<longrightarrow> length b0 + gk_remaining r = CARRIER_CHUNK_SIZE"
    and "Suc k + length (gk_chunks r) = chunks" and "length hashed \<le> rs_bytes s" and "rs_bytes s \<le> max_bytes"
    and "gk_next r = Suc k"
  shows "restoring max_bytes chunks r hashed s"
  using assms by (simp add: restoring_def)

lemma restore_sink_ok:
  assumes "restore_sink max_bytes index piece s = (Inr u, s')"
  shows "rs_bytes s' = rs_bytes s + length piece" and "rs_bytes s' \<le> max_bytes" and "rs_current s' = Some index"
    and "rs_files s' = map (\<lambda>(name, b). (name, if name = pad8 index then b @ piece else b))
      (if rs_current s \<noteq> Some index then AList.update (pad8 index) [] (rs_files s) else rs_files s)"
  using assms by (auto simp: restore_sink_def count_bytes_def Let_def bail_if_def split: sum.splits if_splits)

lemma append_to_chunk:
  assumes "map fst files = map pad8 [0..<length files]"
  shows "map (\<lambda>(name, b). (name, if name = pad8 (length files) then b @ piece else b)) (files @ [(pad8 (length files), b0)])
    = files @ [(pad8 (length files), b0 @ piece)]"
proof -
  have "fst f \<noteq> pad8 (length files)" if "f \<in> set files" for f
    using chunk_name_fresh [OF assms] that by (metis image_eqI)
  then have "map (\<lambda>(name, b). (name, if name = pad8 (length files) then b @ piece else b)) files = files"
    by (intro map_idI) auto
  then show ?thesis by simp
qed

lemma restoring_same_chunk:
  assumes inv: "restoring max_bytes chunks r hashed s" and rem: "gk_remaining r \<noteq> 0"
    and read: "read_body cat sz r = Inr (piece, r')" and sink: "restore_sink max_bytes (chunk_index r') piece s = (Inr u, s')"
  shows "restoring max_bytes chunks r' (hashed @ piece) s'"
proof -
  note b = read_body_cases [OF read]
  obtain k where k: "gk_next r = Suc k" using inv rem by (cases "gk_next r") (auto simp: restoring_def)
  from restoring_cons [OF inv k] obtain files b0 where
    f: "rs_files s = files @ [(pad8 k, b0)]" "length files = k" "map fst files = map pad8 [0..<k]"
    "hashed = concat (map snd files) @ b0" "list_all full_chunk files" "rs_current s = Some k" "0 < length b0"
    "length b0 + gk_remaining r \<le> CARRIER_CHUNK_SIZE"
    "gk_chunks r \<noteq> [] \<longrightarrow> length b0 + gk_remaining r = CARRIER_CHUNK_SIZE"
    "Suc k + length (gk_chunks r) = chunks" "length hashed \<le> rs_bytes s" by blast
  have idx: "chunk_index r' = k" using b(5) k by (simp add: chunk_index_def)
  have files': "rs_files s' = files @ [(pad8 k, b0 @ piece)]"
    using restore_sink_ok(4) [OF sink] append_to_chunk [of files piece b0] f(1-3,6) idx by simp
  have "length piece \<le> gk_remaining r" using b(1) length_pipe_read by simp
  then have "length (b0 @ piece) + gk_remaining r' = length b0 + gk_remaining r" using b(4) by simp
  note len = f(8,9) [folded this]
  show ?thesis
    by (rule restoring_snoc [OF files' f(2,3) _ f(5) _ _ len(1)])
      (use f(4,7,10,11) len(2) b(3,5) k restore_sink_ok(1-3) [OF sink] idx in simp_all)
qed

lemma restoring_next_chunk:
  assumes inv: "restoring max_bytes chunks r hashed s" and rem: "gk_remaining r = 0" and more: "gk_chunks r \<noteq> []"
    and start: "start_next_chunk cat r = Inr r1" and read: "read_body cat sz r1 = Inr (piece, r')"
    and sink: "restore_sink max_bytes (chunk_index r') piece s = (Inr u, s')"
  shows "restoring max_bytes chunks r' (hashed @ piece) s'"
proof -
  define k where "k = gk_next r"
  note b = read_body_cases [OF read] and st = start_next_chunk_ok [OF start]
  have f: "length (rs_files s) = k" "map fst (rs_files s) = map pad8 [0..<k]" "hashed = concat (map snd (rs_files s))"
    "length hashed \<le> rs_bytes s" "k + length (gk_chunks r) = chunks"
    using inv by (auto simp: restoring_def Let_def k_def)
  have full: "list_all full_chunk (rs_files s)"
  proof (cases k)
    case (Suc j)
    from restoring_cons [OF inv Suc [unfolded k_def]] show ?thesis using rem more by (auto simp: full_chunk_def)
  qed (use f(1) in simp)
  have idx: "chunk_index r' = k" using b(5) st(1) by (simp add: chunk_index_def k_def)
  have cur: "rs_current s \<noteq> Some k"
    using inv by (cases "gk_next r") (auto simp: restoring_def Let_def k_def)
  have files': "rs_files s' = rs_files s @ [(pad8 k, piece)]"
    using restore_sink_ok(4) [OF sink] append_to_chunk [of "rs_files s" piece "[]"] idx cur f(1,2)
      update_fresh [OF chunk_name_fresh [of "rs_files s"]] by simp
  have len: "length piece \<le> gk_remaining r1" using b(1) length_pipe_read by simp
  then have rem': "length piece + gk_remaining r' = gk_remaining r1" using b(4) by simp
  have count: "Suc k + length (gk_chunks r') = chunks"
    using f(5) more st(2) b(3) by (cases "gk_chunks r") auto
  show ?thesis
    by (rule restoring_snoc [of s' "rs_files s" k piece])
      (use files' f full idx b(2,3,5) st rem' count restore_sink_ok(1-3) [OF sink] in \<open>simp_all add: k_def\<close>)
qed

lemma read_copy_restores:
  assumes "read_copy_loop cat (restore_sink max_bytes) r hashed s = (Inr (Some b), s')"
    and "restoring max_bytes chunks r hashed s"
  shows "chunked (rs_files s') b \<and> length (rs_files s') = chunks \<and> (b \<noteq> [] \<longrightarrow> length b \<le> max_bytes)"
  using assms
proof (induction cat "restore_sink max_bytes" r hashed s rule: read_copy_loop.induct)
  case (1 cat r hashed s)
  from "1.prems"(1) obtain piece r' where read: "git_chunk_read cat (64 * 1024) r = Inr (piece, r')"
    by (auto simp: read_copy_loop.simps [of cat _ r hashed s] split: sum.splits if_splits)
  show ?case
  proof (cases "piece = []")
    case True
    then have "gk_remaining r = 0" "gk_chunks r = []"
      using read read_body_cases(2) by (fastforce simp: git_chunk_read_def and_then_eq_Inr split: if_splits)+
    moreover have "b = hashed" "s' = s"
      using "1.prems"(1) read True by (auto simp: read_copy_loop.simps [of cat _ r hashed s])
    ultimately show ?thesis
      using "1.prems"(2) by (auto simp: restoring_def chunked_def Let_def split: if_splits)
  next
    case False
    obtain s1 where sink: "restore_sink max_bytes (chunk_index r') piece s = (Inr (), s1)"
      and rec: "read_copy_loop cat (restore_sink max_bytes) r' (hashed @ piece) s1 = (Inr (Some b), s')"
      using "1.prems"(1) read False
      by (auto simp: read_copy_loop.simps [of cat _ r hashed s] split: prod.splits sum.splits)
    have "restoring max_bytes chunks r' (hashed @ piece) s1"
    proof (cases "gk_remaining r = 0")
      case True
      then obtain r1 where "gk_chunks r \<noteq> []" "start_next_chunk cat r = Inr r1" "read_body cat (64 * 1024) r1 = Inr (piece, r')"
        using read False by (auto simp: git_chunk_read_def and_then_eq_Inr split: if_splits)
      then show ?thesis using restoring_next_chunk [OF "1.prems"(2) True] sink by blast
    next
      case rem: False
      then have "read_body cat (64 * 1024) r = Inr (piece, r')" using read by (simp add: git_chunk_read_def)
      then show ?thesis using restoring_same_chunk [OF "1.prems"(2) rem] sink by blast
    qed
    then show ?thesis using "1.hyps" [OF read refl False sink [symmetric] refl] rec by blast
  qed
qed

text \<open>What a copy that was accepted leaves in the sink.\<close>

lemma read_copy_at_restores:
  assumes "read_copy_at P X S copy kind i (restore_sink max_bytes) (\<lparr>rs_bytes = seen, rs_current = None, rs_files = []\<rparr>, w)
      = (Inr True, s, w')"
  shows "validate_id i = Inr ()" and "\<exists>d. chunked (rs_files s) d \<and> hex_encode P (sha256 P d) = i \<and> d \<noteq> []
    \<and> length d \<le> MAX_OBJECT_BYTES \<and> length d \<le> max_bytes"
proof -
  let ?s = "\<lparr>rs_bytes = seen, rs_current = None, rs_files = []\<rparr>"
  from assms obtain chunks cat b where
    entries: "carrier_chunk_entries X (gs_root S) copy kind i w = (Inr (ListingChunks chunks), w')"
    and loop: "read_copy_loop cat (restore_sink max_bytes) (git_chunk_reader_new chunks) [] ?s = (Inr (Some b), s)"
    and b: "hex_encode P (sha256 P b) = i"
    by (auto simp: read_copy_at_def split: prod.splits sum.splits carrier_listing.splits option.splits)
  show "validate_id i = Inr ()"
    using entries by (auto simp: carrier_chunk_entries_def act_simps Let_def)
  have n: "0 < length chunks" "length chunks \<le> MAX_CHUNKS_PER_OBJECT"
    using entries parse_chunk_listing_sound(1,2)
    by (auto simp: carrier_chunk_entries_def act_simps Let_def and_then_eq_Inr split: if_splits sum.splits)
  have "restoring max_bytes (length chunks) (git_chunk_reader_new chunks) [] ?s"
    by (simp add: restoring_def git_chunk_reader_new_def)
  from read_copy_restores [OF loop this] have r: "chunked (rs_files s) b" "length (rs_files s) = length chunks"
    "b \<noteq> [] \<longrightarrow> length b \<le> max_bytes" by simp_all
  have "b \<noteq> []" using r(1,2) n(1) by (cases "rs_files s" rule: rev_cases) (auto simp: chunked_def)
  moreover have "length b \<le> length chunks * CARRIER_CHUNK_SIZE" using chunked_length [OF r(1)] r(2) by simp
  then have "length b \<le> MAX_OBJECT_BYTES"
    using mult_le_mono1 [OF n(2), of CARRIER_CHUNK_SIZE] unfolding MAX_OBJECT_BYTES_def CARRIER_CHUNK_SIZE_def
    by (metis le_trans mult.commute)
  ultimately show "\<exists>d. chunked (rs_files s) d \<and> hex_encode P (sha256 P d) = i \<and> d \<noteq> []
    \<and> length d \<le> MAX_OBJECT_BYTES \<and> length d \<le> max_bytes" using r b by blast
qed

lemma install_object_holds:
  assumes "install_object kind i files n = (Inr u, n')" and "chunked files d" and "d \<noteq> []" and "length d \<le> MAX_OBJECT_BYTES"
  shows "holds_chunks n' (object_components kind i) d"
proof -
  from assms(1) obtain n1 where ren: "rename_dir (Dir (chunk_files files)) (object_components kind i) n1 = (Inr u, n')"
    by (auto simp: install_object_def object_directory_def act_simps and_then_eq_Inr chunk_files_def)
  then show ?thesis
    using assms(2-4) rename_dir_puts [OF ren [unfolded object_components_snoc]]
    unfolding holds_chunks_def object_components_snoc by blast
qed

lemma restore_copies_opens:
  assumes "restore_copies P X S kind i max_bytes copies seen w = (Inr True, w')"
  shows "\<exists>d. carrier_open_object X S kind i w' = (Inr d, w') \<and> hex_encode P (sha256 P d) = i \<and> length d \<le> max_bytes"
  using assms
proof (induction P X S kind i max_bytes copies seen w rule: restore_copies.induct)
  case (2 P X S kind i max_bytes copy copies seen w)
  obtain r s w1 where read: "read_copy_at P X S copy kind i (restore_sink max_bytes)
      (\<lparr>rs_bytes = seen, rs_current = None, rs_files = []\<rparr>, w) = (r, s, w1)" by (metis prod_cases3)
  consider "r = Inr False" | "r = Inr True"
    using "2.prems" read by (cases r) auto
  then show ?case
  proof cases
    case 1
    then show ?thesis using "2.IH" [OF read [symmetric] 1 refl refl] "2.prems" read by simp
  next
    case r: 2
    note acc = read_copy_at_restores [OF read [unfolded r]]
    from acc(2) obtain d where d: "chunked (rs_files s) d" "hex_encode P (sha256 P d) = i" "d \<noteq> []"
      "length d \<le> MAX_OBJECT_BYTES" "length d \<le> max_bytes" by blast
    have "install_object kind i (rs_files s) (cw_checkout w1) = (Inr (), cw_checkout w')"
      using "2.prems" read r by (auto simp: act_simps in_checkout_def split: prod.splits)
    from install_object_holds [OF this d(1,3,4)] show ?thesis
      using holds_chunks_reads [of "cw_checkout w'" "object_components kind i" d] open_present [OF acc(1)] d by metis
  qed
qed simp

text \<open>C12. An object restored from the history of the carrier can be trusted like a stored one: when the
  search reports success, the checkout holds a copy that opens, its contents hash to the object's
  name whatever the storage answered, and the copy is within the byte budget of the search.\<close>

theorem restored_object_opens:
  assumes "carrier_restore_historical_object P X S kind i max_bytes w = (Inr True, w')"
  shows "\<exists>d. carrier_open_object X S kind i w' = (Inr d, w') \<and> hex_encode P (sha256 P d) = i \<and> length d \<le> max_bytes"
proof -
  from assms obtain copies w1 where "restore_copies P X S kind i max_bytes copies 0 w1 = (Inr True, w')"
    by (auto simp: carrier_restore_historical_object_def act_simps)
  then show ?thesis by (rule restore_copies_opens)
qed

section \<open>Two limits of the code\<close>

text \<open>Restoring a checkout removes files and keeps their directories: after the only chunk of an object was
  removed, the empty directory that is left hides the copy of any commit, and the object can neither
  be opened nor stored through this storage again.\<close>

lemma leftover_directory_hides_object:
  assumes id_ok: "validate_id i = Inr ()"
    and chunk: "node_at (cw_checkout w) (object_components kind i) = Some (Dir [(name, File b)])"
    and removed: "in_checkout (remove_file (object_components kind i @ [name])) w = (Inr (), w')"
  shows "carrier_open_object X S kind i w' = (Inl (err (Msg ''carrier object has no chunks'')), w')"
    and "ct_chunk_index (finish_chunk st) \<noteq> 0 \<Longrightarrow>
      carrier_publish P kind i st (cw_checkout w') = (Inl (err (Msg ''carrier object has no chunks'')), cw_checkout w')"
proof -
  let ?t = "object_components kind i"
  have here: "cw_checkout w' = put_at (?t @ [name]) None (cw_checkout w)"
    using removed chunk by (auto simp: in_checkout_def remove_file_def node_at_append split: prod.splits)
  have "node_at (put_at (q @ [name]) None n) q = Some (Dir [])" if "node_at n q = Some (Dir [(name, File b)])" for q n
    using that
  proof (induction q arbitrary: n)
    case Nil
    then show ?case by (simp add: set_entry_def)
  next
    case (Cons c q)
    then obtain es m where n: "n = Dir es" "map_of es c = Some m" "node_at m q = Some (Dir [(name, File b)])"
      by (cases n) (auto split: option.splits)
    obtain d ds where q: "q @ [name] = d # ds" by (cases "q @ [name]") auto
    show ?case using Cons.IH [OF n(3)] n(1,2) by (simp add: q)
  qed
  from this [OF chunk] have left: "node_at (cw_checkout w') ?t = Some (Dir [])" by (simp add: here)
  then have none: "validated_chunk_paths ?t (cw_checkout w') = Inl (err (Msg ''carrier object has no chunks''))"
    by (simp add: validated_chunk_paths_def read_dir_def)
  show "carrier_open_object X S kind i w' = (Inl (err (Msg ''carrier object has no chunks'')), w')"
    using id_ok left none by (simp add: carrier_open_object_def object_directory_def act_then_def act_ret_def)
  show "ct_chunk_index (finish_chunk st) \<noteq> 0 \<Longrightarrow>
      carrier_publish P kind i st (cw_checkout w') = (Inl (err (Msg ''carrier object has no chunks'')), cw_checkout w')"
    using left none by (simp add: carrier_publish_def Let_def)
qed

text \<open>A local carrier named by a relative path, from a directory whose name contains a number sign: the
  parsed URL is an absolute path without a branch, and the carrier takes a part of it as the branch.\<close>

lemma relative_carrier_below_number_sign:
  "storage_url_parse \<lparr>pe_current_dir = Inr ''/a#b'', pe_exists = (\<lambda>p. p = ''r.git'')\<rparr> ''e2ee::r.git'' = Inr (GitRemote ''/a#b/r.git'')"
  "parse_carrier_location ''/a#b/r.git'' = Inr (''/a'', ''b/r.git'')"
  by code_simp+

end
