(* ===== verification/Sample_Carrier.thy ===== *)
theory Sample_Carrier
  imports Carrier_Swap Carrier_Objects Sample
begin

text \<open>
  A small Git that satisfies the laws of the carrier, and the closed instances of the carrier's
  properties. A tree is named by the line of its \<^verbatim>\<open>HEAD\<close>, a commit by its tree and its
  parent; the remote accepts a push on top of its tip.
\<close>

section \<open>A small Git\<close>

record small_git =
  sm_log :: "string option list"
  sm_cached :: "string \<Rightarrow> string option"
  sm_local :: "string option"
  sm_index :: "entry option"

text \<open>Text as a process prints it, and as the code reads it.\<close>

definition printed :: "string \<Rightarrow> bytes" where
  "printed t = as_bytes (t @ [CHR 0x0A])"

definition reads_as :: "bytes \<Rightarrow> string \<Rightarrow> bool" where
  "reads_as b t \<longleftrightarrow> map_option trim (from_utf8 b) = Some t"

definition small_tree :: "string \<Rightarrow> entry option" where
  "small_tree t = (if t = ''n'' then None else Some (RegularFile (printed t)))"

definition small_tree_of :: "string \<Rightarrow> string" where
  "small_tree_of c = takeWhile (\<lambda>x. x \<noteq> CHR ''.'') c"

definition small_parents :: "string \<Rightarrow> string list" where
  "small_parents c = (case split_once (CHR ''.'') c of None \<Rightarrow> [] | Some (_, p) \<Rightarrow> if p = [] then [] else [p])"

definition small_view :: "small_git git_view" where
  "small_view = \<lparr>gv_log = sm_log, gv_cached = sm_cached, gv_local = sm_local, gv_index = sm_index,
     gv_tree = small_tree, gv_tree_of = small_tree_of, gv_parents = small_parents\<rparr>"

definition name_tree :: "entry option \<Rightarrow> string" where
  "name_tree x = (case x of Some (RegularFile b) \<Rightarrow> butlast (string_of_bytes b) | _ \<Rightarrow> ''n'')"

fun parent_args :: "string list \<Rightarrow> (string list \<times> string) option" where
  "parent_args [t] = Some ([], t)"
| "parent_args [flag, p, t] = Some ([p], t)"
| "parent_args _ = None"

definition answer :: "bool \<Rightarrow> string \<Rightarrow> process_output" where
  "answer known t = (if known \<and> reads_as (printed t) t then (Some 0, printed t) else (Some 2, []))"

definition small_dir :: "location \<Rightarrow> string" where
  "small_dir L = (case L of GitDir d \<Rightarrow> d | WorkTree d \<Rightarrow> d)"

definition small_fetch :: "string \<Rightarrow> small_git \<Rightarrow> process_output \<times> small_git" where
  "small_fetch path g = (if sm_log g = [] then ((Some 1, []), g) else
     case last (sm_log g) of
       Some t \<Rightarrow> ((Some 0, []), g\<lparr>sm_cached := (sm_cached g)(path := Some t)\<rparr>)
     | None \<Rightarrow> ((Some 1, []), g))"

definition small_rev :: "string option \<Rightarrow> process_output" where
  "small_rev known = (case known of Some t \<Rightarrow> answer True t | None \<Rightarrow> (Some 1, []))"

definition small_base :: "string \<Rightarrow> string option" where
  "small_base c = (case small_parents c of [] \<Rightarrow> None | p # _ \<Rightarrow> Some p)"

definition small_push :: "small_git \<Rightarrow> process_output \<times> small_git" where
  "small_push g = (case sm_local g of
       None \<Rightarrow> ((Some 1, []), g)
     | Some c \<Rightarrow> if sm_log g \<noteq> [] \<and> last (sm_log g) = small_base c
         then ((Some 0, []), g\<lparr>sm_log := sm_log g @ [Some c]\<rparr>) else ((Some 1, []), g))"

definition small_commit :: "string list \<Rightarrow> process_output" where
  "small_commit args = (case parent_args args of
       None \<Rightarrow> (Some 1, [])
     | Some (ps, t) \<Rightarrow> let c = t @ ''.'' @ concat ps in answer (small_tree_of c = t \<and> small_parents c = ps) c)"

definition small_command :: "location \<Rightarrow> string \<Rightarrow> string list \<Rightarrow> node \<Rightarrow> small_git \<Rightarrow> process_output \<times> small_git" where
  "small_command L cmd args n g =
     (if cmd = ''fetch'' then small_fetch (small_dir L) g
      else if cmd = ''ls-remote'' then
        ((Some 0, if sm_log g \<noteq> [] \<and> last (sm_log g) = None then [] else as_bytes ''x''), g)
      else if cmd = ''rev-parse'' then
        (small_rev (if last args = CARRIER_CACHE_FETCH_REF then sm_cached g (small_dir L) else sm_local g), g)
      else if cmd = ''push'' then small_push g
      else if cmd = ''update-ref'' \<and> L = WorkTree (small_dir L) then
        ((Some 0, []), g\<lparr>sm_local := (if hd args = ''-d'' then None else Some (last args))\<rparr>)
      else if cmd = ''add'' then ((Some 0, []), g\<lparr>sm_index := file_view n ''HEAD''\<rparr>)
      else if cmd = ''write-tree'' then
        (answer (small_tree (name_tree (sm_index g)) = sm_index g) (name_tree (sm_index g)), g)
      else if cmd = ''commit-tree'' then (small_commit (drop 3 args), g)
      else ((Some 0, []), g))"

definition small_step :: "location \<Rightarrow> string list \<Rightarrow> (process_output, small_git) carrier_act" where
  "small_step L args w = (case small_command L (hd args) (tl args) (cw_checkout w) (cw_git w) of
     (out, g) \<Rightarrow> (Inr out, w\<lparr>cw_git := g\<rparr>))"

text \<open>A command of the program has ten arguments of configuration before its repository.\<close>

definition small_run :: "process \<Rightarrow> (process_output, small_git) carrier_act" where
  "small_run p w = (case drop 10 (gc_args (pr_command p)) of
     flag # path # args \<Rightarrow>
       if flag = ''-C'' then small_step (WorkTree path) args w
       else if flag = ''--git-dir'' then small_step (GitDir path) args w
       else (Inr (Some 0, []), w)
   | _ \<Rightarrow> (Inr (Some 0, []), w))"

text \<open>Its \<^verbatim>\<open>cat-file\<close> process answers for the \<^verbatim>\<open>HEAD\<close> of a commit, when the answer is read as it is meant.\<close>

definition small_answer :: "string \<Rightarrow> bytes \<times> bytes \<times> batch_header" where
  "small_answer object = (case small_tree (small_tree_of (take (length object - 5) object)) of
     Some (RegularFile b) \<Rightarrow> (as_bytes (''b blob '' @ show_nat (length b) @ [CHR 0x0A]), b @ [0x0A], Object ''b'' BlobType (length b))
   | _ \<Rightarrow> (as_bytes (object @ '' missing'' @ [CHR 0x0A]), [], Missing))"

definition small_cat :: cat_process where
  "small_cat = \<lparr>cp_answer = (\<lambda>object. case small_answer object of (line, body, meant) \<Rightarrow>
       if cat_request (\<lambda>_. Inr line) object = Inr meant then Inr (line, body) else Inl (err (Io OtherIo))),
     cp_exit = Inr True, cp_read = (\<lambda>_ n. n)\<rparr>"

definition small_io :: "small_git carrier_io" where
  "small_io = \<lparr>ci_run = small_run, ci_cat = (\<lambda>_ _. Inr small_cat),
     ci_env = \<lparr>ce_var = (\<lambda>v. if v = CARRIER_CACHE_ENV then Some ''/k'' else None),
       ce_paths = \<lparr>pe_current_dir = Inr ''/'', pe_exists = (\<lambda>_. True)\<rparr>, ce_canonicalize = Inr\<rparr>,
     ci_pid = ''1'', ci_checkout = ''/c'', ci_current = (None, ''x'')\<rparr>"

definition small_storage :: git_storage where
  "small_storage = \<lparr>gs_root = ''/c'', gs_location = ''/r'', gs_remote = ''/r'', gs_branch = ''main'', gs_format_4_branch = False\<rparr>"

section \<open>It satisfies the laws\<close>

lemma owned_args:
  "gh_owner h = Program \<Longrightarrow> command \<in> {git h, transport h} \<Longrightarrow>
     drop 10 (gc_args (add_args args command)) = location_args (gh_location h) @ args"
  "drop 10 (gc_args (add_args args without_repository)) = args"
  by (auto simp: command_defs OWNED_REPOSITORY_CONFIG_def)

lemma memory_kept: "cw_path w' = cw_path w \<Longrightarrow> cw_base w' = cw_base w \<Longrightarrow> cw_random w' = cw_random w \<Longrightarrow>
    w'\<lparr>cw_path := cw_path w, cw_base := cw_base w, cw_random := cw_random w\<rparr> = w'"
  by simp

lemma run_small_step:
  assumes "gh_owner h = Program" and "command \<in> {git h, transport h}"
  shows "run_process small_io command env args input w = small_step (gh_location h) args w"
  by (cases "gh_location h")
    (simp_all add: run_process_def small_io_def small_run_def owned_args(1) [OF assms] small_step_def split_def)

lemma run_small_init: "run_process small_io without_repository [] [''init'', ''--bare'', ''--quiet'', path] [] w = (Inr (Some 0, []), w)"
  by (simp add: run_process_def small_io_def small_run_def owned_args(2))

lemma run_small_git [simp]:
  "run_process small_io (git (owned_work_tree repo)) env args input w = small_step (WorkTree repo) args w"
  "run_process small_io (git (owned_git_dir repo)) env args input w = small_step (GitDir repo) args w"
  "run_process small_io (transport (owned_work_tree repo)) env args input w = small_step (WorkTree repo) args w"
  "run_process small_io (transport (owned_git_dir repo)) env args input w = small_step (GitDir repo) args w"
  by (simp_all add: run_small_step [of "owned_work_tree repo"] run_small_step [of "owned_git_dir repo"]
      owned_work_tree_def owned_git_dir_def)

lemma small_ancestry:
  assumes "(p, c) \<in> ancestry small_view"
  shows "length p < length c"
proof -
  from assms obtain a where "split_once (CHR ''.'') c = Some (a, p)"
    by (cases "split_once (CHR ''.'') c") (auto simp: ancestry_def small_view_def small_parents_def split: if_splits)
  then have "c = a @ CHR ''.'' # p" by (simp add: split_once_Some)
  then show ?thesis by simp
qed

lemma small_acyclic: "acyclic (ancestry small_view)"
proof -
  have "ancestry small_view \<subseteq> measure length" using small_ancestry by auto
  then show ?thesis by (meson acyclic_subset wf_acyclic wf_measure)
qed

lemma forward_trans: "forward V a b \<Longrightarrow> forward V b c \<Longrightarrow> forward V a c"
  by (auto simp: forward_def split: option.splits)

lemma small_push_forward:
  assumes "fast_forward_log small_view L" and "last L = small_base c"
  shows "fast_forward_log small_view (L @ [Some c])"
proof -
  have last: "forward small_view (last L) (Some c)"
  proof (cases "small_parents c")
    case Nil
    then show ?thesis using assms(2) by (simp add: forward_def small_base_def)
  next
    case (Cons p ps)
    then have "(p, c) \<in> ancestry small_view" by (simp add: ancestry_def small_view_def)
    then show ?thesis using assms(2) Cons by (auto simp: forward_def small_base_def)
  qed
  have "forward small_view x (Some c)" if "x \<in> set L" for x
  proof -
    obtain M where L: "L = M @ [last L]" using assms(1) by (metis append_butlast_last_id fast_forward_log_def)
    have "x = last L \<or> forward small_view x (last L)"
      using that assms(1) L by (metis (no_types, lifting) Un_iff empty_iff fast_forward_log_def insert_iff list.set(1,2)
          set_append sorted_wrt_append)
    then show ?thesis using last forward_trans by metis
  qed
  then show ?thesis using assms(1) by (auto simp: fast_forward_log_def sorted_wrt_append)
qed

lemma small_view_simps [simp]:
  "gv_log small_view = sm_log" "gv_cached small_view = sm_cached" "gv_local small_view = sm_local"
  "gv_index small_view = sm_index" "gv_tree small_view = small_tree" "gv_tree_of small_view = small_tree_of"
  "gv_parents small_view = small_parents"
  by (simp_all add: small_view_def)

text \<open>What each command changes.\<close>

lemma small_parts:
  "sm_log (snd (small_fetch path g)) = sm_log g" "sm_local (snd (small_fetch path g)) = sm_local g"
  "sm_local (snd (small_push g)) = sm_local g"
  by (simp_all add: small_fetch_def small_push_def split: option.split)

lemma small_push_log:
  "sm_log (snd (small_push g)) = sm_log g
   \<or> (\<exists>c. sm_log (snd (small_push g)) = sm_log g @ [Some c] \<and> last (sm_log g) = small_base c)"
  by (simp add: small_push_def split: option.split)

lemma small_command_log:
  "sm_log (snd (small_command L cmd args n g)) = sm_log g
   \<or> (\<exists>c. sm_log (snd (small_command L cmd args n g)) = sm_log g @ [Some c] \<and> last (sm_log g) = small_base c)"
proof (cases "cmd = ''push''")
  case True
  then have "small_command L cmd args n g = small_push g" by (simp add: small_command_def)
  then show ?thesis using small_push_log by simp
next
  case False
  then have "sm_log (snd (small_command L cmd args n g)) = sm_log g"
    unfolding small_command_def by (simp add: small_parts)
  then show ?thesis ..
qed

lemma small_command_local:
  assumes "(\<exists>d. L = GitDir d) \<or> cmd \<noteq> ''update-ref''"
  shows "sm_local (snd (small_command L cmd args n g)) = sm_local g"
proof -
  have "\<not> (cmd = ''update-ref'' \<and> L = WorkTree (small_dir L))" using assms by auto
  then have "small_command L cmd args n g = (if cmd = ''update-ref'' then ((Some 0, []), g) else small_command L cmd args n g)"
    by (simp add: small_command_def)
  moreover have "cmd \<noteq> ''update-ref'' \<Longrightarrow> sm_local (snd (small_command L cmd args n g)) = sm_local g"
    unfolding small_command_def by (simp add: small_parts)
  ultimately show ?thesis by (cases "cmd = ''update-ref''") simp_all
qed

lemma small_step_run: "small_step L args w = (r, w') \<longleftrightarrow>
    r = Inr (fst (small_command L (hd args) (tl args) (cw_checkout w) (cw_git w)))
    \<and> w' = w\<lparr>cw_git := snd (small_command L (hd args) (tl args) (cw_checkout w) (cw_git w))\<rparr>"
  by (auto simp: small_step_def split: prod.splits)

lemma small_step_log:
  assumes "small_step L args w = (r, w')"
  shows "(\<exists>ext. tips small_view w' = tips small_view w @ ext)
    \<and> (fast_forward_log small_view (tips small_view w) \<longrightarrow> fast_forward_log small_view (tips small_view w'))"
proof -
  have w': "tips small_view w' = sm_log (snd (small_command L (hd args) (tl args) (cw_checkout w) (cw_git w)))"
    and w: "tips small_view w = sm_log (cw_git w)"
    using assms by (simp_all add: small_step_run tips_def)
  from small_command_log [of L "hd args" "tl args" "cw_checkout w" "cw_git w"] show ?thesis
    unfolding w' w by (elim disjE exE conjE) (simp_all add: small_push_forward)
qed

lemma small_only_forward: "remote_only_forward small_view small_io"
  unfolding remote_only_forward_def
proof (intro allI impI)
  fix p w r and w' :: "small_git carrier_world"
  assume "ci_run small_io p w = (r, w')"
  then have run: "small_run p w = (r, w')" by (simp add: small_io_def)
  then have "w' = w \<or> (\<exists>L args. small_step L args w = (r, w'))"
    by (auto simp: small_run_def split: list.splits if_splits)
  then show "(\<exists>ext. tips small_view w' = tips small_view w @ ext)
      \<and> (fast_forward_log small_view (tips small_view w) \<longrightarrow> fast_forward_log small_view (tips small_view w'))"
    using small_step_log by auto
qed

lemma small_local_owned:
  assumes "gh_owner h = Program \<and> command \<in> {git h, transport h}
      \<and> run_process small_io command env args input w = (r, w')"
  shows "cw_checkout w' = cw_checkout w"
    and "(\<exists>d. gh_location h = GitDir d) \<or> hd args \<notin> {''update-ref'', ''symbolic-ref'', ''init'', ''checkout''} \<Longrightarrow>
      sm_local (cw_git w') = sm_local (cw_git w)"
proof -
  have step: "small_step (gh_location h) args w = (r, w')" using assms run_small_step [of h command] by simp
  then show "cw_checkout w' = cw_checkout w" by (simp add: small_step_run)
  assume "(\<exists>d. gh_location h = GitDir d) \<or> hd args \<notin> {''update-ref'', ''symbolic-ref'', ''init'', ''checkout''}"
  then have "(\<exists>d. gh_location h = GitDir d) \<or> hd args \<noteq> ''update-ref''" by auto
  from small_command_local [OF this, of "tl args" "cw_checkout w" "cw_git w"]
  show "sm_local (cw_git w') = sm_local (cw_git w)" using step by (simp add: small_step_run)
qed

lemma small_local: "commands_are_local small_view small_io"
  unfolding commands_are_local_def small_view_simps
proof (rule conjI; intro allI impI)
  fix h command env args input r and w w' :: "small_git carrier_world"
  assume run: "gh_owner h = Program \<and> command \<in> {git h, transport h}
      \<and> run_process small_io command env args input w = (r, w')"
  show "(hd args \<notin> {''init'', ''checkout''} \<longrightarrow> cw_checkout w' = cw_checkout w)
      \<and> ((\<exists>d. gh_location h = GitDir d) \<or> hd args \<notin> {''update-ref'', ''symbolic-ref'', ''init'', ''checkout''} \<longrightarrow>
          sm_local (cw_git w') = sm_local (cw_git w))"
    using small_local_owned [OF run] by blast
next
  fix path r and w w' :: "small_git carrier_world"
  assume "run_process small_io without_repository [] [''init'', ''--bare'', ''--quiet'', path] [] w = (r, w')"
  then show "cw_checkout w' = cw_checkout w \<and> sm_local (cw_git w') = sm_local (cw_git w)"
    by (simp add: run_small_init)
qed

text \<open>The answers are read as they were meant.\<close>

lemma answer_read:
  assumes "fst (answer known t) = Some 0" and "from_utf8 (snd (answer known t)) = Some x"
  shows "known \<and> trim x = t"
  using assms by (auto simp: answer_def reads_as_def split: if_splits)

lemma small_rev_parse:
  assumes "git_rev_parse small_io repo reference w = (Inr t, w')"
  shows "t = (if reference = CARRIER_CACHE_FETCH_REF then sm_cached (cw_git w) repo else sm_local (cw_git w))"
proof -
  define known where "known = (if reference = CARRIER_CACHE_FETCH_REF then sm_cached (cw_git w) repo else sm_local (cw_git w))"
  have out: "git_output small_io repo [''rev-parse'', ''--verify'', ''--quiet'', reference] w = (Inr (small_rev known), w)"
    by (simp add: git_output_def small_step_def small_command_def small_dir_def known_def)
  have "t = known"
  proof (cases known)
    case None
    then show ?thesis using assms unfolding git_rev_parse_def act_then_def out by (simp add: small_rev_def act_ret_def)
  next
    case (Some k)
    then show ?thesis using assms answer_read [of True k]
      unfolding git_rev_parse_def act_then_def out
      by (auto simp: small_rev_def act_ret_def and_then_eq_Inr ok_or_eq_Inr ensure_git_success_def succeeded_def
          bail_if_eq_Inr answer_def split: if_splits)
  qed
  then show ?thesis by (simp add: known_def)
qed

lemma small_tip_seen:
  assumes "sm_log (cw_git w) \<noteq> []" and "tips small_view w' = tips small_view w"
  shows "last (sm_log (cw_git w)) \<in> window small_view w w'"
  using assms by (cases "sm_log (cw_git w)" rule: rev_cases) (simp_all add: window_def tips_def)

lemma small_fetch_live:
  assumes "cache_transport_output small_io cache (''fetch'' # args) w = (Inr out, w')" and "succeeded out"
  shows "\<exists>t. sm_cached (cw_git w') cache = Some t \<and> Some t \<in> window small_view w w'"
proof -
  have "out = fst (small_fetch cache (cw_git w))" and w': "w' = w\<lparr>cw_git := snd (small_fetch cache (cw_git w))\<rparr>"
    using assms(1) by (auto simp: cache_transport_output_def small_step_run small_command_def small_dir_def)
  then obtain t where t: "sm_log (cw_git w) \<noteq> []" "last (sm_log (cw_git w)) = Some t"
    using assms(2) by (auto simp: small_fetch_def succeeded_def split: if_splits option.splits)
  then have "sm_cached (cw_git w') cache = Some t" using w' by (simp add: small_fetch_def)
  moreover have "Some t \<in> window small_view w w'"
    using small_tip_seen [OF t(1), of w'] t(2) w' by (simp add: tips_def small_parts)
  ultimately show ?thesis by blast
qed

lemma small_list_live:
  assumes "cache_transport_output small_io cache (''ls-remote'' # args) w = (Inr out, w')" and "lossy_trim_is (snd out) []"
  shows "None \<in> window small_view w w'"
proof -
  have out: "out = (Some 0, if sm_log (cw_git w) \<noteq> [] \<and> last (sm_log (cw_git w)) = None then [] else as_bytes ''x'')"
    and w': "w' = w" using assms(1) by (auto simp: cache_transport_output_def small_step_run small_command_def)
  have "\<not> lossy_trim_is (as_bytes ''x'') []" by code_simp
  then have "sm_log (cw_git w) \<noteq> []" "last (sm_log (cw_git w)) = None"
    using assms(2) unfolding out by (auto split: if_splits)
  then show ?thesis using small_tip_seen [of w w'] w' by simp
qed

lemma small_push_live:
  assumes "push_head small_io small_storage w = (Inr out, w')" and "succeeded out" and "sm_local (cw_git w) = Some c"
  shows "Some c \<in> window small_view w w'"
proof -
  have "out = fst (small_push (cw_git w))" and w': "w' = w\<lparr>cw_git := snd (small_push (cw_git w))\<rparr>"
    using assms(1) by (auto simp: push_head_def small_step_run small_command_def)
  then have "sm_log (cw_git w') = sm_log (cw_git w) @ [Some c]"
    using assms(2,3) by (auto simp: small_push_def succeeded_def split: if_splits)
  then show ?thesis by (auto simp: window_def tips_def)
qed

lemma small_live: "transports_are_live small_view small_io small_storage"
  unfolding transports_are_live_def small_view_simps
  using small_fetch_live small_list_live small_push_live small_rev_parse by fastforce

lemma small_git_command: "Carrier_Git.git_command small_io repo (cmd # args) w = (Inr (), w') \<Longrightarrow>
    w' = w\<lparr>cw_git := snd (small_command (WorkTree repo) cmd args (cw_checkout w) (cw_git w))\<rparr>"
  by (auto simp: Carrier_Git.git_command_def git_output_def act_then_Inr act_ret_eq small_step_run)

lemma small_update_ref:
  "Carrier_Git.git_command small_io repo [''update-ref'', reference, commit] w = (Inr (), w') \<Longrightarrow> reference \<noteq> ''-d'' \<Longrightarrow>
     sm_local (cw_git w') = Some commit"
  "Carrier_Git.git_command small_io repo [''update-ref'', ''-d'', reference] w = (Inr (), w') \<Longrightarrow> sm_local (cw_git w') = None"
  by (auto dest!: small_git_command simp: small_command_def small_dir_def)

lemma small_refs: "refs_are_kept small_view small_io small_storage"
  unfolding refs_are_kept_def small_view_simps
proof (intro conjI allI impI)
  fix reference t and w w' :: "small_git carrier_world"
  assume "reference \<in> {''HEAD'', ''refs/heads/'' @ gs_branch small_storage}
    \<and> git_rev_parse small_io (gs_root small_storage) reference w = (Inr t, w')"
  then show "t = sm_local (cw_git w)"
    using small_rev_parse [of "gs_root small_storage" reference w t w']
    by (auto simp: CARRIER_CACHE_FETCH_REF_def small_storage_def split: if_splits)
qed (auto dest: small_update_ref)

lemma small_text_read:
  assumes "git_text_with_object_directory small_io repo objects (cmd # args) w = (Inr t, w')"
    and "fst (small_command (WorkTree repo) cmd args (cw_checkout w) (cw_git w)) = answer known u"
  shows "known \<and> t = u"
  using assms answer_read [of known u]
  by (auto simp: git_text_with_object_directory_def CARRIER_IDENTITY_def act_then_Inr act_ret_eq small_step_run
      and_then_eq_Inr ok_or_eq_Inr ensure_git_success_def bail_if_eq_Inr succeeded_def)

lemma small_add:
  assumes "git_command_with_object_directory_input small_io repo objects (''add'' # args) paths w = (Inr (), w')"
  shows "sm_index (cw_git w') = file_view (cw_checkout w) ''HEAD''"
  using assms by (auto simp: git_command_with_object_directory_input_def act_then_Inr act_ret_eq small_step_run small_command_def)

lemma small_write_tree:
  assumes "git_text_with_object_directory small_io repo objects [''write-tree''] w = (Inr t, w')"
  shows "small_tree t = sm_index (cw_git w)"
  using small_text_read [OF assms, of "small_tree (name_tree (sm_index (cw_git w))) = sm_index (cw_git w)"
      "name_tree (sm_index (cw_git w))"] by (simp add: small_command_def)

lemma small_commit_tree:
  assumes "git_text_with_object_directory small_io repo objects ([''commit-tree'', a, b, m]
      @ (case base of Some parent \<Rightarrow> [''-p'', parent] | None \<Rightarrow> []) @ [t]) w = (Inr c, w')"
  shows "small_tree_of c = t \<and> small_parents c = (case base of None \<Rightarrow> [] | Some parent \<Rightarrow> [parent])"
proof -
  let ?ps = "case base of None \<Rightarrow> [] | Some parent \<Rightarrow> [parent]"
  let ?flags = "case base of Some parent \<Rightarrow> [''-p'', parent] | None \<Rightarrow> []"
  let ?c = "t @ ''.'' @ concat ?ps"
  let ?known = "small_tree_of ?c = t \<and> small_parents ?c = ?ps"
  have "parent_args (?flags @ [t]) = Some (?ps, t)" by (cases base) simp_all
  then have out: "fst (small_command (WorkTree repo) ''commit-tree'' ([a, b, m] @ ?flags @ [t]) n g) = answer ?known ?c" for n g
    by (simp add: small_command_def small_commit_def Let_def)
  have "git_text_with_object_directory small_io repo objects (''commit-tree'' # [a, b, m] @ ?flags @ [t]) w = (Inr c, w')"
    using assms by simp
  from small_text_read [OF this out] show ?thesis by blast
qed

lemma small_cat_header:
  assumes "cat_header small_cat object = Inr header" and "small_answer object = (line, body, meant)"
  shows "header = meant" and "cat_output small_cat object = Inr body"
proof -
  have line: "cp_answer small_cat object = Inr (line, body)" and ok: "cat_request (\<lambda>_. Inr line) object = Inr meant"
    using assms by (auto simp: cat_header_def cat_request_def small_cat_def bail_if_eq_Inr and_then_eq_Inr split: if_splits)
  then have "cat_header small_cat object = cat_request (\<lambda>_. Inr line) object"
    by (simp add: cat_header_def cat_request_def)
  then show "header = meant" using ok assms(1) by simp
  show "cat_output small_cat object = Inr body" using line by (simp add: cat_output_def)
qed

lemma small_blob:
  assumes "carrier_blob small_cat (c @ '':HEAD'') max_bytes = Inr found"
  shows "found = read_regular_bounded (\<lambda>_. commit_entry small_view c) ''HEAD'' max_bytes"
proof -
  obtain header where h: "cat_header small_cat (c @ '':HEAD'') = Inr header"
    using assms by (auto simp: carrier_blob_def and_then_eq_Inr)
  have c: "take (length (c @ '':HEAD'') - 5) (c @ '':HEAD'') = c" by simp
  show ?thesis
  proof (cases "small_tree (small_tree_of c)")
    case None
    then have "small_answer (c @ '':HEAD'') = (as_bytes ((c @ '':HEAD'') @ '' missing'' @ [CHR 0x0A]), [], Missing)"
      unfolding small_answer_def c by simp
    from small_cat_header [OF h this] show ?thesis
      using assms h None by (simp add: carrier_blob_def commit_entry_def read_regular_bounded_def open_regular_def)
  next
    case (Some e)
    then obtain b where b: "small_tree (small_tree_of c) = Some (RegularFile b)" by (auto simp: small_tree_def split: if_splits)
    then have "small_answer (c @ '':HEAD'') = (as_bytes (''b blob '' @ show_nat (length b) @ [CHR 0x0A]), b @ [0x0A], Object ''b'' BlobType (length b))"
      unfolding small_answer_def c by simp
    from small_cat_header [OF h this] show ?thesis
      using assms h b
      by (auto simp: carrier_blob_def commit_entry_def read_regular_bounded_def open_regular_def and_then_eq_Inr bail_if_eq_Inr
          Let_def split: if_splits)
  qed
qed

lemma small_objects: "objects_are_named small_view small_io small_storage"
  unfolding objects_are_named_def small_view_simps
proof (intro conjI allI impI)
  fix objects base t c and w w' :: "small_git carrier_world"
  assume "git_text_with_object_directory small_io (gs_root small_storage) objects
            ([''commit-tree'', ''--no-gpg-sign'', ''-m'', CARRIER_COMMIT_MESSAGE]
             @ (case base of Some parent \<Rightarrow> [''-p'', parent] | None \<Rightarrow> []) @ [t]) w = (Inr c, w')"
  then show "small_tree_of c = t" "small_parents c = (case base of None \<Rightarrow> [] | Some parent \<Rightarrow> [parent])"
    using small_commit_tree by blast+
next
  show "acyclic (ancestry small_view)" by (rule small_acyclic)
next
  fix cat c max_bytes found and w :: "small_git carrier_world"
  assume "ci_cat small_io (owned_work_tree (gs_root small_storage)) w = Inr cat
    \<and> carrier_blob cat (c @ '':HEAD'') max_bytes = Inr found"
  then show "found = read_regular_bounded (\<lambda>_. commit_entry small_view c) ''HEAD'' max_bytes"
    using small_blob by (auto simp: small_io_def)
qed (auto dest: small_add small_write_tree)

lemma small_git_laws: "carrier_git_laws small_view small_io small_storage"
  unfolding carrier_git_laws_def using small_only_forward small_local small_live small_refs small_objects by simp

section \<open>The first publication\<close>

definition small_world :: "small_git carrier_world" where
  "small_world = \<lparr>cw_checkout = Dir [], cw_cache = (\<lambda>_. None), cw_path = [], cw_base = None, cw_random = (\<lambda>_. ''r''),
     cw_git = \<lparr>sm_log = [None], sm_cached = (\<lambda>_. None), sm_local = None, sm_index = None\<rparr>\<rparr>"

lemma absent_root_file:
  assumes "cw_checkout w = Dir []" and "sm_local (cw_git w) = None" and "name \<in> {''HEAD'', ''FORMAT'', ''e2ee/HEAD''}"
  shows "local_root_file small_io small_storage name m w = (Inr BoundedAbsent, w)"
proof -
  have "file_view (Dir []) name = None" using assms(3) by (elim insertE emptyE; hypsubst; code_simp)
  then have "read_regular_bounded (file_view (cw_checkout w)) name m = BoundedAbsent"
    using assms(1) by (simp add: read_regular_bounded_def open_regular_def)
  moreover have "git_rev_parse small_io (gs_root small_storage) ''HEAD'' w = (Inr None, w)"
    using assms(2) by (simp add: git_rev_parse_def git_output_def act_then_def act_ret_def small_step_def small_command_def
       CARRIER_CACHE_FETCH_REF_def small_rev_def)
  ultimately show ?thesis by (simp add: local_root_file_def act_then_def act_ret_def)
qed

lemma absent_head:
  "cw_checkout w = Dir [] \<Longrightarrow> sm_local (cw_git w) = None \<Longrightarrow> local_head small_io small_storage w = (Inr None, w)"
  by (simp add: local_head_def local_stored_head_def check_format_def absent_root_file act_then_def act_ret_def
      small_storage_def [THEN arg_cong [of _ _ gs_format_4_branch]] check_storage_format_def)

text \<open>Names that git prints and the code reads back.\<close>

definition plain :: "string \<Rightarrow> bool" where
  "plain t \<longleftrightarrow> (\<forall>c \<in> set t. of_char c < (128 :: nat) \<and> \<not> is_whitespace (of_char c))"

lemma plain_read: "plain t \<Longrightarrow> reads_as (printed t) t"
  using from_utf8_as_bytes [of "t @ [CHR 0x0A]"] trim_ascii_newline(1) [of t]
  by (simp add: plain_def reads_as_def printed_def)

lemma answer_ok: "known \<Longrightarrow> plain t \<Longrightarrow> answer known t = (Some 0, printed t)"
  by (simp add: answer_def plain_read)

lemma small_text_ok:
  assumes "small_command (WorkTree repo) cmd args (cw_checkout w) (cw_git w) = (answer known t, g)" and known and "plain t"
  shows "git_text_with_object_directory small_io repo objects (cmd # args) w = (Inr t, w\<lparr>cw_git := g\<rparr>)"
  using assms(1) plain_read [OF assms(3)]
  by (auto simp: git_text_with_object_directory_def CARRIER_IDENTITY_def act_then_def act_ret_def small_step_def
      answer_ok [OF assms(2,3)] ensure_git_success_def succeeded_def bail_if_def reads_as_def)

abbreviation first_tree :: "bytes \<Rightarrow> bytes \<Rightarrow> bytes \<Rightarrow> node" where
  "first_tree a b h \<equiv> Dir [(''README.md'', File a), (''FORMAT'', File b), (''HEAD'', File h)]"

lemma first_tree_paths: "\<exists>paths. collect_roots (first_tree a b h) CARRIER_ROOT_ENTRIES = Inr paths \<and> paths \<noteq> []"
  by (simp add: CARRIER_ROOT_ENTRIES_def bail_if_def)

lemma first_tree_written:
  assumes "cw_checkout w = Dir []"
  shows "write_checkout_head t True w = (Inr (), w\<lparr>cw_checkout :=
     first_tree (as_bytes (storage_readme ''This branch'')) STORAGE_FORMAT (printed t)\<rparr>)"
  using assms by (simp add: write_checkout_head_def act_then_def in_checkout_def write_file_def printed_def
    is_dir_def set_entry_def)

lemma small_genesis_commit:
  assumes "cw_checkout w = Dir []" and t: "plain t" "CHR ''.'' \<notin> set t" "t \<noteq> ''n''"
  shows "\<exists>w'. commit_head small_io small_storage t None w = (Inr (t @ ''.''), w')
     \<and> cw_git w' = (cw_git w)\<lparr>sm_index := Some (RegularFile (printed t)), sm_local := Some (t @ ''.'')\<rparr>
     \<and> cw_path w' = cw_path w \<and> cw_base w' = cw_base w"
proof -
  let ?n = "first_tree (as_bytes (storage_readme ''This branch'')) STORAGE_FORMAT (printed t)"
  obtain paths where p: "collect_roots ?n CARRIER_ROOT_ENTRIES = Inr paths" "paths \<noteq> []" using first_tree_paths by blast
  let ?w1 = "w\<lparr>cw_checkout := ?n, cw_git := (cw_git w)\<lparr>sm_index := Some (RegularFile (printed t))\<rparr>\<rparr>"
  have stage: "stage_carrier_checkout small_io repo objects (w\<lparr>cw_checkout := ?n\<rparr>) = (Inr (), ?w1)" for repo objects
    by (simp add: stage_carrier_checkout_def act_then_def act_get_def act_ret_def p bail_if_def
        git_command_with_object_directory_input_def small_step_def small_command_def ensure_git_success_def succeeded_def
        file_view_HEAD)
  have tree: "git_text_with_object_directory small_io repo objects [''write-tree''] ?w1 = (Inr t, ?w1)" for repo objects
    by (subst small_text_ok [where known = True and t = t]) 
     (simp_all add: small_command_def name_tree_def small_tree_def t printed_def)
  have "plain (t @ ''.'')" using t(1) by (auto simp: plain_def is_whitespace_def)
  have "split_once (CHR ''.'') (t @ ''.'') = Some (t, [])" using t(2) by (simp add: split_once_Some)
  then have names: "small_tree_of (t @ ''.'') = t" "small_parents (t @ ''.'') = []"
    using t(2) by (auto simp: small_tree_of_def small_parents_def takeWhile_append)
  have commit: "git_text_with_object_directory small_io repo objects [''commit-tree'', a, b, m, t] ?w1 = (Inr (t @ ''.''), ?w1)"
    for repo objects a b m
    by (subst small_text_ok [where known = True and t = "t @ ''.''"])
     (simp_all add: small_command_def small_commit_def names \<open>plain (t @ ''.'')\<close>)
  show ?thesis
    using stage tree commit by (simp add: commit_head_def act_then_def act_get_def act_ret_def first_tree_written [OF assms(1)]
      Carrier_Git.git_command_def git_output_def small_step_def small_command_def small_dir_def ensure_git_success_def succeeded_def bail_if_def)
qed

lemma small_genesis_push:
  assumes "cw_checkout w = Dir []" "sm_log (cw_git w) = [None]" and t: "plain t" "CHR ''.'' \<notin> set t" "t \<noteq> ''n''"
  shows "\<exists>w'. publish_and_advance small_io small_storage remote_dir t expected None w = (Inr (), w')
    \<and> sm_log (cw_git w') = [None, Some (t @ ''.'')]"
proof -
  obtain w1 where c: "commit_head small_io small_storage t None w = (Inr (t @ ''.''), w1)"
    "cw_git w1 = (cw_git w)\<lparr>sm_index := Some (RegularFile (printed t)), sm_local := Some (t @ ''.'')\<rparr>"
    using small_genesis_commit [OF assms(1) t] by blast
  have "split_once (CHR ''.'') (t @ ''.'') = Some (t, [])" using t(2) by (simp add: split_once_Some)
  then have "small_push (cw_git w1) = ((Some 0, []), (cw_git w1)\<lparr>sm_log := [None, Some (t @ ''.'')]\<rparr>)"
    using c(2) assms(2) by (simp add: small_push_def small_base_def small_parents_def)
  then show ?thesis
    by (simp add: publish_and_advance_def publish_checkout_head_def commit_and_push_head_def act_then_def act_ret_def c(1)
        push_head_def small_step_def small_command_def succeeded_def update_published_tip_def cache_git_command_def
        cache_git_output_def ensure_git_success_def bail_if_def small_dir_def)
qed

abbreviation first_id :: string where
  "first_id \<equiv> replicate 64 (CHR ''a'')"

lemma first_id_ok: "validate_id first_id = Inr ()" "plain first_id" "CHR ''.'' \<notin> set first_id" "first_id \<noteq> ''n''"
  by (code_simp, simp_all add: plain_def is_whitespace_def, code_simp)

lemma small_config: "cache_git_command small_io cache (''config'' # args) w = (Inr (), w)"
  "cache_git_command small_io cache (''symbolic-ref'' # args) w = (Inr (), w)"
  by (simp_all add: cache_git_command_def cache_git_output_def act_then_def act_ret_def small_step_def small_command_def
      ensure_git_success_def succeeded_def bail_if_def)

lemma small_configured: "configure_cache small_io cache w = (Inr (), w)"
  by (simp add: configure_cache_def configure_git_pack_settings_def act_then_def act_ret_def small_config)

lemma small_published:
  assumes "d \<noteq> []" and "cw_cache w = (\<lambda>_. None)" and "cw_path w = path_push d generation"
  shows "\<exists>fs. publish_current small_io d w = (Inr (), w\<lparr>cw_cache := fs\<rparr>)"
proof -
  have "CHR ''/'' \<in> set (path_push d generation)" by (cases "d = [] \<or> last d = CHR ''/''") (simp_all add: path_push_def, metis assms(1) last_in_set)
  then obtain a b where "rsplit_once (CHR ''/'') (path_push d generation) = Some (a, b)"
    using split_once_None [of "CHR ''/''" "rev (path_push d generation)"] by (auto simp: rsplit_once_def)
  moreover have "single_component ''current''" by code_simp
  ultimately show ?thesis
    using assms by (auto simp: publish_current_def small_io_def replace_file_durably_def Let_def)
qed

lemma small_refreshed:
  assumes "d \<noteq> []" and "cw_cache w = (\<lambda>_. None)" "cw_path w = []" "sm_log (cw_git w) = [None]"
  shows "\<exists>path fs rs. cache_refresh small_io d remote branch w = (Inr None, w\<lparr>cw_path := path, cw_random := rs, cw_cache := fs\<rparr>)"
proof -
  have "\<exists>path fs rs. initialize_generation small_io d w = (Inr (), w\<lparr>cw_path := path, cw_random := rs, cw_cache := fs\<rparr>)"
    using small_published [OF assms(1), of "w\<lparr>cw_path := path_push d (''objects-'' @ ci_pid small_io @ ''-'' @ cw_random w 0), cw_random := (\<lambda>n. cw_random w (Suc n))\<rparr>" "''objects-'' @ ci_pid small_io @ ''-'' @ cw_random w 0"]
    by (auto simp: initialize_generation_def Let_def act_then_def act_ret_def run_small_init small_configured small_config assms(2)
        ensure_git_success_def succeeded_def bail_if_def)
  then obtain path fs rs where i: "initialize_generation small_io d w = (Inr (), w\<lparr>cw_path := path, cw_random := rs, cw_cache := fs\<rparr>)"
    by blast
  have "ensure_initialized small_io d w = (Inr (), w\<lparr>cw_path := path, cw_random := rs, cw_cache := fs\<rparr>)"
    using assms by (simp add: ensure_initialized_def current_generation_def cache_usable_def act_then_def i small_configured)
  moreover have "lossy_trim_is [] []" by code_simp
  ultimately have "cache_refresh small_io d remote branch w = (Inr None, w\<lparr>cw_path := path, cw_random := rs, cw_cache := fs\<rparr>)"
    using assms(4)
    by (simp add: cache_refresh_def act_then_def act_ret_def fetch_carrier_branch_def Let_def fetching_def cache_transport_output_def
        cache_git_output_def small_step_def small_command_def small_fetch_def ensure_git_success_def succeeded_def bail_if_def
        small_dir_def)
  then show ?thesis by blast
qed

lemma small_world_refreshed:
  "\<exists>d path fs rs. carrier_lock (sample ()) small_io ''/r'' ''main'' small_world = (Inr d, small_world)
     \<and> cache_refresh small_io d ''/r'' ''main'' small_world
       = (Inr None, small_world\<lparr>cw_path := path, cw_random := rs, cw_cache := fs\<rparr>)"
proof -
  have "case fst (carrier_lock (sample ()) small_io ''/r'' ''main'' small_world) of Inr d \<Rightarrow> d \<noteq> [] | Inl _ \<Rightarrow> False" by code_simp
  moreover have "snd (carrier_lock (sample ()) small_io ''/r'' ''main'' small_world) = small_world"
    by (simp add: carrier_lock_def small_world_def)
  ultimately obtain d where l: "carrier_lock (sample ()) small_io ''/r'' ''main'' small_world = (Inr d, small_world)" and d: "d \<noteq> []"
    by (cases "carrier_lock (sample ()) small_io ''/r'' ''main'' small_world") (auto split: sum.splits)
  have "\<exists>path fs rs. cache_refresh small_io d ''/r'' ''main'' small_world
      = (Inr None, small_world\<lparr>cw_path := path, cw_random := rs, cw_cache := fs\<rparr>)"
    using small_refreshed [OF d, of small_world "''/r''" "''main''"] by (simp add: small_world_def)
  with l show ?thesis by blast
qed

lemma small_world_swaps:
  "\<exists>w'. carrier_compare_and_swap_head (sample ()) small_io small_storage None first_id small_world = (Inr (), w')
     \<and> sm_log (cw_git w') = [None, Some (first_id @ ''.'')]"
proof -
  obtain d path fs rs where l: "carrier_lock (sample ()) small_io ''/r'' ''main'' small_world = (Inr d, small_world)"
    and r: "cache_refresh small_io d ''/r'' ''main'' small_world
      = (Inr None, small_world\<lparr>cw_path := path, cw_random := rs, cw_cache := fs\<rparr>)" (is "_ = (_, ?w)")
    using small_world_refreshed by blast
  have w: "cw_checkout ?w = Dir []" "sm_log (cw_git ?w) = [None]" "sm_local (cw_git ?w) = None" "cw_base ?w = None"
    by (simp_all add: small_world_def)
  have s: "gs_remote small_storage = ''/r''" "gs_branch small_storage = ''main''" by (simp_all add: small_storage_def)
  from small_genesis_push [OF w(1,2) first_id_ok(2-4), of d None] show ?thesis
    unfolding carrier_compare_and_swap_head_def act_then_def act_ret_def first_id_ok(1) s
    by (simp only: prod.case sum.case l r w absent_head simp_thms if_False if_True refuse_foreign_branch_def bail_if_def)
qed


lemma small_world_synced: "fast_forward_log small_view (tips small_view small_world)" "synced small_view small_world"
  by (simp_all add: fast_forward_log_def tips_def synced_def small_world_def)

theorem carrier_swap_is_atomic_witness:
  "carrier_git_laws small_view small_io small_storage
   \<and> (\<exists>w' c. carrier_compare_and_swap_head (sample ()) small_io small_storage None first_id small_world = (Inr (), w')
        \<and> tips small_view small_world = [None] \<and> tips small_view w' = [None, Some c]
        \<and> head_named small_view (Some c) = Inr (Some first_id) \<and> cw_base w' = Some c \<and> synced small_view w')"
proof -
  obtain w' where run: "carrier_compare_and_swap_head (sample ()) small_io small_storage None first_id small_world = (Inr (), w')"
    and log: "tips small_view w' = [None, Some (first_id @ ''.'')]"
    using small_world_swaps by (auto simp: tips_def)
  have "length (tips small_view small_world) = 1" "tips small_view small_world = [None]" by (simp_all add: tips_def small_world_def)
  with carrier_swap_is_atomic [OF small_git_laws small_world_synced run] log small_git_laws run show ?thesis
    by (auto simp: less_Suc_eq)
qed

text \<open>The same publication against an observation of the empty branch.\<close>

definition small_observation :: head_observation where
  "small_observation = \<lparr>ho_head_id = None, ho_token = [], ho_head = None\<rparr>"

lemma absent_stored_head:
  "cw_checkout w = Dir [] \<Longrightarrow> sm_local (cw_git w) = None \<Longrightarrow> local_stored_head small_io small_storage w = (Inr None, w)"
  by (simp add: local_stored_head_def check_format_def absent_root_file act_then_def act_ret_def
      small_storage_def [THEN arg_cong [of _ _ gs_format_4_branch]] check_storage_format_def)

lemma small_world_observed_swaps:
  "\<exists>w'. carrier_compare_and_swap_observed_head (sample ()) small_io small_storage small_observation first_id small_world = (Inr (), w')
     \<and> sm_log (cw_git w') = [None, Some (first_id @ ''.'')]"
proof -
  obtain d path fs rs where l: "carrier_lock (sample ()) small_io ''/r'' ''main'' small_world = (Inr d, small_world)"
    and r: "cache_refresh small_io d ''/r'' ''main'' small_world
      = (Inr None, small_world\<lparr>cw_path := path, cw_random := rs, cw_cache := fs\<rparr>)" (is "_ = (_, ?w)")
    using small_world_refreshed by blast
  have w: "cw_checkout ?w = Dir []" "sm_log (cw_git ?w) = [None]" "sm_local (cw_git ?w) = None" "cw_base small_world = None"
    by (simp_all add: small_world_def)
  have s: "gs_remote small_storage = ''/r''" "gs_branch small_storage = ''main''" by (simp_all add: small_storage_def)
  have o: "ho_token small_observation = []" "ho_head small_observation = None" "ho_head_id small_observation = None"
    by (simp_all add: small_observation_def)
  from small_genesis_push [OF w(1,2) first_id_ok(2-4), of d None] show ?thesis
    unfolding carrier_compare_and_swap_observed_head_def act_then_def act_ret_def first_id_ok(1) s Let_def o
    by (simp only: prod.case sum.case option.case l r w absent_stored_head simp_thms if_False if_True refuse_foreign_branch_def bail_if_def)
qed

theorem carrier_observed_swap_is_atomic_witness:
  "\<exists>w'. carrier_compare_and_swap_observed_head (sample ()) small_io small_storage small_observation first_id small_world = (Inr (), w')
     \<and> tips small_view small_world = [None] \<and> tips small_view w' = [None, Some (first_id @ ''.'')]
     \<and> head_named small_view (Some (first_id @ ''.'')) = Inr (Some first_id) \<and> synced small_view w'"
proof -
  obtain w' where run: "carrier_compare_and_swap_observed_head (sample ()) small_io small_storage small_observation first_id small_world = (Inr (), w')"
    and log: "tips small_view w' = [None, Some (first_id @ ''.'')]"
    using small_world_observed_swaps by (auto simp: tips_def)
  have "length (tips small_view small_world) = 1" "tips small_view small_world = [None]" by (simp_all add: tips_def small_world_def)
  with carrier_observed_swap_is_atomic [OF small_git_laws small_world_synced run] log run show ?thesis
    unfolding swap_outcome_def by (auto simp: less_Suc_eq)
qed

text \<open>The head of the commit it published is read from git.\<close>

lemma small_head_read: "carrier_blob small_cat (first_id @ ''.:HEAD'') MAX_HEAD_BYTES = Inr (Within (printed first_id))"
proof -
  let ?line = "as_bytes (''b blob 65'' @ [CHR 0x0A])"
  let ?object = "first_id @ ''.:HEAD''"
  have "small_tree_of (take (length ?object - 5) ?object) = first_id" "show_nat (length (printed first_id)) = ''65''" by code_simp+
  then have answer: "small_answer ?object = (?line, printed first_id @ [0x0A], Object ''b'' BlobType (length (printed first_id)))"
    using first_id_ok(4) by (simp add: small_answer_def small_tree_def)
  have "from_utf8 ?line = Some (''b blob 65'' @ [CHR 0x0A])" by (rule from_utf8_as_bytes) simp
  moreover have "split_ascii_whitespace (''b blob 65'' @ [CHR 0x0A]) = [''b'', ''blob'', ''65'']"
    by (simp add: split_ascii_whitespace_def is_ascii_whitespace_def)
  moreover have "parse_u64 ''65'' = Some 65" by (simp add: parse_u64_def starts_with_def less_eq_char_def)
  moreover have "parse_object_type ''blob'' = Some BlobType" "\<not> list_ex is_ascii_control ?object" by code_simp+
  moreover have "?line \<noteq> []" "length (printed first_id) = 65" by (simp_all add: as_bytes_def printed_def)
  ultimately have meant: "cat_request (\<lambda>_. Inr ?line) ?object = Inr (Object ''b'' BlobType (length (printed first_id)))"
    by (simp add: cat_request_def bail_if_def)
  then have "cp_answer small_cat ?object = Inr (?line, printed first_id @ [0x0A])"
    using answer by (simp add: small_cat_def)
  moreover from this have "cat_header small_cat ?object = cat_request (\<lambda>_. Inr ?line) ?object"
    by (simp add: cat_header_def cat_request_def)
  ultimately show ?thesis using meant \<open>length (printed first_id) = 65\<close>
    by (simp add: carrier_blob_def cat_output_def cat_end_body_def cat_finish_def bail_if_def MAX_HEAD_BYTES_def small_cat_def
       split: prod.split)
qed

section \<open>One object in two pieces\<close>

definition small_id :: string where
  "small_id = s_hex_encode (pad_to 32 (rev [1, 2, 3]))"

lemma small_id_ok: "validate_id small_id = Inr ()" "hex_encode (sample ()) (sha256 (sample ()) [1, 2, 3]) = small_id"
  by (code_simp, simp add: small_id_def sample_def)

lemma pad8_0: "pad8 0 = ''00000000''"
  by code_simp

lemma small_pieces: "\<exists>st. stage_pieces [[1, 2], [3]] (stage_wrap Manifest) new_chunk_stage
    = Inr (\<lparr>sg_kind = Manifest, sg_sink = [1, 2, 3], sg_hashed = [1, 2, 3], sg_written = 3\<rparr>, st)
   \<and> ct_current st = Some ''00000000''"
  by (simp add: stage_write_all_def stage_write_def stage_wrap_def bail_if_def kind_max_bytes.simps MAX_MANIFEST_BYTES_def
   carrier_write.simps write_turn_def open_chunk_def new_chunk_stage_def write_current_def CARRIER_CHUNK_SIZE_def CARRIER_CHUNK_BYTES_def pad8_0 Let_def)

lemma publish_first: "ct_current st \<noteq> None \<Longrightarrow> \<exists>n. carrier_publish P kind i st (Dir []) = (Inr (), n)"
  by (auto simp: carrier_publish_def Let_def finish_chunk_def object_components_def act_then_def create_dir_all_def
    rename_dir_def is_dir_def set_entry_def split: option.splits)

theorem carrier_object_round_trip_witness:
  "\<exists>w'. carrier_stage_object (sample ()) Manifest small_id [[1, 2], [3]] small_world = (Inr (), w')
     \<and> carrier_open_object small_io small_storage Manifest small_id w' = (Inr [1, 2, 3], w')"
proof -
  obtain st where st: "stage_pieces [[1, 2], [3]] (stage_wrap Manifest) new_chunk_stage
    = Inr (\<lparr>sg_kind = Manifest, sg_sink = [1, 2, 3], sg_hashed = [1, 2, 3], sg_written = 3\<rparr>, st)" "ct_current st \<noteq> None"
    using small_pieces by auto
  obtain n where "carrier_publish (sample ()) Manifest small_id st (Dir []) = (Inr (), n)"
    using publish_first [OF st(2)] by blast
  then have "carrier_stage_object (sample ()) Manifest small_id [[1, 2], [3]] small_world = (Inr (), small_world\<lparr>cw_checkout := n\<rparr>)"
    (is "_ = (_, ?w)")
    unfolding carrier_stage_object_def act_then_def act_ret_def st(1)
    using small_id_ok by (simp add: stage_finish_def bail_if_def in_checkout_def small_world_def)
  then obtain w' where run: "carrier_stage_object (sample ()) Manifest small_id [[1, 2], [3]] small_world = (Inr (), w')" ..
  have "node_at (cw_checkout small_world) (object_components Manifest small_id) = None"
    by (simp add: small_world_def object_components_def)
  with carrier_object_round_trip [OF run, of small_io small_storage] run show ?thesis by auto
qed

section \<open>A history with one object\<close>

definition one_listing :: bytes where
  "one_listing = as_bytes (''100644 blob b'' @ [CHR 0x09] @ object_listing_name Manifest small_id @ ''/00000000'') @ [0]"

definition one_cat :: cat_process where
  "one_cat = \<lparr>cp_answer = (\<lambda>_. Inr (as_bytes (''b blob 3'' @ [CHR 0x0A]), [1, 2, 3, 0x0A])), cp_exit = Inr True, cp_read = (\<lambda>_ n. n)\<rparr>"

definition one_io :: "small_git carrier_io" where
  "one_io = small_io\<lparr>ci_run := (\<lambda>p w. (Inr (Some 0, if ''rev-list'' \<in> set (drop 12 (gc_args (pr_command p))) then printed ''c'' else one_listing), w)),
     ci_cat := (\<lambda>_ _. Inr one_cat)\<rparr>"

lemma one_run: "git_output one_io repo args w = (Inr (Some 0, if ''rev-list'' \<in> set args then printed ''c'' else one_listing), w)"
  by (simp add: git_output_def run_process_def one_io_def command_defs OWNED_REPOSITORY_CONFIG_def owned_work_tree_def)

lemma one_line: "from_utf8 (printed ''c'') = Some (''c'' @ [CHR 0x0A])" "text_lines (''c'' @ [CHR 0x0A]) = [''c'']"
  "split_ascii_whitespace ''c'' = [''c'']"
  by code_simp+

lemma one_history: "commit_history one_io S limit w = (Inr [''c''], w)"
  by (simp add: commit_history_def Let_def act_then_def act_ret_def one_run one_line [simplified] ensure_git_success_def succeeded_def bail_if_def)

lemma one_copies: "copy_commits one_io S [''c''] Manifest small_id w = (Inr [''c''], w)"
  by (simp add: copy_commits_def act_then_def act_ret_def one_run one_line [simplified] ensure_git_success_def succeeded_def bail_if_def small_id_ok)

lemma one_parsed: "parse_chunk_listing one_listing (object_listing_name Manifest small_id)
    = Inr [(object_listing_name Manifest small_id @ ''/00000000'', ''b'')]"
proof -
  have "parse_chunk_entries (object_listing_name Manifest small_id) (filter (\<lambda>entry. entry \<noteq> []) (split_on 0 one_listing))
      = Inr [(object_listing_name Manifest small_id @ ''/00000000'', ''b'')]" by code_simp
  then show ?thesis by (simp add: parse_chunk_listing_def MAX_CHUNKS_PER_OBJECT_def pad8_0)
qed

lemma one_entries: "carrier_chunk_entries one_io repo ''c'' Manifest small_id w
    = (Inr (ListingChunks [(object_listing_name Manifest small_id @ ''/00000000'', ''b'')]), w)"
proof -
  have "length one_listing < 200" "one_listing \<noteq> []" "''rev-list'' \<noteq> object_listing_name Manifest small_id" by code_simp+
  then have "take (MAX_CARRIER_LISTING_BYTES + 1) one_listing = one_listing" "\<not> length one_listing > MAX_CARRIER_LISTING_BYTES"
    by (simp_all add: MAX_CARRIER_LISTING_BYTES_def)
  then show ?thesis using \<open>one_listing \<noteq> []\<close> \<open>''rev-list'' \<noteq> object_listing_name Manifest small_id\<close>
    by (simp add: carrier_chunk_entries_def act_then_def act_ret_def Let_def small_id_ok one_run one_parsed ensure_git_success_def succeeded_def bail_if_def)
qed

lemma one_header: "cat_header one_cat ''b'' = Inr (Object ''b'' BlobType 3)"
proof -
  have "from_utf8 (as_bytes (''b blob 3'' @ [CHR 0x0A])) = Some (''b blob 3'' @ [CHR 0x0A])"
    by (rule from_utf8_as_bytes) simp
  moreover have "split_ascii_whitespace (''b blob 3'' @ [CHR 0x0A]) = [''b'', ''blob'', ''3'']"
    by (simp add: split_ascii_whitespace_def is_ascii_whitespace_def)
  moreover have "parse_u64 ''3'' = Some 3"
    by (simp add: parse_u64_def starts_with_def less_eq_char_def)
  moreover have "parse_object_type ''blob'' = Some BlobType" by code_simp
  moreover have "as_bytes (''b blob 3'' @ [CHR 0x0A]) \<noteq> []" by (simp add: as_bytes_def)
  ultimately show ?thesis
    by (simp add: cat_header_def cat_request_def one_cat_def bail_if_def is_ascii_control_def less_eq_char_def)
qed

lemma one_read: "read_copy_loop one_cat (restore_sink 3) (git_chunk_reader_new [(name, ''b'')]) []
     \<lparr>rs_bytes = 0, rs_current = None, rs_files = []\<rparr>
   = (Inr (Some [1, 2, 3]), \<lparr>rs_bytes = 3, rs_current = Some 0, rs_files = [(''00000000'', [1, 2, 3])]\<rparr>)"
  apply (subst read_copy_loop.simps)
  apply (simp add: git_chunk_read_def git_chunk_reader_new_def start_next_chunk_def one_header Let_def bail_if_def CARRIER_CHUNK_BYTES_def
    cat_output_def read_body_def one_cat_def [THEN arg_cong [of _ _ cp_answer]] one_cat_def [THEN arg_cong [of _ _ cp_read]]
    cat_end_body_def chunk_index_def restore_sink_def count_bytes_def pad8_0)
  apply (subst read_copy_loop.simps)
  apply (simp add: git_chunk_read_def cat_finish_def one_cat_def bail_if_def)
  done

lemma one_installed: "\<exists>n. install_object Manifest small_id files (Dir []) = (Inr (), n)"
  by (simp add: install_object_def object_directory_def small_id_ok act_then_def act_ret_def object_components_def create_dir_all_def
    rename_dir_def is_dir_def set_entry_def)

theorem restored_object_opens_witness:
  "\<exists>w'. carrier_restore_historical_object (sample ()) one_io small_storage Manifest small_id 3 small_world = (Inr True, w')
     \<and> (\<exists>d. carrier_open_object one_io small_storage Manifest small_id w' = (Inr d, w')
          \<and> hex_encode (sample ()) (sha256 (sample ()) d) = small_id \<and> length d \<le> 3)"
proof -
  have cat: "ci_cat one_io h w = Inr one_cat" for h w by (simp add: one_io_def)
  have "read_copy_at (sample ()) one_io small_storage ''c'' Manifest small_id (restore_sink 3)
      (\<lparr>rs_bytes = 0, rs_current = None, rs_files = []\<rparr>, small_world)
    = (Inr True, \<lparr>rs_bytes = 3, rs_current = Some 0, rs_files = [(''00000000'', [1, 2, 3])]\<rparr>, small_world)"
    by (simp add: read_copy_at_def one_entries cat one_read small_id_ok(2) [simplified])
  moreover obtain n where "install_object Manifest small_id [(''00000000'', [1, 2, 3])] (Dir []) = (Inr (), n)"
    using one_installed by blast
  moreover have "cw_checkout small_world = Dir []" by (simp add: small_world_def)
  ultimately have "carrier_restore_historical_object (sample ()) one_io small_storage Manifest small_id 3 small_world
      = (Inr True, small_world\<lparr>cw_checkout := n\<rparr>)"
    by (simp add: carrier_restore_historical_object_def act_then_def act_ret_def one_history one_copies bail_if_def
      MAX_RECOVERY_OUTER_COMMITS_def in_checkout_def)
  then obtain w' where run: "carrier_restore_historical_object (sample ()) one_io small_storage Manifest small_id 3 small_world = (Inr True, w')" ..
  from restored_object_opens [OF run] run show ?thesis by blast
qed

end
