(* ===== verification/Durable_Dirs.thy ===== *)
theory Durable_Dirs
  imports File_Tree Url Storage
begin

text \<open>
  \<^verbatim>\<open>src/persist.rs\<close>, durable creation of directories, and its use by \<^verbatim>\<open>FilesystemStorage::initialize\<close>. A
  path is the list of its components below the root; \<^verbatim>\<open>..\<close> is resolved by the operating system.
  The file system is a tree without symbolic links, together with the list of directories
  flushed so far; every call may also fail with a fault of the device.
\<close>

section \<open>The operating system\<close>

type_synonym os_path = "string list"

record dir_world =
  dw_tree :: node
  dw_flushed :: "os_path list"

record dir_faults =
  df_create :: "os_path \<Rightarrow> io_kind option"
  df_sync :: "os_path \<Rightarrow> io_kind option"
  df_remove :: "os_path \<Rightarrow> io_kind option"

fun os_resolve :: "node \<Rightarrow> os_path \<Rightarrow> os_path \<Rightarrow> os_path option" where
  "os_resolve n at [] = (if node_at n at = None then None else Some at)"
| "os_resolve n at (c # cs) =
     (if \<not> is_dir (node_at n at) then None
      else os_resolve n (if c = ''..'' then butlast at else at @ [c]) cs)"

definition os_exists :: "node \<Rightarrow> os_path \<Rightarrow> bool" where
  "os_exists n p \<longleftrightarrow> os_resolve n [] p \<noteq> None"

definition os_is_dir :: "node \<Rightarrow> os_path \<Rightarrow> bool" where
  "os_is_dir n p \<longleftrightarrow> (case os_resolve n [] p of None \<Rightarrow> False | Some q \<Rightarrow> is_dir (node_at n q))"

text \<open>Where a new entry of this name goes: below the directory its parent leads to.\<close>

definition os_place :: "node \<Rightarrow> os_path \<Rightarrow> os_path option" where
  "os_place n p = (if p = [] \<or> last p = ''..'' then None
     else map_option (\<lambda>q. q @ [last p]) (os_resolve n [] (butlast p)))"

definition create_dir :: "dir_faults \<Rightarrow> os_path \<Rightarrow> (unit, dir_world) act" where
  "create_dir F p w =
     (case df_create F p of
        Some k \<Rightarrow> (Inl (err (Io k)), w)
      | None \<Rightarrow>
          if os_exists (dw_tree w) p then (Inl (err (Io AlreadyExists)), w)
          else (case os_place (dw_tree w) p of
            None \<Rightarrow> (Inl (err (Io NotFound)), w)
          | Some q \<Rightarrow>
              if \<not> is_dir (node_at (dw_tree w) (butlast q)) then (Inl (err (Io OtherIo)), w)
              else (Inr (), w\<lparr>dw_tree := put_at q (Some (Dir [])) (dw_tree w)\<rparr>)))"

definition os_remove_dir :: "dir_faults \<Rightarrow> os_path \<Rightarrow> node \<Rightarrow> node" where
  "os_remove_dir F p n =
     (if df_remove F p \<noteq> None then n
      else case os_place n p of None \<Rightarrow> n | Some q \<Rightarrow> snd (remove_dir q n))"

section \<open>persist.rs\<close>

definition sync_directory :: "dir_faults \<Rightarrow> os_path \<Rightarrow> (unit, dir_world) act" where
  "sync_directory F p w =
     (if \<not> os_exists (dw_tree w) p then (Inl (err (Io NotFound)), w)
      else case df_sync F p of
        Some k \<Rightarrow> (Inl (err (Io k)), w)
      | None \<Rightarrow> (Inr (), w\<lparr>dw_flushed := dw_flushed w @ [p]\<rparr>))"

fun flush_created_directories :: "dir_faults \<Rightarrow> os_path list \<Rightarrow> os_path \<Rightarrow> (unit, dir_world) act" where
  "flush_created_directories F [] preexisting = sync_directory F preexisting"
| "flush_created_directories F (directory # missing) preexisting =
     act_then (sync_directory F directory) (\<lambda>_. flush_created_directories F missing preexisting)"

definition remove_created_directories :: "dir_faults \<Rightarrow> os_path list \<Rightarrow> node \<Rightarrow> node" where
  "remove_created_directories F created n = fold (os_remove_dir F) (rev created) n"

text \<open>The search for the deepest ancestor that exists: the missing directories, deepest first, and the
  ancestor.\<close>

function missing_directories :: "node \<Rightarrow> os_path \<Rightarrow> (os_path list \<times> os_path) result" where
  "missing_directories n cursor =
     (if os_exists n cursor then Inr ([], cursor)
      else if cursor = [] then Inl (err (Io NotFound))
      else and_then (missing_directories n (butlast cursor)) (\<lambda>(missing, preexisting).
        Inr (cursor # missing, preexisting)))"
  by pat_completeness auto

termination
  by (relation "measure (\<lambda>(n, cursor). length cursor)") auto

declare missing_directories.simps [simp del]

text \<open>The loop that creates them, shallowest first, and removes what it has created when one fails.\<close>

fun create_missing :: "dir_faults \<Rightarrow> os_path list \<Rightarrow> os_path list \<Rightarrow> (os_path list, dir_world) act" where
  "create_missing F [] created w = (Inr created, w)"
| "create_missing F (directory # rest) created w =
     (case create_dir F directory w of
        (Inr _, w') \<Rightarrow> create_missing F rest (created @ [directory]) w'
      | (Inl e, w') \<Rightarrow>
          if root e = Io AlreadyExists then create_missing F rest created w'
          else (Inl e, w'\<lparr>dw_tree := remove_created_directories F created (dw_tree w')\<rparr>))"

definition anchored :: "path_env \<Rightarrow> string \<Rightarrow> os_path result" where
  "anchored E path =
     bail_if (path = []) (Io InvalidInput) (
     if is_absolute path then Inr (path_components path)
     else and_then (pe_current_dir E) (\<lambda>dir. Inr (path_components (path_push dir path))))"

definition create_dir_all_durable :: "dir_faults \<Rightarrow> path_env \<Rightarrow> string \<Rightarrow> (unit, dir_world) act" where
  "create_dir_all_durable F E path =
     act_then (act_ret (anchored E path)) (\<lambda>cursor.
     act_then (act_get (\<lambda>w. missing_directories (dw_tree w) cursor)) (\<lambda>(missing, preexisting) w.
     if \<not> os_is_dir (dw_tree w) preexisting then (Inl (err (Io AlreadyExists)), w)
     else if missing = [] then (Inr (), w)
     else
       act_then (create_missing F (rev missing) []) (\<lambda>created w.
       case flush_created_directories F missing preexisting w of
         (Inl e, w') \<Rightarrow> (Inl e, w'\<lparr>dw_tree := remove_created_directories F created (dw_tree w')\<rparr>)
       | (Inr _, w') \<Rightarrow> (Inr (), w')) w))"

section \<open>storage.rs\<close>

definition create_kind_directory :: "dir_faults \<Rightarrow> path_env \<Rightarrow> string \<Rightarrow> object_kind \<Rightarrow> (unit, dir_world) act" where
  "create_kind_directory F E dir kind w =
     (case create_dir_all_durable F E (path_push dir (kind_directory kind)) w of
        (Inl e, w') \<Rightarrow> (Inl (context_of (Msg ''create'') e), w')
      | (Inr _, w') \<Rightarrow> (Inr (), w'))"

definition fs_initialize :: "dir_faults \<Rightarrow> path_env \<Rightarrow> string \<Rightarrow> (unit, dir_world) act" where
  "fs_initialize F E dir =
     act_then (create_kind_directory F E dir Pack) (\<lambda>_. create_kind_directory F E dir Manifest)"

section \<open>What is created is flushed\<close>

lemma missing_absent: "missing_directories n p = Inr (missing, pre) \<Longrightarrow> d \<in> set missing \<Longrightarrow> \<not> os_exists n d"
proof (induction n p arbitrary: missing rule: missing_directories.induct)
  case (1 n p)
  from 1(2) show ?case
    using 1(1,3) by (subst (asm) missing_directories.simps) (auto simp: and_then_eq_Inr split: if_splits)
qed

lemma missing_parents: "missing_directories n p = Inr (missing, pre) \<Longrightarrow>
    os_exists n pre \<and> hd (missing @ [pre]) = p \<and> (\<forall>d \<in> set missing. d \<noteq> [] \<and> butlast d \<in> set (missing @ [pre]))"
proof (induction n p arbitrary: missing rule: missing_directories.induct)
  case (1 n p)
  show ?case
  proof (cases "os_exists n p")
    case True
    then show ?thesis using 1(2) by (subst (asm) missing_directories.simps) auto
  next
    case False
    then obtain rest where r: "p \<noteq> []" "missing_directories n (butlast p) = Inr (rest, pre)" "missing = p # rest"
      using 1(2) by (subst (asm) missing_directories.simps) (auto simp: and_then_eq_Inr split: if_splits)
    from 1(1) [OF False r(1,2)] have "os_exists n pre" "hd (rest @ [pre]) = butlast p"
      "\<forall>d \<in> set rest. d \<noteq> [] \<and> butlast d \<in> set (rest @ [pre])" by auto
    moreover have "hd (rest @ [pre]) \<in> set (rest @ [pre])" by (rule hd_in_set) simp
    ultimately show ?thesis using r by auto
  qed
qed

lemma flush_all:
  assumes "flush_created_directories F missing pre w = (r, w')"
  shows "dw_tree w' = dw_tree w"
    and "r = Inr () \<Longrightarrow> dw_flushed w' = dw_flushed w @ missing @ [pre] \<and> (\<forall>d \<in> set missing. os_exists (dw_tree w) d)"
  using assms
proof (induction F missing pre arbitrary: w rule: flush_created_directories.induct)
  case (1 F pre)
  { case 1 then show ?case by (auto simp: sync_directory_def split: if_splits option.splits) }
  { case 2 then show ?case by (auto simp: sync_directory_def split: if_splits option.splits) }
next
  case (2 F d missing pre)
  { case 1
    then show ?case using "2.IH"(1)
      by (cases "sync_directory F d w") (auto simp: act_then_def sync_directory_def split: if_splits option.splits sum.splits) }
  { case 2
    then obtain w1 where s: "sync_directory F d w = (Inr (), w1)" "flush_created_directories F missing pre w1 = (Inr (), w')"
      by (auto simp: act_then_Inr)
    then have "w1 = w\<lparr>dw_flushed := dw_flushed w @ [d]\<rparr>" "os_exists (dw_tree w) d"
      by (auto simp: sync_directory_def split: if_splits option.splits)
    then show ?case using "2.IH"(2) [of w1] 2(1) s(2) by simp }
qed

section \<open>What was created is removed on failure\<close>

lemma os_resolve_snoc: "os_resolve n at (p @ [c]) = (case os_resolve n at p of None \<Rightarrow> None | Some q \<Rightarrow> os_resolve n q [c])"
  by (induction p arbitrary: at) (auto simp: is_dir_def split: option.splits)

lemma update_fresh_delete: "map_of es c = None \<Longrightarrow> AList.delete c (AList.update c x es) = es"
  by (induction es) (auto split: if_splits)

lemma is_dir_Some: "is_dir x \<Longrightarrow> x \<noteq> None"
  by (cases x) (simp_all add: is_dir_def)

lemma update_known: "map_of es c = Some m \<Longrightarrow> AList.update c m es = es"
  by (induction es) (auto split: if_splits)

lemma put_at_undo:
  assumes "is_dir (node_at n (butlast q))" and "q \<noteq> []" and "node_at n q = None"
  shows "put_at q None (put_at q (Some x) n) = n"
  using assms
proof (induction q "Some x" n rule: put_at.induct)
  case (1 c es)
  then show ?case by (auto simp: set_entry_def update_fresh_delete split: option.splits)
next
  case (2 c d cs es)
  then obtain m where m: "map_of es c = Some m" by (cases "map_of es c") (auto simp: is_dir_def)
  then have "put_at (d # cs) None (put_at (d # cs) (Some x) m) = m" using 2 by (simp split: if_splits)
  moreover have "set_entry c (Some m) (set_entry c (Some y) es) = es" for y using m by (simp add: set_entry_def update_known)
  ultimately show ?case using m by simp
qed (simp_all add: not_dir_path is_dir_def [of None])

text \<open>A new entry changes no path that led somewhere.\<close>

lemma put_new_keeps:
  assumes new: "node_at n (q @ [c]) = None" "is_dir (node_at n q)" and at: "node_at n at \<noteq> None"
  shows "node_at (put_at (q @ [c]) (Some x) n) at \<noteq> None"
    and "is_dir (node_at n at) \<Longrightarrow> is_dir (node_at (put_at (q @ [c]) (Some x) n) at)"
proof -
  have below: "\<nexists>r. at = (q @ [c]) @ r"
  proof
    assume "\<exists>r. at = (q @ [c]) @ r"
    then obtain r where "at = (q @ [c]) @ r" ..
    then show False using at new(1) node_at_append [of n "q @ [c]" r] by simp
  qed
  have "(is_dir (node_at n at) \<longrightarrow> is_dir (node_at (put_at (q @ [c]) (Some x) n) at))
      \<and> node_at (put_at (q @ [c]) (Some x) n) at \<noteq> None"
  proof (cases "\<exists>r. q @ [c] = at @ r")
    case True
    then obtain r where r: "q @ [c] = at @ r" by blast
    have "r \<noteq> []" using r below by auto
    then have "q = at @ butlast r" using r by (metis butlast_append butlast_snoc)
    then have "is_dir (node_at n at)" using new(2) is_dir_prefix by metis
    then have "is_dir (node_at (put_at (q @ [c]) (Some x) n) at)" using is_dir_put_above [OF _ \<open>r \<noteq> []\<close>] r by metis
    then show ?thesis using is_dir_Some by blast
  next
    case False
    then have "node_at (put_at (q @ [c]) (Some x) n) at = node_at n at" using below by (metis node_at_put_other)
    then show ?thesis using at by simp
  qed
  then show "node_at (put_at (q @ [c]) (Some x) n) at \<noteq> None"
    and "is_dir (node_at n at) \<Longrightarrow> is_dir (node_at (put_at (q @ [c]) (Some x) n) at)" by blast+
qed

lemma resolve_after_new:
  assumes new: "node_at n (q @ [c]) = None" "is_dir (node_at n q)"
  shows "os_resolve n at p = Some r \<Longrightarrow> os_resolve (put_at (q @ [c]) (Some x) n) at p = Some r"
proof (induction p arbitrary: at)
  case Nil
  then show ?case using put_new_keeps(1) [OF new] by (auto split: if_splits)
next
  case (Cons d p)
  then have dir: "is_dir (node_at n at)" by (auto split: if_splits)
  then have "node_at n at \<noteq> None" by (rule is_dir_Some)
  then have "is_dir (node_at (put_at (q @ [c]) (Some x) n) at)" by (rule put_new_keeps(2) [OF new _ dir])
  then show ?case using Cons by (auto split: if_splits)
qed

lemma create_dir_undo:
  assumes "create_dir F d w = (Inr (), w1)" and "df_remove F d = None"
  shows "os_remove_dir F d (dw_tree w1) = dw_tree w"
proof -
  let ?n = "dw_tree w"
  from assms(1) obtain q where d: "d \<noteq> []" "last d \<noteq> ''..''" and q: "os_resolve ?n [] (butlast d) = Some q"
    and dir: "is_dir (node_at ?n q)" and absent: "\<not> os_exists ?n d"
    and w1: "w1 = w\<lparr>dw_tree := put_at (q @ [last d]) (Some (Dir [])) ?n\<rparr>"
    by (auto simp: create_dir_def os_place_def split: option.splits if_splits)
  have "os_resolve ?n [] d = os_resolve ?n q [last d]"
    using os_resolve_snoc [of ?n "[]" "butlast d" "last d"] d(1) q by simp
  then have new: "node_at ?n (q @ [last d]) = None"
    using absent dir d(2) by (auto simp: os_exists_def split: if_splits)
  have "os_place (dw_tree w1) d = Some (q @ [last d])"
    using resolve_after_new [OF new dir q] d by (simp add: os_place_def w1)
  moreover have "node_at (dw_tree w1) (q @ [last d]) = Some (Dir [])"
    using node_at_put_at [of ?n "q @ [last d]"] dir by (simp add: w1)
  moreover have "put_at (q @ [last d]) None (dw_tree w1) = ?n"
    using put_at_undo [of ?n "q @ [last d]"] dir new by (simp add: w1)
  ultimately show ?thesis using assms(2) by (simp add: os_remove_dir_def remove_dir_def)
qed

lemma create_dir_failed: "create_dir F d w = (Inl e, w1) \<Longrightarrow> w1 = w"
  by (auto simp: create_dir_def split: option.splits if_splits)

lemma create_missing_flushed: "create_missing F ds created w = (r, w') \<Longrightarrow> dw_flushed w' = dw_flushed w"
proof (induction ds arbitrary: created w)
  case (Cons d ds)
  have "dw_flushed (snd (create_dir F d w)) = dw_flushed w"
    by (auto simp: create_dir_def split: option.split)
  then show ?case using Cons
    by (cases "create_dir F d w"; cases "fst (create_dir F d w)") (auto split: if_splits)
qed auto

lemma create_missing_undo:
  assumes "\<forall>d. df_remove F d = None" and "create_missing F ds created w = (r, w')"
    and "remove_created_directories F created (dw_tree w) = n0"
  shows "case r of Inl _ \<Rightarrow> dw_tree w' = n0 | Inr created' \<Rightarrow> remove_created_directories F created' (dw_tree w') = n0"
  using assms(2,3)
proof (induction ds arbitrary: created w)
  case (Cons d ds)
  obtain r1 w1 where c: "create_dir F d w = (r1, w1)" by (cases "create_dir F d w")
  show ?case
  proof (cases r1)
    case (Inl e)
    then show ?thesis using Cons c create_dir_failed [of F d w] by (auto split: if_splits)
  next
    case (Inr u)
    then have undo: "os_remove_dir F d (dw_tree w1) = dw_tree w"
      using create_dir_undo [of F d w w1] c assms(1) by auto
    then have "remove_created_directories F (created @ [d]) (dw_tree w1) = n0"
      using Cons.prems(2) by (simp add: remove_created_directories_def)
    then show ?thesis using Cons.IH [of "created @ [d]" w1] Cons.prems(1) c Inr by simp
  qed
qed auto

text \<open>The stages of the whole call.\<close>

lemma create_dir_all_durable_cases:
  assumes "create_dir_all_durable F E path w = (r, w')"
  obtains e where "r = Inl e" and "w' = w"
  | cursor pre where "anchored E path = Inr cursor" and "missing_directories (dw_tree w) cursor = Inr ([], pre)"
      and "r = Inr ()" and "w' = w"
  | missing e where "create_missing F (rev missing) [] w = (Inl e, w')" and "r = Inl e"
  | missing pre created w1 e w2 where "create_missing F (rev missing) [] w = (Inr created, w1)"
      and "flush_created_directories F missing pre w1 = (Inl e, w2)" and "r = Inl e"
      and "w' = w2\<lparr>dw_tree := remove_created_directories F created (dw_tree w2)\<rparr>"
  | cursor missing pre created w1 where "anchored E path = Inr cursor"
      and "missing_directories (dw_tree w) cursor = Inr (missing, pre)" and "missing \<noteq> []"
      and "create_missing F (rev missing) [] w = (Inr created, w1)"
      and "flush_created_directories F missing pre w1 = (Inr (), w')" and "r = Inr ()"
proof (cases "anchored E path")
  case (Inl e)
  then show thesis using assms that(1) by (auto simp: create_dir_all_durable_def act_then_def act_ret_def)
next
  case (Inr cursor)
  note a = this
  show thesis
  proof (cases "missing_directories (dw_tree w) cursor")
    case (Inl e)
    then show thesis using a assms that(1) by (auto simp: create_dir_all_durable_def act_then_def act_ret_def act_get_def)
  next
    case (Inr m)
    obtain missing pre where m: "m = (missing, pre)" by (cases m)
    obtain r1 w1 where c: "create_missing F (rev missing) [] w = (r1, w1)" by (cases "create_missing F (rev missing) [] w")
    obtain r2 w2 where f: "flush_created_directories F missing pre w1 = (r2, w2)" by (cases "flush_created_directories F missing pre w1")
    have run: "create_dir_all_durable F E path w =
        (if \<not> os_is_dir (dw_tree w) pre then (Inl (err (Io AlreadyExists)), w)
         else if missing = [] then (Inr (), w)
         else case r1 of
           Inl e \<Rightarrow> (Inl e, w1)
         | Inr created \<Rightarrow> (case r2 of
             Inl e \<Rightarrow> (Inl e, w2\<lparr>dw_tree := remove_created_directories F created (dw_tree w2)\<rparr>)
           | Inr _ \<Rightarrow> (Inr (), w2)))"
      using a Inr m c f by (simp add: create_dir_all_durable_def act_then_def act_ret_def act_get_def split: sum.split)
    consider "\<not> os_is_dir (dw_tree w) pre" | "os_is_dir (dw_tree w) pre" "missing = []"
      | "os_is_dir (dw_tree w) pre" "missing \<noteq> []" by blast
    then show thesis
    proof cases
      case 1
      then show thesis using assms run by (intro that(1) [of "err (Io AlreadyExists)"]) auto
    next
      case 2
      then show thesis using assms run a Inr m by (intro that(2)) simp_all
    next
      case 3
      note here = this
      show thesis
      proof (cases r1)
        case (Inl e)
        then show thesis using assms run here c by (intro that(3) [of missing e]) auto
      next
        case (Inr created)
        note made = this
        show thesis
        proof (cases r2)
          case (Inl e)
          then show thesis using assms run here c f made by (intro that(4) [of missing created w1 pre e w2]) auto
        next
          case (Inr u)
          then have out: "r = Inr ()" "w' = w2" using assms run here made by auto
          show thesis using that(5) [OF a \<open>missing_directories (dw_tree w) cursor = Inr m\<close> [unfolded m] here(2)]
              c f made Inr out by (cases u) blast
        qed
      qed
    qed
  qed
qed

text \<open>When the call returns, the directory exists, and every directory that did not exist before exists and
  was entered into a directory that was flushed afterwards.\<close>

theorem durable_directory_is_flushed:
  assumes "create_dir_all_durable F E path w = (Inr (), w')"
  shows "\<exists>cursor missing pre. anchored E path = Inr cursor \<and> missing_directories (dw_tree w) cursor = Inr (missing, pre)
    \<and> os_exists (dw_tree w') cursor
    \<and> (\<forall>d \<in> set missing. \<not> os_exists (dw_tree w) d \<and> os_exists (dw_tree w') d
         \<and> butlast d \<in> set (drop (length (dw_flushed w)) (dw_flushed w')))"
  using assms
proof (cases rule: create_dir_all_durable_cases)
  case (2 cursor pre)
  then show ?thesis using missing_parents [OF 2(2)] by auto
next
  case (5 cursor missing pre created w1)
  note flushed = flush_all [OF 5(5)] and log = create_missing_flushed [OF 5(4)]
  have "cursor \<in> set missing" using missing_parents [OF 5(2)] 5(3) by (cases missing) auto
  then show ?thesis
    using 5(1,2) missing_parents [OF 5(2)] missing_absent [OF 5(2)] flushed log by auto
qed simp_all

text \<open>When the call fails, and what it created can be removed, the tree is as it was: a retry finds the same
  directories missing and flushes their ancestor again.\<close>

theorem failed_creation_leaves_no_directory:
  assumes "create_dir_all_durable F E path w = (Inl e, w')" and removable: "\<forall>d. df_remove F d = None"
  shows "dw_tree w' = dw_tree w"
  using assms(1)
proof (cases rule: create_dir_all_durable_cases)
  case (3 missing e)
  then show ?thesis using create_missing_undo [OF removable 3(1)] by (simp add: remove_created_directories_def)
next
  case (4 missing pre created w1 e w2)
  then show ?thesis using create_missing_undo [OF removable 4(1)] flush_all(1) [OF 4(2)]
    by (simp add: remove_created_directories_def [of F "[]"])
qed simp_all

end
