(* ===== verification/Spec2Isabelle.thy ===== *)
theory Spec2Isabelle
  imports Sample_Recovery Sample_Helper Sample_Carrier Durable_Dirs
begin

text \<open>
  A verification development of git-remote-e2ee, a Git remote helper and administration tool
  that keeps a Git repository on untrusted storage. Devices hold keys. A signed policy lists
  the devices and their roles; a chain of encrypted, signed manifests lists refs and packs; a
  storage keeps immutable objects and one mutable head; each machine keeps a continuity floor,
  the newest head it has accepted. The development models the Rust sources under
  \<^verbatim>\<open>src/src/\<close> function by function and proves what makes the parts and their composition correct.

  \<^bold>\<open>How the code is modelled.\<close> Rust strings are lists of characters that stand for bytes (UTF-8 is
  decoded where the code decodes it), \<^verbatim>\<open>Vec<u8>\<close> is a list of 8-bit words, \<^verbatim>\<open>u32\<close> and \<^verbatim>\<open>u64\<close> are
  words with the code's checked additions written out, \<^verbatim>\<open>BTreeMap\<close> is a sorted association list,
  \<^verbatim>\<open>HashSet\<close> a set. \<^verbatim>\<open>Result\<close> is a sum whose left side is an \<^verbatim>\<open>anyhow::Error\<close>: a root cause
  under layers of context, so that \<^verbatim>\<open>is\<close>, \<^verbatim>\<open>downcast_ref\<close> and \<^verbatim>\<open>chain()\<close> can be told apart.
  Messages keep the code's text without the values interpolated for display. Stateful
  operations are actions: functions from a state to a result and a state, where a failing step
  keeps the state it left. Loops are recursive functions with termination proofs: the walk of
  a chain ends because generations decrease, peeling a tag because there are finitely many
  object names; no definition uses fuel.

  \<^bold>\<open>What is a parameter.\<close> Cryptographic primitives, JSON, Base64 and hexadecimal codecs, and the
  random values drawn are fields of the record \<open>prims\<close> and its extensions; git processes are the
  record \<open>git_ops\<close> over an abstract Git state, and for the carrier the record \<open>carrier_io\<close>, which runs a
  command the code has built; faults of the file system are an argument. Laws the
  properties need of them (a codec decodes what it encoded, an AEAD opens what it sealed, a
  signature verifies; a push only fast-forwards, a fetch answers with a tip the branch had) are
  named hypotheses such as \<open>library_laws\<close> and \<open>carrier_git_laws\<close>; \<open>Sample_Codec\<close>, \<open>Sample\<close>,
  \<open>Sample_Chain\<close>, \<open>Sample_Repository\<close> and \<open>Sample_Carrier\<close> build concrete ones that satisfy them.

  \<^bold>\<open>The theories.\<close>
  \<^item> \<open>Prelude\<close>, \<open>Rust_Strings\<close>, \<open>BTree_Map\<close>, \<open>Effects\<close>: errors and results, checked arithmetic,
    little-endian bytes; \<^verbatim>\<open>str\<close> functions and UTF-8; ordered maps with the locale \<open>ordered_map\<close>;
    actions.
  \<^item> \<open>Refname\<close> (\<^verbatim>\<open>refname.rs\<close>, \<^verbatim>\<open>InnerRefKind\<close> of \<^verbatim>\<open>git.rs\<close>): the byte loop that validates ref names is
    equivalent to the rules of git-check-ref-format.
  \<^item> \<open>Crypto\<close>, \<open>Pack_Stream\<close> (\<^verbatim>\<open>crypto.rs\<close>): key files, device identities, domain-separated
    signatures, generation-key wrapping, commitments, subkeys, symmetric envelopes; the
    segmented encryption of packs, its round trip and its exactness.
  \<^item> \<open>Policy\<close> (\<^verbatim>\<open>policy.rs\<close>): device records, creation, parsing, genesis and successor validation;
    revocation is permanent along every chain of accepted policies.
  \<^item> \<open>Manifest\<close>, \<open>Manifest_Facts\<close>, \<open>Manifest_Links\<close> (\<^verbatim>\<open>manifest.rs\<close>): sealing, peeking, opening,
    verifying, padding and the envelope audit; transitions; predecessor links; formats.
  \<^item> \<open>Chain\<close>, \<open>Chain_Facts\<close>, \<open>Chain_Build\<close> (\<^verbatim>\<open>repository.rs\<close>: \<^verbatim>\<open>chain_from\<close>, \<^verbatim>\<open>verify_opened_chain\<close>,
    the recovery budget, error classes): an accepted chain satisfies the inductive
    specification \<open>authentic_chain\<close>, and a chain extended by what the code seals is accepted.
  \<^item> \<open>Continuity\<close> (\<^verbatim>\<open>continuity.rs\<close>, \<^verbatim>\<open>validate_pinned_head\<close>): the floor is monotone and an accepted
    chain extends it.
  \<^item> \<open>Persist\<close>, \<open>Durable_Dirs\<close> (\<^verbatim>\<open>persist.rs\<close>, \<^verbatim>\<open>bounded.rs\<close>): atomic replacement of a file under faults,
    bounded reads; directories that are created are entered into flushed directories, and
    a failed call removes what it created.
  \<^item> \<open>Storage\<close>, \<open>Storage_Facts\<close>, \<open>Storage_Trait\<close> (\<^verbatim>\<open>storage.rs\<close>): the \<^verbatim>\<open>Storage\<close> trait as a record
    of operations and the directory backend; the locales \<open>head_store\<close> and \<open>object_store\<close> state
    the contracts, and the directory implements them.
  \<^item> \<open>File_Tree\<close>, \<open>Carrier_Chunks\<close>, \<open>Carrier_Git\<close>, \<open>Carrier\<close>, \<open>Carrier_Storage\<close> (\<^verbatim>\<open>storage.rs\<close>:
    \<^verbatim>\<open>GitStorage\<close>, \<^verbatim>\<open>CarrierCache\<close>): the storage on a branch of a Git remote. The checkout is a tree of
    files, objects are directories of chunks, and the cache, the commits and the push are git
    processes. \<open>Carrier_Chunk_Facts\<close> and \<open>Carrier_Objects\<close> show that objects are read back as they
    were stored or restored, and that the checkout implements \<open>object_store\<close>; \<open>Carrier_Laws\<close> and \<open>Carrier_Swap\<close> show that a compare-and-swap is one
    step of the sequence of tips of the remote branch, whatever other clients do between the
    processes, and that a failed one leaves the checkout at its commit.
  \<^item> \<open>Git\<close> (\<^verbatim>\<open>git.rs\<close>, \<^verbatim>\<open>catfile.rs\<close>): object types, tags, branch targets, ancestry, connectivity,
    packs and refs computed from the answers of git.
  \<^item> \<open>Repository\<close>, \<open>Repository_Facts\<close>, \<open>Publication\<close>, \<open>Push_Facts\<close>, \<open>Initialization\<close>
    (\<^verbatim>\<open>repository.rs\<close>: \<^verbatim>\<open>EncryptedRepository\<close>): initialization, membership, push, fetch, observation,
    verification. The locale \<open>repository_storage\<close> is what these rely on of a storage. The
    lemmas show what an operation that returned has published, as every reader then reads it.
  \<^item> \<open>Recovery\<close>, \<open>Recovery_Facts\<close>, \<open>Recovery_Effect\<close> (\<^verbatim>\<open>recover\<close>): replacing a head that is proven
    invalid; what it never does, and what it publishes.
  \<^item> \<open>Url\<close>, \<open>Gitcmd\<close> (\<^verbatim>\<open>url.rs\<close>, \<^verbatim>\<open>gitcmd.rs\<close>): storage URLs and the paths they rest on; the
    commands handed to git, their environment, and the discovery of the user's repository. A
    stored URL means the same from every directory; a command is bound to its repository.
  \<^item> \<open>Remote_Helper\<close>, \<open>Remote_Helper_Facts\<close> (\<^verbatim>\<open>bin/git-remote-e2ee.rs\<close>): the protocol loop with its
    commands, lists, fetches and push batches. A push batch is answered by framed lines, one for
    each ref, and an \<^verbatim>\<open>ok\<close> line is only sent for a ref that was published.
  \<^item> \<open>Command_Line\<close>, \<open>Command_Line_Facts\<close> (\<^verbatim>\<open>main.rs\<close>): the commands of the administration tool.
    A key that \<^verbatim>\<open>init\<close> created is kept whenever the storage may have been initialized with it.
  \<^item> \<open>Sample\<close> and the other theories of that prefix: concrete primitives and runs, and the closed
    instances of the properties.

  \<^bold>\<open>Bounds.\<close> The limits of the code (envelopes, object sizes, candidates, budgets, log entries) are
  the code's own constants.

  \<^bold>\<open>Not modelled.\<close> Timing and tracing; messages on standard error and failing writes to standard
  output; the parsing of arguments by clap; the spawning of processes; file locks, which are
  represented by each operation being one action on the machine's files; symbolic links in the
  paths of created directories; the creation of directories by callers of \<^verbatim>\<open>create_dir_all_durable\<close>
  other than the directory backend, since a file of the model needs no directory; I/O faults
  on the files of the carrier's checkout, whose staging directories are values of the model;
  what git writes past the limit at which the code stops reading a listing; code for Windows.
\<close>

end
